(* ===== verification/Prelude.thy ===== *)
theory Prelude
  imports Main "HOL-Library.Word" "HOL-Library.Monad_Syntax" "HOL-Library.Multiset"
begin

text \<open>
  Shared vocabulary of the development: the machine types of the agent on its only supported
  platform (Linux x64), bounds-checked access to the C arrays, and the generic lemmas about
  lists, options and words that the component theories use.

  A C array of fixed size is a list. An access is bounds-checked by \<open>rd\<close> and \<open>wr\<close>: the value
  \<open>None\<close> stands for the undefined behaviour of an access out of range, so that a theorem that an
  operation returns \<open>Some\<close> also states that it stays within its arrays.
\<close>

unbundle bit_operations_syntax

section \<open>Machine types\<close>

type_synonym u64 = "64 word"
type_synonym u16 = "16 word"

text \<open>The C types \<open>int\<close> and \<open>jint\<close>: 32 bits, read as two's complement with \<open>sint\<close>.\<close>
type_synonym jint = "32 word"

text \<open>A pointer of the x64 platform; \<open>NULL\<close> is 0.\<close>
type_synonym ptr = "64 word"
type_synonym jmethodID = "64 word"

abbreviation NULL :: ptr where "NULL \<equiv> 0"

text \<open>The number of rounds of \<open>for (int i = 0; i < n; i++)\<close>: none when \<open>n\<close> is negative.\<close>
definition rounds :: "jint \<Rightarrow> nat" where
  "rounds n = nat (sint n)"

section \<open>Bounds-checked arrays\<close>

definition rd :: "'a list \<Rightarrow> nat \<Rightarrow> 'a option" where
  "rd xs i = (if i < length xs then Some (xs ! i) else None)"

definition wr :: "'a list \<Rightarrow> nat \<Rightarrow> 'a \<Rightarrow> 'a list option" where
  "wr xs i x = (if i < length xs then Some (xs[i := x]) else None)"

named_theorems array_simps

lemma rd_inside [array_simps]: "i < length xs \<Longrightarrow> rd xs i = Some (xs ! i)"
  by (simp add: rd_def)

lemma wr_inside [array_simps]: "i < length xs \<Longrightarrow> wr xs i x = Some (xs[i := x])"
  by (simp add: wr_def)

lemma rd_Some_iff: "rd xs i = Some x \<longleftrightarrow> i < length xs \<and> xs ! i = x"
  by (auto simp: rd_def)

lemma wr_Some_iff: "wr xs i x = Some ys \<longleftrightarrow> i < length xs \<and> ys = xs[i := x]"
  by (auto simp: wr_def)

lemma rd_None_iff [simp]: "rd xs i = None \<longleftrightarrow> length xs \<le> i"
  by (simp add: rd_def not_less)

section \<open>Words and lists\<close>

lemma rounds_0 [simp]: "rounds 0 = 0"
  by (simp add: rounds_def)

lemma rounds_pos: "0 < sint n \<Longrightarrow> 0 < rounds n"
  by (simp add: rounds_def)

lemma of_nat_word64_inj:
  "a < 2 ^ 64 \<Longrightarrow> b < 2 ^ 64 \<Longrightarrow> (of_nat a :: 64 word) = of_nat b \<longleftrightarrow> a = b"
  by (simp add: word_of_nat_eq_iff take_bit_nat_eq_self)

lemma sint_eq_0: "sint w = 0 \<longleftrightarrow> w = 0" for w :: jint
  by (metis signed_0 signed_word_eqI)

lemma sint_add_one:
  fixes c :: jint
  assumes "sint c < 2 ^ 31 - 1"
  shows "sint (c + 1) = sint c + 1"
proof -
  have "- (2 ^ 31) \<le> sint c"
    using sint_ge [of c] by simp
  with assms show ?thesis
    by (simp add: signed_take_bit_int_eq_self sint_word_ariths(1))
qed

lemma sum_list_map_update:
  fixes f :: "'a \<Rightarrow> 'b::ab_group_add"
  shows "i < length xs \<Longrightarrow> sum_list (map f (xs[i := x])) = sum_list (map f xs) - f (xs ! i) + f x"
proof (induction xs arbitrary: i)
  case (Cons a xs)
  then show ?case by (cases i) (simp_all add: algebra_simps)
qed simp

lemma sum_list_map_0:
  "\<forall>x\<in>set xs. f x = 0 \<Longrightarrow> sum_list (map f xs) = (0::'b::monoid_add)"
  by (induction xs) simp_all

lemma sum_mset_filter:
  "\<forall>x. \<not> P x \<longrightarrow> f x = 0 \<Longrightarrow>
   \<Sum>\<^sub># (image_mset f (filter_mset P M)) = \<Sum>\<^sub># (image_mset f M)"
  by (induction M) auto

lemma sum_list_mset: "sum_list (map f xs) = \<Sum>\<^sub># (image_mset f (mset xs))"
  by (induction xs) simp_all

lemma sum_list_map_single:
  fixes f :: "'a \<Rightarrow> 'b::comm_monoid_add"
  assumes "i < length xs" and "\<And>j. j < length xs \<Longrightarrow> j \<noteq> i \<Longrightarrow> f (xs ! j) = 0"
  shows "sum_list (map f xs) = f (xs ! i)"
proof -
  have "sum_list (map f xs) = (\<Sum>j<length xs. f (xs ! j))"
    by (simp add: sum_list_sum_nth atLeast0LessThan)
  also have "\<dots> = f (xs ! i)"
    using assms by (subst sum.remove [of _ i]) auto
  finally show ?thesis .
qed

lemma length_filter_update:
  "length (filter P (xs[i := x]))
     \<le> length (filter P xs) + (if i < length xs \<and> P (xs ! i) then 0 else 1)"
proof (induction xs arbitrary: i)
  case (Cons a xs)
  show ?case
  proof (cases i)
    case (Suc j)
    with Cons.IH [of j] show ?thesis by (auto split: if_splits)
  qed auto
qed simp

section \<open>Characters\<close>

text \<open>\<open>isspace\<close> and the decimal digits, in the C locale.\<close>

definition is_c_space :: "char \<Rightarrow> bool" where
  "is_c_space c \<longleftrightarrow> (of_char c :: nat) \<in> {9, 10, 11, 12, 13, 32}"

definition is_c_digit :: "char \<Rightarrow> bool" where
  "is_c_digit c \<longleftrightarrow> (48 :: nat) \<le> of_char c \<and> of_char c \<le> (57 :: nat)"

section \<open>Decimal notation\<close>

text \<open>The decimal notation of a number.\<close>

fun decimal :: "nat \<Rightarrow> string" where
  "decimal n = (if n < 10 then [char_of (48 + n)] else decimal (n div 10) @ [char_of (48 + n mod 10)])"

declare decimal.simps [simp del]

lemma decimal_chars: "c \<in> set (decimal n) \<Longrightarrow> \<exists>d<10. c = char_of (48 + d :: nat)"
proof (induction n rule: decimal.induct)
  case (1 n)
  show ?case
  proof (cases "n < 10")
    case True
    with 1 show ?thesis by (subst (asm) decimal.simps) auto
  next
    case False
    then have "c \<in> set (decimal (n div 10)) \<or> c = char_of (48 + n mod 10)"
      using 1(2) by (subst (asm) decimal.simps) auto
    then show ?thesis
      using 1(1) [OF False] by (metis mod_less_divisor zero_less_numeral)
  qed
qed

lemma decimal_nonempty: "decimal n \<noteq> []"
  by (subst decimal.simps) simp

end
