(* ===== verification/Samples.thy ===== *)
theory Samples
  imports Prelude
begin

text \<open>
  The data of the sampler (\<open>profiler.h\<close>): frames and traces as \<open>AsyncGetCallTrace\<close> fills them,
  the two kinds of table entry, their comparators, \<open>CallTraceSample::assign\<close> and the two hash
  functions of \<open>profiler.cpp\<close>. The main fact is that \<open>hashMethod\<close> is injective.
\<close>

section \<open>Constants and data\<close>

definition MAX_FRAMES :: nat where "MAX_FRAMES = 64"

definition MAX_CALLTRACES :: nat where "MAX_CALLTRACES = 32768"

definition DEFAULT_INTERVAL :: int where "DEFAULT_INTERVAL = 10"

record ASGCT_CallFrame =
  bci :: jint
  method_id :: jmethodID

record ASGCT_CallTrace =
  env :: ptr
  num_frames :: jint
  frames :: "ASGCT_CallFrame list"

record CallTraceSample =
  ct_call_count :: jint
  ct_num_frames :: jint
  ct_frames :: "ASGCT_CallFrame list"

record MethodSample =
  ms_call_count :: jint
  ms_method :: jmethodID

text \<open>The comparators subtract in \<open>int\<close>; larger counts come first.\<close>

definition CallTraceSample_comparator :: "CallTraceSample \<Rightarrow> CallTraceSample \<Rightarrow> jint" where
  "CallTraceSample_comparator s1 s2 = ct_call_count s2 - ct_call_count s1"

definition MethodSample_comparator :: "MethodSample \<Rightarrow> MethodSample \<Rightarrow> jint" where
  "MethodSample_comparator s1 s2 = ms_call_count s2 - ms_call_count s1"

lemma sint_diff_counts:
  fixes a b :: jint
  assumes "0 \<le> sint a" "0 \<le> sint b"
  shows "sint (a - b) = sint a - sint b"
proof -
  have "sint a < 2 ^ 31" "sint b < 2 ^ 31"
    using sint_lt [of a] sint_lt [of b] by simp_all
  with assms show ?thesis
    by (simp add: sint_word_ariths(2) signed_take_bit_int_eq_self)
qed

section \<open>Copying a trace into a table entry\<close>

text \<open>\<open>copy_frames src k i dst\<close> is the loop of \<open>assign\<close> with \<open>k\<close> rounds left, at index \<open>i\<close>.\<close>

fun copy_frames :: "ASGCT_CallFrame list \<Rightarrow> nat \<Rightarrow> nat \<Rightarrow> ASGCT_CallFrame list
    \<Rightarrow> ASGCT_CallFrame list option" where
  "copy_frames src 0 i dst = Some dst"
| "copy_frames src (Suc k) i dst =
     do { f \<leftarrow> rd src i; dst' \<leftarrow> wr dst i f; copy_frames src k (Suc i) dst' }"

definition assign :: "ASGCT_CallTrace \<Rightarrow> CallTraceSample \<Rightarrow> CallTraceSample option" where
  "assign trace s =
     do { fs \<leftarrow> copy_frames (frames trace) (rounds (num_frames trace)) 0 (ct_frames s);
          Some (s\<lparr>ct_call_count := 1, ct_num_frames := num_frames trace, ct_frames := fs\<rparr>) }"

lemma copy_frames_Some:
  "i + k \<le> length src \<Longrightarrow> i + k \<le> length dst \<Longrightarrow>
   copy_frames src k i dst = Some (take i dst @ take k (drop i src) @ drop (i + k) dst)"
proof (induction k arbitrary: i dst)
  case 0
  then show ?case by simp
next
  case (Suc k)
  then have src: "take (Suc k) (drop i src) = src ! i # take k (drop (Suc i) src)"
    by (simp add: Cons_nth_drop_Suc [symmetric])
  from Suc.prems have "copy_frames src (Suc k) i dst = copy_frames src k (Suc i) (dst[i := src ! i])"
    by (simp add: array_simps)
  also have "\<dots> = Some (take (Suc i) (dst[i := src ! i]) @ take k (drop (Suc i) src)
      @ drop (Suc i + k) (dst[i := src ! i]))"
    using Suc.prems by (intro Suc.IH) simp_all
  also have "\<dots> = Some (take i dst @ take (Suc k) (drop i src) @ drop (i + Suc k) dst)"
    using Suc.prems by (simp add: take_Suc_conv_app_nth src)
  finally show ?case .
qed

lemma assign_Some:
  assumes "rounds (num_frames trace) \<le> length (frames trace)"
    and "rounds (num_frames trace) \<le> length (ct_frames s)"
  shows "assign trace s = Some (s\<lparr>ct_call_count := 1, ct_num_frames := num_frames trace,
     ct_frames := take (rounds (num_frames trace)) (frames trace)
       @ drop (rounds (num_frames trace)) (ct_frames s)\<rparr>)"
  using assms copy_frames_Some [of 0 "rounds (num_frames trace)" "frames trace" "ct_frames s"]
  by (simp add: assign_def)

section \<open>The hash of a call trace\<close>

definition hash_M :: u64 where "hash_M = 0xc6a4a7935bd1e995"

definition hash_frame :: "ASGCT_CallFrame \<Rightarrow> u64 \<Rightarrow> u64" where
  "hash_frame f h =
     (let k = push_bit 32 (scast (bci f)) XOR method_id f;
          k = k * hash_M;
          k = k XOR drop_bit 47 k;
          k = k * hash_M;
          h = h XOR k
      in h * hash_M)"

fun hash_frames :: "ASGCT_CallFrame list \<Rightarrow> nat \<Rightarrow> nat \<Rightarrow> u64 \<Rightarrow> u64 option" where
  "hash_frames fs 0 i h = Some h"
| "hash_frames fs (Suc k) i h = do { f \<leftarrow> rd fs i; hash_frames fs k (Suc i) (hash_frame f h) }"

definition hashCallTrace :: "ASGCT_CallTrace \<Rightarrow> u64 option" where
  "hashCallTrace trace =
     do { h \<leftarrow> hash_frames (frames trace) (rounds (num_frames trace)) 0
            (scast (num_frames trace) * hash_M);
          let h = h XOR drop_bit 47 h;
          let h = h * hash_M;
          Some (h XOR drop_bit 47 h) }"

lemma hash_frames_Some:
  "i + k \<le> length fs \<Longrightarrow> hash_frames fs k i h = Some (fold hash_frame (take k (drop i fs)) h)"
proof (induction k arbitrary: i h)
  case (Suc k)
  then have "drop i fs = fs ! i # drop (Suc i) fs"
    by (simp add: Cons_nth_drop_Suc)
  with Suc show ?case
    by (simp add: array_simps)
qed simp

lemma hash_frames_None:
  "length fs < i + k \<Longrightarrow> i \<le> length fs \<Longrightarrow> hash_frames fs k i h = None"
proof (induction k arbitrary: i h)
  case (Suc k)
  then show ?case
    by (cases "i < length fs") (simp_all add: rd_def)
qed simp

lemma hashCallTrace_Some_iff:
  "(\<exists>h. hashCallTrace t = Some h) \<longleftrightarrow> rounds (num_frames t) \<le> length (frames t)"
proof (cases "rounds (num_frames t) \<le> length (frames t)")
  case True
  then show ?thesis
    by (simp add: hashCallTrace_def hash_frames_Some Let_def)
next
  case False
  then show ?thesis
    by (simp add: hashCallTrace_def hash_frames_None)
qed

text \<open>The hash reads the frame count and that many leading frames, and nothing else.\<close>

lemma hashCallTrace_cong:
  assumes "num_frames t = num_frames t'"
    and "rounds (num_frames t) \<le> length (frames t)"
    and "rounds (num_frames t) \<le> length (frames t')"
    and "take (rounds (num_frames t)) (frames t) = take (rounds (num_frames t)) (frames t')"
  shows "hashCallTrace t = hashCallTrace t'"
  using assms by (simp add: hashCallTrace_def hash_frames_Some)

section \<open>The hash of a method\<close>

definition hashMethod :: "jmethodID \<Rightarrow> u64" where
  "hashMethod m =
     (let h = m;
          h = h XOR drop_bit 17 h;
          h = h * hash_M;
          h = h XOR drop_bit 17 h
      in h)"

text \<open>Folding a word onto itself shifted right loses nothing: the high bits come back first.\<close>

lemma xorshift_bit:
  fixes x :: "'a::len word"
  shows "bit x n = (bit (x XOR drop_bit r x) n \<noteq> bit x (n + r))"
  by (auto simp: bit_xor_iff bit_drop_bit_eq add.commute)

lemma inj_xorshift:
  assumes "0 < r"
  shows "inj (\<lambda>x :: 'a::len word. x XOR drop_bit r x)"
proof (rule injI)
  fix x y :: "'a word"
  assume eq: "x XOR drop_bit r x = y XOR drop_bit r y"
  have "bit x n = bit y n" for n
  proof (induction "LENGTH('a) - n" arbitrary: n rule: less_induct)
    case less
    show ?case
    proof (cases "n < LENGTH('a)")
      case True
      then have "bit x (n + r) = bit y (n + r)"
        using assms by (intro less) simp
      with eq show ?thesis
        by (metis xorshift_bit)
    qed (simp add: bit_word.rep_eq not_less  impossible_bit)
  qed
  then show "x = y"
    by (simp add: bit_eq_iff)
qed

text \<open>The multiplier is odd, so multiplying by it is undone by its inverse modulo \<open>2 ^ 64\<close>.\<close>

definition hash_M_inverse :: u64 where "hash_M_inverse = 0x5f7a0ea7e59b19bd"

lemma hash_M_inverse: "hash_M * hash_M_inverse = 1"
  by (simp add: hash_M_def hash_M_inverse_def)

lemma inj_mult_hash_M: "inj (\<lambda>h. h * hash_M)"
proof (rule inj_on_inverseI [where g = "\<lambda>h. h * hash_M_inverse"])
  fix h :: u64
  show "h * hash_M * hash_M_inverse = h"
    by (simp add: mult.assoc hash_M_inverse)
qed

lemma hashMethod_compose:
  "hashMethod = (\<lambda>h. h XOR drop_bit 17 h) \<circ> (\<lambda>h. h * hash_M) \<circ> (\<lambda>h. h XOR drop_bit 17 h)"
  by (simp add: fun_eq_iff hashMethod_def Let_def)

lemma inj_hashMethod: "inj hashMethod"
  unfolding hashMethod_compose
  by (intro inj_compose inj_xorshift inj_mult_hash_M) simp_all

text \<open>
  \<open>Profiler::hashMethod\<close> never maps two method ids to the same 64-bit hash: both foldings
  and the multiplication by the odd constant can be undone.
\<close>
theorem hashMethod_injective: "hashMethod m = hashMethod m' \<longleftrightarrow> m = m'"
  using inj_hashMethod by (auto dest: injD)

lemma hashMethod_0 [simp]: "hashMethod 0 = 0"
  by (simp add: hashMethod_def)

lemma hashMethod_eq_0: "hashMethod m = 0 \<longleftrightarrow> m = 0"
  using inj_eq [OF inj_hashMethod, of m 0] by simp

section \<open>Buckets\<close>

definition bucket_of :: "u64 \<Rightarrow> nat" where
  "bucket_of hash = unat hash mod MAX_CALLTRACES"

lemma bucket_of_bound: "bucket_of hash < MAX_CALLTRACES"
  by (simp add: bucket_of_def MAX_CALLTRACES_def)

end
