(* ===== verification/Probe.thy ===== *)
theory Probe
  imports Samples
begin

text \<open>
  The search loop that \<open>Profiler::storeCallTrace\<close> and \<open>Profiler::storeMethod\<close> share: from the
  bucket of the key, slot by slot and around the end of the array, until the key or a free slot
  is found or the loop is back at the bucket. The locale \<open>open_table\<close> states what a caller has to
  provide, a bucket function into the array, and proves where the loop stops.
\<close>

section \<open>The loop\<close>

text \<open>
  \<open>probe hit free bucket i\<close> runs the \<open>do ... while (i != bucket)\<close> loop from slot \<open>i\<close>. It returns
  \<open>(True, i)\<close> where the key is found and \<open>(False, i)\<close> for the slot that is to be written: a free
  one, or the bucket itself once the loop has gone around. \<open>None\<close> is a loop that never ends.
\<close>

partial_function (option) probe ::
    "(nat \<Rightarrow> bool) \<Rightarrow> (nat \<Rightarrow> bool) \<Rightarrow> nat \<Rightarrow> nat \<Rightarrow> (bool \<times> nat) option" where
  "probe hit free bucket i =
     (if hit i then Some (True, i)
      else if free i then Some (False, i)
      else (let i' = (if Suc i = MAX_CALLTRACES then 0 else Suc i)
            in if i' = bucket then Some (False, i') else probe hit free bucket i'))"

definition cyc :: "nat \<Rightarrow> nat \<Rightarrow> nat" where
  "cyc b d = (b + d) mod MAX_CALLTRACES"

definition dist :: "nat \<Rightarrow> nat \<Rightarrow> nat" where
  "dist b j = (j + MAX_CALLTRACES - b) mod MAX_CALLTRACES"

lemma MAX_CALLTRACES_pos [simp]: "0 < MAX_CALLTRACES"
  by (simp add: MAX_CALLTRACES_def)

lemma cyc_bound [simp]: "cyc b d < MAX_CALLTRACES"
  by (simp add: cyc_def)

lemma dist_bound [simp]: "dist b j < MAX_CALLTRACES"
  by (simp add: dist_def)

lemma cyc_0: "b < MAX_CALLTRACES \<Longrightarrow> cyc b 0 = b"
  by (simp add: cyc_def)

lemma cyc_MAX: "b < MAX_CALLTRACES \<Longrightarrow> cyc b MAX_CALLTRACES = b"
  by (simp add: cyc_def)

lemma cyc_Suc: "cyc b (Suc d) = (if Suc (cyc b d) = MAX_CALLTRACES then 0 else Suc (cyc b d))"
  by (simp add: cyc_def mod_Suc)

lemma cyc_dist: "b < MAX_CALLTRACES \<Longrightarrow> j < MAX_CALLTRACES \<Longrightarrow> cyc b (dist b j) = j"
  by (simp add: cyc_def dist_def mod_add_right_eq)

lemma dist_cyc: "b < MAX_CALLTRACES \<Longrightarrow> d < MAX_CALLTRACES \<Longrightarrow> dist b (cyc b d) = d"
  by (auto simp: cyc_def dist_def mod_if)

lemma cyc_inj:
  "b < MAX_CALLTRACES \<Longrightarrow> d < MAX_CALLTRACES \<Longrightarrow> e < MAX_CALLTRACES \<Longrightarrow>
   cyc b d = cyc b e \<longleftrightarrow> d = e"
  by (metis dist_cyc)

lemma probe_run:
  assumes b: "b < MAX_CALLTRACES"
  shows "d < MAX_CALLTRACES \<Longrightarrow> \<forall>e<d. \<not> hit (cyc b e) \<and> \<not> free (cyc b e) \<Longrightarrow>
    probe hit free b b = probe hit free b (cyc b d)"
proof (induction d)
  case 0
  then show ?case using b by (simp add: cyc_0)
next
  case (Suc d)
  have "cyc b (Suc d) \<noteq> b"
    using cyc_inj [OF b, of "Suc d" 0] Suc.prems(1) by (simp add: cyc_0 b)
  moreover have "\<not> hit (cyc b d)" "\<not> free (cyc b d)"
    using Suc.prems(2) by auto
  ultimately have "probe hit free b (cyc b d) = probe hit free b (cyc b (Suc d))"
    by (subst probe.simps) (simp add: cyc_Suc Let_def)
  with Suc show ?case by simp
qed

lemma probe_hit:
  assumes "b < MAX_CALLTRACES" "d < MAX_CALLTRACES"
    and "\<forall>e<d. \<not> hit (cyc b e) \<and> \<not> free (cyc b e)" and "hit (cyc b d)"
  shows "probe hit free b b = Some (True, cyc b d)"
  using probe_run [OF assms(1-3)] assms(4) by (simp add: probe.simps [of hit free b "cyc b d"])

lemma probe_free:
  assumes "b < MAX_CALLTRACES" "d < MAX_CALLTRACES"
    and "\<forall>e<d. \<not> hit (cyc b e) \<and> \<not> free (cyc b e)" and "\<not> hit (cyc b d)" "free (cyc b d)"
  shows "probe hit free b b = Some (False, cyc b d)"
  using probe_run [OF assms(1-3)] assms(4,5) by (simp add: probe.simps [of hit free b "cyc b d"])

lemma probe_full:
  assumes b: "b < MAX_CALLTRACES"
    and none: "\<forall>e<MAX_CALLTRACES. \<not> hit (cyc b e) \<and> \<not> free (cyc b e)"
  shows "probe hit free b b = Some (False, b)"
proof -
  let ?d = "MAX_CALLTRACES - 1"
  have "probe hit free b b = probe hit free b (cyc b ?d)"
    using none by (intro probe_run b) simp_all
  also have "\<dots> = Some (False, b)"
  proof -
    have "(if Suc (cyc b ?d) = MAX_CALLTRACES then 0 else Suc (cyc b ?d)) = b"
      using b cyc_Suc [of b ?d] by (simp add: cyc_MAX)
    then show ?thesis
      using none by (subst probe.simps) (simp add: Let_def)
  qed
  finally show ?thesis .
qed

lemma probe_stops:
  assumes "\<exists>d<MAX_CALLTRACES. hit (cyc b d) \<or> free (cyc b d)"
  obtains d where "d < MAX_CALLTRACES" "hit (cyc b d) \<or> free (cyc b d)"
    "\<forall>e<d. \<not> hit (cyc b e) \<and> \<not> free (cyc b e)"
proof -
  define d where "d = (LEAST d. hit (cyc b d) \<or> free (cyc b d))"
  have "hit (cyc b d) \<or> free (cyc b d)" "d < MAX_CALLTRACES"
    using assms unfolding d_def by (metis (mono_tags, lifting) LeastI,
      metis (mono_tags, lifting) Least_le le_less_trans)
  moreover have "\<forall>e<d. \<not> hit (cyc b e) \<and> \<not> free (cyc b e)"
    unfolding d_def using not_less_Least by blast
  ultimately show ?thesis by (blast intro: that)
qed

lemma probe_total:
  assumes b: "b < MAX_CALLTRACES"
  shows "\<exists>r i. probe hit free b b = Some (r, i) \<and> i < MAX_CALLTRACES"
proof (cases "\<exists>d<MAX_CALLTRACES. hit (cyc b d) \<or> free (cyc b d)")
  case True
  then obtain d where "d < MAX_CALLTRACES" and stop: "hit (cyc b d) \<or> free (cyc b d)"
    and "\<forall>e<d. \<not> hit (cyc b e) \<and> \<not> free (cyc b e)"
    by (rule probe_stops)
  then show ?thesis
    using stop probe_hit [OF b, of d hit free] probe_free [OF b, of d hit free]
    by (cases "hit (cyc b d)") auto
next
  case False
  then show ?thesis
    using probe_full [OF b] b by blast
qed

lemma probe_result:
  assumes "probe hit free b i = Some y"
  shows "fst y \<longrightarrow> hit (snd y)"
  by (rule probe.raw_induct [OF _ assms, where P = "\<lambda>hit free b i y. fst y \<longrightarrow> hit (snd y)"])
    (auto simp: Let_def split: if_splits, blast+)

text \<open>If every match is also free, the loop ends on a free slot when there is one.\<close>

lemma probe_at:
  assumes b: "b < MAX_CALLTRACES" and sub: "\<And>i. hit i \<Longrightarrow> free i"
    and ex: "\<exists>d<MAX_CALLTRACES. free (cyc b d)"
  shows "\<exists>r i. probe hit free b b = Some (r, i) \<and> i < MAX_CALLTRACES \<and> free i"
proof -
  obtain d where d: "d < MAX_CALLTRACES" and stop: "hit (cyc b d) \<or> free (cyc b d)"
    and below: "\<forall>e<d. \<not> hit (cyc b e) \<and> \<not> free (cyc b e)"
    using ex by (rule_tac probe_stops [of hit b free]) auto
  then show ?thesis
    using probe_hit [OF b d below] probe_free [OF b d below] sub by (cases "hit (cyc b d)") auto
qed

lemma probe_cong:
  assumes b: "b < MAX_CALLTRACES"
    and eq: "\<And>i. i < MAX_CALLTRACES \<Longrightarrow> hit i = hit' i" "\<And>i. i < MAX_CALLTRACES \<Longrightarrow> free i = free' i"
  shows "probe hit free b b = probe hit' free' b b"
proof (cases "\<exists>d<MAX_CALLTRACES. hit (cyc b d) \<or> free (cyc b d)")
  case True
  then obtain d where d: "d < MAX_CALLTRACES" "hit (cyc b d) \<or> free (cyc b d)"
    and below: "\<forall>e<d. \<not> hit (cyc b e) \<and> \<not> free (cyc b e)"
    by (rule probe_stops)
  from below have below': "\<forall>e<d. \<not> hit' (cyc b e) \<and> \<not> free' (cyc b e)"
    by (simp add: eq)
  show ?thesis
  proof (cases "hit (cyc b d)")
    case True
    then show ?thesis
      using probe_hit [OF b d(1) below] probe_hit [OF b d(1) below'] by (simp add: eq)
  next
    case False
    then show ?thesis
      using d(2) probe_free [OF b d(1) below] probe_free [OF b d(1) below'] by (simp add: eq)
  qed
next
  case False
  then show ?thesis
    using probe_full [OF b, of hit free] probe_full [OF b, of hit' free'] by (simp add: eq)
qed

section \<open>Open addressing\<close>

text \<open>
  \<open>key j\<close> is the key in slot \<open>j\<close>, \<open>None\<close> for a free slot. In a well-formed table no key occurs
  twice and no free slot lies between the bucket of a key and the slot that holds it.
\<close>

definition tab_inv :: "('k \<Rightarrow> nat) \<Rightarrow> (nat \<Rightarrow> 'k option) \<Rightarrow> bool" where
  "tab_inv bucket key \<longleftrightarrow>
     (\<forall>j<MAX_CALLTRACES. \<forall>k. key j = Some k \<longrightarrow>
        (\<forall>e<dist (bucket k) j. key (cyc (bucket k) e) \<noteq> None)) \<and>
     (\<forall>i<MAX_CALLTRACES. \<forall>j<MAX_CALLTRACES. key i \<noteq> None \<and> key i = key j \<longrightarrow> i = j)"

definition place :: "('k \<Rightarrow> nat) \<Rightarrow> (nat \<Rightarrow> 'k option) \<Rightarrow> 'k \<Rightarrow> (bool \<times> nat) option" where
  "place bucket key k =
     probe (\<lambda>i. key i = Some k) (\<lambda>i. key i = None) (bucket k) (bucket k)"

lemma tab_inv_empty: "tab_inv bucket (\<lambda>_. None)"
  by (simp add: tab_inv_def)

lemma tab_inv_unique:
  "tab_inv bucket key \<Longrightarrow> i < MAX_CALLTRACES \<Longrightarrow> j < MAX_CALLTRACES \<Longrightarrow>
   key i = Some k \<Longrightarrow> key j = Some k \<Longrightarrow> i = j"
  unfolding tab_inv_def by force

lemma tab_inv_cong:
  assumes "\<And>j. j < MAX_CALLTRACES \<Longrightarrow> key j = key' j"
  shows "tab_inv bucket key = tab_inv bucket key'"
  unfolding tab_inv_def using assms by simp

locale open_table =
  fixes bucket :: "'k \<Rightarrow> nat"
  assumes bucket_bound: "bucket k < MAX_CALLTRACES"
begin

lemma place_present:
  assumes inv: "tab_inv bucket key" and j: "j < MAX_CALLTRACES" and k: "key j = Some k"
  shows "place bucket key k = Some (True, j)"
proof -
  let ?b = "bucket k"
  have "\<forall>e<dist ?b j. \<not> key (cyc ?b e) = Some k \<and> key (cyc ?b e) \<noteq> None"
  proof (intro allI impI conjI)
    fix e assume e: "e < dist ?b j"
    then show "key (cyc ?b e) \<noteq> None"
      using inv j k by (simp add: tab_inv_def)
    show "\<not> key (cyc ?b e) = Some k"
    proof
      assume "key (cyc ?b e) = Some k"
      then have "cyc ?b e = j"
        using inv j k by (intro tab_inv_unique [OF inv]) simp_all
      moreover have "e < MAX_CALLTRACES"
        using e dist_bound less_trans by blast
      ultimately have "dist ?b j = e"
        using dist_cyc [OF bucket_bound] by blast
      with e show False by simp
    qed
  qed
  then show ?thesis
    unfolding place_def using k j
    by (subst probe_hit [where d = "dist ?b j"]) (auto simp: bucket_bound cyc_dist)
qed

lemma tab_inv_insert:
  assumes inv: "tab_inv bucket key" and absent: "\<forall>j<MAX_CALLTRACES. key j \<noteq> Some k"
    and i: "i < MAX_CALLTRACES" and chain: "\<forall>e<dist (bucket k) i. key (cyc (bucket k) e) \<noteq> None"
  shows "tab_inv bucket (key(i := Some k))"
proof -
  let ?key = "key(i := Some k)"
  have grow: "?key j \<noteq> None" if "key j \<noteq> None" for j
    using that by simp
  have "\<forall>e<dist (bucket k') j. ?key (cyc (bucket k') e) \<noteq> None"
    if "j < MAX_CALLTRACES" "?key j = Some k'" for j k'
  proof (cases "j = i")
    case True
    with that chain grow show ?thesis by simp
  next
    case False
    with that have "key j = Some k'" by simp
    with that inv have "\<forall>e<dist (bucket k') j. key (cyc (bucket k') e) \<noteq> None"
      by (simp add: tab_inv_def)
    with grow show ?thesis by blast
  qed
  moreover have "j = j'"
    if "j < MAX_CALLTRACES" "j' < MAX_CALLTRACES" "?key j \<noteq> None" "?key j = ?key j'" for j j'
  proof -
    from that(3) obtain x where 1: "?key j = Some x" by blast
    with that(4) have x: "?key j = Some x" "?key j' = Some x" by (simp_all only:)
    show ?thesis
    proof (cases "x = k")
      case True
      with x absent that show ?thesis by (metis fun_upd_apply)
    next
      case False
      with x have "key j = Some x" "key j' = Some x" by (auto split: if_splits)
      with inv that show ?thesis by (metis tab_inv_unique)
    qed
  qed
  ultimately show ?thesis
    unfolding tab_inv_def by blast
qed

lemma place_free:
  assumes inv: "tab_inv bucket key" and absent: "\<forall>j<MAX_CALLTRACES. key j \<noteq> Some k"
    and free: "\<exists>j<MAX_CALLTRACES. key j = None"
  shows "\<exists>i<MAX_CALLTRACES. key i = None \<and> place bucket key k = Some (False, i)
    \<and> tab_inv bucket (key(i := Some k))"
proof -
  let ?b = "bucket k" and ?P = "\<lambda>d. key (cyc (bucket k) d) = None"
  define d where "d = (LEAST d. ?P d)"
  from free obtain j where j: "j < MAX_CALLTRACES" "key j = None" by blast
  then have Pj: "?P (dist ?b j)"
    by (simp add: cyc_dist bucket_bound)
  have d: "?P d" and le: "d \<le> dist ?b j"
    unfolding d_def using Pj by (rule LeastI, rule Least_le)
  have less: "d < MAX_CALLTRACES"
    using le dist_bound le_less_trans by blast
  have below: "\<forall>e<d. key (cyc ?b e) \<noteq> None"
    unfolding d_def using not_less_Least by blast
  have "place bucket key k = Some (False, cyc ?b d)"
    unfolding place_def using below absent d less bucket_bound
    by (intro probe_free) auto
  moreover have "tab_inv bucket (key(cyc ?b d := Some k))"
    using below less by (intro tab_inv_insert inv absent) (auto simp: dist_cyc bucket_bound)
  ultimately show ?thesis
    using d by (intro exI [of _ "cyc ?b d"]) simp
qed

lemma place_full:
  assumes inv: "tab_inv bucket key" and absent: "\<forall>j<MAX_CALLTRACES. key j \<noteq> Some k"
    and full: "\<forall>j<MAX_CALLTRACES. key j \<noteq> None"
  shows "place bucket key k = Some (False, bucket k) \<and> tab_inv bucket (key(bucket k := Some k))"
proof
  show "place bucket key k = Some (False, bucket k)"
    unfolding place_def using absent full bucket_bound by (intro probe_full) auto
  show "tab_inv bucket (key(bucket k := Some k))"
    using full by (intro tab_inv_insert inv absent bucket_bound) auto
qed

text \<open>The three outcomes of a search, with the invariant of the table after the write.\<close>

lemma place_cases:
  assumes "tab_inv bucket key"
  obtains (present) i where "i < MAX_CALLTRACES" "key i = Some k"
      "place bucket key k = Some (True, i)"
  | (free) i where "\<forall>j<MAX_CALLTRACES. key j \<noteq> Some k" "i < MAX_CALLTRACES" "key i = None"
      "place bucket key k = Some (False, i)" "tab_inv bucket (key(i := Some k))"
  | (full) "\<forall>j<MAX_CALLTRACES. key j \<noteq> Some k" "\<forall>j<MAX_CALLTRACES. key j \<noteq> None"
      "place bucket key k = Some (False, bucket k)" "tab_inv bucket (key(bucket k := Some k))"
proof (cases "\<exists>i<MAX_CALLTRACES. key i = Some k")
  case True
  then show ?thesis
    using place_present [OF assms] present by blast
next
  case absent: False
  show ?thesis
  proof (cases "\<exists>i<MAX_CALLTRACES. key i = None")
    case True
    with absent obtain i where "i < MAX_CALLTRACES" "key i = None"
      "place bucket key k = Some (False, i)" "tab_inv bucket (key(i := Some k))"
      using place_free [OF assms, of k] by blast
    with absent show ?thesis by (intro free) auto
  next
    case False
    with absent place_full [OF assms, of k] show ?thesis by (intro full) auto
  qed
qed

end

end
