(* ===== verification/Tables.thy ===== *)
theory Tables
  imports Probe
begin

text \<open>
  The state of \<open>Profiler\<close> and its two open-addressing tables: \<open>storeCallTrace\<close> and
  \<open>storeMethod\<close> of \<open>profiler.cpp\<close>. Both are interpretations of the locale \<open>open_table\<close>; the
  refinement lemmas say that a store adds one to the count of its key and to nothing else, as
  long as the table has room, and what is lost when it has none.
\<close>

section \<open>State\<close>

record profiler =
  running :: bool
  calls_total :: jint
  calls_non_java :: jint
  calls_gc :: jint
  calls_deopt :: jint
  calls_unknown :: jint
  hashes :: "u64 list"
  traces :: "CallTraceSample list"
  methods :: "MethodSample list"
  portno :: u16
  sockfd :: jint

text \<open>
  The array lengths are those of the declarations. They are part of the C types; every
  operation keeps them.
\<close>

definition arrays_wf :: "profiler \<Rightarrow> bool" where
  "arrays_wf st \<longleftrightarrow> length (hashes st) = MAX_CALLTRACES \<and> length (traces st) = MAX_CALLTRACES
     \<and> length (methods st) = MAX_CALLTRACES
     \<and> (\<forall>s\<in>set (traces st). length (ct_frames s) = MAX_FRAMES)"

lemma arrays_wfD:
  "arrays_wf st \<Longrightarrow> length (hashes st) = MAX_CALLTRACES"
  "arrays_wf st \<Longrightarrow> length (traces st) = MAX_CALLTRACES"
  "arrays_wf st \<Longrightarrow> length (methods st) = MAX_CALLTRACES"
  "arrays_wf st \<Longrightarrow> i < MAX_CALLTRACES \<Longrightarrow> length (ct_frames (traces st ! i)) = MAX_FRAMES"
  by (auto simp: arrays_wf_def)

section \<open>Storing a method\<close>

definition method_bucket :: "jmethodID \<Rightarrow> nat" where
  "method_bucket m = bucket_of (hashMethod m)"

definition find_method :: "profiler \<Rightarrow> jmethodID \<Rightarrow> (bool \<times> nat) option" where
  "find_method st m =
     probe (\<lambda>i. ms_method (methods st ! i) = m) (\<lambda>i. ms_method (methods st ! i) = NULL)
       (method_bucket m) (method_bucket m)"

definition storeMethod :: "jmethodID \<Rightarrow> profiler \<Rightarrow> profiler option" where
  "storeMethod m st =
     do { (found, i) \<leftarrow> find_method st m;
          s \<leftarrow> rd (methods st) i;
          ms \<leftarrow> wr (methods st) i
            (if found then s\<lparr>ms_call_count := ms_call_count s + 1\<rparr>
             else s\<lparr>ms_call_count := 1, ms_method := m\<rparr>);
          Some (st\<lparr>methods := ms\<rparr>) }"

definition method_key :: "profiler \<Rightarrow> nat \<Rightarrow> jmethodID option" where
  "method_key st i =
     (if ms_method (methods st ! i) = NULL then None else Some (ms_method (methods st ! i)))"

definition method_slot_ok :: "int \<Rightarrow> MethodSample \<Rightarrow> bool" where
  "method_slot_ok B s \<longleftrightarrow>
     (if ms_method s = NULL then 0 \<le> sint (ms_call_count s) \<and> sint (ms_call_count s) \<le> B
      else 0 < sint (ms_call_count s) \<and> sint (ms_call_count s) \<le> B)"

definition method_inv :: "int \<Rightarrow> profiler \<Rightarrow> bool" where
  "method_inv B st \<longleftrightarrow> tab_inv method_bucket (method_key st)
     \<and> (\<forall>s\<in>set (methods st). method_slot_ok B s)"

text \<open>The abstraction of the table: how often each method was counted.\<close>

definition method_count :: "profiler \<Rightarrow> jmethodID \<Rightarrow> jint" where
  "method_count st m =
     sum_list (map (\<lambda>s. if ms_method s = m then ms_call_count s else 0) (methods st))"

interpretation mtab: open_table method_bucket
  by unfold_locales (simp add: method_bucket_def bucket_of_bound)

lemma find_method_place:
  assumes "m \<noteq> NULL"
  shows "find_method st m = place method_bucket (method_key st) m"
  unfolding find_method_def place_def method_key_def
  using assms by (intro probe_cong mtab.bucket_bound) auto

text \<open>What each outcome of the search writes.\<close>

lemma storeMethod_found:
  assumes "find_method st m = Some (True, i)" "i < length (methods st)"
  shows "storeMethod m st = Some (st\<lparr>methods := (methods st)[i :=
    (methods st ! i)\<lparr>ms_call_count := ms_call_count (methods st ! i) + 1\<rparr>]\<rparr>)"
  using assms by (simp add: storeMethod_def array_simps)

lemma storeMethod_new:
  assumes "find_method st m = Some (False, i)" "i < length (methods st)"
  shows "storeMethod m st = Some (st\<lparr>methods := (methods st)[i :=
    (methods st ! i)\<lparr>ms_call_count := 1, ms_method := m\<rparr>]\<rparr>)"
  using assms by (simp add: storeMethod_def array_simps)

lemma find_method_bound:
  "\<exists>r i. find_method st m = Some (r, i) \<and> i < MAX_CALLTRACES"
  unfolding find_method_def by (rule probe_total) (rule mtab.bucket_bound)

lemma storeMethod_Some:
  assumes "arrays_wf st"
  obtains ms where "storeMethod m st = Some (st\<lparr>methods := ms\<rparr>)" "length ms = MAX_CALLTRACES"
proof -
  obtain r i where f: "find_method st m = Some (r, i)" and "i < MAX_CALLTRACES"
    using find_method_bound by blast
  then have i: "i < length (methods st)"
    using assms by (simp add: arrays_wfD)
  have "\<exists>ms. storeMethod m st = Some (st\<lparr>methods := ms\<rparr>) \<and> length ms = length (methods st)"
  proof (cases r)
    case True
    with f have "find_method st m = Some (True, i)" by simp
    from storeMethod_found [OF this i] show ?thesis by (metis length_list_update)
  next
    case False
    with f have "find_method st m = Some (False, i)" by simp
    from storeMethod_new [OF this i] show ?thesis by (metis length_list_update)
  qed
  with assms that show ?thesis
    by (auto simp: arrays_wfD)
qed

text \<open>
  \<open>Profiler::storeMethod\<close> always returns: its search loop ends and stays within the array,
  for any method id, \<open>NULL\<close> included, and whatever the table holds; it writes no other member.
\<close>
theorem storeMethod_total:
  assumes "arrays_wf st"
  shows "\<exists>ms. storeMethod m st = Some (st\<lparr>methods := ms\<rparr>) \<and> length ms = MAX_CALLTRACES"
  using assms by (rule storeMethod_Some) blast

lemma method_key_update:
  "i < length (methods st) \<Longrightarrow> method_key (st\<lparr>methods := (methods st)[i := s]\<rparr>)
     = (method_key st)(i := if ms_method s = NULL then None else Some (ms_method s))"
  by (auto simp: method_key_def fun_eq_iff nth_list_update)

lemma method_count_update:
  "i < length (methods st) \<Longrightarrow> method_count (st\<lparr>methods := (methods st)[i := s]\<rparr>) k
     = method_count st k
       - (if ms_method (methods st ! i) = k then ms_call_count (methods st ! i) else 0)
       + (if ms_method s = k then ms_call_count s else 0)"
  by (simp add: method_count_def sum_list_map_update)

lemma method_count_at:
  assumes wf: "arrays_wf st" and inv: "tab_inv method_bucket (method_key st)"
    and i: "i < MAX_CALLTRACES" "method_key st i = Some m"
  shows "method_count st m = ms_call_count (methods st ! i)"
proof -
  have m: "ms_method (methods st ! i) = m" "m \<noteq> NULL"
    using i by (auto simp: method_key_def split: if_splits)
  have "ms_method (methods st ! j) \<noteq> m" if "j < MAX_CALLTRACES" "j \<noteq> i" for j
  proof
    assume "ms_method (methods st ! j) = m"
    then have "method_key st j = Some m"
      using m by (simp add: method_key_def)
    with tab_inv_unique [OF inv] i that show False by blast
  qed
  then show ?thesis
    using i m wf unfolding method_count_def
    by (subst sum_list_map_single [where i = i]) (auto simp: arrays_wfD)
qed

lemma method_count_absent:
  assumes "arrays_wf st" "\<forall>j<MAX_CALLTRACES. method_key st j \<noteq> Some m" "m \<noteq> NULL"
  shows "method_count st m = 0"
  unfolding method_count_def
proof (intro sum_list_map_0 ballI)
  fix s assume "s \<in> set (methods st)"
  then obtain j where "j < MAX_CALLTRACES" "s = methods st ! j"
    using assms(1) by (metis in_set_conv_nth arrays_wfD(3))
  with assms(2,3) show "(if ms_method s = m then ms_call_count s else 0) = 0"
    by (auto simp: method_key_def)
qed

lemma method_slot_ok_mono: "method_slot_ok B s \<Longrightarrow> B \<le> B' \<Longrightarrow> method_slot_ok B' s"
  by (auto simp: method_slot_ok_def split: if_splits)

lemma method_slots_ok_upd:
  assumes "method_inv B st" "B \<le> B'" "method_slot_ok B' s"
  shows "\<forall>s'\<in>set ((methods st)[i := s]). method_slot_ok B' s'"
proof
  fix p assume "p \<in> set ((methods st)[i := s])"
  then have "p = s \<or> p \<in> set (methods st)"
    using set_update_subset_insert [of "methods st" i s] by blast
  moreover have "method_slot_ok B' q" if "q \<in> set (methods st)" for q
    using assms(1,2) that method_slot_ok_mono unfolding method_inv_def by blast
  ultimately show "method_slot_ok B' p"
    using assms(3) by blast
qed

lemma method_inv_update:
  assumes wf: "arrays_wf st" and inv: "method_inv B st" and "B \<le> B'"
    and "i < MAX_CALLTRACES" "ms_method s \<noteq> NULL" "method_slot_ok B' s"
    and "tab_inv method_bucket ((method_key st)(i := Some (ms_method s)))"
  shows "method_inv B' (st\<lparr>methods := (methods st)[i := s]\<rparr>)"
proof -
  have "\<forall>s'\<in>set ((methods st)[i := s]). method_slot_ok B' s'"
    by (rule method_slots_ok_upd) fact+
  with assms show ?thesis
    by (simp add: method_inv_def method_key_update arrays_wfD)
qed

definition method_used :: "profiler \<Rightarrow> nat" where
  "method_used st = length (filter (\<lambda>m. m \<noteq> NULL) (map ms_method (methods st)))"

lemma method_used_full:
  assumes "arrays_wf st" "\<forall>j<MAX_CALLTRACES. method_key st j \<noteq> None"
  shows "method_used st = MAX_CALLTRACES"
proof -
  have "\<forall>s\<in>set (methods st). ms_method s \<noteq> NULL"
    using assms by (metis arrays_wfD(3) in_set_conv_nth method_key_def)
  then show ?thesis
    using assms(1) by (simp add: method_used_def arrays_wfD)
qed

lemma method_used_update:
  "method_used (st\<lparr>methods := (methods st)[i := s]\<rparr>) \<le> method_used st + 1"
  "i < length (methods st) \<Longrightarrow> ms_method (methods st ! i) \<noteq> NULL \<Longrightarrow>
   method_used (st\<lparr>methods := (methods st)[i := s]\<rparr>) \<le> method_used st"
  using length_filter_update [of "\<lambda>m. m \<noteq> NULL" "map ms_method (methods st)" i "ms_method s"]
  by (simp_all add: method_used_def map_update split: if_splits)

text \<open>
  One store of a method that is not \<open>NULL\<close>: the invariant is kept, and the counts change as on
  the abstract table unless the table is full and the method is not in it.
\<close>

lemma storeMethod_cases:
  assumes wf: "arrays_wf st" and inv: "method_inv B st" and m: "m \<noteq> NULL" and B: "0 \<le> B" "B < 2 ^ 31 - 1"
  obtains (counted) st' where "storeMethod m st = Some st'" "method_inv (B + 1) st'"
      "method_used st' \<le> method_used st + 1"
      "\<exists>i<MAX_CALLTRACES. ms_method (methods st ! i) = m \<or> ms_method (methods st ! i) = NULL"
      "\<And>k. k \<noteq> NULL \<Longrightarrow> method_count st' k = method_count st k + (if k = m then 1 else 0)"
  | (evicted) st' where "storeMethod m st = Some st'" "method_inv (B + 1) st'"
      "method_used st = MAX_CALLTRACES" "method_used st' \<le> method_used st"
      "\<And>k. method_count st' k = (if k = m then 1
         else if k = ms_method (methods st ! method_bucket m) then 0 else method_count st k)"
proof -
  have tab: "tab_inv method_bucket (method_key st)"
    using inv by (simp add: method_inv_def)
  have new_ok: "method_slot_ok (B + 1) (s\<lparr>ms_call_count := 1, ms_method := m\<rparr>)" for s
    using m B by (simp add: method_slot_ok_def)
  note len = arrays_wfD [OF wf]
  from tab show thesis
  proof (cases rule: mtab.place_cases [where k = m])
    case (present i)
    let ?s = "methods st ! i"
    let ?s' = "?s\<lparr>ms_call_count := ms_call_count ?s + 1\<rparr>"
    have key: "ms_method ?s = m"
      using present by (simp add: method_key_def split: if_splits)
    have "method_slot_ok B ?s"
      using inv present len by (simp add: method_inv_def)
    then have "method_slot_ok (B + 1) ?s'"
      using m key B by (simp add: method_slot_ok_def sint_add_one)
    then have "method_inv (B + 1) (st\<lparr>methods := (methods st)[i := ?s']\<rparr>)"
      using wf inv m key present tab B
      by (intro method_inv_update [where B = B]) (simp_all add: fun_upd_idem)
    moreover have "method_used (st\<lparr>methods := (methods st)[i := ?s']\<rparr>) \<le> method_used st + 1"
      by (rule method_used_update)
    ultimately show thesis
      using m key len present by (intro counted [OF storeMethod_found])
        (auto simp: find_method_place method_count_update)
  next
    case (free i)
    let ?s' = "(methods st ! i)\<lparr>ms_call_count := 1, ms_method := m\<rparr>"
    have "method_inv (B + 1) (st\<lparr>methods := (methods st)[i := ?s']\<rparr>)"
      using wf inv m free B by (intro method_inv_update [where B = B] new_ok) simp_all
    moreover have "method_used (st\<lparr>methods := (methods st)[i := ?s']\<rparr>) \<le> method_used st + 1"
      by (rule method_used_update)
    moreover have "ms_method (methods st ! i) = NULL"
      using free by (simp add: method_key_def split: if_splits)
    ultimately show thesis
      using m len free by (intro counted [OF storeMethod_new])
        (auto simp: find_method_place method_count_update)
  next
    case full
    let ?b = "method_bucket m"
    let ?s' = "(methods st ! ?b)\<lparr>ms_call_count := 1, ms_method := m\<rparr>"
    have b: "?b < MAX_CALLTRACES"
      by (rule mtab.bucket_bound)
    have "method_inv (B + 1) (st\<lparr>methods := (methods st)[?b := ?s']\<rparr>)"
      using wf inv m full B b by (intro method_inv_update [where B = B] new_ok) simp_all
    moreover have key: "method_key st ?b = Some (ms_method (methods st ! ?b))"
        "ms_method (methods st ! ?b) \<noteq> NULL"
      using full b by (auto simp: method_key_def split: if_splits)
    moreover have "method_count st (ms_method (methods st ! ?b)) = ms_call_count (methods st ! ?b)"
      using method_count_at [OF wf tab b key(1)] .
    moreover have "method_count st m = 0"
      using method_count_absent [OF wf full(1) m] .
    moreover have "ms_method (methods st ! ?b) \<noteq> m"
      using full b key by metis
    moreover have "method_used st = MAX_CALLTRACES"
      by (rule method_used_full [OF wf full(2)])
    moreover have "method_used (st\<lparr>methods := (methods st)[?b := ?s']\<rparr>) \<le> method_used st"
      using key b len by (intro method_used_update) simp_all
    ultimately show thesis
      using m len full b by (intro evicted [OF storeMethod_new])
        (auto simp: find_method_place method_count_update)
  qed
qed

text \<open>A store of \<open>NULL\<close> finds a free slot and counts there; no other method is touched.\<close>

lemma storeMethod_NULL:
  assumes wf: "arrays_wf st" and inv: "method_inv B st" and B: "0 \<le> B" "B < 2 ^ 31 - 1"
    and room: "method_used st < MAX_CALLTRACES"
  obtains st' where "storeMethod NULL st = Some st'" "method_inv (B + 1) st'"
    "\<And>k. k \<noteq> NULL \<Longrightarrow> method_count st' k = method_count st k" "method_used st' = method_used st"
proof -
  note len = arrays_wfD [OF wf]
  obtain j where "j < MAX_CALLTRACES" "method_key st j = None"
    using method_used_full [OF wf] room by auto
  then have "\<exists>d<MAX_CALLTRACES. ms_method (methods st ! cyc (method_bucket NULL) d) = NULL"
    using cyc_dist [OF mtab.bucket_bound [of NULL], of j]
    by (intro exI [of _ "dist (method_bucket NULL) j"]) (simp add: method_key_def split: if_splits)
  then obtain d where d: "d < MAX_CALLTRACES" "ms_method (methods st ! cyc (method_bucket NULL) d) = NULL"
    and below: "\<forall>e<d. ms_method (methods st ! cyc (method_bucket NULL) e) \<noteq> NULL"
    using probe_stops [of "\<lambda>_. False" "method_bucket NULL" "\<lambda>i. ms_method (methods st ! i) = NULL"]
    by auto
  define i where "i = cyc (method_bucket NULL) d"
  let ?s' = "(methods st ! i)\<lparr>ms_call_count := ms_call_count (methods st ! i) + 1\<rparr>"
  let ?st' = "st\<lparr>methods := (methods st)[i := ?s']\<rparr>"
  have i: "i < MAX_CALLTRACES" "ms_method (methods st ! i) = NULL"
    using d by (simp_all add: i_def)
  have "find_method st NULL = Some (True, i)"
    unfolding find_method_def i_def using d below by (intro probe_hit mtab.bucket_bound) auto
  then have "storeMethod NULL st = Some ?st'"
    using i len by (intro storeMethod_found) simp_all
  moreover have "method_inv (B + 1) ?st'"
  proof -
    have "method_slot_ok B (methods st ! i)"
      using inv i len by (simp add: method_inv_def)
    then have "method_slot_ok (B + 1) ?s'"
      using i B by (simp add: method_slot_ok_def sint_add_one)
    then have "\<forall>s\<in>set ((methods st)[i := ?s']). method_slot_ok (B + 1) s"
      by (intro method_slots_ok_upd [OF inv]) simp
    moreover have "method_key ?st' = method_key st"
      using i len by (simp add: method_key_update method_key_def fun_upd_idem)
    ultimately show ?thesis
      using inv by (simp add: method_inv_def)
  qed
  moreover have "(map ms_method (methods st))[i := ms_method ?s'] = map ms_method (methods st)"
    using i len by (simp add: list_update_same_conv)
  then have "method_used ?st' = method_used st"
    by (simp add: method_used_def map_update)
  ultimately show thesis
    using i len by (intro that [of ?st']) (simp_all add: method_count_update)
qed

text \<open>
  C10. When every slot is in use, a method that is not in the table takes the slot of its bucket:
  all counts of the method that was there are lost, and no other count changes.
\<close>
theorem full_table_evicts:
  assumes "arrays_wf st" "method_inv B st" "m \<noteq> NULL" "0 \<le> B" "B < 2 ^ 31 - 1"
    and "\<forall>s\<in>set (methods st). ms_method s \<noteq> NULL \<and> ms_method s \<noteq> m"
  shows "\<exists>st'. storeMethod m st = Some st' \<and> method_inv (B + 1) st' \<and> method_count st' m = 1
    \<and> method_count st' (ms_method (methods st ! method_bucket m)) = 0
    \<and> (\<forall>k. k \<noteq> m \<and> k \<noteq> ms_method (methods st ! method_bucket m) \<longrightarrow>
          method_count st' k = method_count st k)"
proof (cases rule: storeMethod_cases [OF assms(1-5)])
  case (1 st')
  then obtain i where "i < MAX_CALLTRACES" "ms_method (methods st ! i) = m \<or> ms_method (methods st ! i) = NULL"
    by blast
  moreover from this assms(1) have "methods st ! i \<in> set (methods st)"
    by (simp add: arrays_wfD)
  ultimately show ?thesis
    using assms(6) by blast
next
  case (2 st')
  have "ms_method (methods st ! method_bucket m) \<noteq> m"
    using assms(1,6) mtab.bucket_bound [of m] by (simp add: arrays_wfD)
  with 2 show ?thesis by auto
qed

definition full_profiler :: profiler where
  "full_profiler = \<lparr>running = True, calls_total = 0, calls_non_java = 0, calls_gc = 0,
     calls_deopt = 0, calls_unknown = 0, hashes = replicate MAX_CALLTRACES 0,
     traces = replicate MAX_CALLTRACES \<lparr>ct_call_count = 0, ct_num_frames = 0,
       ct_frames = replicate MAX_FRAMES \<lparr>bci = 0, method_id = NULL\<rparr>\<rparr>,
     methods = map (\<lambda>i. \<lparr>ms_call_count = 7, ms_method = of_nat (Suc i)\<rparr>) [0..<MAX_CALLTRACES],
     portno = 0, sockfd = 0\<rparr>"

lemma full_profiler_key:
  "i < MAX_CALLTRACES \<Longrightarrow> method_key full_profiler i = Some (of_nat (Suc i))"
  using of_nat_word64_inj [of "Suc i" 0]
  by (simp add: method_key_def full_profiler_def MAX_CALLTRACES_def del: of_nat_Suc)

lemma full_profiler_inv: "method_inv 7 full_profiler"
proof -
  have inj: "i = j" if "i < MAX_CALLTRACES" "j < MAX_CALLTRACES"
    "(of_nat (Suc i) :: jmethodID) = of_nat (Suc j)" for i j
    using that of_nat_word64_inj [of "Suc i" "Suc j"]
    by (simp add: MAX_CALLTRACES_def del: of_nat_Suc)
  have "tab_inv method_bucket (method_key full_profiler)"
    unfolding tab_inv_def using inj by (simp add: full_profiler_key del: of_nat_Suc)
  moreover have "method_slot_ok 7 s" if "s \<in> set (methods full_profiler)" for s
    using that by (auto simp: full_profiler_def method_slot_ok_def)
  ultimately show ?thesis
    by (simp add: method_inv_def)
qed

lemma full_table_evicts_witness:
  "\<exists>st'. storeMethod 40000 full_profiler = Some st' \<and> method_inv (7 + 1) st' \<and> method_count st' 40000 = 1
    \<and> method_count st' (ms_method (methods full_profiler ! method_bucket 40000)) = 0
    \<and> (\<forall>k. k \<noteq> 40000 \<and> k \<noteq> ms_method (methods full_profiler ! method_bucket 40000) \<longrightarrow>
          method_count st' k = method_count full_profiler k)"
proof (rule full_table_evicts [OF _ full_profiler_inv])
  show "arrays_wf full_profiler"
    by (simp add: arrays_wf_def full_profiler_def)
  have "(of_nat (Suc i) :: jmethodID) \<noteq> 0 \<and> (of_nat (Suc i) :: jmethodID) \<noteq> of_nat 40000"
    if "i < MAX_CALLTRACES" for i
    using that of_nat_word64_inj [of "Suc i" 0] of_nat_word64_inj [of "Suc i" 40000]
    by (auto simp: MAX_CALLTRACES_def simp del: of_nat_Suc)
  then show "\<forall>s\<in>set (methods full_profiler). ms_method s \<noteq> NULL \<and> ms_method s \<noteq> 40000"
    by (auto simp: full_profiler_def simp del: of_nat_Suc)
qed simp_all

lemma full_profiler_wf: "arrays_wf full_profiler"
  by (simp add: arrays_wf_def full_profiler_def)

lemma storeMethod_total_witness:
  "\<exists>ms. storeMethod NULL full_profiler = Some (full_profiler\<lparr>methods := ms\<rparr>) \<and> length ms = MAX_CALLTRACES"
  by (rule storeMethod_total [OF full_profiler_wf])

end
