(* ===== verification/Traces.thy ===== *)
theory Traces
  imports Tables
begin

text \<open>
  The table of call traces: \<open>Profiler::storeCallTrace\<close> over \<open>_hashes\<close> and \<open>_traces\<close>. It is the
  second interpretation of \<open>open_table\<close>, keyed by the 64-bit hash: two traces with one hash are
  one entry, the frames of the first being kept. A hash of 0 marks a free slot, so the lemmas
  about counts speak of traces whose hash is not 0.
\<close>

section \<open>Storing a trace\<close>

definition find_trace :: "profiler \<Rightarrow> u64 \<Rightarrow> (bool \<times> nat) option" where
  "find_trace st hash =
     probe (\<lambda>i. hashes st ! i = hash \<and> 0 < sint (ct_call_count (traces st ! i)))
       (\<lambda>i. hashes st ! i = 0) (bucket_of hash) (bucket_of hash)"

definition storeCallTrace :: "ASGCT_CallTrace \<Rightarrow> profiler \<Rightarrow> profiler option" where
  "storeCallTrace trace st =
     do { hash \<leftarrow> hashCallTrace trace;
          (found, i) \<leftarrow> find_trace st hash;
          s \<leftarrow> rd (traces st) i;
          if found then
            do { ts \<leftarrow> wr (traces st) i (s\<lparr>ct_call_count := ct_call_count s + 1\<rparr>);
                 Some (st\<lparr>traces := ts\<rparr>) }
          else
            do { hs \<leftarrow> wr (hashes st) i hash;
                 s' \<leftarrow> assign trace s;
                 ts \<leftarrow> wr (traces st) i s';
                 Some (st\<lparr>hashes := hs, traces := ts\<rparr>) } }"

section \<open>Invariant and abstraction\<close>

definition trace_key :: "profiler \<Rightarrow> nat \<Rightarrow> u64 option" where
  "trace_key st i = (if hashes st ! i = 0 then None else Some (hashes st ! i))"

text \<open>The trace an entry holds, as the hash function would read it.\<close>

definition stored_trace :: "CallTraceSample \<Rightarrow> ASGCT_CallTrace" where
  "stored_trace s = \<lparr>env = NULL, num_frames = ct_num_frames s, frames = ct_frames s\<rparr>"

text \<open>
  A free slot has no frames to look at, but may have a count: a trace whose hash is 0 leaves one
  there. A used slot has a positive count of at most \<open>B\<close> and holds between one
  and \<open>MAX_FRAMES\<close> frames whose hash is the one beside it.
\<close>

definition trace_slot_ok :: "int \<Rightarrow> u64 \<times> CallTraceSample \<Rightarrow> bool" where
  "trace_slot_ok B hs \<longleftrightarrow> (case hs of (h, s) \<Rightarrow>
     if h = 0 then 0 \<le> sint (ct_call_count s) \<and> sint (ct_call_count s) \<le> B
       \<and> sint (ct_num_frames s) \<le> int MAX_FRAMES
     else 0 < sint (ct_call_count s) \<and> sint (ct_call_count s) \<le> B
       \<and> 0 < sint (ct_num_frames s) \<and> sint (ct_num_frames s) \<le> int MAX_FRAMES
       \<and> hashCallTrace (stored_trace s) = Some h)"

definition trace_slots :: "profiler \<Rightarrow> (u64 \<times> CallTraceSample) list" where
  "trace_slots st = zip (hashes st) (traces st)"

definition trace_inv :: "int \<Rightarrow> profiler \<Rightarrow> bool" where
  "trace_inv B st \<longleftrightarrow> tab_inv bucket_of (trace_key st)
     \<and> (\<forall>hs\<in>set (trace_slots st). trace_slot_ok B hs)"

definition trace_count :: "profiler \<Rightarrow> u64 \<Rightarrow> jint" where
  "trace_count st k =
     sum_list (map (\<lambda>(h, s). if h = k then ct_call_count s else 0) (trace_slots st))"

text \<open>All samples the used slots account for, and the number of used slots.\<close>

definition trace_total :: "profiler \<Rightarrow> jint" where
  "trace_total st = sum_list (map (\<lambda>(h, s). if h = 0 then 0 else ct_call_count s) (trace_slots st))"

definition trace_used :: "profiler \<Rightarrow> nat" where
  "trace_used st = length (filter (\<lambda>h. h \<noteq> 0) (hashes st))"

interpretation ttab: open_table bucket_of
  by unfold_locales (rule bucket_of_bound)

lemma trace_slots_nth:
  "arrays_wf st \<Longrightarrow> i < MAX_CALLTRACES \<Longrightarrow> trace_slots st ! i = (hashes st ! i, traces st ! i)"
  by (simp add: trace_slots_def arrays_wfD)

lemma length_trace_slots: "arrays_wf st \<Longrightarrow> length (trace_slots st) = MAX_CALLTRACES"
  by (simp add: trace_slots_def arrays_wfD)

lemma trace_slot_okD:
  "trace_inv B st \<Longrightarrow> arrays_wf st \<Longrightarrow> i < MAX_CALLTRACES \<Longrightarrow>
   trace_slot_ok B (hashes st ! i, traces st ! i)"
  unfolding trace_inv_def by (metis length_trace_slots nth_mem trace_slots_nth)

lemma trace_slot_ok_mono: "trace_slot_ok B hs \<Longrightarrow> B \<le> B' \<Longrightarrow> trace_slot_ok B' hs"
  by (auto simp: trace_slot_ok_def split: prod.splits if_splits)

lemma find_trace_place:
  assumes "arrays_wf st" "trace_inv B st" "hash \<noteq> 0"
  shows "find_trace st hash = place bucket_of (trace_key st) hash"
proof -
  have "(hashes st ! i = hash \<and> 0 < sint (ct_call_count (traces st ! i)))
      = (trace_key st i = Some hash)" if "i < MAX_CALLTRACES" for i
    using trace_slot_okD [OF assms(2,1) that] assms(3)
    by (auto simp: trace_key_def trace_slot_ok_def split: if_splits)
  moreover have "(hashes st ! i = 0) = (trace_key st i = None)" for i
    by (simp add: trace_key_def)
  ultimately show ?thesis
    unfolding find_trace_def place_def by (intro probe_cong ttab.bucket_bound)
qed

lemma find_trace_bound: "\<exists>r i. find_trace st h = Some (r, i) \<and> i < MAX_CALLTRACES"
  unfolding find_trace_def by (rule probe_total) (rule ttab.bucket_bound)

section \<open>What a store writes\<close>

text \<open>The entry that \<open>assign\<close> leaves behind.\<close>

definition assigned :: "ASGCT_CallTrace \<Rightarrow> CallTraceSample \<Rightarrow> CallTraceSample" where
  "assigned trace s = s\<lparr>ct_call_count := 1, ct_num_frames := num_frames trace,
     ct_frames := take (rounds (num_frames trace)) (frames trace)
       @ drop (rounds (num_frames trace)) (ct_frames s)\<rparr>"

definition trace_ok :: "ASGCT_CallTrace \<Rightarrow> bool" where
  "trace_ok trace \<longleftrightarrow> sint (num_frames trace) \<le> int MAX_FRAMES
     \<and> length (frames trace) = MAX_FRAMES"

lemma trace_ok_rounds: "trace_ok t \<Longrightarrow> rounds (num_frames t) \<le> MAX_FRAMES"
  by (auto simp: trace_ok_def rounds_def)

lemma hashCallTrace_ok:
  assumes "trace_ok t"
  obtains h where "hashCallTrace t = Some h"
  using hashCallTrace_Some_iff [of t] trace_ok_rounds [OF assms] assms
  by (auto simp: trace_ok_def)

lemma hash_assigned:
  assumes "trace_ok t" "length (ct_frames s) = MAX_FRAMES"
  shows "hashCallTrace (stored_trace (assigned t s)) = hashCallTrace t"
  using trace_ok_rounds [OF assms(1)] assms
  by (intro hashCallTrace_cong) (simp_all add: stored_trace_def assigned_def trace_ok_def)

lemma storeCallTrace_found:
  assumes "hashCallTrace t = Some h" "find_trace st h = Some (True, i)" "i < length (traces st)"
  shows "storeCallTrace t st = Some (st\<lparr>traces := (traces st)[i :=
    (traces st ! i)\<lparr>ct_call_count := ct_call_count (traces st ! i) + 1\<rparr>]\<rparr>)"
  using assms by (simp add: storeCallTrace_def array_simps)

lemma storeCallTrace_new:
  assumes "hashCallTrace t = Some h" "find_trace st h = Some (False, i)"
    and "arrays_wf st" "i < MAX_CALLTRACES" "trace_ok t"
  shows "storeCallTrace t st = Some (st\<lparr>hashes := (hashes st)[i := h],
    traces := (traces st)[i := assigned t (traces st ! i)]\<rparr>)"
proof -
  have "assign t (traces st ! i) = Some (assigned t (traces st ! i))"
    using assms trace_ok_rounds [OF assms(5)] unfolding assigned_def
    by (intro assign_Some) (simp_all add: arrays_wfD trace_ok_def)
  with assms show ?thesis
    by (simp add: storeCallTrace_def array_simps arrays_wfD)
qed

lemma storeCallTrace_Some:
  assumes "arrays_wf st" "trace_ok t"
  shows "\<exists>hs ts. storeCallTrace t st = Some (st\<lparr>hashes := hs, traces := ts\<rparr>)
    \<and> arrays_wf (st\<lparr>hashes := hs, traces := ts\<rparr>)"
proof -
  obtain h where h: "hashCallTrace t = Some h"
    using assms(2) by (rule hashCallTrace_ok)
  obtain r i where f: "find_trace st h = Some (r, i)" and i: "i < MAX_CALLTRACES"
    using find_trace_bound by blast
  have upd: "arrays_wf (st\<lparr>hashes := hs, traces := (traces st)[i := s]\<rparr>)"
    if "length hs = MAX_CALLTRACES" "length (ct_frames s) = MAX_FRAMES" for hs s
    using assms(1) that set_update_subset_insert [of "traces st" i s]
    by (auto simp: arrays_wf_def)
  show ?thesis
  proof (cases r)
    case True
    then have *: "storeCallTrace t st = Some (st\<lparr>hashes := hashes st, traces := (traces st)[i :=
        (traces st ! i)\<lparr>ct_call_count := ct_call_count (traces st ! i) + 1\<rparr>]\<rparr>)"
      using storeCallTrace_found [OF h, of st i] f i assms(1) by (simp add: arrays_wfD)
    show ?thesis
      by (intro exI conjI, rule *, rule upd) (use assms(1) i in \<open>simp_all add: arrays_wfD\<close>)
  next
    case False
    then have *: "storeCallTrace t st = Some (st\<lparr>hashes := (hashes st)[i := h],
        traces := (traces st)[i := assigned t (traces st ! i)]\<rparr>)"
      using storeCallTrace_new [OF h _ assms(1) i assms(2)] f by simp
    show ?thesis
      by (intro exI conjI, rule *, rule upd)
        (use assms trace_ok_rounds [OF assms(2)] i in
          \<open>simp_all add: arrays_wfD assigned_def trace_ok_def\<close>)
  qed
qed

text \<open>
  C11. \<open>Profiler::storeCallTrace\<close> always returns for a trace of at most \<open>MAX_FRAMES\<close> frames: the
  hash, the search and the copy stay within their arrays, whatever the table holds (a full table
  and a hash of 0 included), and nothing but \<open>_hashes\<close> and \<open>_traces\<close> is written.
\<close>
theorem storeCallTrace_total:
  assumes "arrays_wf st" "trace_ok t"
  shows "\<exists>hs ts. storeCallTrace t st = Some (st\<lparr>hashes := hs, traces := ts\<rparr>)
    \<and> arrays_wf (st\<lparr>hashes := hs, traces := ts\<rparr>)"
  using assms by (rule storeCallTrace_Some)

section \<open>The effect of one store\<close>

definition trace_upd :: "nat \<Rightarrow> u64 \<Rightarrow> CallTraceSample \<Rightarrow> profiler \<Rightarrow> profiler" where
  "trace_upd i h s st =
     st\<lparr>hashes := (hashes st)[i := h], traces := (traces st)[i := s]\<rparr>"

lemma storeCallTrace_found_upd:
  assumes "hashCallTrace t = Some h" "find_trace st h = Some (True, i)" "i < length (traces st)"
  shows "storeCallTrace t st = Some (trace_upd i (hashes st ! i)
    ((traces st ! i)\<lparr>ct_call_count := ct_call_count (traces st ! i) + 1\<rparr>) st)"
  using storeCallTrace_found [OF assms] by (simp add: trace_upd_def)

lemma storeCallTrace_new_upd:
  assumes "hashCallTrace t = Some h" "find_trace st h = Some (False, i)"
    and "arrays_wf st" "i < MAX_CALLTRACES" "trace_ok t"
  shows "storeCallTrace t st = Some (trace_upd i h (assigned t (traces st ! i)) st)"
  using storeCallTrace_new [OF assms] by (simp add: trace_upd_def)

lemma trace_slots_upd: "trace_slots (trace_upd i h s st) = (trace_slots st)[i := (h, s)]"
  by (simp add: trace_slots_def trace_upd_def update_zip)

lemma trace_key_upd:
  "i < length (hashes st) \<Longrightarrow>
   trace_key (trace_upd i h s st) = (trace_key st)(i := if h = 0 then None else Some h)"
  by (auto simp: trace_key_def trace_upd_def fun_eq_iff nth_list_update)

lemma trace_count_upd:
  assumes "arrays_wf st" "i < MAX_CALLTRACES"
  shows "trace_count (trace_upd i h s st) k = trace_count st k
     - (if hashes st ! i = k then ct_call_count (traces st ! i) else 0)
     + (if h = k then ct_call_count s else 0)"
  using assms unfolding trace_count_def trace_slots_upd
  by (subst sum_list_map_update) (simp_all add: length_trace_slots trace_slots_nth)

lemma trace_total_upd:
  assumes "arrays_wf st" "i < MAX_CALLTRACES"
  shows "trace_total (trace_upd i h s st)
     = trace_total st - (if hashes st ! i = 0 then 0 else ct_call_count (traces st ! i))
       + (if h = 0 then 0 else ct_call_count s)"
  using assms unfolding trace_total_def trace_slots_upd
  by (subst sum_list_map_update) (simp_all add: length_trace_slots trace_slots_nth)

lemma trace_used_upd:
  "trace_used (trace_upd i h s st) \<le> trace_used st + 1"
  "i < length (hashes st) \<Longrightarrow> hashes st ! i \<noteq> 0 \<Longrightarrow> trace_used (trace_upd i h s st) \<le> trace_used st"
  using length_filter_update [of "\<lambda>h. h \<noteq> 0" "hashes st" i h]
  by (simp_all add: trace_used_def trace_upd_def split: if_splits)

lemma trace_slots_ok_upd:
  assumes "trace_inv B st" "B \<le> B'" "trace_slot_ok B' (h, s)"
  shows "\<forall>hs\<in>set ((trace_slots st)[i := (h, s)]). trace_slot_ok B' hs"
proof
  fix p assume "p \<in> set ((trace_slots st)[i := (h, s)])"
  then have "p = (h, s) \<or> p \<in> set (trace_slots st)"
    using set_update_subset_insert [of "trace_slots st" i "(h, s)"] by blast
  moreover have "trace_slot_ok B' q" if "q \<in> set (trace_slots st)" for q
    using assms(1,2) that trace_slot_ok_mono unfolding trace_inv_def by blast
  ultimately show "trace_slot_ok B' p"
    using assms(3) by blast
qed

lemma trace_inv_upd:
  assumes wf: "arrays_wf st" and inv: "trace_inv B st" and "B \<le> B'"
    and "i < MAX_CALLTRACES" "h \<noteq> 0" "trace_slot_ok B' (h, s)"
    and "tab_inv bucket_of ((trace_key st)(i := Some h))"
  shows "trace_inv B' (trace_upd i h s st)"
proof -
  have "\<forall>hs\<in>set ((trace_slots st)[i := (h, s)]). trace_slot_ok B' hs"
    by (rule trace_slots_ok_upd) fact+
  with assms show ?thesis
    by (simp add: trace_inv_def trace_key_upd trace_slots_upd arrays_wfD)
qed

lemma trace_count_at:
  assumes wf: "arrays_wf st" and inv: "tab_inv bucket_of (trace_key st)"
    and i: "i < MAX_CALLTRACES" "trace_key st i = Some h"
  shows "trace_count st h = ct_call_count (traces st ! i)"
proof -
  have h: "hashes st ! i = h" "h \<noteq> 0"
    using i by (auto simp: trace_key_def split: if_splits)
  have "hashes st ! j \<noteq> h" if "j < MAX_CALLTRACES" "j \<noteq> i" for j
  proof
    assume "hashes st ! j = h"
    then have "trace_key st j = Some h"
      using h by (simp add: trace_key_def)
    with tab_inv_unique [OF inv] i that show False by blast
  qed
  then show ?thesis
    using i h wf unfolding trace_count_def
    by (subst sum_list_map_single [where i = i]) (auto simp: length_trace_slots trace_slots_nth)
qed

lemma trace_count_absent:
  assumes "arrays_wf st" "\<forall>j<MAX_CALLTRACES. trace_key st j \<noteq> Some h" "h \<noteq> 0"
  shows "trace_count st h = 0"
  unfolding trace_count_def
proof (intro sum_list_map_0 ballI)
  fix p assume "p \<in> set (trace_slots st)"
  then obtain j where "j < MAX_CALLTRACES" "p = (hashes st ! j, traces st ! j)"
    using assms(1) by (metis in_set_conv_nth length_trace_slots trace_slots_nth)
  with assms(2,3) show "(case p of (h', s) \<Rightarrow> if h' = h then ct_call_count s else 0) = 0"
    by (auto simp: trace_key_def)
qed

lemma trace_used_full:
  assumes "arrays_wf st" "\<forall>j<MAX_CALLTRACES. trace_key st j \<noteq> None"
  shows "trace_used st = MAX_CALLTRACES"
proof -
  have "\<forall>h\<in>set (hashes st). h \<noteq> 0"
    using assms by (metis arrays_wfD(1) in_set_conv_nth trace_key_def)
  then show ?thesis
    using assms(1) by (simp add: trace_used_def arrays_wfD)
qed

text \<open>
  One store of a trace whose hash is not 0: the invariant is kept; as long as a slot is free or
  the trace is known, its count and the total grow by one and no other count changes; otherwise
  the entry in its bucket is replaced and what was counted there is lost.
\<close>

lemma storeCallTrace_cases:
  assumes wf: "arrays_wf st" and inv: "trace_inv B st" and t: "trace_ok t" "0 < sint (num_frames t)"
    and h: "hashCallTrace t = Some h" "h \<noteq> 0" and B: "0 \<le> B" "B < 2 ^ 31 - 1"
  obtains (counted) st' where "storeCallTrace t st = Some st'" "trace_inv (B + 1) st'"
      "\<And>k. k \<noteq> 0 \<Longrightarrow> trace_count st' k = trace_count st k + (if k = h then 1 else 0)"
      "trace_total st' = trace_total st + 1" "trace_used st' \<le> trace_used st + 1"
  | (evicted) st' where "storeCallTrace t st = Some st'" "trace_inv (B + 1) st'"
      "\<And>k. trace_count st' k = (if k = h then 1
         else if k = hashes st ! bucket_of h then 0 else trace_count st k)"
      "trace_used st = MAX_CALLTRACES" "trace_used st' \<le> trace_used st"
proof -
  have tab: "tab_inv bucket_of (trace_key st)"
    using inv by (simp add: trace_inv_def)
  note len = arrays_wfD [OF wf]
  have new_ok: "trace_slot_ok (B + 1) (h, assigned t (traces st ! i))" if "i < MAX_CALLTRACES" for i
    using h t B that hash_assigned [OF t(1), of "traces st ! i"] len
    by (simp add: trace_slot_ok_def assigned_def trace_ok_def)
  note find = find_trace_place [OF wf inv h(2)]
  from tab show thesis
  proof (cases rule: ttab.place_cases [where k = h])
    case (present i)
    let ?s = "traces st ! i"
    let ?s' = "?s\<lparr>ct_call_count := ct_call_count ?s + 1\<rparr>"
    have key: "hashes st ! i = h"
      using present by (simp add: trace_key_def split: if_splits)
    have "trace_slot_ok B (h, ?s)"
      using trace_slot_okD [OF inv wf] present key by metis
    then have "trace_slot_ok (B + 1) (h, ?s')"
      using h B by (simp add: trace_slot_ok_def sint_add_one stored_trace_def)
    then have "trace_inv (B + 1) (trace_upd i h ?s' st)"
      using wf inv h present tab B
      by (intro trace_inv_upd [where B = B]) (simp_all add: fun_upd_idem)
    moreover have "storeCallTrace t st = Some (trace_upd i h ?s' st)"
      using storeCallTrace_found_upd [OF h(1), of st i] present key find len by simp
    moreover have "trace_used (trace_upd i h ?s' st) \<le> trace_used st + 1"
      by (rule trace_used_upd)
    ultimately show thesis
      using present key wf h
      by (intro counted [of "trace_upd i h ?s' st"]) (simp_all add: trace_count_upd trace_total_upd)
  next
    case (free i)
    let ?st' = "trace_upd i h (assigned t (traces st ! i)) st"
    have 0: "hashes st ! i = 0"
      using free by (simp add: trace_key_def split: if_splits)
    have "trace_inv (B + 1) ?st'"
      using wf inv h free B by (intro trace_inv_upd [where B = B] new_ok) simp_all
    moreover have "storeCallTrace t st = Some ?st'"
      using storeCallTrace_new_upd [OF h(1) _ wf free(2) t(1)] free find by simp
    moreover have "trace_used ?st' \<le> trace_used st + 1"
      by (rule trace_used_upd)
    ultimately show thesis
      using free 0 wf h
      by (intro counted [of ?st'])
        (auto simp: trace_count_upd trace_total_upd assigned_def)
  next
    case full
    let ?b = "bucket_of h"
    let ?st' = "trace_upd ?b h (assigned t (traces st ! ?b)) st"
    have b: "?b < MAX_CALLTRACES"
      by (rule ttab.bucket_bound)
    have key: "trace_key st ?b = Some (hashes st ! ?b)" "hashes st ! ?b \<noteq> 0"
      using full b by (auto simp: trace_key_def split: if_splits)
    have "hashes st ! ?b \<noteq> h"
      using full b key by metis
    moreover have "trace_inv (B + 1) ?st'"
      using wf inv h full B b by (intro trace_inv_upd [where B = B] new_ok) simp_all
    moreover have "storeCallTrace t st = Some ?st'"
      using storeCallTrace_new_upd [OF h(1) _ wf b t(1)] full find by simp
    moreover have "trace_used ?st' \<le> trace_used st"
      using key b len by (intro trace_used_upd) simp_all
    ultimately show thesis
      using full b wf h trace_count_at [OF wf tab b key(1)] trace_count_absent [OF wf full(1) h(2)]
        trace_used_full [OF wf full(2)]
      by (intro evicted [of ?st']) (auto simp: trace_count_upd assigned_def)
  qed
qed

text \<open>
  A trace whose hash is 0 goes to a free slot and leaves it free: the next new trace that comes
  to the slot overwrites it.
\<close>

lemma storeCallTrace_zero:
  assumes wf: "arrays_wf st" and inv: "trace_inv B st" and t: "trace_ok t"
    and h: "hashCallTrace t = Some 0" and B: "0 \<le> B" "B < 2 ^ 31 - 1"
    and room: "trace_used st < MAX_CALLTRACES"
  obtains st' where "storeCallTrace t st = Some st'" "trace_inv (B + 1) st'"
    "\<And>k. k \<noteq> 0 \<Longrightarrow> trace_count st' k = trace_count st k"
    "trace_total st' = trace_total st" "trace_used st' = trace_used st"
proof -
  note len = arrays_wfD [OF wf] and finish = that
  obtain j where "j < MAX_CALLTRACES" "trace_key st j = None"
    using trace_used_full [OF wf] room by auto
  then have "\<exists>d<MAX_CALLTRACES. hashes st ! cyc (bucket_of 0) d = 0"
    using cyc_dist [OF ttab.bucket_bound [of 0], of j]
    by (intro exI [of _ "dist (bucket_of 0) j"]) (simp add: trace_key_def split: if_splits)
  then obtain r i where f: "find_trace st 0 = Some (r, i)" and i: "i < MAX_CALLTRACES"
    and 0: "hashes st ! i = 0"
    using probe_at [OF ttab.bucket_bound [of 0],
        of "\<lambda>i. hashes st ! i = 0 \<and> 0 < sint (ct_call_count (traces st ! i))" "\<lambda>i. hashes st ! i = 0"]
    unfolding find_trace_def by blast
  have ok: "trace_slot_ok B (0, traces st ! i)"
    using trace_slot_okD [OF inv wf i] 0 by simp
  have step: thesis
    if s: "storeCallTrace t st = Some (trace_upd i 0 s st)" "trace_slot_ok (B + 1) (0, s)" for s
  proof (rule finish)
    show "storeCallTrace t st = Some (trace_upd i 0 s st)" by (rule s)
    show "trace_total (trace_upd i 0 s st) = trace_total st"
      using wf i 0 by (simp add: trace_total_upd)
    show "trace_count (trace_upd i 0 s st) k = trace_count st k" if "k \<noteq> 0" for k
      using wf i 0 that by (simp add: trace_count_upd)
    show "trace_used (trace_upd i 0 s st) = trace_used st"
      using list_update_id [of "hashes st" i] 0 by (simp add: trace_used_def trace_upd_def)
    have "trace_key (trace_upd i 0 s st) = trace_key st"
      using i len 0 by (simp add: trace_key_upd trace_key_def fun_upd_idem)
    moreover have "\<forall>hs\<in>set ((trace_slots st)[i := (0, s)]). trace_slot_ok (B + 1) hs"
      by (rule trace_slots_ok_upd [OF inv _ s(2)]) simp
    ultimately show "trace_inv (B + 1) (trace_upd i 0 s st)"
      using inv by (simp add: trace_inv_def trace_slots_upd)
  qed
  show thesis
  proof (cases r)
    case True
    then show thesis
      using storeCallTrace_found_upd [OF h, of st i] f i len 0 ok B
      by (intro step) (auto simp: trace_slot_ok_def sint_add_one)
  next
    case False
    then show thesis
      using storeCallTrace_new_upd [OF h _ wf i t] f B t
      by (intro step) (auto simp: trace_slot_ok_def assigned_def trace_ok_def)
  qed
qed

lemma storeCallTrace_total_witness:
  "\<exists>hs ts. storeCallTrace \<lparr>env = 1, num_frames = 2, frames = replicate MAX_FRAMES \<lparr>bci = 3, method_id = 8\<rparr>\<rparr>
      full_profiler = Some (full_profiler\<lparr>hashes := hs, traces := ts\<rparr>)
    \<and> arrays_wf (full_profiler\<lparr>hashes := hs, traces := ts\<rparr>)"
  by (rule storeCallTrace_total [OF full_profiler_wf]) (simp add: trace_ok_def MAX_FRAMES_def)

end
