(* ===== verification/Sampler.thy ===== *)
theory Sampler
  imports Traces
begin

text \<open>
  One sample: the \<open>SIGPROF\<close> handler and \<open>Profiler::recordSample\<close>. The abstract account of a run
  is the list of its outcomes; the refinement theorem says that, from cleared tables, the counters
  and both tables hold exactly the tallies of that list for as many samples as a table has slots.
\<close>

section \<open>The handler\<close>

text \<open>
  What one tick finds outside the agent: the result of \<open>GetEnv\<close>, the interrupted context, and
  the uninitialised array on the handler's stack.
\<close>

record 'u tick =
  get_env :: "jint \<times> ptr"
  ucontext :: 'u
  stack :: "ASGCT_CallFrame list"

definition vm_jni :: "jint \<times> ptr \<Rightarrow> ptr" where
  "vm_jni r = (if fst r = 0 then snd r else NULL)"

text \<open>
  \<open>agct\<close> is \<open>AsyncGetCallTrace\<close> of the JVM: it is given the trace to fill, the depth and the
  context, and the result is the trace after the call.
\<close>

definition recordSample ::
    "(ASGCT_CallTrace \<Rightarrow> jint \<Rightarrow> 'u \<Rightarrow> ASGCT_CallTrace) \<Rightarrow> 'u tick \<Rightarrow> profiler \<Rightarrow> profiler option" where
  "recordSample agct tk st =
     (let st = st\<lparr>calls_total := calls_total st + 1\<rparr>;
          jni = vm_jni (get_env tk)
      in if jni = NULL then Some (st\<lparr>calls_non_java := calls_non_java st + 1\<rparr>)
         else
           (let trace = \<lparr>env = jni, num_frames = of_nat MAX_FRAMES, frames = stack tk\<rparr>;
                trace = agct trace (num_frames trace) (ucontext tk)
            in if 0 < sint (num_frames trace) then
                 do { st \<leftarrow> storeCallTrace trace st;
                      f \<leftarrow> rd (frames trace) 0;
                      storeMethod (method_id f) st }
               else if num_frames trace = - 2 then Some (st\<lparr>calls_gc := calls_gc st + 1\<rparr>)
               else if num_frames trace = - 9 then Some (st\<lparr>calls_deopt := calls_deopt st + 1\<rparr>)
               else Some (st\<lparr>calls_unknown := calls_unknown st + 1\<rparr>)))"

text \<open>A run of the handler, one tick after the other.\<close>

fun record_all ::
    "(ASGCT_CallTrace \<Rightarrow> jint \<Rightarrow> 'u \<Rightarrow> ASGCT_CallTrace) \<Rightarrow> 'u tick list \<Rightarrow> profiler \<Rightarrow> profiler option" where
  "record_all agct [] st = Some st"
| "record_all agct (tk # tks) st = do { st \<leftarrow> recordSample agct tk st; record_all agct tks st }"

text \<open>
  The contract of \<open>AsyncGetCallTrace\<close>: it reports no more frames than the depth it is given, a
  number of 0 or less being a status, and it fills the array it is given, which keeps its size.
\<close>

definition agct_ok :: "(ASGCT_CallTrace \<Rightarrow> jint \<Rightarrow> 'u \<Rightarrow> ASGCT_CallTrace) \<Rightarrow> bool" where
  "agct_ok agct \<longleftrightarrow> (\<forall>t d u. sint (num_frames (agct t d u)) \<le> max 0 (sint d)
     \<and> length (frames (agct t d u)) = length (frames t))"

definition tick_ok :: "'u tick \<Rightarrow> bool" where
  "tick_ok tk \<longleftrightarrow> length (stack tk) = MAX_FRAMES"

section \<open>The abstract account\<close>

datatype outcome = Non_Java | Gc | Deopt | Unknown | Traced ASGCT_CallTrace

definition classify ::
    "(ASGCT_CallTrace \<Rightarrow> jint \<Rightarrow> 'u \<Rightarrow> ASGCT_CallTrace) \<Rightarrow> 'u tick \<Rightarrow> outcome" where
  "classify agct tk =
     (let jni = vm_jni (get_env tk);
          t = agct \<lparr>env = jni, num_frames = of_nat MAX_FRAMES, frames = stack tk\<rparr>
                (of_nat MAX_FRAMES) (ucontext tk)
      in if jni = NULL then Non_Java
         else if 0 < sint (num_frames t) then Traced t
         else if num_frames t = - 2 then Gc
         else if num_frames t = - 9 then Deopt
         else Unknown)"

definition is_trace :: "u64 \<Rightarrow> outcome \<Rightarrow> bool" where
  "is_trace h out = (case out of Traced t \<Rightarrow> hashCallTrace t = Some h | _ \<Rightarrow> False)"

definition is_leaf :: "jmethodID \<Rightarrow> outcome \<Rightarrow> bool" where
  "is_leaf m out = (case out of Traced t \<Rightarrow> method_id (frames t ! 0) = m | _ \<Rightarrow> False)"

definition is_hashed :: "outcome \<Rightarrow> bool" where
  "is_hashed out = (case out of Traced t \<Rightarrow> hashCallTrace t \<noteq> Some 0 | _ \<Rightarrow> False)"

definition tally :: "(outcome \<Rightarrow> bool) \<Rightarrow> outcome list \<Rightarrow> nat" where
  "tally P outs = length (filter P outs)"

definition accounts :: "outcome list \<Rightarrow> profiler \<Rightarrow> bool" where
  "accounts outs st \<longleftrightarrow>
     calls_total st = of_nat (length outs)
     \<and> calls_non_java st = of_nat (tally (\<lambda>out. out = Non_Java) outs)
     \<and> calls_gc st = of_nat (tally (\<lambda>out. out = Gc) outs)
     \<and> calls_deopt st = of_nat (tally (\<lambda>out. out = Deopt) outs)
     \<and> calls_unknown st = of_nat (tally (\<lambda>out. out = Unknown) outs)
     \<and> trace_total st = of_nat (tally is_hashed outs)
     \<and> (\<forall>h. h \<noteq> 0 \<longrightarrow> trace_count st h = of_nat (tally (is_trace h) outs))
     \<and> (\<forall>m. m \<noteq> NULL \<longrightarrow> method_count st m = of_nat (tally (is_leaf m) outs))"

text \<open>The representation invariant after \<open>n\<close> samples.\<close>

definition tables_inv :: "nat \<Rightarrow> profiler \<Rightarrow> bool" where
  "tables_inv n st \<longleftrightarrow> arrays_wf st \<and> trace_inv (int n) st \<and> method_inv (int n) st
     \<and> trace_used st \<le> n \<and> method_used st \<le> n"

lemma tally_snoc: "tally P (outs @ [out]) = tally P outs + (if P out then 1 else 0)"
  by (simp add: tally_def)

section \<open>Frame lemmas\<close>

lemma trace_view_cong:
  assumes "hashes st' = hashes st" "traces st' = traces st"
  shows "trace_inv B st' = trace_inv B st" "trace_count st' = trace_count st"
    "trace_total st' = trace_total st" "trace_used st' = trace_used st"
proof -
  have "trace_key st' = trace_key st" "trace_slots st' = trace_slots st"
    using assms by (simp_all add: fun_eq_iff trace_key_def trace_slots_def)
  with assms show "trace_inv B st' = trace_inv B st" "trace_count st' = trace_count st"
    "trace_total st' = trace_total st" "trace_used st' = trace_used st"
    by (auto simp: trace_inv_def trace_count_def trace_total_def trace_used_def)
qed

lemma method_view_cong:
  assumes "methods st' = methods st"
  shows "method_inv B st' = method_inv B st" "method_count st' = method_count st"
    "method_used st' = method_used st"
proof -
  have "method_key st' = method_key st"
    using assms by (simp add: fun_eq_iff method_key_def)
  with assms show "method_inv B st' = method_inv B st" "method_count st' = method_count st"
    "method_used st' = method_used st"
    by (auto simp: method_inv_def method_count_def method_used_def)
qed

lemma trace_inv_mono: "trace_inv B st \<Longrightarrow> B \<le> B' \<Longrightarrow> trace_inv B' st"
  using trace_slot_ok_mono unfolding trace_inv_def by blast

lemma method_inv_mono: "method_inv B st \<Longrightarrow> B \<le> B' \<Longrightarrow> method_inv B' st"
  using method_slot_ok_mono unfolding method_inv_def by blast

text \<open>Both stores leave the rest of the state alone.\<close>

definition same_rest :: "profiler \<Rightarrow> profiler \<Rightarrow> bool" where
  "same_rest st st' \<longleftrightarrow> running st' = running st \<and> calls_total st' = calls_total st
     \<and> calls_non_java st' = calls_non_java st \<and> calls_gc st' = calls_gc st
     \<and> calls_deopt st' = calls_deopt st \<and> calls_unknown st' = calls_unknown st
     \<and> portno st' = portno st \<and> sockfd st' = sockfd st"

lemma storeCallTrace_frame:
  "storeCallTrace t st = Some st' \<Longrightarrow> same_rest st st' \<and> methods st' = methods st"
  by (auto simp: storeCallTrace_def same_rest_def split: bind_splits prod.splits if_splits)

lemma storeMethod_frame:
  "storeMethod m st = Some st' \<Longrightarrow>
   same_rest st st' \<and> hashes st' = hashes st \<and> traces st' = traces st"
  by (auto simp: storeMethod_def same_rest_def split: bind_splits prod.splits)

lemma storeMethod_wf:
  assumes "arrays_wf st" "storeMethod m st = Some st'"
  shows "arrays_wf st'"
proof -
  obtain ms where "storeMethod m st = Some (st\<lparr>methods := ms\<rparr>)" "length ms = MAX_CALLTRACES"
    using assms(1) by (rule storeMethod_Some)
  with assms have "st' = st\<lparr>methods := ms\<rparr>" "length ms = MAX_CALLTRACES" by simp_all
  with assms(1) show ?thesis by (simp add: arrays_wf_def)
qed

lemma storeCallTrace_wf:
  "arrays_wf st \<Longrightarrow> trace_ok t \<Longrightarrow> storeCallTrace t st = Some st' \<Longrightarrow> arrays_wf st'"
  using storeCallTrace_Some by fastforce

section \<open>One step\<close>

lemma store_trace_step:
  assumes inv: "tables_inv n st" and room: "n < MAX_CALLTRACES"
    and t: "trace_ok t" "0 < sint (num_frames t)"
  obtains st' where "storeCallTrace t st = Some st'" "trace_inv (int (Suc n)) st'"
    "trace_used st' \<le> Suc n"
    "trace_total st' = trace_total st + (if is_hashed (Traced t) then 1 else 0)"
    "\<forall>h. h \<noteq> 0 \<longrightarrow> trace_count st' h = trace_count st h + (if is_trace h (Traced t) then 1 else 0)"
proof -
  have I: "arrays_wf st" "trace_inv (int n) st" "trace_used st \<le> n"
    using inv by (simp_all add: tables_inv_def)
  have B: "0 \<le> int n" "int n < 2 ^ 31 - 1"
    using room by (simp_all add: MAX_CALLTRACES_def)
  obtain h where h: "hashCallTrace t = Some h"
    using t(1) by (rule hashCallTrace_ok)
  show thesis
  proof (cases "h = 0")
    case True
    with h have "hashCallTrace t = Some 0" by simp
    moreover have "trace_used st < MAX_CALLTRACES"
      using room I(3) by simp
    ultimately obtain st' where st': "storeCallTrace t st = Some st'" "trace_inv (int n + 1) st'"
      "\<And>k. k \<noteq> 0 \<Longrightarrow> trace_count st' k = trace_count st k"
      "trace_total st' = trace_total st" "trace_used st' = trace_used st"
      using storeCallTrace_zero [OF I(1,2) t(1) _ B] by blast
    show thesis
      by (rule that [of st']) (use st' h True I(3) in \<open>simp_all add: is_hashed_def is_trace_def add.commute\<close>)
  next
    case False
    show thesis
    proof (cases rule: storeCallTrace_cases [OF I(1,2) t h False B])
      case counted: (1 st')
      with h False I(3) show thesis
        by (intro that [of st']) (auto simp: is_hashed_def is_trace_def add.commute)
    next
      case 2
      with room I(3) show thesis by simp
    qed
  qed
qed

lemma store_method_step:
  assumes inv: "arrays_wf st" "method_inv (int n) st" "method_used st \<le> n" and room: "n < MAX_CALLTRACES"
  obtains st' where "storeMethod m st = Some st'" "method_inv (int (Suc n)) st'"
    "method_used st' \<le> Suc n"
    "\<forall>k. k \<noteq> NULL \<longrightarrow> method_count st' k = method_count st k + (if k = m then 1 else 0)"
proof -
  have B: "0 \<le> int n" "int n < 2 ^ 31 - 1"
    using room by (simp_all add: MAX_CALLTRACES_def)
  show thesis
  proof (cases "m = NULL")
    case True
    have "method_used st < MAX_CALLTRACES"
      using room inv(3) by simp
    then obtain st' where st': "storeMethod NULL st = Some st'" "method_inv (int n + 1) st'"
      "\<And>k. k \<noteq> NULL \<Longrightarrow> method_count st' k = method_count st k" "method_used st' = method_used st"
      using storeMethod_NULL [OF inv(1,2) B] by blast
    show thesis
      by (rule that [of st']) (use st' True inv(3) in \<open>simp_all add: add.commute\<close>)
  next
    case False
    show thesis
    proof (cases rule: storeMethod_cases [OF inv(1,2) False B])
      case counted: (1 st')
      with inv(3) show thesis
        by (intro that [of st']) (auto simp: add.commute)
    next
      case 2
      with room inv(3) show thesis by simp
    qed
  qed
qed

text \<open>The two calls that \<open>recordSample\<close> makes for a Java stack.\<close>

lemma store_both:
  assumes inv: "tables_inv n st" and room: "n < MAX_CALLTRACES"
    and t: "trace_ok t" "0 < sint (num_frames t)"
  obtains st' where
    "do { st \<leftarrow> storeCallTrace t st; f \<leftarrow> rd (frames t) 0; storeMethod (method_id f) st } = Some st'"
    "tables_inv (Suc n) st'" "same_rest st st'"
    "trace_total st' = trace_total st + (if is_hashed (Traced t) then 1 else 0)"
    "\<forall>h. h \<noteq> 0 \<longrightarrow> trace_count st' h = trace_count st h + (if is_trace h (Traced t) then 1 else 0)"
    "\<forall>m. m \<noteq> NULL \<longrightarrow> method_count st' m = method_count st m + (if is_leaf m (Traced t) then 1 else 0)"
proof -
  obtain st1 where s1: "storeCallTrace t st = Some st1" "trace_inv (int (Suc n)) st1"
    "trace_used st1 \<le> Suc n"
    "trace_total st1 = trace_total st + (if is_hashed (Traced t) then 1 else 0)"
    "\<forall>h. h \<noteq> 0 \<longrightarrow> trace_count st1 h = trace_count st h + (if is_trace h (Traced t) then 1 else 0)"
    by (rule store_trace_step [OF inv room t])
  have m1: "same_rest st st1" "methods st1 = methods st"
    using storeCallTrace_frame [OF s1(1)] by auto
  have I1: "arrays_wf st1" "method_inv (int n) st1" "method_used st1 \<le> n"
    using inv s1(1) t(1) storeCallTrace_wf method_view_cong [OF m1(2)]
    unfolding tables_inv_def by metis+
  define m where "m = method_id (frames t ! 0)"
  obtain st2 where s2: "storeMethod m st1 = Some st2" "method_inv (int (Suc n)) st2"
    "method_used st2 \<le> Suc n"
    "\<forall>k. k \<noteq> NULL \<longrightarrow> method_count st2 k = method_count st1 k + (if k = m then 1 else 0)"
    by (rule store_method_step [OF I1 room])
  have m2: "same_rest st1 st2" "hashes st2 = hashes st1" "traces st2 = traces st1"
    using storeMethod_frame [OF s2(1)] by auto
  have "rd (frames t) 0 = Some (frames t ! 0)"
    using t(1) by (simp add: trace_ok_def MAX_FRAMES_def array_simps)
  then have "do { st \<leftarrow> storeCallTrace t st; f \<leftarrow> rd (frames t) 0; storeMethod (method_id f) st } = Some st2"
    using s1(1) s2(1) by (simp add: m_def)
  moreover have "tables_inv (Suc n) st2"
    unfolding tables_inv_def using storeMethod_wf [OF I1(1) s2(1)] s1 s2 trace_view_cong [OF m2(2,3)]
    by simp
  moreover have "same_rest st st2"
    using m1(1) m2(1) by (simp add: same_rest_def)
  ultimately show thesis
    using s1 s2 trace_view_cong [OF m2(2,3)] method_view_cong [OF m1(2)]
    by (intro that [of st2]) (auto simp: is_leaf_def m_def)
qed

lemma recordSample_classify:
  "recordSample agct tk st =
     (let st = st\<lparr>calls_total := calls_total st + 1\<rparr>
      in case classify agct tk of
           Non_Java \<Rightarrow> Some (st\<lparr>calls_non_java := calls_non_java st + 1\<rparr>)
         | Gc \<Rightarrow> Some (st\<lparr>calls_gc := calls_gc st + 1\<rparr>)
         | Deopt \<Rightarrow> Some (st\<lparr>calls_deopt := calls_deopt st + 1\<rparr>)
         | Unknown \<Rightarrow> Some (st\<lparr>calls_unknown := calls_unknown st + 1\<rparr>)
         | Traced t \<Rightarrow> do { st \<leftarrow> storeCallTrace t st; f \<leftarrow> rd (frames t) 0;
             storeMethod (method_id f) st })"
  by (simp add: recordSample_def classify_def Let_def)

lemma classify_Traced:
  assumes "agct_ok agct" "tick_ok tk" "classify agct tk = Traced t"
  shows "trace_ok t" "0 < sint (num_frames t)"
proof -
  let ?t0 = "\<lparr>env = vm_jni (get_env tk), num_frames = of_nat MAX_FRAMES, frames = stack tk\<rparr>"
  have t: "t = agct ?t0 (of_nat MAX_FRAMES) (ucontext tk)" and pos: "0 < sint (num_frames t)"
    using assms(3) by (auto simp: classify_def Let_def split: if_splits)
  have "sint (num_frames t) \<le> max 0 (sint (of_nat MAX_FRAMES :: jint))"
    "length (frames t) = length (frames ?t0)"
    unfolding t using assms(1) unfolding agct_ok_def by blast+
  then show "trace_ok t"
    using assms(2) by (simp add: trace_ok_def tick_ok_def MAX_FRAMES_def)
  show "0 < sint (num_frames t)" by (rule pos)
qed

lemma tables_inv_cong:
  assumes "hashes st' = hashes st" "traces st' = traces st" "methods st' = methods st"
  shows "tables_inv n st' = tables_inv n st"
proof -
  have "arrays_wf st' = arrays_wf st"
    using assms by (simp add: arrays_wf_def)
  then show ?thesis
    unfolding tables_inv_def trace_view_cong [OF assms(1,2)] method_view_cong [OF assms(3)] by simp
qed

lemma tables_inv_Suc: "tables_inv n st \<Longrightarrow> tables_inv (Suc n) st"
  by (auto simp: tables_inv_def intro: trace_inv_mono method_inv_mono)

lemma accounts_counter:
  assumes acc: "accounts outs st" and other: "\<forall>t. out \<noteq> Traced t"
    and same: "hashes st' = hashes st" "traces st' = traces st" "methods st' = methods st"
    and count: "calls_total st' = calls_total st + 1"
      "calls_non_java st' = calls_non_java st + (if out = Non_Java then 1 else 0)"
      "calls_gc st' = calls_gc st + (if out = Gc then 1 else 0)"
      "calls_deopt st' = calls_deopt st + (if out = Deopt then 1 else 0)"
      "calls_unknown st' = calls_unknown st + (if out = Unknown then 1 else 0)"
  shows "accounts (outs @ [out]) st'"
proof -
  have "\<not> is_hashed out" "\<not> is_trace h out" "\<not> is_leaf m out" for h m
    using other by (cases out; simp add: is_hashed_def is_trace_def is_leaf_def)+
  with acc show ?thesis
    unfolding accounts_def trace_view_cong [OF same(1,2)] method_view_cong [OF same(3)] count
    by (auto simp: tally_snoc)
qed

lemma recordSample_step:
  assumes agct: "agct_ok agct" and tk: "tick_ok tk" and inv: "tables_inv n st"
    and room: "n < MAX_CALLTRACES"
  obtains st' where "recordSample agct tk st = Some st'" "tables_inv (Suc n) st'"
    "\<And>outs. accounts outs st \<Longrightarrow> accounts (outs @ [classify agct tk]) st'"
    "running st' = running st" "portno st' = portno st" "sockfd st' = sockfd st"
proof -
  note finish = that
  let ?st = "st\<lparr>calls_total := calls_total st + 1\<rparr>"
  have inv1: "tables_inv n ?st"
    using inv by (subst tables_inv_cong [where st = st]) simp_all
  have same: thesis
    if st': "recordSample agct tk st = Some st'" "hashes st' = hashes st" "traces st' = traces st"
      "methods st' = methods st" "running st' = running st" "portno st' = portno st"
      "sockfd st' = sockfd st"
      and acc: "\<And>outs. accounts outs st \<Longrightarrow> accounts (outs @ [classify agct tk]) st'" for st'
  proof (rule finish [of st'])
    show "tables_inv (Suc n) st'"
      using inv tables_inv_Suc tables_inv_cong [OF st'(2-4)] by blast
  qed (use st' acc in simp_all)
  note view = trace_view_cong method_view_cong
  show thesis
  proof (cases "classify agct tk")
    case (Traced t)
    note t = classify_Traced [OF agct tk Traced]
    obtain st' where st': "do { st \<leftarrow> storeCallTrace t ?st; f \<leftarrow> rd (frames t) 0;
        storeMethod (method_id f) st } = Some st'"
      "tables_inv (Suc n) st'" "same_rest ?st st'"
      "trace_total st' = trace_total ?st + (if is_hashed (Traced t) then 1 else 0)"
      "\<forall>h. h \<noteq> 0 \<longrightarrow> trace_count st' h = trace_count ?st h + (if is_trace h (Traced t) then 1 else 0)"
      "\<forall>m. m \<noteq> NULL \<longrightarrow> method_count st' m = method_count ?st m + (if is_leaf m (Traced t) then 1 else 0)"
      by (rule store_both [OF inv1 room t])
    have rec: "recordSample agct tk st = Some st'"
      unfolding recordSample_classify using Traced st'(1) by (simp add: Let_def)
    have eqs: "trace_total ?st = trace_total st" "trace_count ?st = trace_count st"
      "method_count ?st = method_count st"
      using view [of ?st st] by simp_all
    have "accounts (outs @ [classify agct tk]) st'" if acc: "accounts outs st" for outs
    proof -
      have "trace_total st' = of_nat (tally is_hashed (outs @ [Traced t]))"
        using st'(4) acc unfolding eqs tally_snoc accounts_def by simp
      moreover have "trace_count st' h = of_nat (tally (is_trace h) (outs @ [Traced t]))" if "h \<noteq> 0" for h
        using st'(5) acc that unfolding eqs tally_snoc accounts_def by simp
      moreover have "method_count st' m = of_nat (tally (is_leaf m) (outs @ [Traced t]))" if "m \<noteq> NULL" for m
        using st'(6) acc that unfolding eqs tally_snoc accounts_def by simp
      ultimately show ?thesis
        using st'(3) acc unfolding Traced accounts_def same_rest_def by (simp add: tally_snoc)
    qed
    then show thesis
      using that [OF rec st'(2)] st'(3) by (simp add: same_rest_def)
  next
    case Non_Java
    show thesis
      by (rule same [of "?st\<lparr>calls_non_java := calls_non_java ?st + 1\<rparr>"], simp add: recordSample_classify Non_Java)
        (simp_all add: Non_Java accounts_counter)
  next
    case Gc
    show thesis
      by (rule same [of "?st\<lparr>calls_gc := calls_gc ?st + 1\<rparr>"], simp add: recordSample_classify Gc)
        (simp_all add: Gc accounts_counter)
  next
    case Deopt
    show thesis
      by (rule same [of "?st\<lparr>calls_deopt := calls_deopt ?st + 1\<rparr>"], simp add: recordSample_classify Deopt)
        (simp_all add: Deopt accounts_counter)
  next
    case Unknown
    show thesis
      by (rule same [of "?st\<lparr>calls_unknown := calls_unknown ?st + 1\<rparr>"], simp add: recordSample_classify Unknown)
        (simp_all add: Unknown accounts_counter)
  qed
qed

text \<open>
  A run of at most as many samples as a table has slots: it never fails, keeps the invariant and
  ends with exactly the account of its outcomes.
\<close>

lemma record_all_account:
  assumes "agct_ok agct"
  shows "list_all tick_ok tks \<Longrightarrow> tables_inv n st \<Longrightarrow> n + length tks \<le> MAX_CALLTRACES \<Longrightarrow>
    accounts outs st \<Longrightarrow>
    \<exists>st'. record_all agct tks st = Some st' \<and> tables_inv (n + length tks) st'
      \<and> accounts (outs @ map (classify agct) tks) st'
      \<and> running st' = running st \<and> portno st' = portno st \<and> sockfd st' = sockfd st"
proof (induction tks arbitrary: n st outs)
  case (Cons tk tks)
  have "tick_ok tk" "n < MAX_CALLTRACES"
    using Cons.prems by simp_all
  then obtain st1 where st1: "recordSample agct tk st = Some st1" "tables_inv (Suc n) st1"
    "accounts (outs @ [classify agct tk]) st1" "running st1 = running st"
    "portno st1 = portno st" "sockfd st1 = sockfd st"
    using recordSample_step [OF assms _ Cons.prems(2)] Cons.prems(4) by metis
  with Cons.IH [of "Suc n" st1 "outs @ [classify agct tk]"] Cons.prems show ?case
    by simp
qed simp

text \<open>Without a bound on the number of samples the handler still never fails.\<close>

lemma recordSample_safe:
  assumes agct: "agct_ok agct" and tk: "tick_ok tk" and wf: "arrays_wf st"
  obtains st' where "recordSample agct tk st = Some st'" "arrays_wf st'" "running st' = running st"
proof -
  let ?st = "st\<lparr>calls_total := calls_total st + 1\<rparr>"
  have wf1: "arrays_wf ?st"
    using wf by (simp add: arrays_wf_def)
  show thesis
  proof (cases "classify agct tk")
    case (Traced t)
    note t = classify_Traced [OF agct tk Traced]
    obtain st1 where st1: "storeCallTrace t ?st = Some st1" "arrays_wf st1"
      using storeCallTrace_Some [OF wf1 t(1)] by blast
    obtain st2 where st2: "storeMethod (method_id (frames t ! 0)) st1 = Some st2"
      using st1(2) by (rule storeMethod_Some)
    have "rd (frames t) 0 = Some (frames t ! 0)"
      using t(1) by (simp add: trace_ok_def MAX_FRAMES_def array_simps)
    then have "recordSample agct tk st = Some st2"
      unfolding recordSample_classify using Traced st1 st2 by (simp add: Let_def)
    moreover have "running st2 = running st"
      using storeCallTrace_frame [OF st1(1)] storeMethod_frame [OF st2] by (simp add: same_rest_def)
    ultimately show thesis
      using that storeMethod_wf [OF st1(2) st2] by blast
  qed (auto intro!: that simp: recordSample_classify Let_def wf [unfolded arrays_wf_def] arrays_wf_def)
qed

text \<open>
  C7. The \<open>SIGPROF\<close> handler is memory-safe and always returns: any number of ticks, far beyond
  the capacity of the tables and with any traces the JVM may report, runs through; the arrays
  keep their sizes and the running flag is untouched.
\<close>
theorem record_all_safe:
  assumes "agct_ok agct" "list_all tick_ok tks" "arrays_wf st"
  shows "\<exists>st'. record_all agct tks st = Some st' \<and> arrays_wf st' \<and> running st' = running st"
  using assms(2,3)
proof (induction tks arbitrary: st)
  case (Cons tk tks)
  then obtain st1 where "recordSample agct tk st = Some st1" "arrays_wf st1" "running st1 = running st"
    using recordSample_safe [OF assms(1), of tk st] by auto
  with Cons show ?case by fastforce
qed simp

end
