(* ===== verification/Control.thy ===== *)
theory Control
  imports Sampler "HOL-Library.Signed_Division"
begin

text \<open>
  Starting and stopping: \<open>Profiler::start\<close>, \<open>stop\<close> and \<open>setTimer\<close> with the two pieces of
  process state they change, the disposition of \<open>SIGPROF\<close> and the \<open>ITIMER_PROF\<close> timer. The
  theorems say what a started profiler is ready for, that its account of the samples is exact,
  and in which state a stop leaves the process.
\<close>

section \<open>The process\<close>

text \<open>
  The handler values that the code assigns. On Linux \<open>SIG_DFL\<close> is the null pointer, and
  \<open>sa_handler\<close> and \<open>sa_sigaction\<close> are the two members of one union.
\<close>

datatype handler = SIG_DFL | SIG_IGN | Sigprof_Handler

record sigaction_t =
  sa_union :: handler
  sa_flags :: jint

record process =
  sigprof :: handler
  sigprof_flags :: jint
  itimer :: "int \<times> int"

abbreviation set_sa_handler :: "handler \<Rightarrow> sigaction_t \<Rightarrow> sigaction_t" where
  "set_sa_handler \<equiv> \<lambda>h. sa_union_update (\<lambda>_. h)"

abbreviation set_sa_sigaction :: "handler \<Rightarrow> sigaction_t \<Rightarrow> sigaction_t" where
  "set_sa_sigaction \<equiv> \<lambda>h. sa_union_update (\<lambda>_. h)"

definition SA_SIGINFO :: jint where "SA_SIGINFO = 4"

definition SA_RESTART :: jint where "SA_RESTART = 0x10000000"

text \<open>
  \<open>setitimer\<close> fails with \<open>EINVAL\<close>, and changes nothing, unless the microseconds are in
  \<open>0 .. 999999\<close> and the seconds are not negative. The code ignores its result.
\<close>

definition setitimer :: "int \<Rightarrow> int \<Rightarrow> process \<Rightarrow> process" where
  "setitimer sec usec p =
     (if 0 \<le> sec \<and> 0 \<le> usec \<and> usec < 1000000 then p\<lparr>itimer := (sec, usec)\<rparr> else p)"

definition armed :: "process \<Rightarrow> bool" where
  "armed p \<longleftrightarrow> itimer p \<noteq> (0, 0)"

section \<open>setTimer, start, stop\<close>

text \<open>\<open>setTimer\<close> up to and including its call of \<open>sigaction\<close>.\<close>

definition setTimer_install :: "64 word \<Rightarrow> jint \<Rightarrow> sigaction_t \<Rightarrow> process \<Rightarrow> process" where
  "setTimer_install sec usec sa p =
     (let enabled = (sec \<noteq> 0 \<or> usec \<noteq> 0);
          sa = set_sa_handler (if enabled then SIG_DFL else SIG_IGN) sa;
          sa = set_sa_sigaction (if enabled then Sigprof_Handler else SIG_DFL) sa;
          sa = sa\<lparr>sa_flags := SA_RESTART OR SA_SIGINFO\<rparr>
      in p\<lparr>sigprof := sa_union sa, sigprof_flags := sa_flags sa\<rparr>)"

definition setTimer :: "64 word \<Rightarrow> jint \<Rightarrow> sigaction_t \<Rightarrow> process \<Rightarrow> process" where
  "setTimer sec usec sa p = setitimer (sint sec) (sint usec) (setTimer_install sec usec sa p)"

definition zero_trace :: CallTraceSample where
  "zero_trace = \<lparr>ct_call_count = 0, ct_num_frames = 0,
     ct_frames = replicate MAX_FRAMES \<lparr>bci = 0, method_id = NULL\<rparr>\<rparr>"

definition zero_method :: MethodSample where
  "zero_method = \<lparr>ms_call_count = 0, ms_method = NULL\<rparr>"

definition clear :: "profiler \<Rightarrow> profiler" where
  "clear st = st\<lparr>calls_total := 0, calls_non_java := 0, calls_gc := 0, calls_deopt := 0,
     calls_unknown := 0, hashes := replicate MAX_CALLTRACES 0,
     traces := replicate MAX_CALLTRACES zero_trace,
     methods := replicate MAX_CALLTRACES zero_method\<rparr>"

text \<open>\<open>sa0\<close> is the uninitialised \<open>struct sigaction\<close> on the stack of \<open>setTimer\<close>.\<close>

definition start :: "64 word \<Rightarrow> sigaction_t \<Rightarrow> profiler \<times> process \<Rightarrow> profiler \<times> process" where
  "start interval sa0 sp = (case sp of (st, p) \<Rightarrow>
     if running st then (st, p)
     else (let st = st\<lparr>running := True\<rparr>;
               st = clear st
           in (st, setTimer (word_of_int (sint interval sdiv 1000)) (ucast (interval * 1000)) sa0 p)))"

definition stop :: "sigaction_t \<Rightarrow> profiler \<times> process \<Rightarrow> profiler \<times> process" where
  "stop sa0 sp = (case sp of (st, p) \<Rightarrow>
     if \<not> running st then (st, p)
     else (st\<lparr>running := False\<rparr>, setTimer 0 0 sa0 p))"

text \<open>The single instance: static storage is zero, and the constructor sets \<open>_running\<close>.\<close>

definition initial_profiler :: profiler where
  "initial_profiler = \<lparr>running = False, calls_total = 0, calls_non_java = 0, calls_gc = 0,
     calls_deopt = 0, calls_unknown = 0, hashes = replicate MAX_CALLTRACES 0,
     traces = replicate MAX_CALLTRACES zero_trace, methods = replicate MAX_CALLTRACES zero_method,
     portno = 0, sockfd = 0\<rparr>"

section \<open>Cleared tables\<close>

lemma arrays_wf_clear [simp]: "arrays_wf (clear st)"
  by (simp add: arrays_wf_def clear_def zero_trace_def)

lemma arrays_wf_initial [simp]: "arrays_wf initial_profiler"
  by (simp add: arrays_wf_def initial_profiler_def zero_trace_def)

lemma trace_slots_clear: "trace_slots (clear st) = replicate MAX_CALLTRACES (0, zero_trace)"
  by (simp add: trace_slots_def clear_def zip_replicate)

lemma tables_inv_clear: "tables_inv 0 (clear st)"
proof -
  have "trace_inv 0 (clear st)"
  proof -
    have "tab_inv bucket_of (trace_key (clear st))"
      by (subst tab_inv_cong [where key' = "\<lambda>_. None"])
        (simp_all add: tab_inv_empty trace_key_def clear_def)
    then show ?thesis
      by (simp add: trace_inv_def trace_slots_clear trace_slot_ok_def zero_trace_def)
  qed
  moreover have "method_inv 0 (clear st)"
  proof -
    have "tab_inv method_bucket (method_key (clear st))"
      by (subst tab_inv_cong [where key' = "\<lambda>_. None"])
        (simp_all add: tab_inv_empty method_key_def clear_def zero_method_def)
    then show ?thesis
      by (simp add: method_inv_def clear_def method_slot_ok_def zero_method_def)
  qed
  moreover have "trace_used (clear st) = 0" "method_used (clear st) = 0"
    by (simp_all add: trace_used_def method_used_def clear_def zero_method_def)
  ultimately show ?thesis
    by (simp add: tables_inv_def)
qed

lemma accounts_clear: "accounts [] (clear st)"
proof -
  have "trace_total (clear st) = 0"
    unfolding trace_total_def trace_slots_clear by (intro sum_list_map_0) simp
  moreover have "trace_count (clear st) h = 0" for h
    unfolding trace_count_def trace_slots_clear by (intro sum_list_map_0) (simp add: zero_trace_def)
  moreover have "method_count (clear st) m = 0" for m
    unfolding method_count_def by (intro sum_list_map_0) (simp add: clear_def zero_method_def)
  ultimately show ?thesis
    by (simp add: accounts_def tally_def) (simp add: clear_def)
qed

lemma start_idle:
  "\<not> running st \<Longrightarrow> fst (start interval sa (st, p)) = clear (st\<lparr>running := True\<rparr>)"
  by (simp add: start_def Let_def)

section \<open>The account of a profiling run\<close>

lemma profile_account:
  assumes "agct_ok agct" "list_all tick_ok tks" "length tks \<le> MAX_CALLTRACES" "\<not> running st"
  obtains st' where "record_all agct tks (fst (start interval sa (st, p))) = Some st'"
    "tables_inv (length tks) st'" "accounts (map (classify agct) tks) st'" "running st'"
proof -
  let ?c = "clear (st\<lparr>running := True\<rparr>)"
  have "running ?c" by (simp add: clear_def)
  with record_all_account [OF assms(1,2) tables_inv_clear [of "st\<lparr>running := True\<rparr>"] _
      accounts_clear [of "st\<lparr>running := True\<rparr>"]] assms(3)
  show thesis
    using start_idle [OF assms(4)] that by auto
qed

text \<open>
  C1. What the profiler reports is exact: after \<open>start\<close> on an idle profiler, a run of up to
  \<open>MAX_CALLTRACES\<close> ticks ends with every counter equal to the number of ticks of its kind, the
  count of every trace hash other than 0 equal to the number of ticks that saw a trace with that
  hash, and the count of every method other than \<open>NULL\<close> equal to the number of ticks that saw it
  on top of the stack. Nothing is lost, merged across keys or counted twice.
\<close>
theorem profile_exact:
  assumes "agct_ok agct" "list_all tick_ok tks" "length tks \<le> MAX_CALLTRACES" "\<not> running st"
  shows "\<exists>st'. record_all agct tks (fst (start interval sa (st, p))) = Some st'
    \<and> accounts (map (classify agct) tks) st'"
  by (rule profile_account [OF assms]) blast

definition sample_agct :: "ASGCT_CallTrace \<Rightarrow> jint \<Rightarrow> jmethodID \<Rightarrow> ASGCT_CallTrace" where
  "sample_agct t d u = (if frames t = [] then t\<lparr>num_frames := - 2\<rparr>
     else t\<lparr>num_frames := (if d = 64 then 1 else - 2), frames := (frames t)[0 := \<lparr>bci = 7, method_id = u\<rparr>]\<rparr>)"

definition sample_tick :: "jmethodID \<Rightarrow> jmethodID tick" where
  "sample_tick m = \<lparr>get_env = (0, 42), ucontext = m, stack = replicate MAX_FRAMES \<lparr>bci = 0, method_id = 0\<rparr>\<rparr>"

lemma agct_ok_sample: "agct_ok sample_agct"
  by (auto simp: agct_ok_def sample_agct_def)

lemma tick_ok_sample: "tick_ok (sample_tick m)"
  by (simp add: tick_ok_def sample_tick_def)

lemma initial_idle: "\<not> running initial_profiler"
  by (simp add: initial_profiler_def)

definition idle_process :: process where
  "idle_process = \<lparr>sigprof = SIG_DFL, sigprof_flags = 0, itimer = (0, 0)\<rparr>"

definition stack_sigaction :: sigaction_t where
  "stack_sigaction = \<lparr>sa_union = SIG_IGN, sa_flags = 0\<rparr>"

lemma profile_exact_witness:
  "\<exists>st'. record_all sample_agct [sample_tick 5, sample_tick 9, sample_tick 5]
      (fst (start 10 stack_sigaction (initial_profiler, idle_process))) = Some st'
    \<and> accounts (map (classify sample_agct) [sample_tick 5, sample_tick 9, sample_tick 5]) st'"
  by (rule profile_exact [OF agct_ok_sample _ _ initial_idle])
    (simp_all add: tick_ok_sample MAX_CALLTRACES_def)

lemma record_all_safe_witness:
  "\<exists>st'. record_all sample_agct [sample_tick 0, sample_tick 7] initial_profiler = Some st'
    \<and> arrays_wf st' \<and> running st' = running initial_profiler"
  by (rule record_all_safe [OF agct_ok_sample]) (simp_all add: tick_ok_sample)

lemma tally_kinds:
  "list_all (\<lambda>out. \<forall>t. out = Traced t \<longrightarrow> is_hashed out) outs \<Longrightarrow>
   length outs = tally (\<lambda>out. out = Non_Java) outs + tally (\<lambda>out. out = Gc) outs
     + tally (\<lambda>out. out = Deopt) outs + tally (\<lambda>out. out = Unknown) outs + tally is_hashed outs"
proof (induction outs)
  case (Cons out outs)
  then show ?case
    by (cases out) (simp_all add: tally_def is_hashed_def)
qed (simp add: tally_def)

lemma sint_of_nat_small: "n \<le> MAX_CALLTRACES \<Longrightarrow> sint (of_nat n :: jint) = int n"
  by (simp add: MAX_CALLTRACES_def signed_of_nat signed_take_bit_int_eq_self)

lemma tally_le: "tally P outs \<le> length outs"
  by (simp add: tally_def)

text \<open>
  C9. Every sample is accounted for exactly once: in a run as above whose traces have hashes other
  than 0, the total equals the four counters of ticks without a Java stack plus the counts in the
  trace table, as C integers.
\<close>
theorem samples_conserved:
  assumes "agct_ok agct" "list_all tick_ok tks" "length tks \<le> MAX_CALLTRACES" "\<not> running st"
    and "list_all (\<lambda>tk. \<forall>t. classify agct tk = Traced t \<longrightarrow> hashCallTrace t \<noteq> Some 0) tks"
  shows "\<exists>st'. record_all agct tks (fst (start interval sa (st, p))) = Some st'
    \<and> sint (calls_total st') = sint (calls_non_java st') + sint (calls_gc st')
        + sint (calls_deopt st') + sint (calls_unknown st') + sint (trace_total st')"
proof -
  let ?outs = "map (classify agct) tks"
  obtain st' where rec: "record_all agct tks (fst (start interval sa (st, p))) = Some st'"
    and acc: "accounts ?outs st'"
    using profile_account [OF assms(1-4)] by metis
  have "list_all (\<lambda>out. \<forall>t. out = Traced t \<longrightarrow> is_hashed out) ?outs"
    using assms(5) by (auto simp: list_all_iff is_hashed_def)
  note sum = tally_kinds [OF this]
  have small: "sint (of_nat (tally P ?outs) :: jint) = int (tally P ?outs)" for P
    using tally_le [of P ?outs] assms(3) by (intro sint_of_nat_small) simp
  have "sint (of_nat (length ?outs) :: jint) = int (length ?outs)"
    using assms(3) by (intro sint_of_nat_small) simp
  with acc small sum rec show ?thesis
    by (intro exI [of _ st'] conjI) (simp_all add: accounts_def)
qed

lemma classify_sample:
  "classify sample_agct (sample_tick m) = Traced \<lparr>env = 42, num_frames = 1,
     frames = (replicate MAX_FRAMES \<lparr>bci = 0, method_id = 0\<rparr>)[0 := \<lparr>bci = 7, method_id = m\<rparr>]\<rparr>"
  by (simp add: classify_def sample_agct_def sample_tick_def vm_jni_def Let_def MAX_FRAMES_def)

lemma samples_conserved_witness:
  "\<exists>st'. record_all sample_agct [sample_tick 5, sample_tick 9]
      (fst (start 10 stack_sigaction (initial_profiler, idle_process))) = Some st'
    \<and> sint (calls_total st') = sint (calls_non_java st') + sint (calls_gc st')
        + sint (calls_deopt st') + sint (calls_unknown st') + sint (trace_total st')"
  by (rule samples_conserved [OF agct_ok_sample _ _ initial_idle])
    (simp_all add: tick_ok_sample MAX_CALLTRACES_def classify_sample hashCallTrace_def rounds_def
      rd_def hash_frame_def hash_M_def Let_def MAX_FRAMES_def)

section \<open>The timer\<close>

text \<open>The narrowing of \<open>interval * 1000\<close> to \<open>int\<close> is exact up to about 35 minutes.\<close>

lemma narrow_small:
  "0 \<le> x \<Longrightarrow> x < 2147483648 \<Longrightarrow> sint (ucast (word_of_int x :: 64 word) :: jint) = x"
  by (simp add: unsigned_of_int signed_of_int signed_of_nat take_bit_int_eq_self signed_take_bit_int_eq_self)

lemma usec_of_interval:
  fixes interval :: "64 word"
  assumes "0 \<le> sint interval" "sint interval \<le> 2147483"
  shows "sint (ucast (interval * 1000) :: jint) = sint interval * 1000"
proof -
  define k where "k = sint interval"
  then have k: "sint interval = k" "interval = word_of_int k" "0 \<le> k" "k \<le> 2147483"
    using assms by simp_all
  have "interval * 1000 = word_of_int (k * 1000)"
    unfolding k(2) by (simp only: wi_hom_mult flip: word_of_int_numeral)
  moreover have "sint (ucast (word_of_int (k * 1000) :: 64 word) :: jint) = k * 1000"
    using k by (intro narrow_small) simp_all
  ultimately show ?thesis by (simp only: k(1))
qed

text \<open>
  C12. A start on an idle profiler with an interval below one second arms the timer at that
  interval, with the handler in place before it can fire; a start while running changes nothing.
\<close>
theorem start_arms:
  assumes "0 < sint interval" "sint interval < 1000"
  shows "case start interval sa (st, p) of (st', p') \<Rightarrow>
     if running st then st' = st \<and> p' = p
     else running st' \<and> sigprof p' = Sigprof_Handler \<and> itimer p' = (0, sint interval * 1000)
       \<and> sigprof (setTimer_install 0 (ucast (interval * 1000)) sa p) = Sigprof_Handler"
proof (cases "running st")
  case False
  have usec: "sint (ucast (interval * 1000) :: jint) = sint interval * 1000"
    using assms by (intro usec_of_interval) simp_all
  then have "(ucast (interval * 1000) :: jint) \<noteq> 0"
    using assms by auto
  moreover have "sint interval sdiv 1000 = 0"
    using assms by (simp add: signed_divide_int_def)
  ultimately show ?thesis
    using False usec assms
    by (simp add: start_def Let_def setTimer_def setTimer_install_def setitimer_def clear_def)
qed (simp add: start_def)

lemma start_arms_witness:
  "case start 10 stack_sigaction (initial_profiler, idle_process) of (st', p') \<Rightarrow>
     if running initial_profiler then st' = initial_profiler \<and> p' = idle_process
     else running st' \<and> sigprof p' = Sigprof_Handler \<and> itimer p' = (0, sint (10 :: 64 word) * 1000)
       \<and> sigprof (setTimer_install 0 (ucast ((10 :: 64 word) * 1000)) stack_sigaction idle_process)
           = Sigprof_Handler"
  by (rule start_arms) simp_all

text \<open>
  An interval of a second or more is never armed: the microseconds passed to \<open>setitimer\<close> are
  the whole interval and not its remainder, the call fails unseen, and the profiler is left
  running with the timer as it was.
\<close>
theorem start_long_interval:
  assumes "1000 \<le> sint interval" "sint interval \<le> 2147483" "\<not> running st"
  shows "running (fst (start interval sa (st, p))) \<and> itimer (snd (start interval sa (st, p))) = itimer p"
proof -
  have "sint (ucast (interval * 1000) :: jint) = sint interval * 1000"
    using assms by (intro usec_of_interval) simp_all
  with assms show ?thesis
    by (simp add: start_def Let_def setTimer_def setTimer_install_def setitimer_def clear_def)
qed

lemma start_long_interval_witness:
  "running (fst (start 1500 stack_sigaction (initial_profiler, idle_process)))
   \<and> itimer (snd (start 1500 stack_sigaction (initial_profiler, idle_process))) = itimer idle_process"
  by (rule start_long_interval) (simp_all add: initial_profiler_def)

text \<open>
  A stop disarms the timer, but first it takes the handler away: the second assignment to the
  union undoes the \<open>SIG_IGN\<close> of the first, so until \<open>setitimer\<close> runs the timer is armed while
  the disposition of \<open>SIGPROF\<close> is the default one, which ends the process.
\<close>
theorem stop_disarms:
  "case stop sa (st, p) of (st', p') \<Rightarrow>
     if running st then \<not> running st' \<and> \<not> armed p' \<and> sigprof p' = SIG_DFL
       \<and> sigprof (setTimer_install 0 0 sa p) = SIG_DFL \<and> (armed (setTimer_install 0 0 sa p) = armed p)
     else st' = st \<and> p' = p"
  by (simp add: stop_def setTimer_def setTimer_install_def setitimer_def armed_def)

end
