(* ===== verification/VM.thy ===== *)
theory VM
  imports Prelude
begin

text \<open>
  The JVM side of the agent (\<open>vmEntry.h\<close>, \<open>vmEntry.cpp\<close>): what \<open>VM::init\<close> asks of the JVM, the
  creation of method ids for all classes, and the table \<open>compiles_info\<close> that \<open>CompiledMethodLoad\<close>
  keeps. The table holds pointers to heap objects, so the heap is explicit: an object that was
  deleted is gone from it, and a read through a pointer to it is \<open>None\<close>.
\<close>

section \<open>VM::init\<close>

datatype capability =
    can_generate_all_class_hook_events | can_get_bytecodes | can_get_constant_pool
  | can_get_source_file_name | can_get_line_numbers | can_generate_compiled_method_load_events
  | can_redefine_classes | can_redefine_any_class

datatype event = VM_INIT | CLASS_LOAD | CLASS_PREPARE | COMPILED_METHOD_LOAD

record jvmti_setup =
  capabilities :: "capability set"
  callbacks :: "event set"
  enabled :: "event list"

abbreviation JNI_OK :: jint where "JNI_OK \<equiv> 0"
abbreviation JVMTI_ERROR_NONE :: jint where "JVMTI_ERROR_NONE \<equiv> 0"

text \<open>
  What the JVM answers: the result of \<open>GetEnv\<close> with the environment, and the error codes of
  \<open>AddCapabilities\<close> and \<open>SetEventCallbacks\<close>. A call that fails changes nothing.
\<close>

record jvm_answers =
  getenv_result :: jint
  getenv_jvmti :: ptr
  add_capabilities :: "capability set \<Rightarrow> jint"
  set_event_callbacks :: "event set \<Rightarrow> jint"

definition set_capabilities :: "jvm_answers \<Rightarrow> jvmti_setup \<Rightarrow> jint \<times> jvmti_setup" where
  "set_capabilities jvm s =
     (let caps = {can_generate_all_class_hook_events, can_get_bytecodes, can_get_constant_pool,
                  can_get_source_file_name, can_get_line_numbers,
                  can_generate_compiled_method_load_events, can_redefine_classes,
                  can_redefine_any_class};
          err = add_capabilities jvm caps
      in (err, if err = JVMTI_ERROR_NONE then s\<lparr>capabilities := caps \<union> capabilities s\<rparr> else s))"

definition register_all_callback_functions ::
    "jvm_answers \<Rightarrow> jvmti_setup \<Rightarrow> jint \<times> jvmti_setup" where
  "register_all_callback_functions jvm s =
     (let cbs = {VM_INIT, CLASS_LOAD, CLASS_PREPARE, COMPILED_METHOD_LOAD};
          err = set_event_callbacks jvm cbs
      in (err, if err = JVMTI_ERROR_NONE then s\<lparr>callbacks := cbs\<rparr> else s))"

definition enable_event :: "event \<Rightarrow> jvmti_setup \<Rightarrow> jvmti_setup" where
  "enable_event ev s = s\<lparr>enabled := enabled s @ [ev]\<rparr>"

definition vm_init :: "jvm_answers \<Rightarrow> jvmti_setup \<Rightarrow> jint \<times> jvmti_setup" where
  "vm_init jvm s =
     (if getenv_result jvm \<noteq> JNI_OK \<or> getenv_jvmti jvm = NULL then (getenv_result jvm, s)
      else
        (let (error, s) = set_capabilities jvm s
         in if error \<noteq> JVMTI_ERROR_NONE then (error, s)
            else
              (let (error, s) = register_all_callback_functions jvm s
               in if error \<noteq> JVMTI_ERROR_NONE then (error, s)
                  else
                    (let s = enable_event VM_INIT s;
                         s = enable_event CLASS_LOAD s;
                         s = enable_event CLASS_PREPARE s;
                         s = enable_event COMPILED_METHOD_LOAD s
                     in (JNI_OK, s)))))"

text \<open>
  \<open>VM::init\<close> enables events only after every callback is registered and every capability
  is held: a successful call with an environment has all three in place, and any call that
  leaves early has enabled nothing.
\<close>
theorem vm_init_complete:
  "case vm_init jvm s of (res, s') \<Rightarrow>
     if res = JNI_OK \<and> getenv_jvmti jvm \<noteq> NULL
     then enabled s' = enabled s @ [VM_INIT, CLASS_LOAD, CLASS_PREPARE, COMPILED_METHOD_LOAD]
       \<and> set (drop (length (enabled s)) (enabled s')) \<subseteq> callbacks s'
       \<and> can_generate_compiled_method_load_events \<in> capabilities s'
       \<and> can_redefine_any_class \<in> capabilities s'
     else enabled s' = enabled s"
  by (simp add: vm_init_def set_capabilities_def register_all_callback_functions_def enable_event_def
      Let_def split: prod.splits)

section \<open>Method ids\<close>

text \<open>
  \<open>AsyncGetCallTrace\<close> only reports methods whose ids exist, and asking for the methods of a class
  creates them. \<open>outstanding\<close> counts the JVMTI buffers not yet given back.
\<close>

type_synonym jclass = ptr

record jvmti_ids =
  outstanding :: int
  with_ids :: "jclass list"

record class_answers =
  get_class_methods :: "jclass \<Rightarrow> jint"
  get_loaded_classes :: "jint \<times> jclass list"

definition loadMethodIDs :: "class_answers \<Rightarrow> jclass \<Rightarrow> jvmti_ids \<Rightarrow> jvmti_ids" where
  "loadMethodIDs jvm klass s =
     (if get_class_methods jvm klass = 0 then
        (let s = s\<lparr>outstanding := outstanding s + 1, with_ids := with_ids s @ [klass]\<rparr>
         in s\<lparr>outstanding := outstanding s - 1\<rparr>)
      else s)"

definition loadAllMethodIDs :: "class_answers \<Rightarrow> jvmti_ids \<Rightarrow> jvmti_ids" where
  "loadAllMethodIDs jvm s =
     (case get_loaded_classes jvm of (err, classes) \<Rightarrow>
       if err = 0 then
         (let s = s\<lparr>outstanding := outstanding s + 1\<rparr>;
              s = fold (loadMethodIDs jvm) classes s
          in s\<lparr>outstanding := outstanding s - 1\<rparr>)
       else s)"

lemma fold_loadMethodIDs:
  "fold (loadMethodIDs jvm) classes s =
     s\<lparr>with_ids := with_ids s @ filter (\<lambda>k. get_class_methods jvm k = 0) classes\<rparr>"
  by (induction classes arbitrary: s) (simp_all add: loadMethodIDs_def)

text \<open>
  \<open>loadAllMethodIDs\<close> gives back every buffer it obtains, on every path, and has asked for
  the ids of exactly the loaded classes whose query succeeds.
\<close>
theorem loadAllMethodIDs_balanced:
  "outstanding (loadAllMethodIDs jvm s) = outstanding s
   \<and> with_ids (loadAllMethodIDs jvm s) = with_ids s
      @ (if fst (get_loaded_classes jvm) = 0
         then filter (\<lambda>k. get_class_methods jvm k = 0) (snd (get_loaded_classes jvm)) else [])"
  by (simp add: loadAllMethodIDs_def fold_loadMethodIDs split: prod.split)

section \<open>Compiled methods\<close>

record CompileInfo =
  code_size :: jint
  map_length :: jint
  code_addr :: ptr
  compile_info :: ptr
  ci_method :: jmethodID

text \<open>
  The map's values are pointers, \<open>None\<close> being \<open>nullptr\<close>; \<open>heap\<close> holds the objects that are alive,
  and \<open>next_obj\<close> is the identity of the next object (identities are not reused, so a dangling
  pointer stays recognisable).
\<close>

record vm =
  compiles_info :: "jmethodID \<Rightarrow> nat option option"
  heap :: "nat \<Rightarrow> CompileInfo option"
  next_obj :: nat

definition empty_vm :: vm where
  "empty_vm = \<lparr>compiles_info = Map.empty, heap = Map.empty, next_obj = 0\<rparr>"

text \<open>The chain of records behind \<open>compile_info\<close>, in the order of the \<open>next\<close> pointers.\<close>

record PCStackInfo =
  numstackframes :: jint
  pc_methods :: "jmethodID list"

datatype cmlr =
    Dummy_Record
  | Inline_Record jint "PCStackInfo list option"
  | Other_Record jint

text \<open>\<open>unordered_map::operator[]\<close>: an absent key is inserted with \<open>nullptr\<close>.\<close>

definition map_index :: "jmethodID \<Rightarrow> vm \<Rightarrow> nat option \<times> vm" where
  "map_index m s = (case compiles_info s m of
     Some p \<Rightarrow> (p, s)
   | None \<Rightarrow> (None, s\<lparr>compiles_info := (compiles_info s)(m \<mapsto> None)\<rparr>))"

definition map_assign :: "jmethodID \<Rightarrow> nat option \<Rightarrow> vm \<Rightarrow> vm" where
  "map_assign m p s = s\<lparr>compiles_info := (compiles_info s)(m \<mapsto> p)\<rparr>"

definition new_info :: "CompileInfo \<Rightarrow> vm \<Rightarrow> nat \<times> vm" where
  "new_info ci s =
     (next_obj s, s\<lparr>heap := (heap s)(next_obj s \<mapsto> ci), next_obj := Suc (next_obj s)\<rparr>)"

definition delete_info :: "nat \<Rightarrow> vm \<Rightarrow> vm" where
  "delete_info p s = s\<lparr>heap := (heap s)(p := None)\<rparr>"

text \<open>The two inner loops over an inline record: \<open>k\<close> rounds left, at index \<open>j\<close>.\<close>

fun assign_methods :: "jmethodID list \<Rightarrow> nat \<Rightarrow> nat \<Rightarrow> nat option \<Rightarrow> vm \<Rightarrow> vm option" where
  "assign_methods ms 0 j p s = Some s"
| "assign_methods ms (Suc k) j p s =
     do { m \<leftarrow> rd ms j; assign_methods ms k (Suc j) p (map_assign m p s) }"

fun assign_pcs :: "PCStackInfo list \<Rightarrow> nat \<Rightarrow> nat \<Rightarrow> nat option \<Rightarrow> vm \<Rightarrow> vm option" where
  "assign_pcs pcs 0 i p s = Some s"
| "assign_pcs pcs (Suc k) i p s =
     do { pc \<leftarrow> rd pcs i;
          s \<leftarrow> assign_methods (pc_methods pc) (rounds (numstackframes pc)) 0 p s;
          assign_pcs pcs k (Suc i) p s }"

fun assign_records :: "cmlr list \<Rightarrow> nat option \<Rightarrow> vm \<Rightarrow> vm option" where
  "assign_records [] p s = Some s"
| "assign_records (Dummy_Record # rs) p s = assign_records rs p s"
| "assign_records (Inline_Record n None # rs) p s = assign_records rs p s"
| "assign_records (Inline_Record n (Some pcs) # rs) p s =
     do { s \<leftarrow> assign_pcs pcs (rounds n) 0 p s; assign_records rs p s }"
| "assign_records (Other_Record k # rs) p s = assign_records rs p s"

text \<open>
  One event. \<open>chain\<close> is what \<open>compile_info\<close> points to; \<open>None\<close> is a read through a dangling
  pointer or past the end of an array.
\<close>

record load_event =
  le_method :: jmethodID
  le_code_size :: jint
  le_code_addr :: ptr
  le_map_length :: jint
  le_compile_info :: ptr
  le_chain :: "cmlr list"

definition CompiledMethodLoad :: "load_event \<Rightarrow> vm \<Rightarrow> vm option" where
  "CompiledMethodLoad e s =
     (let (info, s) = map_index (le_method e) s in
      do { s \<leftarrow> (case info of
               None \<Rightarrow> Some s
             | Some p \<Rightarrow> do { ci \<leftarrow> heap s p;
                 Some (if ci_method ci = le_method e then delete_info p s else s) });
           let (p, s) = new_info \<lparr>code_size = le_code_size e, map_length = le_map_length e,
                          code_addr = le_code_addr e, compile_info = le_compile_info e,
                          ci_method = le_method e\<rparr> s;
           let s = map_assign (le_method e) (Some p) s;
           if le_compile_info e \<noteq> NULL then assign_records (le_chain e) (Some p) s else Some s })"

fun load_all :: "load_event list \<Rightarrow> vm \<Rightarrow> vm option" where
  "load_all [] s = Some s"
| "load_all (e # es) s = do { s \<leftarrow> CompiledMethodLoad e s; load_all es s }"

text \<open>The methods whose entries an event redirects to its object.\<close>

fun record_methods :: "cmlr \<Rightarrow> jmethodID set" where
  "record_methods (Inline_Record n (Some pcs)) =
     (\<Union>pc \<in> set (take (rounds n) pcs). set (take (rounds (numstackframes pc)) (pc_methods pc)))"
| "record_methods _ = {}"

definition inlined_methods :: "load_event \<Rightarrow> jmethodID set" where
  "inlined_methods e =
     (if le_compile_info e = NULL then {} else (\<Union>r \<in> set (le_chain e). record_methods r))"

text \<open>The counts of an event stay within its arrays: the contract of the JVM.\<close>

fun record_ok :: "cmlr \<Rightarrow> bool" where
  "record_ok (Inline_Record n (Some pcs)) \<longleftrightarrow> rounds n \<le> length pcs
     \<and> (\<forall>pc \<in> set pcs. rounds (numstackframes pc) \<le> length (pc_methods pc))"
| "record_ok _ \<longleftrightarrow> True"

definition event_ok :: "load_event \<Rightarrow> bool" where
  "event_ok e \<longleftrightarrow> list_all record_ok (le_chain e)"

section \<open>The effect of one event\<close>

definition redirect :: "jmethodID set \<Rightarrow> nat option \<Rightarrow> vm \<Rightarrow> vm" where
  "redirect M p s = s\<lparr>compiles_info := (\<lambda>m. if m \<in> M then Some p else compiles_info s m)\<rparr>"

lemma redirect_empty [simp]: "redirect {} p s = s"
  by (simp add: redirect_def)

lemma redirect_redirect [simp]: "redirect M p (redirect N p s) = redirect (M \<union> N) p s"
  by (auto simp: redirect_def fun_eq_iff)

lemma map_assign_redirect: "map_assign m p s = redirect {m} p s"
  by (simp add: map_assign_def redirect_def fun_upd_def)

lemma assign_methods_redirect:
  "j + k \<le> length ms \<Longrightarrow> assign_methods ms k j p s = Some (redirect (set (take k (drop j ms))) p s)"
proof (induction k arbitrary: j s)
  case (Suc k)
  then have "drop j ms = ms ! j # drop (Suc j) ms"
    by (simp add: Cons_nth_drop_Suc)
  with Suc show ?case
    by (simp add: array_simps map_assign_redirect)
qed simp

lemma assign_pcs_redirect:
  "i + k \<le> length pcs \<Longrightarrow> \<forall>pc \<in> set pcs. rounds (numstackframes pc) \<le> length (pc_methods pc) \<Longrightarrow>
   assign_pcs pcs k i p s = Some (redirect (\<Union>pc \<in> set (take k (drop i pcs)).
     set (take (rounds (numstackframes pc)) (pc_methods pc))) p s)"
proof (induction k arbitrary: i s)
  case (Suc k)
  then have "drop i pcs = pcs ! i # drop (Suc i) pcs"
    by (simp add: Cons_nth_drop_Suc)
  with Suc show ?case
    by (simp add: array_simps assign_methods_redirect Un_commute)
qed simp

lemma assign_records_redirect:
  "list_all record_ok rs \<Longrightarrow>
   assign_records rs p s = Some (redirect (\<Union>r \<in> set rs. record_methods r) p s)"
  by (induction rs p s rule: assign_records.induct)
    (simp_all add: assign_pcs_redirect Un_commute)

text \<open>The pointer under a key, and the method its object was compiled for; outer \<open>None\<close>: dangling.\<close>

definition entry :: "vm \<Rightarrow> jmethodID \<Rightarrow> nat option" where
  "entry s m = (case compiles_info s m of None \<Rightarrow> None | Some p \<Rightarrow> p)"

definition unit_of :: "vm \<Rightarrow> jmethodID \<Rightarrow> jmethodID option option" where
  "unit_of s m = (case entry s m of
     None \<Rightarrow> Some None
   | Some p \<Rightarrow> map_option (\<lambda>ci. Some (ci_method ci)) (heap s p))"

definition touched :: "load_event \<Rightarrow> jmethodID set" where
  "touched e = insert (le_method e) (inlined_methods e)"

definition event_info :: "load_event \<Rightarrow> CompileInfo" where
  "event_info e = \<lparr>code_size = le_code_size e, map_length = le_map_length e,
     code_addr = le_code_addr e, compile_info = le_compile_info e, ci_method = le_method e\<rparr>"

lemma map_index_entry: "fst (map_index m s) = entry s m"
  by (simp add: map_index_def entry_def split: option.split)

lemma map_index_heap:
  "heap (snd (map_index m s)) = heap s" "next_obj (snd (map_index m s)) = next_obj s"
  by (simp_all add: map_index_def split: option.split)

lemma map_index_redirect: "redirect (insert m M) p (snd (map_index m s)) = redirect (insert m M) p s"
  by (auto simp: map_index_def redirect_def fun_eq_iff split: option.split)

text \<open>The heap that an event starts from: the object under its own method is deleted.\<close>

definition heap_after_delete :: "load_event \<Rightarrow> vm \<Rightarrow> (nat \<Rightarrow> CompileInfo option) option" where
  "heap_after_delete e s = (case entry s (le_method e) of
     None \<Rightarrow> Some (heap s)
   | Some p \<Rightarrow> (case heap s p of
       None \<Rightarrow> None
     | Some ci \<Rightarrow> Some (if ci_method ci = le_method e then (heap s)(p := None) else heap s)))"

lemma CompiledMethodLoad_eq:
  assumes "event_ok e"
  shows "CompiledMethodLoad e s = map_option (\<lambda>h.
    redirect (touched e) (Some (next_obj s))
      (s\<lparr>heap := h(next_obj s \<mapsto> event_info e), next_obj := Suc (next_obj s)\<rparr>)) (heap_after_delete e s)"
proof -
  obtain info s1 where s1: "map_index (le_method e) s = (info, s1)"
    by fastforce
  have info: "info = entry s (le_method e)" and h1: "heap s1 = heap s" "next_obj s1 = next_obj s"
    using s1 map_index_entry [of "le_method e" s] map_index_heap [of "le_method e" s] by simp_all
  define fin where "fin s2 = (let (p, s) = new_info (event_info e) s2;
      s = map_assign (le_method e) (Some p) s
    in if le_compile_info e \<noteq> NULL then assign_records (le_chain e) (Some p) s else Some s)" for s2
  have load: "CompiledMethodLoad e s = (case info of None \<Rightarrow> fin s1
      | Some p \<Rightarrow> heap s1 p \<bind> (\<lambda>ci. fin (if ci_method ci = le_method e then delete_info p s1 else s1)))"
    by (simp add: CompiledMethodLoad_def s1 fin_def event_info_def Let_def split: option.split)
  have fin: "fin s2 = Some (redirect (touched e) (Some (next_obj s2))
      (s2\<lparr>heap := (heap s2)(next_obj s2 \<mapsto> event_info e), next_obj := Suc (next_obj s2)\<rparr>))" for s2
    using assms assign_records_redirect [of "le_chain e"]
    by (simp add: fin_def new_info_def map_assign_redirect touched_def inlined_methods_def event_ok_def
        Let_def)
  have mi: "compiles_info (redirect (touched e) q s1) = compiles_info (redirect (touched e) q s)" for q
    using map_index_redirect [of "le_method e" "inlined_methods e" q s] s1 by (simp add: touched_def)
  then have red: "redirect (touched e) q (s1\<lparr>heap := h, next_obj := n\<rparr>)
      = redirect (touched e) q (s\<lparr>heap := h, next_obj := n\<rparr>)" for q h n
    using mi [of q] by (intro vm.equality) (simp_all add: redirect_def cong: if_cong)
  show ?thesis
    unfolding load fin info heap_after_delete_def
    using red h1 by (auto simp: delete_info_def split: option.split)
qed

section \<open>Safety of the table\<close>

text \<open>
  Every pointer in the table leads to a live object whose method is among \<open>D\<close>, the methods
  loaded so far.
\<close>

definition vm_inv :: "jmethodID set \<Rightarrow> vm \<Rightarrow> bool" where
  "vm_inv D s \<longleftrightarrow>
     (\<forall>m p. entry s m = Some p \<longrightarrow> (\<exists>ci. heap s p = Some ci \<and> ci_method ci \<in> D))
     \<and> (\<forall>p. heap s p \<noteq> None \<longrightarrow> p < next_obj s)"

lemma vm_inv_empty: "vm_inv {} empty_vm"
  by (simp add: vm_inv_def empty_vm_def entry_def)

lemma entry_redirect:
  "entry (redirect M p s) m = (if m \<in> M then p else entry s m)"
  by (simp add: entry_def redirect_def)

lemma heap_kept:
  assumes "vm_inv D s" "le_method e \<notin> D"
  shows "heap_after_delete e s = Some (heap s)"
proof (cases "entry s (le_method e)")
  case (Some p)
  then obtain ci where "heap s p = Some ci" "ci_method ci \<in> D"
    using assms(1) unfolding vm_inv_def by blast
  then show ?thesis
    using Some assms(2) by (auto simp: heap_after_delete_def)
qed (simp add: heap_after_delete_def)

lemma load_step:
  assumes inv: "vm_inv D s" and ok: "event_ok e" and new: "le_method e \<notin> D"
  obtains s' where "CompiledMethodLoad e s = Some s'" "vm_inv (insert (le_method e) D) s'"
    "\<And>m. unit_of s' m = (if m \<in> touched e then Some (Some (le_method e)) else unit_of s m)"
proof -
  let ?s = "s\<lparr>heap := (heap s)(next_obj s \<mapsto> event_info e), next_obj := Suc (next_obj s)\<rparr>"
  let ?s' = "redirect (touched e) (Some (next_obj s)) ?s"
  have "heap_after_delete e s = Some (heap s)"
    by (rule heap_kept [OF inv new])
  then have load: "CompiledMethodLoad e s = Some ?s'"
    using CompiledMethodLoad_eq [OF ok] by simp
  have e: "entry ?s' m = (if m \<in> touched e then Some (next_obj s) else entry s m)" for m
    by (simp add: entry_redirect) (simp add: entry_def)
  have h: "heap ?s' = (heap s)(next_obj s \<mapsto> event_info e)" "next_obj ?s' = Suc (next_obj s)"
    by (simp_all add: redirect_def)
  have live: "\<exists>ci. heap s p = Some ci \<and> ci_method ci \<in> D" "p \<noteq> next_obj s" if "entry s m = Some p" for m p
    using inv that unfolding vm_inv_def by blast+
  have "vm_inv (insert (le_method e) D) ?s'"
  proof -
    have "\<exists>ci. heap ?s' p = Some ci \<and> ci_method ci \<in> insert (le_method e) D"
      if "entry ?s' m = Some p" for m p
    proof (cases "m \<in> touched e")
      case True
      with that have "p = next_obj s" by (simp add: e)
      then have "heap ?s' p = Some (event_info e)" by (simp add: h)
      then show ?thesis by (simp add: event_info_def)
    next
      case False
      with that have "entry s m = Some p" by (simp add: e)
      from live [OF this] show ?thesis by (auto simp: h)
    qed
    moreover have "\<forall>p. heap ?s' p \<noteq> None \<longrightarrow> p < next_obj ?s'"
      unfolding h using inv by (auto simp: vm_inv_def less_Suc_eq)
    ultimately show ?thesis unfolding vm_inv_def by blast
  qed
  moreover have "unit_of ?s' m = (if m \<in> touched e then Some (Some (le_method e)) else unit_of s m)" for m
  proof (cases "m \<in> touched e")
    case True
    then have "unit_of ?s' m = Some (Some (ci_method (event_info e)))"
      by (simp add: unit_of_def e h)
    with True show ?thesis by (simp add: event_info_def)
  next
    case False
    then show ?thesis
      using live(2) [of m] by (auto simp: unit_of_def e h split: option.split)
  qed
  ultimately show thesis
    using that load by blast
qed

text \<open>The abstract table: a method belongs to the last compilation that compiled or inlined it.\<close>

definition last_unit :: "load_event list \<Rightarrow> jmethodID \<Rightarrow> jmethodID option" where
  "last_unit es m = fold (\<lambda>e a. if m \<in> touched e then Some (le_method e) else a) es None"

lemma load_all_steps:
  "vm_inv D s \<Longrightarrow> list_all event_ok es \<Longrightarrow> distinct (map le_method es) \<Longrightarrow>
   D \<inter> set (map le_method es) = {} \<Longrightarrow> \<forall>m. unit_of s m = Some (a m) \<Longrightarrow>
   \<exists>s'. load_all es s = Some s' \<and> vm_inv (D \<union> set (map le_method es)) s'
     \<and> (\<forall>m. unit_of s' m = Some (fold (\<lambda>e b. if m \<in> touched e then Some (le_method e) else b) es (a m)))"
proof (induction es arbitrary: D s a)
  case (Cons e es)
  obtain s1 where s1: "CompiledMethodLoad e s = Some s1" "vm_inv (insert (le_method e) D) s1"
    "\<And>m. unit_of s1 m = (if m \<in> touched e then Some (Some (le_method e)) else unit_of s m)"
    using load_step [OF Cons.prems(1), of e] Cons.prems by auto
  have "\<exists>s'. load_all es s1 = Some s' \<and> vm_inv (insert (le_method e) D \<union> set (map le_method es)) s'
     \<and> (\<forall>m. unit_of s' m = Some (fold (\<lambda>e b. if m \<in> touched e then Some (le_method e) else b) es
          (if m \<in> touched e then Some (le_method e) else a m)))"
    using Cons.prems s1 by (intro Cons.IH) auto
  with s1(1) show ?case by simp
qed simp

text \<open>
  C5. As long as no method is compiled twice, the table is safe and right: every event runs
  through without touching a deleted object, and afterwards every method is attributed to the
  last compilation that compiled or inlined it.
\<close>
theorem compiles_info_refines:
  assumes "list_all event_ok es" "distinct (map le_method es)"
  shows "\<exists>s. load_all es empty_vm = Some s \<and> (\<forall>m. unit_of s m = Some (last_unit es m))"
proof -
  have "\<forall>m. unit_of empty_vm m = Some None"
    by (simp add: unit_of_def entry_def empty_vm_def)
  with load_all_steps [OF vm_inv_empty assms, of "\<lambda>_. None"] show ?thesis
    by (auto simp: last_unit_def)
qed

definition sample_load :: "jmethodID \<Rightarrow> jmethodID list \<Rightarrow> load_event" where
  "sample_load m inl = \<lparr>le_method = m, le_code_size = 64, le_code_addr = 4096, le_map_length = 0,
     le_compile_info = 8192, le_chain = [Dummy_Record,
       Inline_Record 1 (Some [\<lparr>numstackframes = of_nat (length inl), pc_methods = inl\<rparr>])]\<rparr>"

lemma compiles_info_refines_witness:
  "\<exists>s. load_all [sample_load 1 [1, 2], sample_load 2 [2, 3]] empty_vm = Some s
     \<and> (\<forall>m. unit_of s m = Some (last_unit [sample_load 1 [1, 2], sample_load 2 [2, 3]] m))"
  by (rule compiles_info_refines) (simp_all add: sample_load_def event_ok_def rounds_def)

text \<open>
  C6. A method compiled again leaves dangling pointers behind: the second event of a method
  deletes the object of the first, and the entry of a method that the first had inlined and the
  second has not still points to it. Reading it, as the next compilation of that method does, is
  a use after free.
\<close>
theorem recompilation_dangles:
  assumes "vm_inv D s" "event_ok e1" "event_ok e2" "event_ok e3" "le_method e1 \<notin> D"
    and "le_method e2 = le_method e1" "b \<in> inlined_methods e1" "b \<notin> inlined_methods e2"
    and "b \<noteq> le_method e1" "le_method e3 = b"
  shows "\<exists>s'. load_all [e1, e2] s = Some s' \<and> unit_of s' b = None \<and> CompiledMethodLoad e3 s' = None"
proof -
  let ?h = "(heap s)(next_obj s \<mapsto> event_info e1)"
  let ?s1 = "redirect (touched e1) (Some (next_obj s)) (s\<lparr>heap := ?h, next_obj := Suc (next_obj s)\<rparr>)"
  let ?h2 = "(?h(next_obj s := None))(Suc (next_obj s) \<mapsto> event_info e2)"
  let ?s2 = "redirect (touched e2) (Some (Suc (next_obj s)))
    (?s1\<lparr>heap := ?h2, next_obj := Suc (Suc (next_obj s))\<rparr>)"
  have "heap_after_delete e1 s = Some (heap s)"
    by (rule heap_kept [OF assms(1,5)])
  then have 1: "CompiledMethodLoad e1 s = Some ?s1"
    using CompiledMethodLoad_eq [OF assms(2)] by simp
  have "entry ?s1 (le_method e2) = Some (next_obj s)"
    using assms(6) by (simp add: entry_redirect touched_def)
  then have "heap_after_delete e2 ?s1 = Some (?h(next_obj s := None))"
    using assms(6) by (simp add: heap_after_delete_def redirect_def event_info_def)
  then have 2: "CompiledMethodLoad e2 ?s1 = Some ?s2"
    using CompiledMethodLoad_eq [OF assms(3)] by (simp add: redirect_def cong: if_cong)
  have "b \<in> touched e1" "b \<notin> touched e2"
    using assms by (simp_all add: touched_def)
  then have e: "entry ?s2 b = Some (next_obj s)"
    by (simp add: entry_redirect) (simp add: entry_def redirect_def)
  have h: "heap ?s2 (next_obj s) = None"
    by (simp add: redirect_def)
  have "heap_after_delete e3 ?s2 = None"
    unfolding heap_after_delete_def using assms(10) e h by simp
  then have "CompiledMethodLoad e3 ?s2 = None"
    using CompiledMethodLoad_eq [OF assms(4)] by simp
  moreover have "unit_of ?s2 b = None"
    unfolding unit_of_def e using h by simp
  moreover have "load_all [e1, e2] s = Some ?s2"
    using 1 2 by simp
  ultimately show ?thesis by blast
qed

lemma recompilation_dangles_witness:
  "\<exists>s'. load_all [sample_load 1 [1, 2], sample_load 1 [1]] empty_vm = Some s'
     \<and> unit_of s' 2 = None \<and> CompiledMethodLoad (sample_load 2 [2]) s' = None"
  by (rule recompilation_dangles [OF vm_inv_empty])
    (simp_all add: sample_load_def event_ok_def inlined_methods_def rounds_def)

end
