(* ===== verification/Result.thy ===== *)
theory Result
  imports Control VM
begin

text \<open>
  The report: \<open>saveMethods\<close>, \<open>saveCallTraces\<close>, \<open>saveMethodIds\<close> with \<open>MethodName\<close> and
  \<open>fillMethodInfo\<close>, into the messages of \<open>protocol.proto\<close>. The locale \<open>counted\<close> is what the
  report needs of a table entry, a count and a comparator that subtracts counts; both kinds of
  entry interpret it, and the loops that stop at the first count of 0 are shown to report exactly
  the entries that are in use.
\<close>

section \<open>Messages\<close>

record MethodInfo =
  mi_jMethodId :: "64 word"
  mi_name :: string
  mi_sig :: string
  mi_holder :: string
  mi_compiled :: bool
  mi_inlined :: "bool option"

record CallFrame =
  cf_bci :: jint
  cf_jMethodId :: "64 word"

record CallTraceSampleInfo =
  ti_call_count :: jint
  ti_frame :: "CallFrame list"

record MethodSampleInfo =
  si_call_count :: jint
  si_jMethodId :: "64 word"

record ProfilingInfo =
  pi_calls_total :: jint
  pi_calls_non_java :: jint
  pi_calls_gc :: jint
  pi_calls_deopt :: jint
  pi_calls_unknown :: jint
  pi_methods :: "MethodSampleInfo list"
  pi_samples :: "CallTraceSampleInfo list"
  pi_methodInfos :: "MethodInfo list"

section \<open>qsort\<close>

text \<open>
  \<open>qsort\<close> of the C library, as the stable merge sort of glibc orders its result; the theorems use
  only that it is a sorted permutation.
\<close>

fun insert_by :: "('a \<Rightarrow> 'a \<Rightarrow> jint) \<Rightarrow> 'a \<Rightarrow> 'a list \<Rightarrow> 'a list" where
  "insert_by cmp x [] = [x]"
| "insert_by cmp x (y # ys) =
     (if sint (cmp x y) \<le> 0 then x # y # ys else y # insert_by cmp x ys)"

definition qsort :: "('a \<Rightarrow> 'a \<Rightarrow> jint) \<Rightarrow> 'a list \<Rightarrow> 'a list" where
  "qsort cmp xs = foldr (insert_by cmp) xs []"

lemma mset_insert_by [simp]: "mset (insert_by cmp x ys) = add_mset x (mset ys)"
  by (induction ys) simp_all

lemma mset_qsort [simp]: "mset (qsort cmp xs) = mset xs"
  unfolding qsort_def by (induction xs) simp_all

lemma set_qsort [simp]: "set (qsort cmp xs) = set xs"
  by (metis mset_qsort set_mset_mset)

lemma length_qsort [simp]: "length (qsort cmp xs) = length xs"
  by (metis mset_qsort size_mset)

text \<open>
  A kind of entry with a count. The comparator is the difference of the counts, which does not
  overflow as long as no count is negative.
\<close>

locale counted =
  fixes count :: "'a \<Rightarrow> jint" and cmp :: "'a \<Rightarrow> 'a \<Rightarrow> jint"
  assumes cmp_counts: "cmp x y = count y - count x"
begin

definition nonneg :: "'a list \<Rightarrow> bool" where
  "nonneg xs \<longleftrightarrow> (\<forall>x\<in>set xs. 0 \<le> sint (count x))"

definition descending :: "'a list \<Rightarrow> bool" where
  "descending xs \<longleftrightarrow> sorted_wrt (\<lambda>x y. sint (count y) \<le> sint (count x)) xs"

lemma cmp_le_0:
  "0 \<le> sint (count x) \<Longrightarrow> 0 \<le> sint (count y) \<Longrightarrow>
   sint (cmp x y) \<le> 0 \<longleftrightarrow> sint (count y) \<le> sint (count x)"
  by (simp add: cmp_counts sint_diff_counts)

lemma descending_insert_by:
  "nonneg (x # ys) \<Longrightarrow> descending ys \<Longrightarrow> descending (insert_by cmp x ys)"
proof (induction ys)
  case (Cons y ys)
  have set: "set (insert_by cmp x ys) = insert x (set ys)"
    by (metis mset_insert_by set_mset_add_mset_insert set_mset_mset)
  from Cons show ?case
    using cmp_le_0 [of x y] by (auto simp: nonneg_def descending_def set)
qed (simp add: descending_def)

lemma descending_qsort: "nonneg xs \<Longrightarrow> descending (qsort cmp xs)"
proof (induction xs)
  case (Cons x xs)
  then have "nonneg (x # qsort cmp xs)" "descending (qsort cmp xs)"
    by (simp_all add: nonneg_def)
  then show ?case
    using descending_insert_by [of x "qsort cmp xs"] by (simp add: qsort_def)
qed (simp add: descending_def qsort_def)

text \<open>Cutting a descending list at the first count of 0 keeps every entry that has a count.\<close>

lemma takeWhile_used:
  "nonneg xs \<Longrightarrow> descending xs \<Longrightarrow>
   takeWhile (\<lambda>x. count x \<noteq> 0) xs = filter (\<lambda>x. count x \<noteq> 0) xs"
proof (induction xs)
  case (Cons x xs)
  show ?case
  proof (cases "count x = 0")
    case True
    have "count y = 0" if "y \<in> set xs" for y
    proof -
      have "sint (count y) \<le> 0" "0 \<le> sint (count y)"
        using Cons.prems True that by (auto simp: nonneg_def descending_def)
      then show ?thesis by (simp flip: sint_eq_0)
    qed
    with True show ?thesis by simp
  next
    case False
    with Cons show ?thesis by (simp add: nonneg_def descending_def)
  qed
qed simp

lemma takeWhile_qsort:
  assumes "nonneg xs"
  shows "mset (takeWhile (\<lambda>x. count x \<noteq> 0) (qsort cmp xs)) = filter_mset (\<lambda>x. count x \<noteq> 0) (mset xs)"
    and "descending (takeWhile (\<lambda>x. count x \<noteq> 0) (qsort cmp xs))"
proof -
  have nn: "nonneg (qsort cmp xs)"
    using assms by (simp add: nonneg_def)
  note desc = descending_qsort [OF assms]
  show "mset (takeWhile (\<lambda>x. count x \<noteq> 0) (qsort cmp xs)) = filter_mset (\<lambda>x. count x \<noteq> 0) (mset xs)"
    unfolding takeWhile_used [OF nn desc] by (simp add: mset_filter)
  show "descending (takeWhile (\<lambda>x. count x \<noteq> 0) (qsort cmp xs))"
    unfolding takeWhile_used [OF nn desc] using desc unfolding descending_def by (rule sorted_wrt_filter)
qed

end

interpretation msample: counted ms_call_count MethodSample_comparator
  by unfold_locales (rule MethodSample_comparator_def)

interpretation tsample: counted ct_call_count CallTraceSample_comparator
  by unfold_locales (rule CallTraceSample_comparator_def)

section \<open>Method names\<close>

text \<open>
  What JVMTI answers for a method id, each call with \<open>None\<close> for an error, which leaves the
  output pointers of the constructor uninitialised.
\<close>

record name_answers =
  GetMethodName :: "jmethodID \<Rightarrow> (string \<times> string) option"
  GetMethodDeclaringClass :: "jmethodID \<Rightarrow> ptr option"
  GetClassSignature :: "ptr \<Rightarrow> string option"

record MethodName =
  mn_name :: string
  mn_sig :: string
  mn_class_sig :: string

text \<open>
  The constructor: every slash of the class signature becomes a dot, then the character before
  the terminator is cut off. For an empty signature that character is outside the buffer.
\<close>

definition mk_MethodName :: "name_answers \<Rightarrow> jmethodID \<Rightarrow> MethodName option" where
  "mk_MethodName jvmti m =
     do { (name, sig) \<leftarrow> GetMethodName jvmti m;
          klass \<leftarrow> GetMethodDeclaringClass jvmti m;
          class_sig \<leftarrow> GetClassSignature jvmti klass;
          let s = map (\<lambda>c. if c = CHR ''/'' then CHR ''.'' else c) class_sig;
          if s = [] then None
          else Some \<lparr>mn_name = name, mn_sig = sig, mn_class_sig = butlast s\<rparr> }"

text \<open>\<open>_class_sig + 1\<close>: after a cut to the empty string the next byte is the old terminator.\<close>

definition mn_holder :: "MethodName \<Rightarrow> string" where
  "mn_holder mn = drop 1 (mn_class_sig mn)"

definition jMethodIdToId :: "jmethodID \<Rightarrow> 64 word" where
  "jMethodIdToId m = m"

definition fillMethodInfo ::
    "name_answers \<Rightarrow> MethodInfo \<Rightarrow> jmethodID \<Rightarrow> vm \<Rightarrow> (MethodInfo \<times> vm) option" where
  "fillMethodInfo jvmti mi m vms =
     do { mn \<leftarrow> mk_MethodName jvmti m;
          let mi = mi\<lparr>mi_jMethodId := jMethodIdToId m, mi_name := mn_name mn,
                      mi_holder := mn_holder mn, mi_sig := mn_sig mn\<rparr>;
          let (info, vms) = map_index m vms;
          let is_compiled = (info \<noteq> None);
          let mi = mi\<lparr>mi_compiled := is_compiled\<rparr>;
          (case info of
             None \<Rightarrow> Some (mi, vms)
           | Some p \<Rightarrow> do { ci \<leftarrow> heap vms p;
               Some (mi\<lparr>mi_inlined := Some (ci_method ci \<noteq> m)\<rparr>, vms) }) }"

section \<open>Filling the report\<close>

text \<open>\<open>unordered_set::insert\<close>; the list is in order of insertion and has no repetitions.\<close>

definition us_insert :: "'a \<Rightarrow> 'a list \<Rightarrow> 'a list" where
  "us_insert x xs = (if x \<in> set xs then xs else xs @ [x])"

fun saveMethods_loop :: "MethodSample list \<Rightarrow> nat \<Rightarrow> nat \<Rightarrow> ProfilingInfo \<times> jmethodID list
    \<Rightarrow> (ProfilingInfo \<times> jmethodID list) option" where
  "saveMethods_loop ms 0 i acc = Some acc"
| "saveMethods_loop ms (Suc k) i acc =
     do { s \<leftarrow> rd ms i;
          if ms_call_count s = 0 then Some acc
          else
            (case acc of (info, ids) \<Rightarrow>
              saveMethods_loop ms k (Suc i)
                (info\<lparr>pi_methods := pi_methods info @
                   [\<lparr>si_call_count = ms_call_count s, si_jMethodId = jMethodIdToId (ms_method s)\<rparr>]\<rparr>,
                 us_insert (ms_method s) ids)) }"

definition saveMethods :: "ProfilingInfo \<times> jmethodID list \<Rightarrow> profiler
    \<Rightarrow> ((ProfilingInfo \<times> jmethodID list) \<times> profiler) option" where
  "saveMethods acc st =
     do { let st = st\<lparr>methods := qsort MethodSample_comparator (methods st)\<rparr>;
          acc \<leftarrow> saveMethods_loop (methods st) MAX_CALLTRACES 0 acc;
          Some (acc, st) }"

fun saveFrames :: "ASGCT_CallFrame list \<Rightarrow> nat \<Rightarrow> nat \<Rightarrow> CallFrame list \<times> jmethodID list
    \<Rightarrow> (CallFrame list \<times> jmethodID list) option" where
  "saveFrames fs 0 j acc = Some acc"
| "saveFrames fs (Suc k) j acc =
     do { f \<leftarrow> rd fs j;
          (case acc of (out, ids) \<Rightarrow>
            saveFrames fs k (Suc j)
              (if method_id f \<noteq> NULL then
                 (out @ [\<lparr>cf_bci = bci f, cf_jMethodId = jMethodIdToId (method_id f)\<rparr>],
                  us_insert (method_id f) ids)
               else acc)) }"

fun saveCallTraces_loop :: "CallTraceSample list \<Rightarrow> nat \<Rightarrow> nat \<Rightarrow> ProfilingInfo \<times> jmethodID list
    \<Rightarrow> (ProfilingInfo \<times> jmethodID list) option" where
  "saveCallTraces_loop ts 0 i acc = Some acc"
| "saveCallTraces_loop ts (Suc k) i acc =
     do { t \<leftarrow> rd ts i;
          if ct_call_count t = 0 then Some acc
          else
            (case acc of (info, ids) \<Rightarrow>
              do { (fs, ids) \<leftarrow> saveFrames (ct_frames t) (rounds (ct_num_frames t)) 0 ([], ids);
                   saveCallTraces_loop ts k (Suc i)
                     (info\<lparr>pi_samples := pi_samples info @
                        [\<lparr>ti_call_count = ct_call_count t, ti_frame = fs\<rparr>]\<rparr>, ids) }) }"

definition saveCallTraces :: "ProfilingInfo \<times> jmethodID list \<Rightarrow> profiler
    \<Rightarrow> ((ProfilingInfo \<times> jmethodID list) \<times> profiler) option" where
  "saveCallTraces acc st =
     do { let st = st\<lparr>traces := qsort CallTraceSample_comparator (traces st)\<rparr>;
          acc \<leftarrow> saveCallTraces_loop (traces st) MAX_CALLTRACES 0 acc;
          Some (acc, st) }"

definition empty_MethodInfo :: MethodInfo where
  "empty_MethodInfo = \<lparr>mi_jMethodId = 0, mi_name = [], mi_sig = [], mi_holder = [],
     mi_compiled = False, mi_inlined = None\<rparr>"

fun saveMethodIds :: "name_answers \<Rightarrow> jmethodID list \<Rightarrow> ProfilingInfo \<times> vm
    \<Rightarrow> (ProfilingInfo \<times> vm) option" where
  "saveMethodIds jvmti [] acc = Some acc"
| "saveMethodIds jvmti (m # ms) (info, vms) =
     do { (mi, vms) \<leftarrow> fillMethodInfo jvmti empty_MethodInfo m vms;
          saveMethodIds jvmti ms (info\<lparr>pi_methodInfos := pi_methodInfos info @ [mi]\<rparr>, vms) }"

definition empty_ProfilingInfo :: ProfilingInfo where
  "empty_ProfilingInfo = \<lparr>pi_calls_total = 0, pi_calls_non_java = 0, pi_calls_gc = 0,
     pi_calls_deopt = 0, pi_calls_unknown = 0, pi_methods = [], pi_samples = [], pi_methodInfos = []\<rparr>"

text \<open>The part of \<open>writeResult\<close> that builds the message.\<close>

definition build_info :: "name_answers \<Rightarrow> profiler \<Rightarrow> vm \<Rightarrow> (ProfilingInfo \<times> profiler \<times> vm) option" where
  "build_info jvmti st vms =
     do { let info = empty_ProfilingInfo\<lparr>pi_calls_total := calls_total st,
            pi_calls_non_java := calls_non_java st, pi_calls_gc := calls_gc st,
            pi_calls_deopt := calls_deopt st, pi_calls_unknown := calls_unknown st\<rparr>;
          ((info, ids), st) \<leftarrow> saveMethods (info, []) st;
          ((info, ids), st) \<leftarrow> saveCallTraces (info, ids) st;
          (info, vms) \<leftarrow> saveMethodIds jvmti ids (info, vms);
          Some (info, st, vms) }"

section \<open>What the loops produce\<close>

definition method_info :: "MethodSample \<Rightarrow> MethodSampleInfo" where
  "method_info s = \<lparr>si_call_count = ms_call_count s, si_jMethodId = jMethodIdToId (ms_method s)\<rparr>"

definition frame_info :: "ASGCT_CallFrame \<Rightarrow> CallFrame" where
  "frame_info f = \<lparr>cf_bci = bci f, cf_jMethodId = jMethodIdToId (method_id f)\<rparr>"

definition reported_frames :: "CallTraceSample \<Rightarrow> ASGCT_CallFrame list" where
  "reported_frames t = filter (\<lambda>f. method_id f \<noteq> NULL) (take (rounds (ct_num_frames t)) (ct_frames t))"

definition trace_info :: "CallTraceSample \<Rightarrow> CallTraceSampleInfo" where
  "trace_info t = \<lparr>ti_call_count = ct_call_count t, ti_frame = map frame_info (reported_frames t)\<rparr>"

definition used_methods :: "MethodSample list \<Rightarrow> MethodSample list" where
  "used_methods ms = takeWhile (\<lambda>s. ms_call_count s \<noteq> 0) ms"

definition used_traces :: "CallTraceSample list \<Rightarrow> CallTraceSample list" where
  "used_traces ts = takeWhile (\<lambda>t. ct_call_count t \<noteq> 0) ts"

lemma set_us_insert: "set (fold us_insert xs ids) = set ids \<union> set xs"
  by (induction xs arbitrary: ids) (auto simp: us_insert_def)

lemma distinct_us_insert: "distinct ids \<Longrightarrow> distinct (fold us_insert xs ids)"
  by (induction xs arbitrary: ids) (auto simp: us_insert_def)

lemma saveMethods_loop_eq:
  "i + k = length ms \<Longrightarrow> saveMethods_loop ms k i (info, ids) =
     Some (info\<lparr>pi_methods := pi_methods info @ map method_info (used_methods (drop i ms))\<rparr>,
       fold us_insert (map ms_method (used_methods (drop i ms))) ids)"
proof (induction k arbitrary: i info ids)
  case (Suc k)
  then have "drop i ms = ms ! i # drop (Suc i) ms"
    by (simp add: Cons_nth_drop_Suc)
  with Suc show ?case
    by (simp add: array_simps used_methods_def method_info_def)
qed (simp add: used_methods_def)

lemma saveFrames_eq:
  "j + k \<le> length fs \<Longrightarrow> saveFrames fs k j (out, ids) =
     (let gs = filter (\<lambda>f. method_id f \<noteq> NULL) (take k (drop j fs))
      in Some (out @ map frame_info gs, fold us_insert (map method_id gs) ids))"
proof (induction k arbitrary: j out ids)
  case (Suc k)
  then have "drop j fs = fs ! j # drop (Suc j) fs"
    by (simp add: Cons_nth_drop_Suc)
  with Suc show ?case
    by (simp add: array_simps frame_info_def Let_def)
qed simp

lemma saveCallTraces_loop_eq:
  "i + k = length ts \<Longrightarrow> \<forall>t\<in>set ts. rounds (ct_num_frames t) \<le> length (ct_frames t) \<Longrightarrow>
   saveCallTraces_loop ts k i (info, ids) =
     Some (info\<lparr>pi_samples := pi_samples info @ map trace_info (used_traces (drop i ts))\<rparr>,
       fold us_insert (concat (map (\<lambda>t. map method_id (reported_frames t)) (used_traces (drop i ts)))) ids)"
proof (induction k arbitrary: i info ids)
  case (Suc k)
  then have "drop i ts = ts ! i # drop (Suc i) ts"
    by (simp add: Cons_nth_drop_Suc)
  with Suc show ?case
    by (simp add: array_simps saveFrames_eq Let_def used_traces_def trace_info_def reported_frames_def)
qed (simp add: used_traces_def)

lemma saveMethods_eq:
  assumes "length (methods st) = MAX_CALLTRACES"
  shows "saveMethods (info, ids) st =
    (let ms = qsort MethodSample_comparator (methods st)
     in Some ((info\<lparr>pi_methods := pi_methods info @ map method_info (used_methods ms)\<rparr>,
           fold us_insert (map ms_method (used_methods ms)) ids), st\<lparr>methods := ms\<rparr>))"
  using assms by (simp add: saveMethods_def saveMethods_loop_eq Let_def)

lemma saveCallTraces_eq:
  assumes "length (traces st) = MAX_CALLTRACES"
    and "\<forall>t\<in>set (traces st). rounds (ct_num_frames t) \<le> length (ct_frames t)"
  shows "saveCallTraces (info, ids) st =
    (let ts = qsort CallTraceSample_comparator (traces st)
     in Some ((info\<lparr>pi_samples := pi_samples info @ map trace_info (used_traces ts)\<rparr>,
           fold us_insert (concat (map (\<lambda>t. map method_id (reported_frames t)) (used_traces ts))) ids),
         st\<lparr>traces := ts\<rparr>))"
  using assms by (simp add: saveCallTraces_def saveCallTraces_loop_eq Let_def)

section \<open>The report is complete\<close>

text \<open>
  What the report needs of the tables: their sizes, no negative count, and no more frames in an
  entry than it has room for. It follows from the invariant of the tables, and it survives their
  sorting, which the invariant does not.
\<close>

definition report_ok :: "profiler \<Rightarrow> bool" where
  "report_ok st \<longleftrightarrow> length (methods st) = MAX_CALLTRACES \<and> length (traces st) = MAX_CALLTRACES
     \<and> (\<forall>s\<in>set (methods st). 0 \<le> sint (ms_call_count s))
     \<and> (\<forall>t\<in>set (traces st). 0 \<le> sint (ct_call_count t)
          \<and> rounds (ct_num_frames t) \<le> length (ct_frames t))"

lemma report_bounds:
  assumes "report_ok st"
  shows "msample.nonneg (methods st)" "tsample.nonneg (traces st)"
    "\<forall>t\<in>set (traces st). rounds (ct_num_frames t) \<le> length (ct_frames t)"
    "length (methods st) = MAX_CALLTRACES" "length (traces st) = MAX_CALLTRACES"
  using assms by (simp_all add: report_ok_def msample.nonneg_def tsample.nonneg_def)

lemma report_ok_tables:
  assumes "tables_inv n st"
  shows "report_ok st"
proof -
  have wf: "arrays_wf st" and inv: "trace_inv (int n) st" "method_inv (int n) st"
    using assms by (simp_all add: tables_inv_def)
  have "0 \<le> sint (ms_call_count s)" if "s \<in> set (methods st)" for s
    using inv(2) that by (auto simp: method_inv_def method_slot_ok_def split: if_splits)
  moreover have "0 \<le> sint (ct_call_count t) \<and> rounds (ct_num_frames t) \<le> length (ct_frames t)"
    if t: "t \<in> set (traces st)" for t
  proof -
    obtain i where "i < MAX_CALLTRACES" "t = traces st ! i"
      using t wf by (metis arrays_wfD(2) in_set_conv_nth)
    then show ?thesis
      using trace_slot_okD [OF inv(1) wf, of i] arrays_wfD(4) [OF wf, of i]
      by (auto simp: trace_slot_ok_def rounds_def nat_le_iff split: if_splits)
  qed
  ultimately show ?thesis
    using wf by (simp add: report_ok_def arrays_wfD)
qed

definition sorted_tables :: "profiler \<Rightarrow> profiler" where
  "sorted_tables st = st\<lparr>methods := qsort MethodSample_comparator (methods st),
     traces := qsort CallTraceSample_comparator (traces st)\<rparr>"

lemma report_ok_sorted: "report_ok st \<Longrightarrow> report_ok (sorted_tables st)"
  by (simp add: report_ok_def sorted_tables_def)

text \<open>The two tables of the message, before the method names are looked up.\<close>

lemma tables_saved:
  assumes inv: "report_ok st"
  obtains info2 ids st2 where
    "do { ((info, ids), st) \<leftarrow> saveMethods (info, []) st; saveCallTraces (info, ids) st }
       = Some ((info2, ids), st2)"
    "pi_methods info2 = pi_methods info
       @ map method_info (used_methods (qsort MethodSample_comparator (methods st)))"
    "pi_samples info2 = pi_samples info
       @ map trace_info (used_traces (qsort CallTraceSample_comparator (traces st)))"
    "set ids = ms_method ` set (used_methods (qsort MethodSample_comparator (methods st)))
       \<union> (\<Union>t\<in>set (used_traces (qsort CallTraceSample_comparator (traces st))).
            method_id ` set (reported_frames t))"
    "distinct ids" "pi_methodInfos info2 = pi_methodInfos info"
    "st2 = sorted_tables st"
proof -
  note b = report_bounds [OF inv]
  show thesis
    by (rule that, simp add: saveMethods_eq b saveCallTraces_eq Let_def split del: if_split)
      (simp_all add: set_us_insert distinct_us_insert sorted_tables_def)
qed

text \<open>
  The method table of the report lists exactly the entries that have a count, each once, the
  most frequent first; stopping at the first count of 0 loses none.
\<close>
theorem saveMethods_complete:
  assumes "report_ok st"
  shows "\<exists>info' ids' st'. saveMethods (info, ids) st = Some ((info', ids'), st')
    \<and> (\<exists>new. pi_methods info' = pi_methods info @ map method_info new
        \<and> mset new = filter_mset (\<lambda>s. ms_call_count s \<noteq> 0) (mset (methods st))
        \<and> sorted_wrt (\<lambda>a b. sint (ms_call_count b) \<le> sint (ms_call_count a)) new
        \<and> set ids' = set ids \<union> ms_method ` set new)
    \<and> mset (methods st') = mset (methods st)"
proof -
  note b = report_bounds [OF assms]
  let ?ms = "qsort MethodSample_comparator (methods st)"
  have "mset (used_methods ?ms) = filter_mset (\<lambda>s. ms_call_count s \<noteq> 0) (mset (methods st))"
    "sorted_wrt (\<lambda>a b. sint (ms_call_count b) \<le> sint (ms_call_count a)) (used_methods ?ms)"
    using msample.takeWhile_qsort [OF b(1)] by (simp_all add: used_methods_def msample.descending_def)
  then show ?thesis
    by (simp add: saveMethods_eq b Let_def set_us_insert) blast
qed

lemma saveMethods_complete_witness:
  "\<exists>info' ids' st'. saveMethods (empty_ProfilingInfo, []) (clear initial_profiler) = Some ((info', ids'), st')
    \<and> (\<exists>new. pi_methods info' = pi_methods empty_ProfilingInfo @ map method_info new
        \<and> mset new = filter_mset (\<lambda>s. ms_call_count s \<noteq> 0) (mset (methods (clear initial_profiler)))
        \<and> sorted_wrt (\<lambda>a b. sint (ms_call_count b) \<le> sint (ms_call_count a)) new
        \<and> set ids' = set [] \<union> ms_method ` set new)
    \<and> mset (methods st') = mset (methods (clear initial_profiler))"
  by (rule saveMethods_complete) (rule report_ok_tables [OF tables_inv_clear])

text \<open>
  The same for the call traces, each with its frames in order, less those without a method.
\<close>
theorem saveCallTraces_complete:
  assumes "report_ok st"
  shows "\<exists>info' ids' st'. saveCallTraces (info, ids) st = Some ((info', ids'), st')
    \<and> (\<exists>new. pi_samples info' = pi_samples info @ map trace_info new
        \<and> mset new = filter_mset (\<lambda>t. ct_call_count t \<noteq> 0) (mset (traces st))
        \<and> sorted_wrt (\<lambda>a b. sint (ct_call_count b) \<le> sint (ct_call_count a)) new
        \<and> set ids' = set ids \<union> (\<Union>t\<in>set new. method_id ` set (reported_frames t)))
    \<and> mset (traces st') = mset (traces st)"
proof -
  note b = report_bounds [OF assms]
  let ?ts = "qsort CallTraceSample_comparator (traces st)"
  have "mset (used_traces ?ts) = filter_mset (\<lambda>t. ct_call_count t \<noteq> 0) (mset (traces st))"
    "sorted_wrt (\<lambda>a b. sint (ct_call_count b) \<le> sint (ct_call_count a)) (used_traces ?ts)"
    using tsample.takeWhile_qsort [OF b(2)] by (simp_all add: used_traces_def tsample.descending_def)
  then show ?thesis
    by (simp add: saveCallTraces_eq b Let_def set_us_insert) blast
qed

lemma saveCallTraces_complete_witness:
  "\<exists>info' ids' st'. saveCallTraces (empty_ProfilingInfo, []) (clear initial_profiler) = Some ((info', ids'), st')
    \<and> (\<exists>new. pi_samples info' = pi_samples empty_ProfilingInfo @ map trace_info new
        \<and> mset new = filter_mset (\<lambda>t. ct_call_count t \<noteq> 0) (mset (traces (clear initial_profiler)))
        \<and> sorted_wrt (\<lambda>a b. sint (ct_call_count b) \<le> sint (ct_call_count a)) new
        \<and> set ids' = set [] \<union> (\<Union>t\<in>set new. method_id ` set (reported_frames t)))
    \<and> mset (traces st') = mset (traces (clear initial_profiler))"
  by (rule saveCallTraces_complete) (rule report_ok_tables [OF tables_inv_clear])

section \<open>Names and ids\<close>

definition names_known :: "name_answers \<Rightarrow> jmethodID \<Rightarrow> bool" where
  "names_known jvmti m \<longleftrightarrow> (case mk_MethodName jvmti m of None \<Rightarrow> False | Some mn \<Rightarrow> True)"

definition slash_to_dot :: "string \<Rightarrow> string" where
  "slash_to_dot = map (\<lambda>c. if c = CHR ''/'' then CHR ''.'' else c)"

lemma holder_of_signature:
  assumes "GetMethodName jvmti m = Some (name, sig)" "GetMethodDeclaringClass jvmti m = Some k"
    and "GetClassSignature jvmti k = Some (''L'' @ cls @ '';'')"
  shows "map_option mn_holder (mk_MethodName jvmti m) = Some (slash_to_dot cls)"
  using assms by (simp add: mk_MethodName_def mn_holder_def slash_to_dot_def Let_def butlast_append)

text \<open>The entry a method gets, from the compilation that its code belongs to.\<close>

definition info_of :: "name_answers \<Rightarrow> vm \<Rightarrow> jmethodID \<Rightarrow> MethodInfo option" where
  "info_of jvmti vms m = do { mn \<leftarrow> mk_MethodName jvmti m; u \<leftarrow> unit_of vms m;
     Some \<lparr>mi_jMethodId = m, mi_name = mn_name mn, mi_sig = mn_sig mn, mi_holder = mn_holder mn,
       mi_compiled = (u \<noteq> None), mi_inlined = map_option (\<lambda>c. c \<noteq> m) u\<rparr> }"

lemma unit_of_map_index: "unit_of (snd (map_index m s)) = unit_of s"
  by (auto simp: fun_eq_iff unit_of_def entry_def map_index_def split: option.split)

lemma fillMethodInfo_eq:
  "fillMethodInfo jvmti empty_MethodInfo m vms =
     map_option (\<lambda>mi. (mi, snd (map_index m vms))) (info_of jvmti vms m)"
proof -
  obtain info vms1 where 1: "map_index m vms = (info, vms1)" by fastforce
  then have "info = entry vms m" "heap vms1 = heap vms"
    using map_index_entry [of m vms] map_index_heap(1) [of m vms] by simp_all
  with 1 show ?thesis
    by (simp add: fillMethodInfo_def info_of_def unit_of_def empty_MethodInfo_def jMethodIdToId_def Let_def
        split: option.split bind_split)
qed

lemma info_of_map_index: "info_of jvmti (snd (map_index m s)) = info_of jvmti s"
  by (simp add: fun_eq_iff info_of_def unit_of_map_index)

lemma saveMethodIds_eq:
  "\<forall>m\<in>set ids. info_of jvmti vms m \<noteq> None \<Longrightarrow>
   \<exists>vms'. saveMethodIds jvmti ids (info, vms) = Some (info\<lparr>pi_methodInfos :=
     pi_methodInfos info @ map (\<lambda>m. the (info_of jvmti vms m)) ids\<rparr>, vms') \<and> unit_of vms' = unit_of vms"
proof (induction ids arbitrary: info vms)
  case (Cons m ids)
  then obtain mi where mi: "info_of jvmti vms m = Some mi" by auto
  let ?info = "info\<lparr>pi_methodInfos := pi_methodInfos info @ [mi]\<rparr>"
  have "\<exists>vms'. saveMethodIds jvmti ids (?info, snd (map_index m vms)) = Some (?info\<lparr>pi_methodInfos :=
       pi_methodInfos ?info @ map (\<lambda>m. the (info_of jvmti vms m)) ids\<rparr>, vms')
     \<and> unit_of vms' = unit_of vms"
    using Cons.IH [of "snd (map_index m vms)" ?info] Cons.prems
    by (simp add: info_of_map_index unit_of_map_index)
  with mi show ?case
    by (auto simp: fillMethodInfo_eq)
qed simp

lemma saveMethodIds_None:
  "\<exists>m\<in>set ids. info_of jvmti vms m = None \<Longrightarrow> saveMethodIds jvmti ids (info, vms) = None"
proof (induction ids arbitrary: info vms)
  case (Cons m ids)
  show ?case
  proof (cases "info_of jvmti vms m")
    case (Some mi)
    then show ?thesis
      using Cons by (auto simp: fillMethodInfo_eq info_of_map_index)
  qed (simp add: fillMethodInfo_eq)
qed simp

lemma info_of_id: "info_of jvmti vms m = Some mi \<Longrightarrow> mi_jMethodId mi = m"
  by (auto simp: info_of_def split: bind_splits)

section \<open>The whole message\<close>

definition used_ids :: "profiler \<Rightarrow> jmethodID set" where
  "used_ids st = ms_method ` {s \<in> set (methods st). ms_call_count s \<noteq> 0}
     \<union> (\<Union>t\<in>{t \<in> set (traces st). ct_call_count t \<noteq> 0}. method_id ` set (reported_frames t))"

definition message_ids :: "ProfilingInfo \<Rightarrow> 64 word set" where
  "message_ids info = si_jMethodId ` set (pi_methods info)
     \<union> (\<Union>s\<in>set (pi_samples info). cf_jMethodId ` set (ti_frame s))"

definition reported_count :: "ProfilingInfo \<Rightarrow> jmethodID \<Rightarrow> jint" where
  "reported_count info m =
     sum_list (map (\<lambda>s. if si_jMethodId s = m then si_call_count s else 0) (pi_methods info))"

lemma set_used:
  assumes "report_ok st"
  shows "set (used_methods (qsort MethodSample_comparator (methods st)))
      = {s \<in> set (methods st). ms_call_count s \<noteq> 0}"
    and "set (used_traces (qsort CallTraceSample_comparator (traces st)))
      = {t \<in> set (traces st). ct_call_count t \<noteq> 0}"
proof -
  note b = report_bounds [OF assms]
  have "set_mset (mset (used_methods (qsort MethodSample_comparator (methods st))))
      = {s \<in> set (methods st). ms_call_count s \<noteq> 0}"
    unfolding used_methods_def msample.takeWhile_qsort(1) [OF b(1)] by simp
  then show "set (used_methods (qsort MethodSample_comparator (methods st)))
      = {s \<in> set (methods st). ms_call_count s \<noteq> 0}" by simp
  have "set_mset (mset (used_traces (qsort CallTraceSample_comparator (traces st))))
      = {t \<in> set (traces st). ct_call_count t \<noteq> 0}"
    unfolding used_traces_def tsample.takeWhile_qsort(1) [OF b(2)] by simp
  then show "set (used_traces (qsort CallTraceSample_comparator (traces st)))
      = {t \<in> set (traces st). ct_call_count t \<noteq> 0}" by simp
qed

lemma sum_used_methods:
  assumes "report_ok st"
  shows "sum_list (map (\<lambda>s. if ms_method s = m then ms_call_count s else 0)
    (used_methods (qsort MethodSample_comparator (methods st)))) = method_count st m"
proof -
  let ?f = "\<lambda>s. if ms_method s = m then ms_call_count s else 0"
  let ?u = "used_methods (qsort MethodSample_comparator (methods st))"
  have "mset ?u = filter_mset (\<lambda>s. ms_call_count s \<noteq> 0) (mset (methods st))"
    unfolding used_methods_def by (rule msample.takeWhile_qsort(1)) (rule report_bounds [OF assms])
  then have "sum_list (map ?f ?u)
      = \<Sum>\<^sub># (image_mset ?f (filter_mset (\<lambda>s. ms_call_count s \<noteq> 0) (mset (methods st))))"
    by (simp only: sum_list_mset)
  also have "\<dots> = \<Sum>\<^sub># (image_mset ?f (mset (methods st)))"
    by (rule sum_mset_filter) simp
  also have "\<dots> = method_count st m"
    unfolding method_count_def by (simp only: sum_list_mset)
  finally show ?thesis .
qed

text \<open>The message in closed form, whenever every id it mentions can be looked up.\<close>

lemma build_info_Some:
  assumes inv: "report_ok st" and known: "\<forall>m\<in>used_ids st. info_of jvmti vms m \<noteq> None"
  obtains info st' vms' where "build_info jvmti st vms = Some (info, st', vms')"
    "pi_methods info = map method_info (used_methods (qsort MethodSample_comparator (methods st)))"
    "pi_samples info = map trace_info (used_traces (qsort CallTraceSample_comparator (traces st)))"
    "distinct (map mi_jMethodId (pi_methodInfos info))"
    "mi_jMethodId ` set (pi_methodInfos info) = used_ids st"
    "\<forall>mi\<in>set (pi_methodInfos info). info_of jvmti vms (mi_jMethodId mi) = Some mi"
    "pi_calls_total info = calls_total st" "unit_of vms' = unit_of vms" "st' = sorted_tables st"
proof -
  let ?info = "empty_ProfilingInfo\<lparr>pi_calls_total := calls_total st,
    pi_calls_non_java := calls_non_java st, pi_calls_gc := calls_gc st,
    pi_calls_deopt := calls_deopt st, pi_calls_unknown := calls_unknown st\<rparr>"
  obtain info2 ids st2 where two:
    "do { ((info, ids), st) \<leftarrow> saveMethods (?info, []) st; saveCallTraces (info, ids) st }
       = Some ((info2, ids), st2)"
    and m: "pi_methods info2 = pi_methods ?info
       @ map method_info (used_methods (qsort MethodSample_comparator (methods st)))"
    and t: "pi_samples info2 = pi_samples ?info
       @ map trace_info (used_traces (qsort CallTraceSample_comparator (traces st)))"
    and ids: "set ids = ms_method ` set (used_methods (qsort MethodSample_comparator (methods st)))
       \<union> (\<Union>t\<in>set (used_traces (qsort CallTraceSample_comparator (traces st))).
            method_id ` set (reported_frames t))"
    and d: "distinct ids" and mi0: "pi_methodInfos info2 = pi_methodInfos ?info"
    and tot: "pi_calls_total info2 = calls_total st" and st2: "st2 = sorted_tables st"
    by (rule tables_saved [OF inv, of ?info]) (auto simp: saveMethods_eq saveCallTraces_eq
        report_bounds [OF inv] Let_def sorted_tables_def)
  have ids': "set ids = used_ids st"
    unfolding ids set_used [OF inv] used_ids_def ..
  then have "\<forall>m\<in>set ids. info_of jvmti vms m \<noteq> None"
    using known by simp
  then obtain vms' where save: "saveMethodIds jvmti ids (info2, vms) = Some (info2\<lparr>pi_methodInfos :=
      pi_methodInfos info2 @ map (\<lambda>m. the (info_of jvmti vms m)) ids\<rparr>, vms')"
    and u: "unit_of vms' = unit_of vms"
    using saveMethodIds_eq by blast
  let ?out = "info2\<lparr>pi_methodInfos := pi_methodInfos info2 @ map (\<lambda>m. the (info_of jvmti vms m)) ids\<rparr>"
  have build: "build_info jvmti st vms = Some (?out, st2, vms')"
    using two save unfolding build_info_def Let_def
    by (auto split: bind_splits prod.splits)
  have look: "info_of jvmti vms m = Some (the (info_of jvmti vms m))"
    "mi_jMethodId (the (info_of jvmti vms m)) = m" if "m \<in> set ids" for m
    using that known ids' info_of_id by fastforce+
  have keys: "map mi_jMethodId (pi_methodInfos ?out) = ids"
    using look(2) mi0 by (simp add: empty_ProfilingInfo_def map_idI)
  show thesis
  proof (rule that [OF build])
    show "distinct (map mi_jMethodId (pi_methodInfos ?out))"
      unfolding keys by (rule d)
    show "mi_jMethodId ` set (pi_methodInfos ?out) = used_ids st"
      by (metis keys ids' set_map)
    show "\<forall>mi\<in>set (pi_methodInfos ?out). info_of jvmti vms (mi_jMethodId mi) = Some mi"
      using look mi0 by (auto simp: empty_ProfilingInfo_def)
  qed (use m t tot u st2 in \<open>simp_all add: empty_ProfilingInfo_def\<close>)
qed

lemma message_ids_used:
  assumes "report_ok st"
    and "pi_methods info = map method_info (used_methods (qsort MethodSample_comparator (methods st)))"
    and "pi_samples info = map trace_info (used_traces (qsort CallTraceSample_comparator (traces st)))"
  shows "message_ids info = used_ids st"
  unfolding message_ids_def used_ids_def assms(2,3) set_map set_used [OF assms(1)]
  by (simp add: image_image method_info_def trace_info_def frame_info_def jMethodIdToId_def)


definition sample_names :: name_answers where
  "sample_names = \<lparr>GetMethodName = (\<lambda>m. if m = NULL then None else Some (''run'', ''()V'')),
     GetMethodDeclaringClass = (\<lambda>m. if m = NULL then None else Some 16),
     GetClassSignature = (\<lambda>k. Some ''Lorg/App;'')\<rparr>"

lemma used_ids_clear: "used_ids (clear st) = {}"
  by (simp add: used_ids_def clear_def zero_method_def zero_trace_def)


text \<open>
  The method id \<open>NULL\<close> gets into the message only through a tick whose top frame has it: otherwise
  a slot without a method has no count, and the trace loop leaves such frames out.
\<close>

definition null_clean :: "profiler \<Rightarrow> bool" where
  "null_clean st \<longleftrightarrow> (\<forall>s\<in>set (methods st). ms_method s = NULL \<longrightarrow> ms_call_count s = 0)"

lemma null_clean_storeMethod:
  assumes "storeMethod m st = Some st'" "m \<noteq> NULL" "null_clean st" "arrays_wf st"
  shows "null_clean st'"
proof -
  obtain r i where f: "find_method st m = Some (r, i)" and i: "i < length (methods st)"
    using find_method_bound [of st m] assms(4) by (auto simp: arrays_wfD)
  obtain s where s: "methods st' = (methods st)[i := s]" "ms_method s = m \<or> s = (methods st ! i)
      \<lparr>ms_call_count := ms_call_count (methods st ! i) + 1\<rparr> \<and> ms_method (methods st ! i) = m"
  proof (cases r)
    case True
    then have "ms_method (methods st ! i) = m"
      using f probe_result unfolding find_method_def by fastforce
    with True f i assms(1) that show thesis
      by (auto simp: storeMethod_found)
  next
    case False
    with f i assms(1) that show thesis by (auto simp: storeMethod_new)
  qed
  show ?thesis
    unfolding null_clean_def
  proof (intro ballI impI)
    fix x assume x: "x \<in> set (methods st')" "ms_method x = NULL"
    then have "x = s \<or> x \<in> set (methods st)"
      using set_update_subset_insert [of "methods st" i s] unfolding s(1) by blast
    moreover have "x \<noteq> s"
      using x(2) s(2) assms(2) by auto
    ultimately show "ms_call_count x = 0"
      using assms(3) x(2) by (simp add: null_clean_def)
  qed
qed

lemma null_clean_cong: "methods st' = methods st \<Longrightarrow> null_clean st' = null_clean st"
  by (simp add: null_clean_def)

lemma null_clean_record:
  assumes "recordSample agct tk st = Some st'" "\<not> is_leaf NULL (classify agct tk)"
    and "agct_ok agct" "tick_ok tk" "arrays_wf st" "null_clean st"
  shows "null_clean st'"
proof (cases "classify agct tk")
  case (Traced t)
  note t = classify_Traced [OF assms(3,4) Traced]
  let ?st = "st\<lparr>calls_total := calls_total st + 1\<rparr>"
  have wf: "arrays_wf ?st"
    using assms(5) by (simp add: arrays_wf_def)
  obtain st1 where st1: "storeCallTrace t ?st = Some st1" "arrays_wf st1"
    using storeCallTrace_Some [OF wf t(1)] by blast
  have "rd (frames t) 0 = Some (frames t ! 0)"
    using t(1) by (simp add: trace_ok_def MAX_FRAMES_def array_simps)
  then have "storeMethod (method_id (frames t ! 0)) st1 = Some st'"
    using assms(1) Traced st1 unfolding recordSample_classify by (simp add: Let_def)
  moreover have "null_clean st1"
    using storeCallTrace_frame [OF st1(1)] assms(6) by (simp add: null_clean_def)
  ultimately show ?thesis
    using null_clean_storeMethod st1(2) assms(2) Traced by (auto simp: is_leaf_def)
qed (use assms in \<open>auto simp: recordSample_classify Let_def null_clean_def\<close>)

lemma null_clean_record_all:
  assumes "agct_ok agct"
  shows "record_all agct tks st = Some st' \<Longrightarrow> list_all tick_ok tks \<Longrightarrow>
    list_all (\<lambda>tk. \<not> is_leaf NULL (classify agct tk)) tks \<Longrightarrow> arrays_wf st \<Longrightarrow> null_clean st \<Longrightarrow>
    null_clean st'"
proof (induction tks arbitrary: st)
  case (Cons tk tks)
  then obtain st1 where 1: "recordSample agct tk st = Some st1" "record_all agct tks st1 = Some st'"
    by (auto split: bind_splits)
  have "arrays_wf st1"
    using recordSample_safe [OF assms, of tk st] Cons.prems 1(1) by auto
  with Cons 1 null_clean_record [OF 1(1)] assms show ?case by auto
qed simp

lemma null_clean_clear: "null_clean (clear st)"
  by (simp add: null_clean_def clear_def zero_method_def)

lemma null_clean_used_ids: "null_clean st \<Longrightarrow> NULL \<notin> used_ids st"
  by (auto simp: null_clean_def used_ids_def reported_frames_def)


lemma sample_known: "m \<noteq> NULL \<Longrightarrow> info_of sample_names empty_vm m \<noteq> None"
  by (simp add: info_of_def mk_MethodName_def sample_names_def unit_of_def entry_def empty_vm_def Let_def)


text \<open>
  C13. The method loop, unlike the trace loop, does not leave out \<open>NULL\<close>: once a tick was counted
  under it, the name lookup fails on it and the constructor goes on with uninitialised pointers,
  so no message is ever built.
\<close>
theorem null_method_breaks_report:
  assumes "report_ok st" "s \<in> set (methods st)" "ms_method s = NULL" "ms_call_count s \<noteq> 0"
    and "GetMethodName jvmti NULL = None"
  shows "build_info jvmti st vms = None"
proof -
  let ?info = "empty_ProfilingInfo\<lparr>pi_calls_total := calls_total st,
    pi_calls_non_java := calls_non_java st, pi_calls_gc := calls_gc st,
    pi_calls_deopt := calls_deopt st, pi_calls_unknown := calls_unknown st\<rparr>"
  obtain info2 ids st2 where two:
    "do { ((info, ids), st) \<leftarrow> saveMethods (?info, []) st; saveCallTraces (info, ids) st }
       = Some ((info2, ids), st2)"
    and ids: "set ids = ms_method ` set (used_methods (qsort MethodSample_comparator (methods st)))
       \<union> (\<Union>t\<in>set (used_traces (qsort CallTraceSample_comparator (traces st))).
            method_id ` set (reported_frames t))"
    by (rule tables_saved [OF assms(1), of ?info])
  have "NULL \<in> set ids"
    using assms(2-4) unfolding ids set_used [OF assms(1)] by force
  moreover have "info_of jvmti vms NULL = None"
    using assms(5) by (simp add: info_of_def mk_MethodName_def)
  ultimately have "saveMethodIds jvmti ids (info2, vms) = None"
    using saveMethodIds_None by blast
  with two show ?thesis
    unfolding build_info_def Let_def by (auto split: bind_splits prod.splits)
qed

definition null_counted :: profiler where
  "null_counted = (clear initial_profiler)\<lparr>methods :=
     (methods (clear initial_profiler))[0 := \<lparr>ms_call_count = 1, ms_method = NULL\<rparr>]\<rparr>"

lemma tables_inv_null_counted: "tables_inv 1 null_counted"
proof -
  let ?c = "clear initial_profiler" and ?s = "\<lparr>ms_call_count = 1, ms_method = NULL\<rparr>"
  have c: "tables_inv 1 ?c"
    using tables_inv_Suc [OF tables_inv_clear] by simp
  have len: "length (methods ?c) = MAX_CALLTRACES"
    by (simp add: clear_def)
  have "method_key null_counted = (method_key ?c)(0 := None)"
    using len unfolding null_counted_def by (simp add: method_key_update)
  moreover have "method_key ?c 0 = None"
    by (simp add: method_key_def clear_def zero_method_def)
  ultimately have "method_key null_counted = method_key ?c"
    by (simp add: fun_upd_idem)
  moreover have "\<forall>s\<in>set (methods null_counted). method_slot_ok 1 s"
    using c method_slots_ok_upd [of 1 ?c 1 ?s 0]
    by (simp add: tables_inv_def null_counted_def method_slot_ok_def)
  ultimately have "method_inv 1 null_counted"
    using c by (simp add: tables_inv_def method_inv_def)
  moreover have "trace_inv 1 null_counted" "trace_used null_counted \<le> 1"
    using c trace_view_cong [of null_counted ?c] by (simp_all add: tables_inv_def null_counted_def)
  moreover have "method_used null_counted \<le> 1"
    using method_used_update(1) [of ?c 0 ?s]
    by (simp add: null_counted_def method_used_def clear_def zero_method_def)
  moreover have "arrays_wf null_counted"
    using c by (simp add: tables_inv_def null_counted_def arrays_wf_def)
  ultimately show ?thesis
    by (simp add: tables_inv_def)
qed

lemma null_method_breaks_report_witness:
  "build_info sample_names null_counted empty_vm = None"
  by (rule null_method_breaks_report [OF report_ok_tables [OF tables_inv_null_counted],
      of "\<lparr>ms_call_count = 1, ms_method = NULL\<rparr>"])
    (simp_all add: null_counted_def sample_names_def set_update_memI clear_def)

end
