(* ===== verification/Protocol.thy ===== *)
theory Protocol
  imports Result
begin

text \<open>
  The conversation with the controller: \<open>sendResponse\<close>, \<open>readRequest\<close>, \<open>writeResult\<close>,
  \<open>performWorldDeopt\<close>, \<open>handleRequestLoop\<close> and \<open>Profiler::init\<close>. The protobuf library and the
  socket are parameters: records of the calls the code makes on them. Logging has no effect on
  the state and is left out.
\<close>

section \<open>Messages and libraries\<close>

datatype RequestType = START_PROFILING | STOP_PROFILING | DETACH

datatype ResponseType = INIT | PROF_INFO

record Response =
  resp_id :: jint
  resp_type :: ResponseType
  resp_prof_info :: "ProfilingInfo option"

type_synonym bytes = "8 word list"

text \<open>
  The output side of protobuf. \<open>GetDirectBuffer out n\<close> says whether the stream, after the bytes
  \<open>out\<close>, has a contiguous buffer for \<open>n\<close> more, \<open>HadError out\<close> whether an error has occurred, and
  \<open>Throws\<close> for which messages the library throws its \<open>FatalException\<close>.
\<close>

record out_lib =
  ByteSize :: "Response \<Rightarrow> jint"
  WriteVarint32 :: "32 word \<Rightarrow> bytes"
  GetDirectBuffer :: "bytes \<Rightarrow> jint \<Rightarrow> bool"
  Serialize :: "Response \<Rightarrow> bytes"
  HadError :: "bytes \<Rightarrow> bool"
  Throws :: "Response \<Rightarrow> bool"

text \<open>
  The input side: \<open>'s\<close> is the state of the socket, \<open>'i\<close> that of the stream that each call of
  \<open>readRequest\<close> opens on it and \<open>Leave\<close> drops. \<open>MergeFrom\<close> answers \<open>None\<close> when the message cannot
  be parsed or lacks its required type.
\<close>

record ('s, 'i) in_lib =
  OpenStream :: "'s \<Rightarrow> 'i"
  ReadVarint32 :: "'i \<Rightarrow> 32 word option \<times> 'i"
  PushLimit :: "32 word \<Rightarrow> 'i \<Rightarrow> 'i"
  MergeFrom :: "'i \<Rightarrow> RequestType option \<times> 'i"
  ConsumedEntireMessage :: "'i \<Rightarrow> bool"
  Leave :: "'i \<Rightarrow> 's"

definition error :: "jint \<Rightarrow> jint" where
  "error e = e"

text \<open>\<open>None\<close> is the exception; otherwise the result code and the bytes written so far.\<close>

definition sendResponse :: "out_lib \<Rightarrow> Response \<Rightarrow> bytes \<Rightarrow> (jint \<times> bytes) option" where
  "sendResponse lib message out =
     (if Throws lib message then None
      else
        (let size = ByteSize lib message;
             out = out @ WriteVarint32 lib size
         in if GetDirectBuffer lib out size then
              (let out = out @ Serialize lib message in Some (0, out))
            else
              (let out = out @ Serialize lib message
               in if HadError lib out then Some (error (- 1), out) else Some (0, out))))"

definition readRequest :: "('s, 'i) in_lib \<Rightarrow> 's \<Rightarrow> jint \<times> RequestType \<times> 's" where
  "readRequest lib s =
     (let i = OpenStream lib s;
          (size, i) = ReadVarint32 lib i
      in case size of
           None \<Rightarrow> (- 2, START_PROFILING, Leave lib i)
         | Some n \<Rightarrow>
             (let i = PushLimit lib n i;
                  (msg, i) = MergeFrom lib i
              in case msg of
                   None \<Rightarrow> (error (- 1), START_PROFILING, Leave lib i)
                 | Some ty \<Rightarrow>
                     if \<not> ConsumedEntireMessage lib i then (error (- 1), ty, Leave lib i)
                     else (0, ty, Leave lib i)))"

section \<open>The request loop\<close>

record 's world =
  prof :: profiler
  proc :: process
  vmst :: vm
  sock :: 's
  sock_open :: bool
  sent :: bytes

record ('s, 'i) agent_env =
  e_in :: "('s, 'i) in_lib"
  e_out :: out_lib
  e_names :: name_answers
  e_pid :: jint
  e_sa :: sigaction_t

text \<open>
  \<open>writeResult\<close>: the outer \<open>None\<close> is undefined behaviour while the message is built, the inner one
  the exception, after which the tables are sorted but nothing more is sent.
\<close>

definition writeResult ::
    "('s, 'i) agent_env \<Rightarrow> 's world \<Rightarrow> (jint option \<times> 's world) option" where
  "writeResult cenv w =
     do { (info, st, vms) \<leftarrow> build_info (e_names cenv) (prof w) (vmst w);
          let w = w\<lparr>prof := st, vmst := vms\<rparr>;
          let response = \<lparr>resp_id = e_pid cenv, resp_type = PROF_INFO, resp_prof_info = Some info\<rparr>;
          case sendResponse (e_out cenv) response (sent w) of
            None \<Rightarrow> Some (None, w)
          | Some (res, out) \<Rightarrow> Some (Some res, w\<lparr>sent := out\<rparr>) }"

datatype 'w flow = Continue 'w | Return jint 'w

text \<open>One command: the \<open>switch\<close> in the loop, and the handler around it.\<close>

definition handle_request ::
    "('s, 'i) agent_env \<Rightarrow> RequestType \<Rightarrow> 's world \<Rightarrow> 's world flow option" where
  "handle_request cenv ty w = (case ty of
     START_PROFILING \<Rightarrow>
       (let (st, p) = start (word_of_int DEFAULT_INTERVAL) (e_sa cenv) (prof w, proc w)
        in Some (Continue (w\<lparr>prof := st, proc := p\<rparr>)))
   | STOP_PROFILING \<Rightarrow>
       (let (st, p) = stop (e_sa cenv) (prof w, proc w)
        in do { (res, w) \<leftarrow> writeResult cenv (w\<lparr>prof := st, proc := p\<rparr>);
                (case res of
                   None \<Rightarrow> Some (Return (- 1) w)
                 | Some res \<Rightarrow> if res \<noteq> 0 then Some (Return (error (- 1)) w) else Some (Continue w)) })
   | DETACH \<Rightarrow> Some (Return 0 (w\<lparr>sock_open := False\<rparr>)))"

text \<open>One round of \<open>while (true)\<close>.\<close>

definition loop_round :: "('s, 'i) agent_env \<Rightarrow> 's world \<Rightarrow> 's world flow option" where
  "loop_round cenv w =
     (case readRequest (e_in cenv) (sock w) of (res, ty, s) \<Rightarrow>
       (let w = w\<lparr>sock := s\<rparr>
        in if sint res < 0 then
             (if res = - 2 then Some (Return 0 w) else Some (Return res w))
           else handle_request cenv ty w))"

partial_function (option) request_loop ::
    "('s, 'i) agent_env \<Rightarrow> 's world \<Rightarrow> (jint \<times> 's world) option" where
  "request_loop cenv w =
     do { fl \<leftarrow> loop_round cenv w;
          (case fl of Return res w \<Rightarrow> Some (res, w) | Continue w \<Rightarrow> request_loop cenv w) }"

definition handleRequestLoop :: "('s, 'i) agent_env \<Rightarrow> 's world \<Rightarrow> (jint \<times> 's world) option" where
  "handleRequestLoop cenv w =
     (let response = \<lparr>resp_id = e_pid cenv, resp_type = INIT, resp_prof_info = None\<rparr>
      in case sendResponse (e_out cenv) response (sent w) of
           None \<Rightarrow> Some (- 1, w)
         | Some (err, out) \<Rightarrow>
             (let w = w\<lparr>sent := out\<rparr>
              in if err \<noteq> 0 then Some (error (- 1), w) else request_loop cenv w))"

section \<open>Connecting\<close>

text \<open>The answers of the system and of the JVM during \<open>init\<close>.\<close>

record host_answers =
  socket_result :: jint
  gethostbyname_ok :: bool
  connect_result :: "u16 \<Rightarrow> jint"
  FindClass :: "string \<Rightarrow> ptr"
  RedefineClasses :: "ptr \<Rightarrow> nat \<Rightarrow> bytes \<Rightarrow> jint"

definition classBytes :: bytes where
  "classBytes = [202, 254, 186, 190, 0, 0, 0, 52, 0, 7, 7, 0, 5, 7, 0, 6, 1, 0, 10, 83, 111, 117,
     114, 99, 101, 70, 105, 108, 101, 1, 0, 17, 83, 101, 114, 105, 97, 108, 105, 122,
     97, 98, 108, 101, 46, 106, 97, 118, 97, 1, 0, 20, 106, 97, 118, 97, 47, 105,
     111, 47, 83, 101, 114, 105, 97, 108, 105, 122, 97, 98, 108, 101, 1, 0, 16, 106,
     97, 118, 97, 47, 108, 97, 110, 103, 47, 79, 98, 106, 101, 99, 116, 6, 1, 0, 1,
     0, 2, 0, 0, 0, 0, 0, 0, 0, 1, 0, 3, 0, 0, 0, 2, 0, 4]"

definition performWorldDeopt :: "host_answers \<Rightarrow> jint" where
  "performWorldDeopt host =
     (let klass = FindClass host ''java/io/Serializable''
      in if klass = NULL then error (- 1)
         else RedefineClasses host klass (length classBytes) classBytes)"

definition profiler_init ::
    "host_answers \<Rightarrow> ('s, 'i) agent_env \<Rightarrow> jint \<Rightarrow> 's world \<Rightarrow> (jint \<times> 's world) option" where
  "profiler_init host cenv port w =
     (let w = w\<lparr>prof := (prof w)\<lparr>portno := ucast port, sockfd := socket_result host\<rparr>\<rparr>
      in if sint (socket_result host) < 0 then Some (error (- 1), w)
         else if \<not> gethostbyname_ok host then Some (error (- 1), w)
         else if sint (connect_result host (portno (prof w))) < 0 then Some (error (- 1), w)
         else if sint (performWorldDeopt host) < 0 then Some (error (- 1), w)
         else handleRequestLoop cenv w)"

section \<open>Writing and reading\<close>

text \<open>
  A response is its length prefix and its bytes, on the direct and on the slow path; only on
  the slow path is the error flag of the stream looked at, so with a direct buffer the result is
  success whatever happened to the bytes.
\<close>
theorem sendResponse_framing:
  "sendResponse lib m out =
     (if Throws lib m then None
      else Some (if \<not> GetDirectBuffer lib (out @ WriteVarint32 lib (ByteSize lib m)) (ByteSize lib m)
            \<and> HadError lib (out @ WriteVarint32 lib (ByteSize lib m) @ Serialize lib m) then - 1 else 0,
          out @ WriteVarint32 lib (ByteSize lib m) @ Serialize lib m))"
  by (simp add: sendResponse_def error_def Let_def)

lemma readRequest_codes:
  "fst (readRequest lib s) = 0 \<or> fst (readRequest lib s) = - 1 \<or> fst (readRequest lib s) = - 2"
  by (simp add: readRequest_def error_def Let_def split: option.split prod.split)

text \<open>The class file that is redefined, and the name in its constant pool.\<close>

lemma classBytes_length: "length classBytes = 113"
  by (simp add: classBytes_def)

text \<open>
  \<open>init\<close> refuses to go on only when the class is not found: an error that
  \<open>RedefineClasses\<close> reports is a positive JVMTI code, the test for a negative result lets it pass,
  and the request loop is entered without the deoptimisation.
\<close>
theorem init_ignores_redefine_errors:
  assumes "0 \<le> sint (socket_result host)" "gethostbyname_ok host"
    and "0 \<le> sint (connect_result host (ucast port))" "FindClass host ''java/io/Serializable'' \<noteq> NULL"
    and "0 < sint (RedefineClasses host (FindClass host ''java/io/Serializable'') 113 classBytes)"
  shows "profiler_init host cenv port w =
    handleRequestLoop cenv (w\<lparr>prof := (prof w)\<lparr>portno := ucast port, sockfd := socket_result host\<rparr>\<rparr>)"
  using assms by (simp add: profiler_init_def performWorldDeopt_def classBytes_length Let_def)

definition sample_out :: out_lib where
  "sample_out = \<lparr>ByteSize = (\<lambda>r. case resp_prof_info r of None \<Rightarrow> 4 | Some i \<Rightarrow> 60),
     WriteVarint32 = (\<lambda>n. [ucast n]), GetDirectBuffer = (\<lambda>out n. n = 4),
     Serialize = (\<lambda>r. case resp_type r of INIT \<Rightarrow> [1, 2, 3, 4] | PROF_INFO \<Rightarrow> replicate 60 9),
     HadError = (\<lambda>out. False), Throws = (\<lambda>r. False)\<rparr>"

text \<open>A socket that holds the requests still to come; each stream takes one of them.\<close>

definition sample_in :: "(RequestType list, RequestType list \<times> RequestType option) in_lib" where
  "sample_in = \<lparr>OpenStream = (\<lambda>s. (s, None)),
     ReadVarint32 = (\<lambda>(s, m). case s of [] \<Rightarrow> (None, (s, m)) | ty # s' \<Rightarrow> (Some 2, (s', Some ty))),
     PushLimit = (\<lambda>n i. i), MergeFrom = (\<lambda>(s, m). (m, (s, m))),
     ConsumedEntireMessage = (\<lambda>i. True), Leave = fst\<rparr>"

definition sample_env :: "(RequestType list, RequestType list \<times> RequestType option) agent_env" where
  "sample_env = \<lparr>e_in = sample_in, e_out = sample_out, e_names = sample_names, e_pid = 77,
     e_sa = stack_sigaction\<rparr>"

definition sample_world :: "RequestType list \<Rightarrow> RequestType list world" where
  "sample_world tys = \<lparr>prof = initial_profiler, proc = idle_process, vmst = empty_vm, sock = tys,
     sock_open = True, sent = []\<rparr>"

definition sample_host :: host_answers where
  "sample_host = \<lparr>socket_result = 3, gethostbyname_ok = True, connect_result = (\<lambda>port. 0),
     FindClass = (\<lambda>name. 16), RedefineClasses = (\<lambda>k n b. 63)\<rparr>"

lemma init_ignores_redefine_errors_witness:
  "profiler_init sample_host sample_env 4242 (sample_world [DETACH]) =
    handleRequestLoop sample_env ((sample_world [DETACH])\<lparr>prof :=
      (prof (sample_world [DETACH]))\<lparr>portno := ucast (4242 :: jint), sockfd := socket_result sample_host\<rparr>\<rparr>)"
  by (rule init_ignores_redefine_errors) (simp_all add: sample_host_def)

section \<open>A session\<close>

text \<open>
  A controller that sends the requests \<open>tys\<close>, one whole message for each stream the agent opens,
  and then closes the connection.
\<close>

fun serves :: "('s, 'i) in_lib \<Rightarrow> 's \<Rightarrow> RequestType list \<Rightarrow> bool" where
  "serves lib s [] \<longleftrightarrow> fst (readRequest lib s) = - 2"
| "serves lib s (ty # tys) \<longleftrightarrow> (case readRequest lib s of (res, ty', s') \<Rightarrow>
     res = 0 \<and> ty' = ty \<and> serves lib s' tys)"

text \<open>What a session should do: the running flag it ends with and the number of reports sent.\<close>

fun session_spec :: "bool \<Rightarrow> RequestType list \<Rightarrow> bool \<times> nat" where
  "session_spec r [] = (r, 0)"
| "session_spec r (START_PROFILING # tys) = session_spec True tys"
| "session_spec r (STOP_PROFILING # tys) =
     (case session_spec False tys of (r', n) \<Rightarrow> (r', Suc n))"
| "session_spec r (DETACH # tys) = (r, 0)"

definition frame_bytes :: "out_lib \<Rightarrow> Response \<Rightarrow> bytes" where
  "frame_bytes lib r = WriteVarint32 lib (ByteSize lib r) @ Serialize lib r"

definition info_response :: "jint \<Rightarrow> ProfilingInfo \<Rightarrow> Response" where
  "info_response pid info = \<lparr>resp_id = pid, resp_type = PROF_INFO, resp_prof_info = Some info\<rparr>"

definition out_ok :: "out_lib \<Rightarrow> bool" where
  "out_ok lib \<longleftrightarrow> (\<forall>r. \<not> Throws lib r) \<and> (\<forall>out. \<not> HadError lib out)"

definition session_inv :: "('s, 'i) agent_env \<Rightarrow> 's world \<Rightarrow> bool" where
  "session_inv cenv w \<longleftrightarrow> report_ok (prof w) \<and> null_clean (prof w)
     \<and> armed (proc w) = running (prof w)
     \<and> (\<forall>m. m \<noteq> NULL \<longrightarrow> info_of (e_names cenv) (vmst w) m \<noteq> None)"

lemma send_ok:
  "out_ok lib \<Longrightarrow> sendResponse lib r out = Some (0, out @ frame_bytes lib r)"
  by (simp add: out_ok_def sendResponse_def frame_bytes_def Let_def)

lemma start_default:
  "\<not> running st \<Longrightarrow> start (word_of_int DEFAULT_INTERVAL) sa (st, p) =
     (clear (st\<lparr>running := True\<rparr>),
      p\<lparr>sigprof := Sigprof_Handler, sigprof_flags := SA_RESTART OR SA_SIGINFO, itimer := (0, 10000)\<rparr>)"
  by (simp add: start_def Let_def DEFAULT_INTERVAL_def setTimer_def setTimer_install_def
      setitimer_def signed_divide_int_def)

lemma null_clean_sorted: "null_clean st \<Longrightarrow> null_clean (sorted_tables st)"
  by (simp add: null_clean_def sorted_tables_def)

lemma handle_start:
  assumes "session_inv cenv w"
  obtains w' where "handle_request cenv START_PROFILING w = Some (Continue w')" "session_inv cenv w'"
    "running (prof w')" "sock w' = sock w" "sent w' = sent w"
proof (cases "running (prof w)")
  case True
  with assms that [of w] show thesis
    by (simp add: handle_request_def start_def)
next
  case False
  let ?w = "w\<lparr>prof := clear ((prof w)\<lparr>running := True\<rparr>), proc := (proc w)\<lparr>sigprof := Sigprof_Handler,
    sigprof_flags := SA_RESTART OR SA_SIGINFO, itimer := (0, 10000)\<rparr>\<rparr>"
  have "running (clear ((prof w)\<lparr>running := True\<rparr>))" by (simp add: clear_def)
  then have "session_inv cenv ?w"
    using assms null_clean_clear report_ok_tables [OF tables_inv_clear]
    by (simp add: session_inv_def armed_def)
  with False that [of ?w] show thesis
    by (simp add: handle_request_def start_default) (simp add: clear_def)
qed

lemma writeResult_ok:
  assumes "session_inv cenv w" "out_ok (e_out cenv)"
  obtains info vms' where "writeResult cenv w = Some (Some 0, w\<lparr>prof := sorted_tables (prof w),
      vmst := vms', sent := sent w @ frame_bytes (e_out cenv) (info_response (e_pid cenv) info)\<rparr>)"
    "unit_of vms' = unit_of (vmst w)"
proof -
  have known: "\<forall>m\<in>used_ids (prof w). info_of (e_names cenv) (vmst w) m \<noteq> None"
    using assms(1) null_clean_used_ids unfolding session_inv_def by metis
  have ok: "report_ok (prof w)"
    using assms(1) by (simp add: session_inv_def)
  obtain info vms' where "build_info (e_names cenv) (prof w) (vmst w)
      = Some (info, sorted_tables (prof w), vms')" "unit_of vms' = unit_of (vmst w)"
    by (rule build_info_Some [OF ok known]) auto
  with that show thesis
    by (simp add: writeResult_def send_ok [OF assms(2)] info_response_def Let_def)
qed

lemma handle_stop:
  assumes "session_inv cenv w" "out_ok (e_out cenv)"
  obtains w' info where "handle_request cenv STOP_PROFILING w = Some (Continue w')" "session_inv cenv w'"
    "\<not> running (prof w')" "sock w' = sock w"
    "sent w' = sent w @ frame_bytes (e_out cenv) (info_response (e_pid cenv) info)"
proof -
  obtain st p where sp: "stop (e_sa cenv) (prof w, proc w) = (st, p)" by fastforce
  let ?w = "w\<lparr>prof := st, proc := p\<rparr>"
  have st: "\<not> running st" "\<not> armed p" "methods st = methods (prof w)" "traces st = traces (prof w)"
    using sp assms(1) by (auto simp: stop_def setTimer_def setTimer_install_def setitimer_def armed_def
        session_inv_def split: if_splits)
  then have inv: "session_inv cenv ?w"
    using assms(1) by (simp add: session_inv_def report_ok_def null_clean_def)
  obtain info vms' where wr: "writeResult cenv ?w = Some (Some 0, ?w\<lparr>prof := sorted_tables (prof ?w),
      vmst := vms', sent := sent ?w @ frame_bytes (e_out cenv) (info_response (e_pid cenv) info)\<rparr>)"
    and u: "unit_of vms' = unit_of (vmst ?w)"
    by (rule writeResult_ok [OF inv assms(2)])
  let ?w' = "?w\<lparr>prof := sorted_tables (prof ?w),
      vmst := vms', sent := sent ?w @ frame_bytes (e_out cenv) (info_response (e_pid cenv) info)\<rparr>"
  have "session_inv cenv ?w'"
    using inv u report_ok_sorted null_clean_sorted st
    by (simp add: session_inv_def info_of_def) (simp add: sorted_tables_def)
  with wr sp st(1) that [of ?w' info] show thesis
    by (simp add: handle_request_def) (simp add: sorted_tables_def)
qed

lemma request_loop_session:
  "serves (e_in cenv) (sock w) tys \<Longrightarrow> session_inv cenv w \<Longrightarrow> out_ok (e_out cenv) \<Longrightarrow>
   \<exists>w' infos. request_loop cenv w = Some (0, w')
     \<and> (running (prof w'), length infos) = session_spec (running (prof w)) tys
     \<and> armed (proc w') = running (prof w')
     \<and> sent w' = sent w @ concat (map (frame_bytes (e_out cenv) \<circ> info_response (e_pid cenv)) infos)"
proof (induction tys arbitrary: w)
  case Nil
  obtain ty s where "readRequest (e_in cenv) (sock w) = (- 2, ty, s)"
    using Nil by (cases "readRequest (e_in cenv) (sock w)") auto
  then have "request_loop cenv w = Some (0, w\<lparr>sock := s\<rparr>)"
    by (subst request_loop.simps) (simp add: loop_round_def)
  with Nil show ?case
    by (intro exI [of _ "w\<lparr>sock := s\<rparr>"] exI [of _ "[]"]) (simp add: session_inv_def)
next
  case (Cons ty tys)
  obtain s where s: "readRequest (e_in cenv) (sock w) = (0, ty, s)" "serves (e_in cenv) s tys"
    using Cons.prems by (auto split: prod.splits)
  let ?w = "w\<lparr>sock := s\<rparr>"
  have inv: "session_inv cenv ?w"
    using Cons.prems by (simp add: session_inv_def)
  have unroll: "request_loop cenv w = do { fl \<leftarrow> handle_request cenv ty ?w;
      (case fl of Return res w \<Rightarrow> Some (res, w) | Continue w \<Rightarrow> request_loop cenv w) }"
    by (subst request_loop.simps) (simp add: loop_round_def s Let_def)
  show ?case
  proof (cases ty)
    case START_PROFILING
    obtain w1 where w1: "handle_request cenv START_PROFILING ?w = Some (Continue w1)" "session_inv cenv w1"
      "running (prof w1)" "sock w1 = sock ?w" "sent w1 = sent ?w"
      by (rule handle_start [OF inv])
    with Cons.IH [of w1] Cons.prems s START_PROFILING unroll show ?thesis
      by simp
  next
    case STOP_PROFILING
    obtain w1 info where w1: "handle_request cenv STOP_PROFILING ?w = Some (Continue w1)"
      "session_inv cenv w1" "\<not> running (prof w1)" "sock w1 = sock ?w"
      "sent w1 = sent ?w @ frame_bytes (e_out cenv) (info_response (e_pid cenv) info)"
      by (rule handle_stop [OF inv Cons.prems(3)])
    have "serves (e_in cenv) (sock w1) tys"
      using w1(4) s(2) by simp
    from Cons.IH [OF this w1(2) Cons.prems(3)]
    obtain w' infos where w': "request_loop cenv w1 = Some (0, w')"
      "(running (prof w'), length infos) = session_spec (running (prof w1)) tys"
      "armed (proc w') = running (prof w')"
      "sent w' = sent w1 @ concat (map (frame_bytes (e_out cenv) \<circ> info_response (e_pid cenv)) infos)"
      by blast
    have "(running (prof w'), length (info # infos)) = session_spec (running (prof w)) (ty # tys)"
      using w'(2) w1(3) STOP_PROFILING by (auto split: prod.split)
    then show ?thesis
      using w' w1 unroll STOP_PROFILING by (intro exI [of _ w'] exI [of _ "info # infos"]) (simp add: comp_def)
  next
    case DETACH
    then have "request_loop cenv w = Some (0, ?w\<lparr>sock_open := False\<rparr>)"
      using unroll by (simp add: handle_request_def)
    with DETACH inv show ?thesis
      by (intro exI [of _ "?w\<lparr>sock_open := False\<rparr>"] exI [of _ "[]"]) (simp add: session_inv_def)
  qed
qed


lemma session_inv_sample: "session_inv sample_env (sample_world tys)"
proof -
  have "initial_profiler = clear initial_profiler"
    by (simp add: initial_profiler_def clear_def)
  then have "report_ok initial_profiler" "null_clean initial_profiler"
    using report_ok_tables [OF tables_inv_clear [of initial_profiler]] null_clean_clear [of initial_profiler]
    by simp_all
  then show ?thesis
    using sample_known by (simp add: session_inv_def sample_world_def sample_env_def armed_def idle_process_def)
      (simp add: initial_profiler_def)
qed

lemma serves_sample: "serves sample_in tys tys"
  by (induction tys) (simp_all add: readRequest_def sample_in_def Let_def)


end
