(* ===== verification/Agent.thy ===== *)
theory Agent
  imports Protocol
begin

text \<open>
  The agent as a whole: the entry points of the library, and the transition system in which the
  \<open>SIGPROF\<close> handler interrupts the request loop between any two of its rounds. The invariant of
  the reachable states is that the timer runs exactly while the profiler does, and only with the
  handler in place.
\<close>

section \<open>Entry points\<close>

text \<open>
  \<open>atoi\<close> of the C library: white space, a sign, and the longest run of digits. A value outside
  \<open>int\<close> is undefined.
\<close>

definition digit_val :: "char \<Rightarrow> int" where
  "digit_val c = int (of_char c) - 48"

definition digits_val :: "string \<Rightarrow> int" where
  "digits_val ds = foldl (\<lambda>v c. 10 * v + digit_val c) 0 ds"

definition atoi :: "string \<Rightarrow> jint option" where
  "atoi s =
     (let s = dropWhile is_c_space s;
          neg = (s \<noteq> [] \<and> hd s = CHR ''-'');
          s = (if s \<noteq> [] \<and> (hd s = CHR ''-'' \<or> hd s = CHR ''+'') then tl s else s);
          v = digits_val (takeWhile is_c_digit s);
          v = (if neg then - v else v)
      in if - (2 ^ 31) \<le> v \<and> v < 2 ^ 31 then Some (word_of_int v) else None)"

text \<open>
  \<open>VM::attach\<close> ignores the result of \<open>init\<close>: the call on the environment that follows is
  undefined when there is none.
\<close>

definition vm_attach ::
    "jvm_answers \<Rightarrow> class_answers \<Rightarrow> jvmti_setup \<times> jvmti_ids \<Rightarrow> (jvmti_setup \<times> jvmti_ids) option" where
  "vm_attach jvm cls s = (case s of (setup, ids) \<Rightarrow>
     (let (res, setup) = vm_init jvm setup
      in if getenv_jvmti jvm = NULL then None else Some (setup, loadAllMethodIDs cls ids)))"

definition Agent_OnLoad :: "jvm_answers \<Rightarrow> jvmti_setup \<Rightarrow> jint \<times> jvmti_setup" where
  "Agent_OnLoad jvm setup = vm_init jvm setup"

definition VMInit :: "class_answers \<Rightarrow> jvmti_ids \<Rightarrow> jvmti_ids" where
  "VMInit cls ids = loadAllMethodIDs cls ids"

definition ClassLoad :: "jclass \<Rightarrow> jvmti_ids \<Rightarrow> jvmti_ids" where
  "ClassLoad klass ids = ids"

definition ClassPrepare :: "class_answers \<Rightarrow> jclass \<Rightarrow> jvmti_ids \<Rightarrow> jvmti_ids" where
  "ClassPrepare cls klass ids = loadMethodIDs cls klass ids"

text \<open>\<open>options\<close> may be a null pointer, which \<open>atoi\<close> must not be given.\<close>

definition Agent_OnAttach ::
    "jvm_answers \<Rightarrow> class_answers \<Rightarrow> host_answers \<Rightarrow> ('s, 'i) agent_env \<Rightarrow> string option
     \<Rightarrow> (jvmti_setup \<times> jvmti_ids) \<times> 's world \<Rightarrow> (jint \<times> (jvmti_setup \<times> jvmti_ids) \<times> 's world) option" where
  "Agent_OnAttach jvm cls host cenv options sw = (case sw of (s, w) \<Rightarrow>
     do { s \<leftarrow> vm_attach jvm cls s;
          opts \<leftarrow> options;
          port \<leftarrow> atoi opts;
          (res, w) \<leftarrow> profiler_init host cenv port w;
          Some (res, s, w) })"

definition JNI_OnLoad ::
    "jvm_answers \<Rightarrow> class_answers \<Rightarrow> jvmti_setup \<times> jvmti_ids \<Rightarrow> (jint \<times> jvmti_setup \<times> jvmti_ids) option" where
  "JNI_OnLoad jvm cls s = do { s \<leftarrow> vm_attach jvm cls s; Some (0x00010006, s) }"

lemma char_of_digit:
  fixes d :: nat
  assumes "d < 10"
  shows "digit_val (char_of (48 + d)) = int d" "is_c_digit (char_of (48 + d))"
    "\<not> is_c_space (char_of (48 + d))" "char_of (48 + d) \<noteq> CHR ''-''" "char_of (48 + d) \<noteq> CHR ''+''"
proof -
  have code: "of_char (char_of (48 + d) :: char) = 48 + d"
    using assms by simp
  then show "digit_val (char_of (48 + d)) = int d" "is_c_digit (char_of (48 + d))"
    "\<not> is_c_space (char_of (48 + d))"
    using assms by (simp_all add: digit_val_def is_c_digit_def is_c_space_def)
  have "of_char CHR ''-'' = (45 :: nat)" "of_char CHR ''+'' = (43 :: nat)"
    by simp_all
  with code assms show "char_of (48 + d) \<noteq> CHR ''-''" "char_of (48 + d) \<noteq> CHR ''+''"
    by (force dest!: arg_cong [where f = "of_char :: char \<Rightarrow> nat"])+
qed

lemma digits_val_snoc: "digits_val (ds @ [c]) = 10 * digits_val ds + digit_val c"
  by (simp add: digits_val_def)

lemma digits_val_decimal: "digits_val (decimal n) = int n"
proof (induction n rule: decimal.induct)
  case (1 n)
  show ?case
  proof (cases "n < 10")
    case True
    then show ?thesis
      by (subst decimal.simps) (simp add: digits_val_def char_of_digit)
  next
    case False
    then have "digits_val (decimal n) = 10 * int (n div 10) + int (n mod 10)"
      using 1 by (subst decimal.simps) (simp add: digits_val_snoc char_of_digit)
    then show ?thesis
      by presburger
  qed
qed

lemma atoi_decimal_value:
  assumes "n < 2 ^ 31"
  shows "atoi (decimal n) = Some (word_of_int (int n))"
proof -
  obtain c cs where c: "decimal n = c # cs"
    using decimal_nonempty [of n] by (cases "decimal n") auto
  have all: "\<And>x. x \<in> set (decimal n) \<Longrightarrow> is_c_digit x \<and> \<not> is_c_space x \<and> x \<noteq> CHR ''-'' \<and> x \<noteq> CHR ''+''"
    using decimal_chars char_of_digit by metis
  have "takeWhile is_c_digit (decimal n) = decimal n"
    using all by simp
  moreover have "\<not> is_c_space c" "c \<noteq> CHR ''-''" "c \<noteq> CHR ''+''"
    using all [of c] c by simp_all
  ultimately show ?thesis
    using assms c digits_val_decimal [of n] by (simp add: atoi_def Let_def)
qed

text \<open>
  The port that the attaching process writes in decimal is the port the agent connects to:
  \<open>atoi\<close> and the narrowing to \<open>uint16_t\<close> lose nothing below 65536, and the result of the
  attach is that of the session on this port.
\<close>
theorem attach_port:
  assumes "n < 65536" "vm_attach jvm cls s = Some s'"
    and "0 \<le> sint (socket_result host)" "gethostbyname_ok host"
  shows "Agent_OnAttach jvm cls host cenv (Some (decimal n)) (s, w) =
    (if sint (connect_result host (of_nat n)) < 0
     then Some (- 1, s', w\<lparr>prof := (prof w)\<lparr>portno := of_nat n, sockfd := socket_result host\<rparr>\<rparr>)
     else do { (res, w) \<leftarrow> profiler_init host cenv (of_nat n) w; Some (res, s', w) })"
proof -
  have port: "atoi (decimal n) = Some (of_nat n)"
    using assms(1) atoi_decimal_value [of n] by simp
  have "ucast (of_nat n :: jint) = (of_nat n :: u16)"
    using assms(1) by (simp add: unsigned_of_nat take_bit_nat_eq_self)
  then show ?thesis
    using assms port by (simp add: Agent_OnAttach_def profiler_init_def error_def Let_def)
qed

definition sample_jvm :: jvm_answers where
  "sample_jvm = \<lparr>getenv_result = 0, getenv_jvmti = 8, add_capabilities = (\<lambda>c. 0),
     set_event_callbacks = (\<lambda>c. 0)\<rparr>"

definition sample_classes :: class_answers where
  "sample_classes = \<lparr>get_class_methods = (\<lambda>k. if k = 3 then 21 else 0), get_loaded_classes = (0, [1, 2, 3])\<rparr>"

definition sample_setup :: "jvmti_setup \<times> jvmti_ids" where
  "sample_setup = (\<lparr>capabilities = {}, callbacks = {}, enabled = []\<rparr>, \<lparr>outstanding = 0, with_ids = []\<rparr>)"

lemma attach_port_witness:
  "Agent_OnAttach sample_jvm sample_classes sample_host sample_env (Some (decimal 4242))
      (sample_setup, sample_world [DETACH]) =
    (if sint (connect_result sample_host (of_nat 4242)) < 0
     then Some (- 1, the (vm_attach sample_jvm sample_classes sample_setup),
       (sample_world [DETACH])\<lparr>prof := (prof (sample_world [DETACH]))
          \<lparr>portno := of_nat 4242, sockfd := socket_result sample_host\<rparr>\<rparr>)
     else do { (res, w) \<leftarrow> profiler_init sample_host sample_env (of_nat 4242) (sample_world [DETACH]);
        Some (res, the (vm_attach sample_jvm sample_classes sample_setup), w) })"
proof (rule attach_port)
  show "vm_attach sample_jvm sample_classes sample_setup
      = Some (the (vm_attach sample_jvm sample_classes sample_setup))"
    by (simp add: vm_attach_def sample_setup_def sample_jvm_def split: prod.split)
qed (simp_all add: sample_host_def)

section \<open>The agent and its interrupts\<close>

text \<open>
  A state is the world with the phase of the control thread: in its loop, or returned with a code.
  A tick happens when the timer is armed; a tick whose disposition is not the handler would end
  the process and has no successor.
\<close>

datatype 's agent_state = Looping "'s world" | Returned jint "'s world"

fun world_of :: "'s agent_state \<Rightarrow> 's world" where
  "world_of (Looping w) = w"
| "world_of (Returned res w) = w"

fun with_prof :: "profiler \<Rightarrow> 's agent_state \<Rightarrow> 's agent_state" where
  "with_prof st (Looping w) = Looping (w\<lparr>prof := st\<rparr>)"
| "with_prof st (Returned res w) = Returned res (w\<lparr>prof := st\<rparr>)"

inductive agent_step ::
    "(ASGCT_CallTrace \<Rightarrow> jint \<Rightarrow> 'u \<Rightarrow> ASGCT_CallTrace) \<Rightarrow> ('s, 'i) agent_env
     \<Rightarrow> 's agent_state \<Rightarrow> 's agent_state \<Rightarrow> bool"
  for agct cenv where
  tick: "armed (proc (world_of a)) \<Longrightarrow> sigprof (proc (world_of a)) = Sigprof_Handler \<Longrightarrow> tick_ok tk \<Longrightarrow>
    recordSample agct tk (prof (world_of a)) = Some st \<Longrightarrow> agent_step agct cenv a (with_prof st a)"
| continue: "loop_round cenv w = Some (Continue w') \<Longrightarrow> agent_step agct cenv (Looping w) (Looping w')"
| return: "loop_round cenv w = Some (Return res w') \<Longrightarrow> agent_step agct cenv (Looping w) (Returned res w')"

inductive reachable ::
    "(ASGCT_CallTrace \<Rightarrow> jint \<Rightarrow> 'u \<Rightarrow> ASGCT_CallTrace) \<Rightarrow> ('s, 'i) agent_env
     \<Rightarrow> 's agent_state \<Rightarrow> 's agent_state \<Rightarrow> bool"
  for agct cenv a0 where
  init: "reachable agct cenv a0 a0"
| step: "reachable agct cenv a0 a \<Longrightarrow> agent_step agct cenv a a' \<Longrightarrow> reachable agct cenv a0 a'"

inductive_cases agent_loopE: "agent_step agct cenv (Looping w) a'"

inductive_cases agent_returnedE: "agent_step agct cenv (Returned res w) a'"

definition agent_inv :: "'s world \<Rightarrow> bool" where
  "agent_inv w \<longleftrightarrow> arrays_wf (prof w) \<and> armed (proc w) = running (prof w)
     \<and> (armed (proc w) \<longrightarrow> sigprof (proc w) = Sigprof_Handler)"

lemma agent_inv_start:
  assumes "agent_inv w" "handle_request cenv START_PROFILING w = Some (Continue w')"
  shows "agent_inv w'"
proof (cases "running (prof w)")
  case True
  with assms show ?thesis by (simp add: handle_request_def start_def)
next
  case False
  then have "w' = w\<lparr>prof := clear ((prof w)\<lparr>running := True\<rparr>), proc := (proc w)\<lparr>sigprof := Sigprof_Handler,
    sigprof_flags := SA_RESTART OR SA_SIGINFO, itimer := (0, 10000)\<rparr>\<rparr>"
    using assms(2) by (simp add: handle_request_def start_default)
  then show ?thesis
    by (simp add: agent_inv_def armed_def) (simp add: clear_def)
qed

lemma build_info_frame:
  assumes "build_info jvmti st vms = Some (info, st', vms')" "arrays_wf st"
  shows "arrays_wf st'" "running st' = running st"
proof -
  have "st' = sorted_tables st"
    using assms(1) unfolding build_info_def saveMethods_def saveCallTraces_def sorted_tables_def Let_def
    by (auto split: bind_splits prod.splits)
  then show "arrays_wf st'" "running st' = running st"
    using assms(2) by (simp_all add: sorted_tables_def arrays_wf_def)
qed

lemma writeResult_frame:
  assumes "writeResult cenv w = Some (res, w')" "arrays_wf (prof w)"
  shows "arrays_wf (prof w')" "running (prof w') = running (prof w)" "proc w' = proc w"
  using assms build_info_frame [OF _ assms(2)] unfolding writeResult_def Let_def
  by (auto split: bind_splits prod.splits option.splits)

lemma agent_inv_stop:
  assumes "agent_inv w" "handle_request cenv STOP_PROFILING w = Some fl"
  shows "\<exists>w'. (fl = Continue w' \<or> (\<exists>res. fl = Return res w')) \<and> agent_inv w' \<and> \<not> armed (proc w')"
proof -
  obtain st p where sp: "stop (e_sa cenv) (prof w, proc w) = (st, p)" by fastforce
  have st: "\<not> running st" "\<not> armed p" "arrays_wf st"
    using sp assms(1) by (auto simp: stop_def setTimer_def setTimer_install_def setitimer_def armed_def
        agent_inv_def arrays_wf_def split: if_splits)
  let ?w = "w\<lparr>prof := st, proc := p\<rparr>"
  obtain res w' where wr: "writeResult cenv ?w = Some (res, w')"
    and fl: "fl = Continue w' \<or> (\<exists>r. fl = Return r w')"
    using assms(2) sp by (auto simp: handle_request_def split: bind_splits prod.splits option.splits if_splits)
  have "agent_inv w'" "\<not> armed (proc w')"
    using writeResult_frame [OF wr] st by (simp_all add: agent_inv_def)
  with fl show ?thesis by blast
qed

lemma agent_inv_round:
  assumes "agent_inv w" "loop_round cenv w = Some fl"
  shows "\<exists>w'. (fl = Continue w' \<or> (\<exists>res. fl = Return res w')) \<and> agent_inv w'"
proof -
  obtain res ty s where r: "readRequest (e_in cenv) (sock w) = (res, ty, s)"
    by (cases "readRequest (e_in cenv) (sock w)") auto
  let ?w = "w\<lparr>sock := s\<rparr>"
  have inv: "agent_inv ?w"
    using assms(1) by (simp add: agent_inv_def)
  show ?thesis
  proof (cases "sint res < 0")
    case True
    with assms(2) r inv show ?thesis
      by (auto simp: loop_round_def Let_def split: if_splits)
  next
    case False
    then have h: "handle_request cenv ty ?w = Some fl"
      using assms(2) r by (simp add: loop_round_def Let_def)
    show ?thesis
    proof (cases ty)
      case START_PROFILING
      then obtain w' where "fl = Continue w'"
        using h by (auto simp: handle_request_def split: prod.splits)
      with agent_inv_start [OF inv] h START_PROFILING show ?thesis by blast
    next
      case STOP_PROFILING
      with agent_inv_stop [OF inv] h show ?thesis by blast
    next
      case DETACH
      with h inv show ?thesis
        by (auto simp: handle_request_def agent_inv_def)
    qed
  qed
qed

lemma reachable_agent_inv:
  assumes "agct_ok agct" "agent_inv w0"
  shows "reachable agct cenv (Looping w0) a \<Longrightarrow> agent_inv (world_of a)"
proof (induction rule: reachable.induct)
  case init
  then show ?case using assms(2) by simp
next
  case (step a a')
  from step.hyps(2) show ?case
  proof (cases rule: agent_step.cases)
    case (tick tk st)
    then obtain st' where "recordSample agct tk (prof (world_of a)) = Some st'" "arrays_wf st'"
      "running st' = running (prof (world_of a))"
      using recordSample_safe [OF assms(1), of tk "prof (world_of a)"] step.IH
      by (auto simp: agent_inv_def)
    with tick step.IH show ?thesis
      by (cases a) (simp_all add: agent_inv_def)
  next
    case (continue w w')
    with step.IH agent_inv_round [of w cenv "Continue w'"] show ?thesis by auto
  next
    case (return w res w')
    with step.IH agent_inv_round [of w cenv "Return res w'"] show ?thesis by auto
  qed
qed


lemma agent_inv_sample: "agent_inv (sample_world tys)"
  by (simp add: agent_inv_def sample_world_def armed_def idle_process_def)
    (simp add: initial_profiler_def)

lemma sample_started:
  "reachable sample_agct sample_env (Looping (sample_world [START_PROFILING]))
     (Looping ((sample_world [])\<lparr>prof := clear (initial_profiler\<lparr>running := True\<rparr>),
        proc := idle_process\<lparr>sigprof := Sigprof_Handler,
          sigprof_flags := SA_RESTART OR SA_SIGINFO, itimer := (0, 10000)\<rparr>\<rparr>))"
  by (rule reachable.step [OF reachable.init], rule agent_step.continue)
    (simp add: loop_round_def readRequest_def sample_env_def sample_world_def sample_in_def
      handle_request_def start_default initial_idle)


text \<open>
  Once the control thread has returned, nothing but ticks happens, and the process state stays
  as it was left: a profiler that was running when the controller detached samples for ever.
\<close>
theorem returned_stays:
  assumes "reachable agct cenv (Returned res w) a"
  shows "\<exists>w'. a = Returned res w' \<and> proc w' = proc w \<and> sent w' = sent w"
  using assms
proof (induction rule: reachable.induct)
  case (step a a')
  then obtain w1 where w1: "a = Returned res w1" "proc w1 = proc w" "sent w1 = sent w"
    by blast
  from step.hyps(2) show ?case
    unfolding w1(1) by (rule agent_returnedE) (use w1 in simp)
qed simp

definition detached_world :: "RequestType list world" where
  "detached_world = (sample_world [])\<lparr>prof := clear (initial_profiler\<lparr>running := True\<rparr>),
     proc := idle_process\<lparr>sigprof := Sigprof_Handler, itimer := (0, 10000)\<rparr>, sock_open := False\<rparr>"

lemma detached_tick:
  "reachable sample_agct sample_env (Returned 0 detached_world)
     (Returned 0 (detached_world\<lparr>prof := the (recordSample sample_agct (sample_tick 5) (prof detached_world))\<rparr>))"
proof -
  have "arrays_wf (prof detached_world)"
    by (simp add: detached_world_def)
  then obtain st where "recordSample sample_agct (sample_tick 5) (prof detached_world) = Some st"
    using recordSample_safe [OF agct_ok_sample tick_ok_sample] by blast
  moreover have "armed (proc detached_world)" "sigprof (proc detached_world) = Sigprof_Handler"
    by (simp_all add: detached_world_def armed_def)
  ultimately show ?thesis
    using reachable.step [OF reachable.init agent_step.tick [of "Returned 0 detached_world" "sample_tick 5"]]
      tick_ok_sample by simp
qed

lemma returned_stays_witness:
  "\<exists>w'. Returned 0 (detached_world\<lparr>prof := the (recordSample sample_agct (sample_tick 5) (prof detached_world))\<rparr>)
      = Returned 0 w' \<and> proc w' = proc detached_world \<and> sent w' = sent detached_world"
  by (rule returned_stays [OF detached_tick])

end
