(* ===== verification/ElLevels.thy ===== *)
theory ElLevels
  imports Prelude
begin

text \<open>
  The enumerations of the logging library (\<open>easylogging.h\<close>): severity levels, configuration types
  and flags, their conversions from and to strings, the loop that walks an enumeration by
  shifting, and the constants that the other parts use. An enumeration is a datatype with its
  integer values; a cast from an integer without an enumerator is \<open>None\<close>.
\<close>

type_synonym enum_t = "16 word"

section \<open>Levels\<close>

datatype Level = L_Global | L_Trace | L_Debug | L_Fatal | L_Error | L_Warning | L_Verbose | L_Info | L_Unknown

fun level_int :: "Level \<Rightarrow> enum_t" where
  "level_int L_Global = 1"
| "level_int L_Trace = 2"
| "level_int L_Debug = 4"
| "level_int L_Fatal = 8"
| "level_int L_Error = 16"
| "level_int L_Warning = 32"
| "level_int L_Verbose = 64"
| "level_int L_Info = 128"
| "level_int L_Unknown = 1010"

definition level_kMinValid :: enum_t where "level_kMinValid = level_int L_Trace"

definition level_kMaxValid :: enum_t where "level_kMaxValid = level_int L_Info"

definition level_castFromInt :: "enum_t \<Rightarrow> Level option" where
  "level_castFromInt l =
     (if l = 1 then Some L_Global
      else if l = 2 then Some L_Trace
      else if l = 4 then Some L_Debug
      else if l = 8 then Some L_Fatal
      else if l = 16 then Some L_Error
      else if l = 32 then Some L_Warning
      else if l = 64 then Some L_Verbose
      else if l = 128 then Some L_Info
      else if l = 1010 then Some L_Unknown
      else None)"

definition level_convertToString :: "Level \<Rightarrow> string" where
  "level_convertToString level =
     (if level = L_Global then ''GLOBAL''
      else if level = L_Debug then ''DEBUG''
      else if level = L_Info then ''INFO''
      else if level = L_Warning then ''WARNING''
      else if level = L_Error then ''ERROR''
      else if level = L_Fatal then ''FATAL''
      else if level = L_Verbose then ''VERBOSE''
      else if level = L_Trace then ''TRACE''
      else ''UNKNOWN'')"

definition level_convertFromString :: "string \<Rightarrow> Level" where
  "level_convertFromString s =
     (if s = ''GLOBAL'' \<or> s = ''global'' then L_Global
      else if s = ''DEBUG'' \<or> s = ''debug'' then L_Debug
      else if s = ''INFO'' \<or> s = ''info'' then L_Info
      else if s = ''WARNING'' \<or> s = ''warning'' then L_Warning
      else if s = ''ERROR'' \<or> s = ''error'' then L_Error
      else if s = ''FATAL'' \<or> s = ''fatal'' then L_Fatal
      else if s = ''VERBOSE'' \<or> s = ''verbose'' then L_Verbose
      else if s = ''TRACE'' \<or> s = ''trace'' then L_Trace
      else L_Unknown)"

section \<open>Configuration types\<close>

datatype ConfigurationType = C_Enabled | C_ToFile | C_ToStandardOutput | C_Format | C_Filename | C_MillisecondsWidthType | C_PerformanceTracking | C_MaxLogFileSize | C_LogFlushThreshold | C_Unknown

fun config_int :: "ConfigurationType \<Rightarrow> enum_t" where
  "config_int C_Enabled = 1"
| "config_int C_ToFile = 2"
| "config_int C_ToStandardOutput = 4"
| "config_int C_Format = 8"
| "config_int C_Filename = 16"
| "config_int C_MillisecondsWidthType = 32"
| "config_int C_PerformanceTracking = 64"
| "config_int C_MaxLogFileSize = 128"
| "config_int C_LogFlushThreshold = 256"
| "config_int C_Unknown = 1010"

definition config_kMinValid :: enum_t where "config_kMinValid = config_int C_Enabled"

definition config_kMaxValid :: enum_t where "config_kMaxValid = config_int C_MaxLogFileSize"

definition config_castFromInt :: "enum_t \<Rightarrow> ConfigurationType option" where
  "config_castFromInt l =
     (if l = 1 then Some C_Enabled
      else if l = 2 then Some C_ToFile
      else if l = 4 then Some C_ToStandardOutput
      else if l = 8 then Some C_Format
      else if l = 16 then Some C_Filename
      else if l = 32 then Some C_MillisecondsWidthType
      else if l = 64 then Some C_PerformanceTracking
      else if l = 128 then Some C_MaxLogFileSize
      else if l = 256 then Some C_LogFlushThreshold
      else if l = 1010 then Some C_Unknown
      else None)"

definition config_convertToString :: "ConfigurationType \<Rightarrow> string" where
  "config_convertToString c =
     (if c = C_Enabled then ''ENABLED''
      else if c = C_Filename then ''FILENAME''
      else if c = C_Format then ''FORMAT''
      else if c = C_ToFile then ''TO_FILE''
      else if c = C_ToStandardOutput then ''TO_STANDARD_OUTPUT''
      else if c = C_MillisecondsWidthType then ''MILLISECONDS_WIDTH''
      else if c = C_PerformanceTracking then ''PERFORMANCE_TRACKING''
      else if c = C_MaxLogFileSize then ''MAX_LOG_FILE_SIZE''
      else if c = C_LogFlushThreshold then ''LOG_FLUSH_THRESHOLD''
      else ''UNKNOWN'')"

definition config_convertFromString :: "string \<Rightarrow> ConfigurationType" where
  "config_convertFromString s =
     (if s = ''ENABLED'' \<or> s = ''enabled'' then C_Enabled
      else if s = ''TO_FILE'' \<or> s = ''to_file'' then C_ToFile
      else if s = ''TO_STANDARD_OUTPUT'' \<or> s = ''to_standard_output'' then C_ToStandardOutput
      else if s = ''FORMAT'' \<or> s = ''format'' then C_Format
      else if s = ''FILENAME'' \<or> s = ''filename'' then C_Filename
      else if s = ''MILLISECONDS_WIDTH'' \<or> s = ''milliseconds_width'' then C_MillisecondsWidthType
      else if s = ''PERFORMANCE_TRACKING'' \<or> s = ''performance_tracking'' then C_PerformanceTracking
      else if s = ''MAX_LOG_FILE_SIZE'' \<or> s = ''max_log_file_size'' then C_MaxLogFileSize
      else if s = ''LOG_FLUSH_THRESHOLD'' \<or> s = ''log_flush_threshold'' then C_LogFlushThreshold
      else C_Unknown)"

section \<open>Walking an enumeration\<close>

text \<open>
  The \<open>do ... while\<close> loop of \<open>forEachLevel\<close> and \<open>forEachConfigType\<close>: \<open>fn\<close> sees the current value
  through the pointer it shares with the loop, and may change the state it captures; true stops
  the walk. From 0 the loop never ends.
\<close>

partial_function (option) for_each_bit ::
    "enum_t \<Rightarrow> (enum_t \<Rightarrow> 's \<Rightarrow> bool \<times> 's) \<Rightarrow> enum_t \<Rightarrow> 's \<Rightarrow> (enum_t \<times> 's) option" where
  "for_each_bit maxv fn start s =
     (let (stop, s) = fn start s
      in if stop then Some (start, s)
         else (let start = push_bit 1 start
               in if start \<le> maxv then for_each_bit maxv fn start s else Some (start, s)))"

definition forEachLevel :: "enum_t \<Rightarrow> (enum_t \<Rightarrow> 's \<Rightarrow> bool \<times> 's) \<Rightarrow> 's \<Rightarrow> (enum_t \<times> 's) option" where
  "forEachLevel start fn s = for_each_bit level_kMaxValid fn start s"

definition forEachConfigType :: "enum_t \<Rightarrow> (enum_t \<Rightarrow> 's \<Rightarrow> bool \<times> 's) \<Rightarrow> 's \<Rightarrow> (enum_t \<times> 's) option" where
  "forEachConfigType start fn s = for_each_bit config_kMaxValid fn start s"

text \<open>The levels and configuration types in the order of a full walk.\<close>

definition walked_levels :: "Level list" where
  "walked_levels = [L_Trace, L_Debug, L_Fatal, L_Error, L_Warning, L_Verbose, L_Info]"

definition walked_configs :: "ConfigurationType list" where
  "walked_configs = [C_Enabled, C_ToFile, C_ToStandardOutput, C_Format, C_Filename,
     C_MillisecondsWidthType, C_PerformanceTracking, C_MaxLogFileSize]"

lemma forEachLevel_fold:
  "forEachLevel level_kMinValid (\<lambda>l s. (False, f l s)) s
     = Some (256, fold (\<lambda>l. f (level_int l)) walked_levels s)"
  unfolding forEachLevel_def level_kMaxValid_def level_kMinValid_def
  by (simp add: for_each_bit.simps walked_levels_def)

lemma forEachConfigType_fold:
  "forEachConfigType config_kMinValid (\<lambda>c s. (False, f c s)) s
     = Some (256, fold (\<lambda>c. f (config_int c)) walked_configs s)"
  unfolding forEachConfigType_def config_kMaxValid_def config_kMinValid_def
  by (simp add: for_each_bit.simps walked_configs_def)

section \<open>Names and values\<close>

text \<open>
  An enumeration with its names: what is converted to a string is converted back, in both
  directions of the case.
\<close>

locale named_enum =
  fixes to_int :: "'a \<Rightarrow> enum_t" and from_int :: "enum_t \<Rightarrow> 'a option"
    and to_string :: "'a \<Rightarrow> string" and from_string :: "string \<Rightarrow> 'a"
  assumes int_back: "from_int (to_int x) = Some x"
    and string_back: "from_string (to_string x) = x"
begin

lemma to_int_inj: "to_int x = to_int y \<longleftrightarrow> x = y"
  by (metis int_back option.inject)

lemma to_string_inj: "to_string x = to_string y \<longleftrightarrow> x = y"
  by (metis string_back)

end

interpretation level_enum: named_enum level_int level_castFromInt level_convertToString level_convertFromString
proof
  show "level_castFromInt (level_int x) = Some x" for x
    by (cases x) (simp_all add: level_castFromInt_def)
  show "level_convertFromString (level_convertToString x) = x" for x
    by (cases x) (simp_all add: level_convertFromString_def level_convertToString_def)
qed

interpretation config_enum: named_enum config_int config_castFromInt config_convertToString config_convertFromString
proof
  show "config_castFromInt (config_int x) = Some x" for x
    by (cases x) (simp_all add: config_castFromInt_def)
  show "config_convertFromString (config_convertToString x) = x" for x
    by (cases x) (simp_all add: config_convertFromString_def config_convertToString_def)
qed

text \<open>
  Levels and configuration types survive the way through their names and their integers, and
  a walk over all values visits every proper level once but leaves out the configuration type
  \<open>LogFlushThreshold\<close>, which lies above the greatest value of the walk.
\<close>
theorem enum_conversions:
  "level_convertFromString (level_convertToString l) = l \<and> level_castFromInt (level_int l) = Some l
   \<and> config_convertFromString (config_convertToString c) = c \<and> config_castFromInt (config_int c) = Some c
   \<and> forEachLevel level_kMinValid (\<lambda>l ls. (False, ls @ [level_castFromInt l])) []
       = Some (256, map Some [L_Trace, L_Debug, L_Fatal, L_Error, L_Warning, L_Verbose, L_Info])
   \<and> forEachConfigType config_kMinValid (\<lambda>c cs. (False, cs @ [config_castFromInt c])) []
       = Some (256, map Some [C_Enabled, C_ToFile, C_ToStandardOutput, C_Format, C_Filename,
           C_MillisecondsWidthType, C_PerformanceTracking, C_MaxLogFileSize])"
  using level_enum.int_back [of l] config_enum.int_back [of c]
  by (simp add: level_enum.string_back config_enum.string_back forEachLevel_fold forEachConfigType_fold
      walked_levels_def walked_configs_def level_castFromInt_def config_castFromInt_def)

section \<open>Flags\<close>

datatype LoggingFlag = NewLineForContainer
  | AllowVerboseIfModuleNotSpecified
  | LogDetailedCrashReason
  | DisableApplicationAbortOnFatalLog
  | ImmediateFlush
  | StrictLogFileSizeCheck
  | ColoredTerminalOutput
  | MultiLoggerSupport
  | DisablePerformanceTrackingCheckpointComparison
  | DisableVModules
  | DisableVModulesExtensions
  | HierarchicalLogging
  | CreateLoggerAutomatically
  | AutoSpacing
  | FixedTimeFormat

fun flag_int :: "LoggingFlag \<Rightarrow> enum_t" where
  "flag_int NewLineForContainer = 1"
| "flag_int AllowVerboseIfModuleNotSpecified = 2"
| "flag_int LogDetailedCrashReason = 4"
| "flag_int DisableApplicationAbortOnFatalLog = 8"
| "flag_int ImmediateFlush = 16"
| "flag_int StrictLogFileSizeCheck = 32"
| "flag_int ColoredTerminalOutput = 64"
| "flag_int MultiLoggerSupport = 128"
| "flag_int DisablePerformanceTrackingCheckpointComparison = 256"
| "flag_int DisableVModules = 512"
| "flag_int DisableVModulesExtensions = 1024"
| "flag_int HierarchicalLogging = 2048"
| "flag_int CreateLoggerAutomatically = 4096"
| "flag_int AutoSpacing = 8192"
| "flag_int FixedTimeFormat = 16384"

datatype FormatFlags = F_DateTime | F_LoggerId | F_File | F_Line | F_Location | F_Function | F_User | F_Host | F_LogMessage | F_VerboseLevel | F_AppName | F_ThreadId | F_Level | F_FileBase | F_LevelShort

fun format_int :: "FormatFlags \<Rightarrow> enum_t" where
  "format_int F_DateTime = push_bit 1 1"
| "format_int F_LoggerId = push_bit 2 1"
| "format_int F_File = push_bit 3 1"
| "format_int F_Line = push_bit 4 1"
| "format_int F_Location = push_bit 5 1"
| "format_int F_Function = push_bit 6 1"
| "format_int F_User = push_bit 7 1"
| "format_int F_Host = push_bit 8 1"
| "format_int F_LogMessage = push_bit 9 1"
| "format_int F_VerboseLevel = push_bit 10 1"
| "format_int F_AppName = push_bit 11 1"
| "format_int F_ThreadId = push_bit 12 1"
| "format_int F_Level = push_bit 13 1"
| "format_int F_FileBase = push_bit 14 1"
| "format_int F_LevelShort = push_bit 15 1"

definition bitwise_And :: "enum_t \<Rightarrow> enum_t \<Rightarrow> enum_t" where
  "bitwise_And e flag = flag AND e"

definition bitwise_Not :: "enum_t \<Rightarrow> enum_t \<Rightarrow> enum_t" where
  "bitwise_Not e flag = flag AND NOT e"

definition bitwise_Or :: "enum_t \<Rightarrow> enum_t \<Rightarrow> enum_t" where
  "bitwise_Or e flag = flag OR e"

definition addFlag :: "enum_t \<Rightarrow> enum_t \<Rightarrow> enum_t" where
  "addFlag e flag = bitwise_Or e flag"

definition removeFlag :: "enum_t \<Rightarrow> enum_t \<Rightarrow> enum_t" where
  "removeFlag e flag = bitwise_Not e flag"

definition hasFlag :: "enum_t \<Rightarrow> enum_t \<Rightarrow> bool" where
  "hasFlag e flag \<longleftrightarrow> 0 < bitwise_And e flag"

text \<open>Every flag is one bit, and no two flags share it.\<close>

fun flag_bit :: "LoggingFlag \<Rightarrow> nat" where
  "flag_bit NewLineForContainer = 0"
| "flag_bit AllowVerboseIfModuleNotSpecified = 1"
| "flag_bit LogDetailedCrashReason = 2"
| "flag_bit DisableApplicationAbortOnFatalLog = 3"
| "flag_bit ImmediateFlush = 4"
| "flag_bit StrictLogFileSizeCheck = 5"
| "flag_bit ColoredTerminalOutput = 6"
| "flag_bit MultiLoggerSupport = 7"
| "flag_bit DisablePerformanceTrackingCheckpointComparison = 8"
| "flag_bit DisableVModules = 9"
| "flag_bit DisableVModulesExtensions = 10"
| "flag_bit HierarchicalLogging = 11"
| "flag_bit CreateLoggerAutomatically = 12"
| "flag_bit AutoSpacing = 13"
| "flag_bit FixedTimeFormat = 14"

fun format_bit :: "FormatFlags \<Rightarrow> nat" where
  "format_bit F_DateTime = 1"
| "format_bit F_LoggerId = 2"
| "format_bit F_File = 3"
| "format_bit F_Line = 4"
| "format_bit F_Location = 5"
| "format_bit F_Function = 6"
| "format_bit F_User = 7"
| "format_bit F_Host = 8"
| "format_bit F_LogMessage = 9"
| "format_bit F_VerboseLevel = 10"
| "format_bit F_AppName = 11"
| "format_bit F_ThreadId = 12"
| "format_bit F_Level = 13"
| "format_bit F_FileBase = 14"
| "format_bit F_LevelShort = 15"

lemma flag_int_bit: "flag_int f = 2 ^ flag_bit f"
  by (cases f) simp_all

lemma format_int_bit: "format_int f = 2 ^ format_bit f"
  by (cases f) simp_all

lemma flag_bit_inj: "flag_bit f = flag_bit g \<longleftrightarrow> f = g"
  by (cases f; cases g; simp)

lemma format_bit_inj: "format_bit f = format_bit g \<longleftrightarrow> f = g"
  by (cases f; cases g; simp)

lemma flag_bit_bound: "flag_bit f < 15"
  by (cases f) simp_all

lemma format_bit_bound: "format_bit f < 16"
  by (cases f) simp_all

lemma hasFlag_bit: "n < 16 \<Longrightarrow> hasFlag (2 ^ n) w \<longleftrightarrow> bit w n"
proof -
  assume n: "n < 16"
  have "w AND 2 ^ n = (if bit w n then 2 ^ n else 0)"
    by (rule bit_word_eqI) (auto simp: bit_and_iff bit_exp_iff)
  moreover have "(2 ^ n :: enum_t) \<noteq> 0"
    using n by (simp add: exp_eq_zero_iff)
  ultimately show ?thesis
    by (simp add: hasFlag_def bitwise_And_def word_gt_0)
qed


lemma bit_addFlag: "n < 16 \<Longrightarrow> bit (addFlag (2 ^ n) w) k \<longleftrightarrow> k = n \<or> bit w k"
  by (auto simp: addFlag_def bitwise_Or_def bit_or_iff bit_exp_iff)

lemma bit_removeFlag: "bit (removeFlag (2 ^ n) w) k \<longleftrightarrow> k \<noteq> n \<and> bit w k"
  using bit_imp_le_length [of w k]
  by (auto simp: removeFlag_def bitwise_Not_def bit_and_iff bit_not_iff bit_exp_iff)

text \<open>
  The logging flags are independent: adding or removing one decides whether it is set and
  changes no other flag.
\<close>
theorem flags_independent:
  "hasFlag (flag_int f) (addFlag (flag_int g) w) = (f = g \<or> hasFlag (flag_int f) w)
   \<and> hasFlag (flag_int f) (removeFlag (flag_int g) w) = (f \<noteq> g \<and> hasFlag (flag_int f) w)"
  using flag_bit_bound [of f] flag_bit_bound [of g] unfolding flag_int_bit
  by (simp add: hasFlag_bit bit_addFlag bit_removeFlag flag_bit_inj)

lemma format_flag_added:
  "hasFlag (format_int f) (addFlag (format_int g) w) \<longleftrightarrow> f = g \<or> hasFlag (format_int f) w"
  using format_bit_bound [of f] format_bit_bound [of g] unfolding format_int_bit
  by (simp add: hasFlag_bit bit_addFlag format_bit_inj)

lemma format_flag_empty: "\<not> hasFlag (format_int f) 0"
  by (simp add: hasFlag_def bitwise_And_def)

section \<open>Constants\<close>

fun level_log_value :: "Level \<Rightarrow> string" where
  "level_log_value L_Info = ''INFO ''"
| "level_log_value L_Debug = ''DEBUG''"
| "level_log_value L_Warning = ''WARN ''"
| "level_log_value L_Error = ''ERROR''"
| "level_log_value L_Fatal = ''FATAL''"
| "level_log_value L_Verbose = ''VER''"
| "level_log_value L_Trace = ''TRACE''"
| "level_log_value _ = []"

fun level_short_log_value :: "Level \<Rightarrow> string" where
  "level_short_log_value L_Info = ''I''"
| "level_short_log_value L_Debug = ''D''"
| "level_short_log_value L_Warning = ''W''"
| "level_short_log_value L_Error = ''E''"
| "level_short_log_value L_Fatal = ''F''"
| "level_short_log_value L_Verbose = ''V''"
| "level_short_log_value L_Trace = ''T''"
| "level_short_log_value _ = []"

text \<open>The specifiers of a log format.\<close>

datatype specifier = Sp_App | Sp_Logger | Sp_Thread | Sp_Level | Sp_LevShort | Sp_DateTime | Sp_File
  | Sp_FBase | Sp_Line | Sp_Loc | Sp_Func | Sp_User | Sp_Host | Sp_Msg | Sp_VLevel

fun specifier_text :: "specifier \<Rightarrow> string" where
  "specifier_text Sp_App = ''%app''"
| "specifier_text Sp_Logger = ''%logger''"
| "specifier_text Sp_Thread = ''%thread''"
| "specifier_text Sp_Level = ''%level''"
| "specifier_text Sp_LevShort = ''%levshort''"
| "specifier_text Sp_DateTime = ''%datetime''"
| "specifier_text Sp_File = ''%file''"
| "specifier_text Sp_FBase = ''%fbase''"
| "specifier_text Sp_Line = ''%line''"
| "specifier_text Sp_Loc = ''%loc''"
| "specifier_text Sp_Func = ''%func''"
| "specifier_text Sp_User = ''%user''"
| "specifier_text Sp_Host = ''%host''"
| "specifier_text Sp_Msg = ''%msg''"
| "specifier_text Sp_VLevel = ''%vlevel''"

definition kDays :: "string list" where
  "kDays = [''Sunday'', ''Monday'', ''Tuesday'', ''Wednesday'', ''Thursday'', ''Friday'', ''Saturday'']"

definition kDaysAbbrev :: "string list" where
  "kDaysAbbrev = [''Sun'', ''Mon'', ''Tue'', ''Wed'', ''Thu'', ''Fri'', ''Sat'']"

definition kMonths :: "string list" where
  "kMonths = [''January'', ''February'', ''March'', ''Apri'', ''May'', ''June'', ''July'', ''August'',
     ''September'', ''October'', ''November'', ''December'']"

definition kMonthsAbbrev :: "string list" where
  "kMonthsAbbrev = [''Jan'', ''Feb'', ''Mar'', ''Apr'', ''May'', ''Jun'', ''Jul'', ''Aug'', ''Sep'', ''Oct'', ''Nov'', ''Dec'']"

definition kDefaultDateTimeFormat :: string where "kDefaultDateTimeFormat = ''%Y-%M-%d %H:%m:%s,%g''"
definition kDefaultDateTimeFormatInFilename :: string where "kDefaultDateTimeFormatInFilename = ''%Y-%M-%d_%H-%m''"
definition kYearBase :: int where "kYearBase = 1900"
definition kAm :: string where "kAm = ''AM''"
definition kPm :: string where "kPm = ''PM''"
definition kDefaultLoggerId :: string where "kDefaultLoggerId = ''default''"
definition kPerformanceLoggerId :: string where "kPerformanceLoggerId = ''performance''"
definition kNullPointer :: string where "kNullPointer = ''nullptr''"
definition kFormatSpecifierChar :: char where "kFormatSpecifierChar = CHR ''%''"
definition kFormatSpecifierCharValue :: char where "kFormatSpecifierCharValue = CHR ''v''"
definition kMaxLogPerContainer :: nat where "kMaxLogPerContainer = 100"
definition kMaxLogPerCounter :: nat where "kMaxLogPerCounter = 100000"
definition kDefaultMillisecondsWidth :: int where "kDefaultMillisecondsWidth = 3"
definition kMaxVerboseLevel :: nat where "kMaxVerboseLevel = 9"
definition kUnknownUser :: string where "kUnknownUser = ''user''"
definition kUnknownHost :: string where "kUnknownHost = ''unknown-host''"
definition kDefaultLogFile :: string where "kDefaultLogFile = ''logs/myeasylog.log''"
definition kDefaultLogFileParam :: string where "kDefaultLogFileParam = ''--default-log-file''"
definition kFilePathSeperator :: string where "kFilePathSeperator = ''/''"
definition kValidLoggerIdSymbols :: string where
  "kValidLoggerIdSymbols = ''abcdefghijklmnopqrstuvwxyzABCDEFGHIJKLMNOPQRSTUVWXYZ0123456789-._''"
definition kConfigurationComment :: string where "kConfigurationComment = ''##''"
definition kConfigurationLevel :: string where "kConfigurationLevel = ''*''"
definition kConfigurationLoggerId :: string where "kConfigurationLoggerId = ''--''"
definition kSourceFilenameMaxLength :: nat where "kSourceFilenameMaxLength = 100"
definition kSourceLineMaxLength :: nat where "kSourceLineMaxLength = 10"
definition kTimeFormats :: "(int \<times> string) list" where
  "kTimeFormats = [(1000, ''mis''), (1000, ''ms''), (60, ''seconds''), (60, ''minutes''), (24, ''hours''), (7, ''days'')]"
definition kTimeFormatsCount :: nat where "kTimeFormatsCount = length kTimeFormats"

text \<open>Signal numbers of Linux, with the name, the brief and the detailed text.\<close>

definition kCrashSignals :: "(int \<times> string \<times> string \<times> string) list" where
  "kCrashSignals =
     [(6, ''SIGABRT'', ''Abnormal termination'', ''Program was abnormally terminated.''),
      (8, ''SIGFPE'', ''Erroneous arithmetic operation'',
        ''Arithemetic operation issue such as division by zero or operation resulting in overflow.''),
      (4, ''SIGILL'', ''Illegal instruction'',
        ''Generally due to a corruption in the code or to an attempt to execute data.''),
      (11, ''SIGSEGV'', ''Invalid access to memory'',
        ''Program is trying to read an invalid (unallocated, deleted or corrupted) or inaccessible memory.''),
      (2, ''SIGINT'', ''Interactive attention signal'', ''Interruption generated (generally) by user or operating system.'')]"

definition kCrashSignalsCount :: nat where "kCrashSignalsCount = length kCrashSignals"

section \<open>Milliseconds width\<close>

datatype TimestampUnit = Microsecond | Millisecond | Second | Minute | Hour | Day

fun unit_int :: "TimestampUnit \<Rightarrow> nat" where
  "unit_int Microsecond = 0"
| "unit_int Millisecond = 1"
| "unit_int Second = 2"
| "unit_int Minute = 3"
| "unit_int Hour = 4"
| "unit_int Day = 5"

record MillisecondsWidth =
  mw_width :: int
  mw_offset :: nat

definition mk_MillisecondsWidth :: "int \<Rightarrow> MillisecondsWidth" where
  "mk_MillisecondsWidth width =
     (let width = (if width < 1 \<or> 6 < width then kDefaultMillisecondsWidth else width)
      in \<lparr>mw_width = width,
          mw_offset = (if width = 3 then 1000 else if width = 4 then 100 else if width = 5 then 10
            else if width = 6 then 1 else 1000)\<rparr>)"

definition charPtrVal :: "string option \<Rightarrow> string" where
  "charPtrVal p = (case p of None \<Rightarrow> kNullPointer | Some s \<Rightarrow> s)"

lemma milliseconds_width_range:
  "1 \<le> mw_width (mk_MillisecondsWidth w)" "mw_width (mk_MillisecondsWidth w) \<le> 6"
  by (simp_all add: mk_MillisecondsWidth_def kDefaultMillisecondsWidth_def Let_def)

end
