(* ===== verification/ElStr.thy ===== *)
theory ElStr
  imports ElLevels
begin

text \<open>
  String helpers of the logging library (class \<open>Str\<close>): wildcard matching against the language of
  the pattern, trimming, searching and replacing with \<open>std::string\<close> positions, comparisons, and
  the formatting of numbers into a bounded buffer.
\<close>

section \<open>Characters and wildcards\<close>

definition isDigit :: "char \<Rightarrow> bool" where
  "isDigit c \<longleftrightarrow> (48 :: nat) \<le> of_char c \<and> of_char c \<le> (57 :: nat)"

text \<open>The end of a C string is the end of the list.\<close>

function wildCardMatch :: "string \<Rightarrow> string \<Rightarrow> bool" where
  "wildCardMatch str [] = (str = [])"
| "wildCardMatch str (p # pat) =
     (if p = CHR ''?'' then (case str of [] \<Rightarrow> False | c # str' \<Rightarrow> wildCardMatch str' pat)
      else if p = CHR ''*'' then
        (if wildCardMatch str pat then True
         else (case str of [] \<Rightarrow> False | c # str' \<Rightarrow> wildCardMatch str' (p # pat)))
      else (case str of [] \<Rightarrow> False | c # str' \<Rightarrow> if c \<noteq> p then False else wildCardMatch str' pat))"
  by pat_completeness auto

termination
  by (relation "measure (\<lambda>(str, pat). length str + length pat)") auto

text \<open>The strings a pattern stands for.\<close>

fun wild_lang :: "string \<Rightarrow> string set" where
  "wild_lang [] = {[]}"
| "wild_lang (p # pat) =
     (if p = CHR ''?'' then {c # s | c s. s \<in> wild_lang pat}
      else if p = CHR ''*'' then {u @ s | u s. s \<in> wild_lang pat}
      else {p # s | s. s \<in> wild_lang pat})"

text \<open>
  C14. \<open>wildCardMatch\<close> decides exactly the language of the pattern, in which a question mark is
  any one character and a star any string.
\<close>
theorem wildCardMatch_lang: "wildCardMatch str pat \<longleftrightarrow> str \<in> wild_lang pat"
proof (induction str pat rule: wildCardMatch.induct)
  case (2 str p pat)
  show ?case
  proof (cases "p = CHR ''*''")
    case True
    have "wildCardMatch str (p # pat) \<longleftrightarrow> (\<exists>u s. str = u @ s \<and> s \<in> wild_lang pat)"
    proof (cases str)
      case Nil
      then show ?thesis using True 2(2) by simp
    next
      case (Cons c str')
      then have "wildCardMatch str (p # pat)
          \<longleftrightarrow> str \<in> wild_lang pat \<or> (\<exists>u s. str' = u @ s \<and> s \<in> wild_lang pat)"
        using True 2(2) 2(3) [of c str'] by auto
      also have "\<dots> \<longleftrightarrow> (\<exists>u s. str = u @ s \<and> s \<in> wild_lang pat)"
        unfolding Cons by (metis append_Cons append_Nil append_eq_Cons_conv list.inject)
      finally show ?thesis .
    qed
    with True show ?thesis by auto
  next
    case False
    then show ?thesis using 2(1) 2(4) by (auto split: list.splits)
  qed
qed simp

section \<open>Trimming\<close>

definition ltrim :: "string \<Rightarrow> string" where
  "ltrim s = dropWhile is_c_space s"

definition rtrim :: "string \<Rightarrow> string" where
  "rtrim s = rev (dropWhile is_c_space (rev s))"

definition trim :: "string \<Rightarrow> string" where
  "trim s = ltrim (rtrim s)"

definition startsWith :: "string \<Rightarrow> string \<Rightarrow> bool" where
  "startsWith str start \<longleftrightarrow> length start \<le> length str \<and> take (length start) str = start"

definition endsWith :: "string \<Rightarrow> string \<Rightarrow> bool" where
  "endsWith str sfx \<longleftrightarrow> length sfx \<le> length str
     \<and> take (length sfx) (drop (length str - length sfx) str) = sfx"

lemma startsWith_prefix: "startsWith str start \<longleftrightarrow> (\<exists>rest. str = start @ rest)"
  unfolding startsWith_def by (metis append_eq_conv_conj append_take_drop_id length_append le_add1)

lemma endsWith_suffix: "endsWith str sfx \<longleftrightarrow> (\<exists>rest. str = rest @ sfx)"
proof
  assume "endsWith str sfx"
  then have "drop (length str - length sfx) str = sfx"
    by (simp add: endsWith_def)
  then show "\<exists>rest. str = rest @ sfx"
    by (metis append_take_drop_id)
qed (auto simp: endsWith_def)

lemma ltrim_space: "list_all is_c_space u \<Longrightarrow> ltrim (u @ s) = ltrim s"
  unfolding ltrim_def by (induction u) auto

lemma rtrim_space: "list_all is_c_space u \<Longrightarrow> rtrim (s @ u) = rtrim s"
  using ltrim_space [of "rev u" "rev s"] by (simp add: rtrim_def ltrim_def list_all_iff)

text \<open>A string that neither begins nor ends with white space.\<close>

definition tight :: "string \<Rightarrow> bool" where
  "tight s \<longleftrightarrow> s = [] \<or> \<not> is_c_space (hd s) \<and> \<not> is_c_space (last s)"

lemma trim_padded:
  assumes "list_all is_c_space u" "list_all is_c_space v" "tight s"
  shows "trim (u @ s @ v) = s"
proof (cases "s = []")
  case True
  have "rtrim (u @ v) = rtrim []"
    using rtrim_space [of "u @ v" "[]"] assms by simp
  also have "rtrim [] = []"
    by (simp add: rtrim_def)
  finally show ?thesis
    using True by (simp add: trim_def ltrim_def)
next
  case False
  then have ends: "\<not> is_c_space (hd s)" "\<not> is_c_space (last s)"
    using assms(3) by (simp_all add: tight_def)
  have "rtrim (u @ s @ v) = rtrim (u @ s)"
    using rtrim_space [OF assms(2), of "u @ s"] by simp
  also have "\<dots> = u @ s"
    unfolding rtrim_def using False ends(2) by (cases s rule: rev_cases) simp_all
  finally have "trim (u @ s @ v) = ltrim s"
    by (simp add: trim_def ltrim_space [OF assms(1)])
  also have "\<dots> = s"
    unfolding ltrim_def using False ends(1) by (cases s) simp_all
  finally show ?thesis .
qed

lemma rev_dropWhile_take: "\<exists>v. s = rtrim s @ v \<and> list_all is_c_space v"
proof -
  have "rev s = takeWhile is_c_space (rev s) @ dropWhile is_c_space (rev s)"
    by simp
  then have "s = rtrim s @ rev (takeWhile is_c_space (rev s))"
    unfolding rtrim_def by (metis rev_append rev_rev_ident)
  then show ?thesis
    by (metis list_all_iff set_rev set_takeWhileD)
qed

lemma trim_tight: "tight (trim s)"
proof (cases "trim s = []")
  case False
  let ?r = "rtrim s"
  have "\<not> is_c_space (last ?r)" if "?r \<noteq> []"
    using that hd_dropWhile [of is_c_space "rev s"] by (simp add: rtrim_def last_rev)
  moreover have "?r \<noteq> []" "last (trim s) = last ?r"
    using False unfolding trim_def ltrim_def
    by (auto, metis last_appendR takeWhile_dropWhile_id)
  moreover have "\<not> is_c_space (hd (trim s))"
    using False hd_dropWhile [of is_c_space ?r] by (simp add: trim_def ltrim_def)
  ultimately show ?thesis by (simp add: tight_def)
qed (simp add: tight_def)

section \<open>Searching and replacing\<close>

text \<open>\<open>std::string::find\<close> from a position; \<open>None\<close> is \<open>npos\<close>.\<close>

definition str_find :: "string \<Rightarrow> string \<Rightarrow> nat \<Rightarrow> nat option" where
  "str_find s pat pos = List.find (\<lambda>i. i + length pat \<le> length s \<and> take (length pat) (drop i s) = pat)
     [pos..<Suc (length s)]"

definition replaceAll_char :: "string \<Rightarrow> char \<Rightarrow> char \<Rightarrow> string" where
  "replaceAll_char s a b = map (\<lambda>c. if c = a then b else c) s"

text \<open>
  The loop of the string version: after a replacement at \<open>i\<close> the search goes on at \<open>i + 1\<close> in the
  changed string. It need not end.
\<close>

partial_function (option) replaceAll_loop :: "string \<Rightarrow> string \<Rightarrow> nat \<Rightarrow> string \<Rightarrow> string option" where
  "replaceAll_loop rwhat rwith pos s = (case str_find s rwhat pos of
     None \<Rightarrow> Some s
   | Some i \<Rightarrow> replaceAll_loop rwhat rwith (i + 1) (take i s @ rwith @ drop (i + length rwhat) s))"

definition replaceAll :: "string \<Rightarrow> string \<Rightarrow> string \<Rightarrow> string option" where
  "replaceAll s rwhat rwith =
     (if rwhat = rwith then Some s else replaceAll_loop rwhat rwith 0 s)"

lemma str_find_Some:
  "str_find s pat pos = Some i \<longleftrightarrow> pos \<le> i \<and> i + length pat \<le> length s \<and> take (length pat) (drop i s) = pat
     \<and> (\<forall>j. pos \<le> j \<and> j < i \<longrightarrow> \<not> (j + length pat \<le> length s \<and> take (length pat) (drop j s) = pat))"
  (is "?l = ?r")
proof
  assume ?l
  then obtain k where "k < length [pos..<Suc (length s)]" "[pos..<Suc (length s)] ! k = i"
    "i + length pat \<le> length s \<and> take (length pat) (drop i s) = pat"
    "\<forall>j<k. \<not> ([pos..<Suc (length s)] ! j + length pat \<le> length s
        \<and> take (length pat) (drop ([pos..<Suc (length s)] ! j) s) = pat)"
    unfolding str_find_def find_Some_iff by blast
  moreover from this have "k = i - pos" "pos \<le> i" by (auto simp del: upt_Suc)
  ultimately show ?r
  proof (intro conjI allI impI)
    fix j assume j: "pos \<le> j \<and> j < i"
    then have "j - pos < k" "[pos..<Suc (length s)] ! (j - pos) = j"
      using \<open>k = i - pos\<close> \<open>k < length [pos..<Suc (length s)]\<close> by (auto simp del: upt_Suc)
    with \<open>\<forall>j<k. _\<close> show "\<not> (j + length pat \<le> length s \<and> take (length pat) (drop j s) = pat)"
      by metis
  qed auto
next
  assume r: ?r
  then show ?l
    unfolding str_find_def find_Some_iff by (intro exI [of _ "i - pos"]) (auto simp del: upt_Suc)
qed

lemma str_find_None:
  "str_find s pat pos = None \<longleftrightarrow>
     (\<forall>i. pos \<le> i \<longrightarrow> \<not> (i + length pat \<le> length s \<and> take (length pat) (drop i s) = pat))"
  unfolding str_find_def find_None_iff by auto

text \<open>
  The escape: a match after a percent sign loses that sign and is skipped; the first other match
  is replaced.
\<close>

function replaceFirst_loop :: "string \<Rightarrow> string \<Rightarrow> nat \<Rightarrow> string \<Rightarrow> string" where
  "replaceFirst_loop rwhat rwith pos s = (case str_find s rwhat pos of
     None \<Rightarrow> s
   | Some i \<Rightarrow>
       if 0 < i \<and> s ! (i - 1) = kFormatSpecifierChar
       then replaceFirst_loop rwhat rwith (i + 2) (take (i - 1) s @ drop i s)
       else take i s @ rwith @ drop (i + length rwhat) s)"
  by pat_completeness auto

termination
  by (relation "measure (\<lambda>(a, b, pos, s). length s)") (auto simp: str_find_Some)

declare replaceFirst_loop.simps [simp del]

definition replaceFirstWithEscape :: "string \<Rightarrow> string \<Rightarrow> string \<Rightarrow> string" where
  "replaceFirstWithEscape s rwhat rwith = replaceFirst_loop rwhat rwith 0 s"

section \<open>Comparing\<close>

definition toupper :: "char \<Rightarrow> char" where
  "toupper c = (if (97 :: nat) \<le> of_char c \<and> of_char c \<le> (122 :: nat) then char_of (of_char c - 32 :: nat) else c)"

definition toUpper :: "string \<Rightarrow> string" where
  "toUpper s = map toupper s"

definition cStringEq :: "string option \<Rightarrow> string option \<Rightarrow> bool" where
  "cStringEq s1 s2 =
     (if s1 = None \<and> s2 = None then True
      else if s1 = None \<or> s2 = None then False
      else s1 = s2)"

fun case_eq_loop :: "string \<Rightarrow> string \<Rightarrow> bool" where
  "case_eq_loop (c # cs) (d # ds) = (if toupper c \<noteq> toupper d then False else case_eq_loop cs ds)"
| "case_eq_loop _ _ = True"

definition cStringCaseEq :: "string option \<Rightarrow> string option \<Rightarrow> bool" where
  "cStringCaseEq s1 s2 = (case (s1, s2) of
     (None, None) \<Rightarrow> True
   | (Some a, Some b) \<Rightarrow> if length a \<noteq> length b then False else case_eq_loop a b
   | _ \<Rightarrow> False)"

lemma case_eq_loop_map: "length a = length b \<Longrightarrow> case_eq_loop a b \<longleftrightarrow> map toupper a = map toupper b"
  by (induction a b rule: list_induct2) auto

lemma cStringCaseEq_upper: "cStringCaseEq s1 s2 \<longleftrightarrow> map_option toUpper s1 = map_option toUpper s2"
  by (auto simp: cStringCaseEq_def toUpper_def case_eq_loop_map split: option.splits dest: map_eq_imp_length_eq)

fun str_contains :: "string \<Rightarrow> char \<Rightarrow> bool" where
  "str_contains [] c = False"
| "str_contains (d # s) c = (if d = c then True else str_contains s c)"

lemma str_contains_set: "str_contains s c \<longleftrightarrow> c \<in> set s"
  by (induction s) auto

section \<open>Numbers into buffers\<close>

text \<open>
  A buffer is its list of characters with the write position; \<open>lim\<close> is the position of \<open>bufLim\<close>.
  The terminator is written when it fits, and the position stays on it.
\<close>

abbreviation NUL :: char where "NUL \<equiv> CHR 0x00"

fun addToBuff :: "string \<Rightarrow> nat \<Rightarrow> nat \<Rightarrow> char list \<Rightarrow> (char list \<times> nat) option" where
  "addToBuff [] buf lim b = (if buf < lim then do { b \<leftarrow> wr b buf NUL; Some (b, buf) } else Some (b, buf))"
| "addToBuff (c # str) buf lim b =
     (if buf < lim then do { b \<leftarrow> wr b buf c; addToBuff str (Suc buf) lim b } else Some (b, buf))"

text \<open>
  The digits go into a local buffer of 10 bytes from position 8 downwards: \<open>p\<close> is the position,
  and \<open>acc\<close> the text from there to the terminator at 8.
\<close>

fun digit_loop :: "nat \<Rightarrow> nat \<Rightarrow> int \<Rightarrow> string \<Rightarrow> nat \<times> int \<times> string" where
  "digit_loop n 0 len acc = (0, len, acc)"
| "digit_loop n (Suc p) len acc =
     (if 0 < n \<and> 0 < len then digit_loop (n div 10) p (len - 1) (char_of (n mod 10 + 48) # acc)
      else (Suc p, len, acc))"

fun pad_loop :: "nat \<Rightarrow> int \<Rightarrow> string \<Rightarrow> string" where
  "pad_loop 0 len acc = acc"
| "pad_loop (Suc p) len acc = (if 0 < len then pad_loop p (len - 1) (CHR ''0'' # acc) else acc)"

lemma digit_loop_numeral:
  "digit_loop n (numeral k) len acc =
     (if 0 < n \<and> 0 < len
      then digit_loop (n div 10) (pred_numeral k) (len - 1) (char_of (n mod 10 + 48) # acc)
      else (numeral k, len, acc))"
  by (simp only: numeral_eq_Suc [of k] digit_loop.simps)

lemma pad_loop_numeral:
  "pad_loop (numeral k) len acc = (if 0 < len then pad_loop (pred_numeral k) (len - 1) (CHR ''0'' # acc) else acc)"
  by (simp only: numeral_eq_Suc [of k] pad_loop.simps)

lemmas number_text_code = digit_loop_numeral pad_loop_numeral

definition number_text :: "nat \<Rightarrow> int \<Rightarrow> bool \<Rightarrow> string" where
  "number_text n len zeroPadded =
     (let (p, len, acc) = (if 0 < n then digit_loop n 8 len [] else (7, len - 1, ''0''))
      in if zeroPadded then pad_loop p len acc else acc)"

definition convertAndAddToBuff :: "nat \<Rightarrow> int \<Rightarrow> bool \<Rightarrow> nat \<Rightarrow> nat \<Rightarrow> char list \<Rightarrow> (char list \<times> nat) option" where
  "convertAndAddToBuff n len zeroPadded buf lim b = addToBuff (number_text n len zeroPadded) buf lim b"

section \<open>What the conversions yield\<close>

text \<open>The value of a text of digits.\<close>

definition text_val :: "string \<Rightarrow> nat" where
  "text_val ds = foldl (\<lambda>v c. 10 * v + (of_char c - 48)) 0 ds"

lemma digit_code: "d < 10 \<Longrightarrow> (of_char (char_of (d + 48 :: nat) :: char) :: nat) - 48 = d"
  by simp

lemma text_val_acc: "foldl (\<lambda>v c. 10 * v + (of_char c - 48)) a ds = a * 10 ^ length ds + text_val ds"
proof (induction ds arbitrary: a)
  case (Cons c ds)
  let ?f = "\<lambda>v c. 10 * v + (of_char c - 48 :: nat)"
  have "text_val (c # ds) = foldl ?f (of_char c - 48) ds"
    by (simp add: text_val_def)
  also have "\<dots> = (of_char c - 48) * 10 ^ length ds + text_val ds"
    by (rule Cons.IH)
  finally have "text_val (c # ds) = (of_char c - 48) * 10 ^ length ds + text_val ds" .
  moreover have "foldl ?f a (c # ds) = (10 * a + (of_char c - 48)) * 10 ^ length ds + text_val ds"
    unfolding foldl_Cons by (rule Cons.IH)
  ultimately show ?case
    by (simp add: add_mult_distrib)
qed (simp add: text_val_def)

lemma text_val_Cons: "text_val (c # ds) = (of_char c - 48) * 10 ^ length ds + text_val ds"
  using text_val_acc [of "of_char c - 48" ds] unfolding text_val_def [of "c # ds"] by simp

lemma digit_loop_value:
  "0 \<le> len \<Longrightarrow> len \<le> int p \<Longrightarrow> n < 10 ^ nat len \<Longrightarrow>
   case digit_loop n p len acc of (p', len', acc') \<Rightarrow>
     \<exists>ds. acc' = ds @ acc \<and> text_val acc' = n * 10 ^ length acc + text_val acc
       \<and> 0 \<le> len' \<and> len' \<le> int p' \<and> int (length ds) + len' = len
       \<and> list_all isDigit ds"
proof (induction n p len acc rule: digit_loop.induct)
  case (1 n len acc)
  then show ?case by simp
next
  case (2 n p len acc)
  show ?case
  proof (cases "0 < n \<and> 0 < len")
    case True
    let ?c = "char_of (n mod 10 + 48) :: char"
    have nat_len: "nat len = Suc (nat (len - 1))"
      using True by linarith
    have "n div 10 < 10 ^ nat (len - 1)"
      using 2(4) unfolding nat_len by (simp add: less_mult_imp_div_less)
    then have IH: "case digit_loop (n div 10) p (len - 1) (?c # acc) of (p', len', acc') \<Rightarrow>
      \<exists>ds. acc' = ds @ (?c # acc) \<and> text_val acc' = (n div 10) * 10 ^ length (?c # acc) + text_val (?c # acc)
       \<and> 0 \<le> len' \<and> len' \<le> int p' \<and> int (length ds) + len' = len - 1 \<and> list_all isDigit ds"
      using 2 True by (intro 2(1)) simp_all
    have val: "(n div 10) * 10 ^ length (?c # acc) + text_val (?c # acc) = n * 10 ^ length acc + text_val acc"
    proof -
      have "text_val (?c # acc) = (n mod 10) * 10 ^ length acc + text_val acc"
        by (simp add: text_val_Cons)
      moreover have "(n div 10) * 10 ^ length (?c # acc) = (10 * (n div 10)) * 10 ^ length acc"
        by simp
      moreover have "(10 * (n div 10)) * 10 ^ length acc + (n mod 10) * 10 ^ length acc = n * 10 ^ length acc"
        by (simp only: add_mult_distrib [symmetric] mult_div_mod_eq)
      ultimately show ?thesis by linarith
    qed
    have dig: "isDigit ?c"
      using pos_mod_bound [of 10 "int n"] by (simp add: isDigit_def)
    obtain p' len' acc' where r: "digit_loop (n div 10) p (len - 1) (?c # acc) = (p', len', acc')"
      by (cases "digit_loop (n div 10) p (len - 1) (?c # acc)") auto
    from IH r obtain ds where ds: "acc' = ds @ (?c # acc)"
      "text_val acc' = n * 10 ^ length acc + text_val acc" "0 \<le> len'" "len' \<le> int p'"
      "int (length ds) + len' = len - 1" "list_all isDigit ds"
      using val by auto
    then show ?thesis
      using True r dig by (intro case_prodI2) (auto intro!: exI [of _ "ds @ [?c]"])
  next
    case False
    with 2 have "n = 0"
      by (cases "len = 0") auto
    with False 2 show ?thesis by auto
  qed
qed

lemma pad_loop_value:
  "0 \<le> len \<Longrightarrow> len \<le> int p \<Longrightarrow> pad_loop p len acc = replicate (nat len) (CHR ''0'') @ acc"
proof (induction p len acc rule: pad_loop.induct)
  case (2 p len acc)
  show ?case
  proof (cases "0 < len")
    case True
    then have "nat len = Suc (nat (len - 1))" by linarith
    with 2 True show ?thesis by (simp add: replicate_app_Cons_same)
  qed (use 2 in simp)
qed simp

lemma text_val_zeros: "text_val (replicate k (CHR ''0'') @ ds) = text_val ds"
  by (induction k) (simp_all add: text_val_Cons)

text \<open>
  A number below \<open>10 ^ len\<close> is written, zero-padded, as exactly \<open>len\<close> digits whose value it is,
  for every width up to the 8 that the local buffer allows.
\<close>
theorem number_text_roundtrip:
  assumes "0 < len" "len \<le> 8" "n < 10 ^ nat len"
  shows "text_val (number_text n len True) = n \<and> int (length (number_text n len True)) = len
    \<and> list_all isDigit (number_text n len True)"
proof (cases "n = 0")
  case True
  have "number_text n len True = replicate (nat (len - 1)) (CHR ''0'') @ ''0''"
    using True assms by (simp add: number_text_def pad_loop_value)
  with True assms show ?thesis
    by (simp add: text_val_zeros list_all_iff isDigit_def) (simp add: text_val_def)
next
  case False
  obtain p len' acc where r: "digit_loop n 8 len [] = (p, len', acc)"
    by (cases "digit_loop n 8 len []") auto
  with digit_loop_value [of len 8 n "[]"] assms
  have acc: "text_val acc = n" "0 \<le> len'" "len' \<le> int p" "int (length acc) + len' = len" "list_all isDigit acc"
    by (auto simp: text_val_def)
  have "number_text n len True = replicate (nat len') (CHR ''0'') @ acc"
    using False r acc by (simp add: number_text_def pad_loop_value)
  with acc show ?thesis
    by (auto simp: text_val_zeros list_all_iff isDigit_def)
qed

lemma number_text_roundtrip_witness:
  "text_val (number_text 42 4 True) = 42 \<and> int (length (number_text 42 4 True)) = 4
    \<and> list_all isDigit (number_text 42 4 True)"
  by (rule number_text_roundtrip) simp_all

text \<open>Text that fits is copied and terminated, text that does not is cut at the limit without a terminator.\<close>

lemma addToBuff_fits:
  "buf + length str < lim \<Longrightarrow> lim \<le> length b \<Longrightarrow>
   addToBuff str buf lim b = Some (take buf b @ str @ NUL # drop (buf + length str + 1) b, buf + length str)"
proof (induction str arbitrary: buf b)
  case Nil
  then show ?case
    by (simp add: array_simps upd_conv_take_nth_drop)
next
  case (Cons c str)
  then have "addToBuff (c # str) buf lim b = addToBuff str (Suc buf) lim (b[buf := c])"
    by (simp add: array_simps)
  also have "\<dots> = Some (take (Suc buf) (b[buf := c]) @ str @ NUL # drop (Suc buf + length str + 1) (b[buf := c]),
      Suc buf + length str)"
    using Cons.prems by (intro Cons.IH) simp_all
  finally show ?case
    using Cons.prems by (simp add: take_Suc_conv_app_nth)
qed

lemma addToBuff_cut:
  "lim \<le> buf + length str \<Longrightarrow> buf \<le> lim \<Longrightarrow> lim \<le> length b \<Longrightarrow>
   addToBuff str buf lim b = Some (take buf b @ take (lim - buf) str @ drop lim b, lim)"
proof (induction str arbitrary: buf b)
  case (Cons c str)
  show ?case
  proof (cases "buf < lim")
    case True
    then have "addToBuff (c # str) buf lim b = addToBuff str (Suc buf) lim (b[buf := c])"
      using Cons.prems by (simp add: array_simps)
    also have "\<dots> = Some (take (Suc buf) (b[buf := c]) @ take (lim - Suc buf) str @ drop lim (b[buf := c]), lim)"
      using Cons.prems True by (intro Cons.IH) simp_all
    finally show ?thesis
      using Cons.prems True by (simp add: take_Suc_conv_app_nth Suc_diff_Suc [symmetric])
  qed (use Cons.prems in simp)
qed simp

section \<open>What a replacement yields\<close>

text \<open>All matches, from left to right and without overlap.\<close>

function replace_spec :: "string \<Rightarrow> string \<Rightarrow> string \<Rightarrow> string" where
  "replace_spec rwhat rwith s =
     (case str_find s rwhat 0 of
        None \<Rightarrow> s
      | Some i \<Rightarrow> if rwhat = [] then s
          else take i s @ rwith @ replace_spec rwhat rwith (drop (i + length rwhat) s))"
  by pat_completeness auto

termination
  by (relation "measure (\<lambda>(a, b, s). length s)")
    (auto simp: str_find_Some simp flip: length_greater_0_conv)

declare replace_spec.simps [simp del]

text \<open>A search behind a prefix in which no match can begin.\<close>

lemma str_find_append:
  assumes "pos \<le> length u" "c \<notin> set (drop pos u)"
  shows "str_find (u @ s) (c # cs) pos = map_option (\<lambda>i. length u + i) (str_find s (c # cs) 0)"
proof -
  let ?at = "\<lambda>t i. i + length (c # cs) \<le> length t \<and> take (length (c # cs)) (drop i t) = c # cs"
  have late: "length u \<le> i" if "pos \<le> i" "?at (u @ s) i" for i
  proof (rule ccontr)
    assume "\<not> length u \<le> i"
    then have "(u @ s) ! i = u ! i" "drop i (u @ s) \<noteq> []"
      by (simp_all add: nth_append)
    moreover from that(2) have "hd (take (length (c # cs)) (drop i (u @ s))) = c"
      by (metis list.sel(1))
    ultimately have "u ! i = c"
      by (simp only: hd_take hd_drop_conv_nth length_Cons) (metis drop_eq_Nil hd_drop_conv_nth not_le zero_less_Suc hd_take)
    moreover have "u ! i \<in> set (drop pos u)"
      using that(1) \<open>\<not> length u \<le> i\<close> nth_mem [of "i - pos" "drop pos u"] by simp
    ultimately show False using assms(2) by simp
  qed
  have shift: "?at (u @ s) (length u + i) = ?at s i" for i by simp
  show ?thesis
  proof (cases "str_find s (c # cs) 0")
    case None
    then have "\<not> ?at s i" for i unfolding str_find_None by blast
    then have "\<not> ?at (u @ s) i" if "pos \<le> i" for i
      using late [OF that] shift by (metis le_add_diff_inverse)
    then have "str_find (u @ s) (c # cs) pos = None"
      unfolding str_find_None by blast
    with None show ?thesis by simp
  next
    case (Some i)
    then have i: "?at s i" "\<forall>j<i. \<not> ?at s j" unfolding str_find_Some by blast+
    have "\<not> ?at (u @ s) j" if "pos \<le> j" "j < length u + i" for j
    proof
      assume at: "?at (u @ s) j"
      define k where "k = j - length u"
      from late [OF that(1) at] have k: "j = length u + k" "k < i"
        using that(2) by (simp_all add: k_def)
      have "?at s k"
        using at unfolding k(1) shift .
      with i(2) k(2) show False by blast
    qed
    note before = this
    have at: "?at (u @ s) (length u + i)"
      unfolding shift by (rule i(1))
    have "str_find (u @ s) (c # cs) pos = Some (length u + i)"
      unfolding str_find_Some
    proof (intro conjI allI impI)
      show "pos \<le> length u + i" using assms(1) by simp
      show "length u + i + length (c # cs) \<le> length (u @ s)" by (rule at [THEN conjunct1])
      show "take (length (c # cs)) (drop (length u + i) (u @ s)) = c # cs" by (rule at [THEN conjunct2])
      show "\<not> ?at (u @ s) j" if "pos \<le> j \<and> j < length u + i" for j
        using that by (intro before) simp_all
    qed
    with Some show ?thesis by simp
  qed
qed

text \<open>
  The string version of \<open>replaceAll\<close> ends and replaces every match, provided that the new text
  is not empty and the first character of the old one does not occur in it after its first
  position.
\<close>
theorem replaceAll_complete:
  assumes "c \<notin> set (tl rwith)" "rwith \<noteq> []" "rwith \<noteq> c # cs"
  shows "replaceAll s (c # cs) rwith = Some (replace_spec (c # cs) rwith s)"
proof -
  have loop: "pos \<le> length u \<Longrightarrow> c \<notin> set (drop pos u) \<Longrightarrow>
    replaceAll_loop (c # cs) rwith pos (u @ s) = Some (u @ replace_spec (c # cs) rwith s)" for u pos s
  proof (induction "length s" arbitrary: s u pos rule: less_induct)
    case less
    note find = str_find_append [OF less.prems, of s cs]
    show ?case
    proof (cases "str_find s (c # cs) 0")
      case None
      then show ?thesis
        by (subst replaceAll_loop.simps, subst replace_spec.simps) (simp add: find)
    next
      case (Some i)
      let ?u = "u @ take i s @ rwith"
      let ?s = "drop (i + length (c # cs)) s"
      have i: "i + length (c # cs) \<le> length s"
        using Some unfolding str_find_Some by blast
      have "drop (length u + i + 1) ?u = tl rwith"
        using i by (simp add: drop_Suc)
      then have "replaceAll_loop (c # cs) rwith (length u + i + 1) (?u @ ?s)
          = Some (?u @ replace_spec (c # cs) rwith ?s)"
        using assms(1,2) i by (intro less.hyps) (simp_all add: Suc_le_eq)
      moreover have "replaceAll_loop (c # cs) rwith pos (u @ s)
          = replaceAll_loop (c # cs) rwith (length u + i + 1) (?u @ ?s)"
        using i by (subst replaceAll_loop.simps) (simp add: find Some)
      ultimately show ?thesis
        by (subst replace_spec.simps) (simp add: Some)
    qed
  qed
  show ?thesis
    using loop [of 0 "[]" s] assms(3) by (auto simp: replaceAll_def)
qed

lemma replaceAll_complete_witness:
  "replaceAll ''log-%datetime-%datetime'' (CHR ''%'' # ''datetime'') ''2016''
     = Some (replace_spec (CHR ''%'' # ''datetime'') ''2016'' ''log-%datetime-%datetime'')"
  by (rule replaceAll_complete) simp_all

lemma replaceAll_misses_adjacent: "replaceAll ''aabb'' ''ab'' [] = Some ''ab''"
  by (simp add: replaceAll_def replaceAll_loop.simps str_find_def upt_rec)

end
