(* ===== verification/ElFile.thy ===== *)
theory ElFile
  imports ElStr
begin

text \<open>
  File names, paths and the environment (classes \<open>File\<close> and \<open>OS\<close> of \<open>easylogging.h\<close>, on Linux):
  the pure functions on names, and the creation of a path with the calls it makes on the file
  system, which is a parameter. The command line (\<open>CommandLineArgs\<close>) is here too.
\<close>

section \<open>Names\<close>

text \<open>\<open>find_last_of\<close> for a single separator.\<close>

fun last_index :: "char \<Rightarrow> string \<Rightarrow> nat option" where
  "last_index c [] = None"
| "last_index c (d # s) = (case last_index c s of
     Some i \<Rightarrow> Some (Suc i)
   | None \<Rightarrow> if d = c then Some 0 else None)"

lemma last_index_None: "last_index c s = None \<longleftrightarrow> c \<notin> set s"
  by (induction s) (auto split: option.split)

lemma last_index_Some:
  "last_index c s = Some i \<longleftrightarrow> i < length s \<and> s ! i = c \<and> c \<notin> set (drop (Suc i) s)"
proof (induction s arbitrary: i)
  case (Cons d s)
  show ?case
  proof (cases i)
    case 0
    have "last_index c (d # s) = Some 0 \<longleftrightarrow> last_index c s = None \<and> d = c"
      by (simp split: option.split)
    with 0 show ?thesis by (simp add: last_index_None conj_commute)
  next
    case (Suc k)
    have "last_index c (d # s) = Some (Suc k) \<longleftrightarrow> last_index c s = Some k"
      by (simp split: option.split)
    with Suc show ?thesis by (simp add: Cons.IH)
  qed
qed simp

definition extractPathFromFilename :: "string \<Rightarrow> string" where
  "extractPathFromFilename fullPath =
     (if fullPath = [] \<or> str_find fullPath kFilePathSeperator 0 = None then fullPath
      else (case last_index CHR ''/'' fullPath of
              None \<Rightarrow> fullPath
            | Some lastSlashAt \<Rightarrow> if lastSlashAt = 0 then kFilePathSeperator
                else take (lastSlashAt + 1) fullPath))"

text \<open>
  \<open>strcat\<close> onto the buffer's text. A name that is too long keeps its last characters; \<open>None\<close> is the
  pointer moved past the terminator, for a limit below 3.
\<close>

definition cchar :: "string \<Rightarrow> nat \<Rightarrow> char" where
  "cchar s i = (if i < length s then s ! i else NUL)"

definition cut_filename :: "string \<Rightarrow> string \<Rightarrow> nat \<Rightarrow> string option" where
  "cut_filename filename buff limit =
     (if limit \<le> length filename then
        (let filename = drop (length filename - limit) filename
         in if cchar filename 0 \<noteq> CHR ''.'' \<and> cchar filename 1 \<noteq> CHR ''.'' then
              (if length filename < 3 then None
               else Some ((buff @ ''..'') @ drop 3 filename))
            else Some (buff @ filename))
      else Some (buff @ filename))"

definition buildStrippedFilename :: "string \<Rightarrow> string \<Rightarrow> nat \<Rightarrow> string option" where
  "buildStrippedFilename filename buff limit = cut_filename filename buff limit"

definition buildBaseFilename :: "string \<Rightarrow> string \<Rightarrow> nat \<Rightarrow> string option" where
  "buildBaseFilename fullPath buff limit =
     (let filename = (case last_index CHR ''/'' fullPath of
            None \<Rightarrow> fullPath
          | Some lastSlashAt \<Rightarrow> drop (if lastSlashAt \<noteq> 0 then lastSlashAt + 1 else 0) fullPath)
      in cut_filename filename buff limit)"

lemma cut_filename_bound:
  assumes "3 \<le> limit"
  obtains app where "cut_filename filename buff limit = Some (buff @ app)" "length app \<le> limit"
    "length filename < limit \<Longrightarrow> app = filename"
proof (cases "limit \<le> length filename")
  case True
  let ?f = "drop (length filename - limit) filename"
  have "length ?f = limit" using True by simp
  with True assms that show thesis
    by (cases "cchar ?f 0 \<noteq> CHR ''.'' \<and> cchar ?f 1 \<noteq> CHR ''.''") (auto simp: cut_filename_def Let_def)
next
  case False
  with that [of filename] show thesis by (simp add: cut_filename_def)
qed

text \<open>
  A base name is what follows the last slash, and a name that is not too long is kept whole;
  only a slash in first position, a file directly under the root, stays in the result. What is
  appended never exceeds the limit.
\<close>
theorem buildBaseFilename_base:
  assumes "CHR ''/'' \<notin> set base" "3 \<le> limit" "length base + 1 < limit"
  shows "buildBaseFilename (dir @ CHR ''/'' # base) buff limit
       = Some (buff @ (if dir = [] then CHR ''/'' # base else base))
     \<and> buildBaseFilename base buff limit = Some (buff @ base)"
proof -
  have "last_index CHR ''/'' (dir @ CHR ''/'' # base) = Some (length dir)"
    using assms(1) by (simp add: last_index_Some)
  moreover have "last_index CHR ''/'' base = None"
    using assms(1) by (simp add: last_index_None)
  ultimately show ?thesis
    using assms(3) by (simp add: buildBaseFilename_def cut_filename_def)
qed

lemma buildBaseFilename_base_witness:
  "buildBaseFilename (''/var/log'' @ CHR ''/'' # ''my.log'') [] 100
       = Some ([] @ (if ''/var/log'' = [] then CHR ''/'' # ''my.log'' else ''my.log''))
     \<and> buildBaseFilename ''my.log'' [] 100 = Some ([] @ ''my.log'')"
  by (rule buildBaseFilename_base) simp_all

lemma extractPath_split:
  assumes "dir \<noteq> []" "CHR ''/'' \<notin> set base"
  shows "extractPathFromFilename (dir @ CHR ''/'' # base) = dir @ ''/''"
proof -
  let ?p = "dir @ CHR ''/'' # base"
  have "str_find ?p kFilePathSeperator 0 \<noteq> None"
    unfolding str_find_None by (auto simp: kFilePathSeperator_def intro!: exI [of _ "length dir"])
  then obtain k where "str_find ?p kFilePathSeperator 0 = Some k" by blast
  moreover have "last_index CHR ''/'' ?p = Some (length dir)"
    using assms(2) by (simp add: last_index_Some)
  ultimately show ?thesis
    using assms(1) by (simp add: extractPathFromFilename_def)
qed

section \<open>Creating a path\<close>

text \<open>\<open>strtok\<close> on the separator: the non-empty pieces.\<close>

fun split_on :: "char \<Rightarrow> string \<Rightarrow> string list" where
  "split_on c [] = [[]]"
| "split_on c (d # s) = (if d = c then [] # split_on c s
     else (case split_on c s of [] \<Rightarrow> [[d]] | t # ts \<Rightarrow> (d # t) # ts))"

definition strtok :: "char \<Rightarrow> string \<Rightarrow> string list" where
  "strtok c s = filter (\<lambda>t. t \<noteq> []) (split_on c s)"

record 'f file_system =
  fs_exists :: "string \<Rightarrow> 'f \<Rightarrow> bool"
  fs_mkdir :: "string \<Rightarrow> 'f \<Rightarrow> int \<times> 'f"

fun create_loop :: "'f file_system \<Rightarrow> string list \<Rightarrow> string \<Rightarrow> int \<Rightarrow> 'f \<Rightarrow> int \<times> 'f" where
  "create_loop fs [] builtPath status f = (status, f)"
| "create_loop fs (tok # toks) builtPath status f =
     (let builtPath = builtPath @ tok;
          builtPath = builtPath @ kFilePathSeperator;
          (status, f) = fs_mkdir fs builtPath f
      in create_loop fs toks builtPath status f)"

definition pathExists :: "'f file_system \<Rightarrow> string option \<Rightarrow> 'f \<Rightarrow> bool" where
  "pathExists fs path f = (case path of None \<Rightarrow> False | Some p \<Rightarrow> fs_exists fs p f)"

definition createPath :: "'f file_system \<Rightarrow> string \<Rightarrow> 'f \<Rightarrow> bool \<times> 'f" where
  "createPath fs path f =
     (if path = [] then (False, f)
      else if pathExists fs (Some path) f then (True, f)
      else
        (let builtPath = (if hd path = CHR ''/'' then ''/'' else []);
             (status, f) = create_loop fs (strtok CHR ''/'' path) builtPath (- 1) f
         in if status = - 1 then (False, f) else (True, f)))"

text \<open>A file system that is the list of directories made so far, \<open>mkdir\<close> failing on one it has.\<close>

definition list_fs :: "string list file_system" where
  "list_fs = \<lparr>fs_exists = (\<lambda>p f. p \<in> set f),
     fs_mkdir = (\<lambda>p f. if p \<in> set f then (- 1, f) else (0, f @ [p]))\<rparr>"

text \<open>The prefixes of a path, each with its trailing separator.\<close>

fun prefixes_from :: "string \<Rightarrow> string list \<Rightarrow> string list" where
  "prefixes_from b [] = []"
| "prefixes_from b (t # ts) = (b @ t @ ''/'') # prefixes_from (b @ t @ ''/'') ts"

lemma create_loop_mkdirs:
  "snd (create_loop fs toks b st f) = foldl (\<lambda>f p. snd (fs_mkdir fs p f)) f (prefixes_from b toks)"
  by (induction toks arbitrary: b st f) (simp_all add: kFilePathSeperator_def Let_def split_beta)

lemma create_loop_status:
  "toks \<noteq> [] \<Longrightarrow> fst (create_loop fs toks b st f) =
     fst (fs_mkdir fs (last (prefixes_from b toks))
       (foldl (\<lambda>f p. snd (fs_mkdir fs p f)) f (butlast (prefixes_from b toks))))"
proof (induction toks arbitrary: b st f)
  case (Cons t toks)
  note IH = Cons.IH
  show ?case
  proof (cases toks)
    case Nil
    then show ?thesis by (simp add: kFilePathSeperator_def Let_def split_beta)
  next
    case (Cons t' ts)
    then have "prefixes_from (b @ t @ ''/'') toks \<noteq> []" by simp
    then show ?thesis
      using IH [of "b @ t @ ''/''"] Cons by (simp add: kFilePathSeperator_def Let_def split_beta)
  qed
qed simp

section \<open>Files\<close>

text \<open>
  Open streams by name: opening may fail, and what was written is appended. Sizes count bytes.
\<close>

record files =
  can_open :: "string \<Rightarrow> bool"
  contents :: "string \<Rightarrow> string option"

definition newFileStream :: "string \<Rightarrow> files \<Rightarrow> string option \<times> files" where
  "newFileStream filename fl =
     (if can_open fl filename then
        (Some filename, (case contents fl filename of
            None \<Rightarrow> fl\<lparr>contents := (contents fl)(filename \<mapsto> [])\<rparr> | Some c \<Rightarrow> fl))
      else (None, fl))"

definition getSizeOfFile :: "string option \<Rightarrow> files \<Rightarrow> nat" where
  "getSizeOfFile fs fl = (case fs of None \<Rightarrow> 0
     | Some name \<Rightarrow> (case contents fl name of None \<Rightarrow> 0 | Some c \<Rightarrow> length c))"

section \<open>Environment\<close>

text \<open>The environment is a parameter; the lookup through a shell command is compiled out.\<close>

definition getEnvironmentVariable :: "(string \<Rightarrow> string option) \<Rightarrow> string \<Rightarrow> string \<Rightarrow> string" where
  "getEnvironmentVariable getenv variableName defaultVal =
     (case getenv variableName of
        None \<Rightarrow> defaultVal
      | Some val \<Rightarrow> if val = [] then defaultVal else val)"

definition currentUser :: "(string \<Rightarrow> string option) \<Rightarrow> string" where
  "currentUser getenv = getEnvironmentVariable getenv ''USER'' kUnknownUser"

definition currentHost :: "(string \<Rightarrow> string option) \<Rightarrow> string" where
  "currentHost getenv = getEnvironmentVariable getenv ''HOSTNAME'' kUnknownHost"

definition termSupportsColor :: "(string \<Rightarrow> string option) \<Rightarrow> bool" where
  "termSupportsColor getenv =
     (let term = getEnvironmentVariable getenv ''TERM'' []
      in term = ''xterm'' \<or> term = ''xterm-color'' \<or> term = ''xterm-256color''
         \<or> term = ''screen'' \<or> term = ''linux'' \<or> term = ''cygwin'' \<or> term = ''screen-256color'')"

section \<open>Command line\<close>

record args =
  m_argv :: "string list"
  m_paramsWithValue :: "(string \<times> string) list"
  m_params :: "string list"

definition hasParamWithValue :: "args \<Rightarrow> string \<Rightarrow> bool" where
  "hasParamWithValue a key \<longleftrightarrow> map_of (m_paramsWithValue a) key \<noteq> None"

definition getParamValue :: "args \<Rightarrow> string \<Rightarrow> string option" where
  "getParamValue a key = map_of (m_paramsWithValue a) key"

definition hasParam :: "args \<Rightarrow> string \<Rightarrow> bool" where
  "hasParam a key \<longleftrightarrow> key \<in> set (m_params a)"

definition args_empty :: "args \<Rightarrow> bool" where
  "args_empty a \<longleftrightarrow> m_params a = [] \<and> m_paramsWithValue a = []"

definition args_size :: "args \<Rightarrow> nat" where
  "args_size a = length (m_params a) + length (m_paramsWithValue a)"

text \<open>One round of the loop of \<open>setArgs\<close>: \<open>strstr\<close> finds the first equality sign.\<close>

definition add_arg :: "string \<Rightarrow> args \<Rightarrow> args" where
  "add_arg arg a =
     (case dropWhile (\<lambda>c. c \<noteq> CHR ''='') arg of
        [] \<Rightarrow> if hasParam a arg then a else a\<lparr>m_params := m_params a @ [arg]\<rparr>
      | e # v \<Rightarrow>
          (let key = takeWhile (\<lambda>c. c \<noteq> CHR ''='') arg
           in if hasParamWithValue a key then a
              else a\<lparr>m_paramsWithValue := m_paramsWithValue a @ [(key, v)]\<rparr>))"

definition setArgs :: "string list option \<Rightarrow> args \<Rightarrow> args" where
  "setArgs argv a =
     (let a = a\<lparr>m_params := [], m_paramsWithValue := []\<rparr>
      in case argv of
           None \<Rightarrow> a
         | Some [] \<Rightarrow> a
         | Some (prog # rest) \<Rightarrow> fold add_arg rest (a\<lparr>m_argv := prog # rest\<rparr>))"

definition show_args :: "args \<Rightarrow> string" where
  "show_args a = concat (map (\<lambda>i. ''['' @ m_argv a ! i @ '']'' @ (if i < length (m_argv a) - 1 then '' '' else []))
     [1..<length (m_argv a)])"

text \<open>What the command line says of a key: the value of its first occurrence with a value.\<close>

fun first_value :: "string list \<Rightarrow> string \<Rightarrow> string option" where
  "first_value [] k = None"
| "first_value (arg # rest) k =
     (if CHR ''='' \<in> set arg \<and> takeWhile (\<lambda>c. c \<noteq> CHR ''='') arg = k
      then Some (tl (dropWhile (\<lambda>c. c \<noteq> CHR ''='') arg)) else first_value rest k)"

lemma add_arg_plain:
  assumes "CHR ''='' \<notin> set arg"
  shows "add_arg arg a = (if hasParam a arg then a else a\<lparr>m_params := m_params a @ [arg]\<rparr>)"
proof -
  have "dropWhile (\<lambda>c. c \<noteq> CHR ''='') arg = []"
    using assms by auto
  then show ?thesis
    unfolding add_arg_def by (simp only: list.case)
qed

lemma add_arg_value:
  assumes "CHR ''='' \<in> set arg"
  shows "add_arg arg a = (let key = takeWhile (\<lambda>c. c \<noteq> CHR ''='') arg
    in if hasParamWithValue a key then a
       else a\<lparr>m_paramsWithValue := m_paramsWithValue a @ [(key, tl (dropWhile (\<lambda>c. c \<noteq> CHR ''='') arg))]\<rparr>)"
proof -
  obtain e v where "dropWhile (\<lambda>c. c \<noteq> CHR ''='') arg = e # v"
    using assms by (cases "dropWhile (\<lambda>c. c \<noteq> CHR ''='') arg") auto
  then show ?thesis
    unfolding add_arg_def by (simp only: list.case list.sel)
qed

lemma add_args_value:
  "getParamValue (fold add_arg rest a) k = (case getParamValue a k of Some v \<Rightarrow> Some v | None \<Rightarrow> first_value rest k)"
proof (induction rest arbitrary: a)
  case (Cons arg rest)
  show ?case
  proof (cases "CHR ''='' \<in> set arg")
    case False
    then show ?thesis
      using Cons.IH [of "add_arg arg a"] by (simp add: add_arg_plain getParamValue_def split: option.split)
  next
    case True
    then show ?thesis
      using Cons.IH [of "add_arg arg a"]
      by (auto simp: add_arg_value getParamValue_def hasParamWithValue_def Let_def map_add_def
          split: option.split)
  qed
qed (simp split: option.split)

lemma add_arg_params:
  "m_params (add_arg arg a) =
     (if CHR ''='' \<in> set arg \<or> arg \<in> set (m_params a) then m_params a else m_params a @ [arg])"
  by (cases "CHR ''='' \<in> set arg") (simp_all add: add_arg_plain add_arg_value hasParam_def Let_def)

lemma add_args_params:
  "distinct (m_params a) \<Longrightarrow>
   set (m_params (fold add_arg rest a)) = set (m_params a) \<union> {arg \<in> set rest. CHR ''='' \<notin> set arg}
   \<and> distinct (m_params (fold add_arg rest a))"
proof (induction rest arbitrary: a)
  case (Cons arg rest)
  have "distinct (m_params (add_arg arg a))"
    using Cons.prems by (simp add: add_arg_params)
  from Cons.IH [OF this] show ?case
    by (auto simp: add_arg_params)
qed simp

text \<open>
  After \<open>setArgs\<close> a key has the value of its first occurrence on the command line, later ones
  being ignored, and the parameters without a value are the other arguments, each once.
\<close>
theorem setArgs_first:
  "getParamValue (setArgs (Some (prog # rest)) a) k = first_value rest k
   \<and> set (m_params (setArgs (Some (prog # rest)) a)) = {arg \<in> set rest. CHR ''='' \<notin> set arg}
   \<and> distinct (m_params (setArgs (Some (prog # rest)) a))"
proof -
  let ?a = "a\<lparr>m_params := [], m_paramsWithValue := [], m_argv := prog # rest\<rparr>"
  have "getParamValue (fold add_arg rest ?a) k = first_value rest k"
    using add_args_value [of rest ?a k] by (simp add: getParamValue_def)
  moreover have "set (m_params (fold add_arg rest ?a)) = {arg \<in> set rest. CHR ''='' \<notin> set arg}"
    "distinct (m_params (fold add_arg rest ?a))"
    using add_args_params [where a = ?a and rest = rest] by simp_all
  ultimately show ?thesis
    by (simp add: setArgs_def Let_def)
qed

end
