(* ===== verification/ElRegistry.thy ===== *)
theory ElRegistry
  imports ElLevels
begin

text \<open>
  The registries of the logging library (\<open>easylogging.h\<close>, lines 1857 to 2132): containers that own
  the objects they point to. Objects live in an explicit heap, so that a deleted object stays
  visible as a dangling pointer: a read through one, and a second delete, are \<open>None\<close>. A null
  pointer is \<open>None\<close>, the object at address \<open>a\<close> is pointed to by \<open>Some a\<close>.

  The locales \<open>key_registry\<close> and \<open>pred_registry\<close> state what the clients rely on: a registry
  behaves as a map, respectively as a list that is searched from the front. Both are interpreted
  on the pointer model.
\<close>

section \<open>Ordered maps\<close>

text \<open>A \<open>std::map\<close> is the list of its entries in the order of their keys.\<close>

fun map_insert :: "'k::linorder \<Rightarrow> 'v \<Rightarrow> ('k \<times> 'v) list \<Rightarrow> ('k \<times> 'v) list" where
  "map_insert k v [] = [(k, v)]"
| "map_insert k v ((k', v') # l) =
     (if k < k' then (k, v) # (k', v') # l
      else if k = k' then (k', v') # l
      else (k', v') # map_insert k v l)"

definition map_erase :: "'k \<Rightarrow> ('k \<times> 'v) list \<Rightarrow> ('k \<times> 'v) list" where
  "map_erase k l = filter (\<lambda>(k', v). k' \<noteq> k) l"

definition ordered :: "('k::linorder \<times> 'v) list \<Rightarrow> bool" where
  "ordered l \<longleftrightarrow> sorted_wrt (<) (map fst l)"

named_theorems ordered_map

lemma ordered_Nil [ordered_map]: "ordered []"
  by (simp add: ordered_def)

lemma set_map_insert: "set (map_insert k v l) = (if k \<in> fst ` set l then set l else insert (k, v) (set l))"
  if "ordered l"
  using that
proof (induction l)
  case (Cons e l)
  then show ?case by (cases e) (auto simp: ordered_def)
qed simp

lemma ordered_insert [ordered_map]: "ordered l \<Longrightarrow> ordered (map_insert k v l)"
proof (induction l)
  case (Cons e l)
  then have "ordered l" and "ordered (map_insert k v l)" and "\<forall>x\<in>set l. fst e < fst x"
    by (auto simp: ordered_def)
  with Cons.prems show ?case
    by (cases e) (auto simp: ordered_def set_map_insert dest: order.strict_trans)
qed (simp add: ordered_def)

lemma ordered_erase [ordered_map]: "ordered l \<Longrightarrow> ordered (map_erase k l)"
  by (induction l) (auto simp: ordered_def map_erase_def)

lemma ordered_distinct: "ordered l \<Longrightarrow> distinct (map fst l)"
  by (auto simp: ordered_def strict_sorted_iff)

lemma map_of_insert [ordered_map]:
  "ordered l \<Longrightarrow> map_of (map_insert k v l) = (if map_of l k = None then (map_of l)(k \<mapsto> v) else map_of l)"
proof (induction l)
  case (Cons e l)
  obtain k' v' where e: "e = (k', v')" by (cases e)
  have ord: "ordered l" and less: "\<forall>x\<in>set l. k' < fst x"
    using Cons.prems by (auto simp: ordered_def e)
  have "k < k' \<Longrightarrow> map_of l k = None"
    using less by (auto simp: map_of_eq_None_iff)
  with Cons.IH [OF ord] show ?case
    by (auto simp: e fun_eq_iff)
qed (simp add: fun_eq_iff)

lemma map_of_erase [ordered_map]: "map_of (map_erase k l) = (map_of l)(k := None)"
  by (induction l) (auto simp: map_erase_def fun_eq_iff)

section \<open>Objects\<close>

record 'a heap =
  cells :: "nat \<Rightarrow> 'a option"
  next_cell :: nat

definition heap_ok :: "'a heap \<Rightarrow> bool" where
  "heap_ok h \<longleftrightarrow> (\<forall>a. next_cell h \<le> a \<longrightarrow> cells h a = None)"

definition new_obj :: "'a \<Rightarrow> 'a heap \<Rightarrow> nat option \<times> 'a heap" where
  "new_obj x h = (Some (next_cell h), \<lparr>cells = (cells h)(next_cell h \<mapsto> x), next_cell = Suc (next_cell h)\<rparr>)"

definition deref :: "nat option \<Rightarrow> 'a heap \<Rightarrow> 'a option option" where
  "deref p h = (case p of None \<Rightarrow> Some None | Some a \<Rightarrow> map_option Some (cells h a))"

text \<open>\<open>safeDelete\<close> sets the pointer it was given to null: it yields the pointer with the heap.\<close>

definition safeDelete :: "nat option \<Rightarrow> 'a heap \<Rightarrow> (nat option \<times> 'a heap) option" where
  "safeDelete p h = (case p of
     None \<Rightarrow> Some (None, h)
   | Some a \<Rightarrow> if cells h a = None then None else Some (None, h\<lparr>cells := (cells h)(a := None)\<rparr>))"

text \<open>The pointers of a container own their objects.\<close>

definition owns :: "nat option list \<Rightarrow> 'a heap \<Rightarrow> bool" where
  "owns ps h \<longleftrightarrow> heap_ok h \<and> distinct ps \<and> (\<forall>p\<in>set ps. \<exists>a x. p = Some a \<and> cells h a = Some x)"

lemma owns_new:
  assumes "owns ps h"
  shows "fst (new_obj x h) \<notin> set ps"
    and "owns (fst (new_obj x h) # ps) (snd (new_obj x h))"
    and "p \<in> set ps \<Longrightarrow> deref p (snd (new_obj x h)) = deref p h"
  using assms by (fastforce simp: owns_def new_obj_def heap_ok_def deref_def)+

lemma deref_new [simp]: "deref (fst (new_obj x h)) (snd (new_obj x h)) = Some (Some x)"
  by (simp add: new_obj_def deref_def)

lemma safeDelete_owned:
  assumes "owns (p # ps) h"
  obtains h' where "safeDelete p h = Some (None, h')" and "owns ps h'"
    and "\<And>q. q \<noteq> p \<Longrightarrow> deref q h' = deref q h" and "deref p h' = None"
proof -
  obtain a x where p: "p = Some a" and x: "cells h a = Some x"
    using assms by (auto simp: owns_def)
  show ?thesis
  proof
    show "safeDelete p h = Some (None, h\<lparr>cells := (cells h)(a := None)\<rparr>)"
      by (simp add: safeDelete_def p x)
    show "owns ps (h\<lparr>cells := (cells h)(a := None)\<rparr>)"
      using assms by (fastforce simp: owns_def heap_ok_def p)
  qed (auto simp: deref_def p split: option.splits)
qed

lemma owns_mset: "mset ps = mset qs \<Longrightarrow> owns ps h \<longleftrightarrow> owns qs h"
  by (metis distinct_count_atmost_1 owns_def set_mset_mset)

section \<open>AbstractRegistry\<close>

definition registry_eq :: "'p list \<Rightarrow> 'p list \<Rightarrow> bool" where
  "registry_eq l other \<longleftrightarrow>
     length l = length other \<and> list_all (\<lambda>i. l ! i = other ! i) [0..<length l]"

definition registry_neq :: "'p list \<Rightarrow> 'p list \<Rightarrow> bool" where
  "registry_neq l other \<longleftrightarrow>
     length l \<noteq> length other \<or> list_ex (\<lambda>i. l ! i \<noteq> other ! i) [0..<length l]"

lemma registry_eq_iff: "registry_eq l other \<longleftrightarrow> l = other"
  by (auto simp: registry_eq_def list_all_iff intro: nth_equalityI)

lemma registry_neq_iff: "registry_neq l other \<longleftrightarrow> l \<noteq> other"
  by (auto simp: registry_neq_def list_ex_iff intro: nth_equalityI)

text \<open>Deleting every object of a container; the container is cleared afterwards.\<close>

fun delete_all :: "nat option list \<Rightarrow> 'a heap \<Rightarrow> 'a heap option" where
  "delete_all [] h = Some h"
| "delete_all (p # ps) h = do { (p, h) \<leftarrow> safeDelete p h; delete_all ps h }"

lemma delete_all_owned:
  assumes "owns (ps @ qs) h"
  obtains h' where "delete_all ps h = Some h'" and "owns qs h'"
    and "\<And>q. q \<notin> set ps \<Longrightarrow> deref q h' = deref q h"
  using assms
proof (induction ps arbitrary: h thesis)
  case (Cons p ps)
  from Cons.prems(2) have "owns (p # ps @ qs) h" by simp
  then obtain h1 where h1: "safeDelete p h = Some (None, h1)" "owns (ps @ qs) h1"
    and same: "\<And>q. q \<noteq> p \<Longrightarrow> deref q h1 = deref q h"
    by (elim safeDelete_owned) blast
  obtain h2 where "delete_all ps h1 = Some h2" "owns qs h2" "\<And>q. q \<notin> set ps \<Longrightarrow> deref q h2 = deref q h1"
    using Cons.IH [OF _ h1(2)] by blast
  then show ?case using Cons.prems(1) [of h2] h1 same by simp
qed simp

section \<open>Registry: objects by key\<close>

type_synonym 'k registry = "('k \<times> nat option) list"

definition reg_unregisterAll :: "'k registry \<Rightarrow> 'a heap \<Rightarrow> ('k registry \<times> 'a heap) option" where
  "reg_unregisterAll l h =
     (if l \<noteq> [] then do { h \<leftarrow> delete_all (map snd l) h; Some ([], h) } else Some (l, h))"

definition reg_get :: "'k \<Rightarrow> 'k registry \<Rightarrow> nat option" where
  "reg_get uniqKey l = (case map_of l uniqKey of None \<Rightarrow> None | Some p \<Rightarrow> p)"

text \<open>
  The key is a constant reference, read again for the erasure: \<open>uniqKey\<close> is the read, which may
  go to an object of the heap.
\<close>

definition reg_unregister :: "('a heap \<Rightarrow> 'k option) \<Rightarrow> 'k registry \<Rightarrow> 'a heap \<Rightarrow> ('k registry \<times> 'a heap) option" where
  "reg_unregister uniqKey l h =
     do { k \<leftarrow> uniqKey h;
          let existing = reg_get k l;
          (if existing \<noteq> None then
             do { (existing, h) \<leftarrow> safeDelete existing h;
                  k \<leftarrow> uniqKey h;
                  Some (map_erase k l, h) }
           else Some (l, h)) }"

definition reg_registerNew :: "'k::linorder \<Rightarrow> nat option \<Rightarrow> 'k registry \<Rightarrow> 'a heap \<Rightarrow> ('k registry \<times> 'a heap) option" where
  "reg_registerNew uniqKey p l h =
     do { (l, h) \<leftarrow> reg_unregister (\<lambda>h. Some uniqKey) l h; Some (map_insert uniqKey p l, h) }"

fun reg_deepCopy :: "'k::linorder registry \<Rightarrow> 'k registry \<Rightarrow> 'a heap \<Rightarrow> ('k registry \<times> 'a heap) option" where
  "reg_deepCopy [] l h = Some (l, h)"
| "reg_deepCopy ((k, p) # sr) l h =
     do { x \<leftarrow> deref p h;
          x \<leftarrow> x;
          let (p, h) = new_obj x h;
          (l, h) \<leftarrow> reg_registerNew k p l h;
          reg_deepCopy sr l h }"

definition reg_assign :: "'k::linorder registry \<Rightarrow> 'k registry \<Rightarrow> 'a heap \<Rightarrow> ('k registry \<times> 'a heap) option" where
  "reg_assign sr l h = do { (l, h) \<leftarrow> reg_unregisterAll l h; reg_deepCopy sr l h }"

text \<open>What a registry is: an ordered map whose pointers own their objects; what it means: a map.\<close>

definition reg_ok :: "'k::linorder registry \<times> 'a heap \<Rightarrow> bool" where
  "reg_ok r \<longleftrightarrow> ordered (fst r) \<and> owns (map snd (fst r)) (snd r)"

definition reg_map :: "'k registry \<times> 'a heap \<Rightarrow> 'k \<Rightarrow> 'a option" where
  "reg_map r k = (case reg_get k (fst r) of None \<Rightarrow> None | Some a \<Rightarrow> cells (snd r) a)"

lemma reg_get_Some: "reg_get k l = Some a \<longleftrightarrow> map_of l k = Some (Some a)"
  by (auto simp: reg_get_def split: option.splits)

text \<open>No object outlives its entry.\<close>

definition tidy :: "nat option set \<Rightarrow> 'a heap \<Rightarrow> bool" where
  "tidy ps h \<longleftrightarrow> (\<forall>a. cells h a \<noteq> None \<longrightarrow> Some a \<in> ps)"

lemma tidy_new: "tidy ps h \<Longrightarrow> tidy (insert (fst (new_obj x h)) ps) (snd (new_obj x h))"
  by (auto simp: tidy_def new_obj_def)

lemma tidy_delete: "tidy (insert p ps) h \<Longrightarrow> safeDelete p h = Some (q, h') \<Longrightarrow> p \<noteq> None \<Longrightarrow> tidy ps h'"
proof (cases p)
  case (Some b)
  assume "tidy (insert p ps) h" and "safeDelete p h = Some (q, h')"
  then have "\<And>a. cells h a \<noteq> None \<Longrightarrow> Some a = p \<or> Some a \<in> ps" and "h' = h\<lparr>cells := (cells h)(b := None)\<rparr>"
    by (auto simp: tidy_def safeDelete_def Some split: if_splits)
  then show ?thesis by (fastforce simp: tidy_def Some)
qed simp

lemma erase_absent: "map_of l k = None \<Longrightarrow> map_erase k l = l"
  by (force simp: map_erase_def map_of_eq_None_iff filter_id_conv)

lemma mset_erase:
  "ordered l \<Longrightarrow> map_of l k = Some p \<Longrightarrow> mset (map snd l) = add_mset p (mset (map snd (map_erase k l)))"
proof (induction l)
  case (Cons e l)
  obtain k' v' where e: "e = (k', v')" by (cases e)
  have ord: "ordered l" and less: "\<forall>x\<in>set l. k' < fst x"
    using Cons.prems(1) by (auto simp: ordered_def e)
  show ?case
  proof (cases "k' = k")
    case True
    then have "map_of l k = None"
      using less by (auto simp: map_of_eq_None_iff)
    then have "map_erase k (e # l) = l"
      using erase_absent [of l k] True by (simp add: e map_erase_def)
    with True Cons.prems(2) show ?thesis by (simp add: e)
  next
    case False
    then show ?thesis
      using Cons.IH [OF ord] Cons.prems(2) by (simp add: e map_erase_def)
  qed
qed simp

lemma mset_insert:
  "map_of l k = None \<Longrightarrow> ordered l \<Longrightarrow> mset (map snd (map_insert k p l)) = add_mset p (mset (map snd l))"
proof (induction l)
  case (Cons e l)
  then show ?case by (cases e) (auto simp: ordered_def split: if_splits)
qed simp

lemma reg_map_cell:
  "reg_ok (l, h) \<Longrightarrow> map_of l k = Some p \<Longrightarrow> deref p h = Some (reg_map (l, h) k) \<and> reg_map (l, h) k \<noteq> None"
  by (force simp: reg_ok_def owns_def reg_map_def reg_get_def deref_def dest: map_of_SomeD
      split: option.splits)

lemma reg_map_absent: "map_of l k = None \<Longrightarrow> reg_map (l, h) k = None"
  by (simp add: reg_map_def reg_get_def)

lemma reg_map_deref:
  "reg_map (l, h) k = (case map_of l k of None \<Rightarrow> None | Some p \<Rightarrow> Option.bind (deref p h) id)"
  by (auto simp: reg_map_def reg_get_def deref_def split: option.splits) (metis bind.bind_lunit id_apply not_None_eq option.simps(8) bind.bind_lzero option.map(2))

lemma reg_pointers_distinct:
  assumes "reg_ok (l, h)" and "map_of l k = Some p" and "map_of l k' = Some p"
  shows "k = k'"
proof (rule ccontr)
  assume "k \<noteq> k'"
  have ord: "ordered l" and dist: "distinct (map snd l)"
    using assms(1) by (auto simp: reg_ok_def owns_def)
  have "map_of (map_erase k l) k' = Some p"
    using assms(3) \<open>k \<noteq> k'\<close> by (simp add: map_of_erase)
  then have "p \<in> set (map snd (map_erase k l))"
    by (force dest: map_of_SomeD)
  then have "count (mset (map snd l)) p > 1"
    unfolding mset_erase [OF ord assms(2)] by (simp del: mset_map)
  with dist show False
    by (metis distinct_count_atmost_1 less_irrefl not_one_less_zero)
qed

lemma reg_unregister_value:
  assumes ok: "reg_ok (l, h)"
  obtains l' h' where "reg_unregister (\<lambda>h. Some k) l h = Some (l', h')" and "reg_ok (l', h')"
    and "reg_map (l', h') = (reg_map (l, h))(k := None)" and "l' = map_erase k l"
    and "\<And>ps. owns (map snd l @ ps) h \<Longrightarrow> owns (map snd l' @ ps) h'"
    and "\<And>q. q \<notin> snd ` set l \<Longrightarrow> deref q h' = deref q h"
    and "\<And>ps. tidy (snd ` set l \<union> ps) h \<Longrightarrow> tidy (snd ` set l' \<union> ps) h'"
proof (cases "map_of l k")
  case None
  then have "reg_unregister (\<lambda>h. Some k) l h = Some (l, h)"
    by (simp add: reg_unregister_def reg_get_def)
  then show ?thesis
    using that [of l h] ok None by (simp add: reg_map_absent erase_absent fun_upd_idem)
next
  case (Some p)
  have ord: "ordered l" using ok by (simp add: reg_ok_def)
  have ms: "mset (map snd l) = mset (p # map snd (map_erase k l))"
    using mset_erase [OF ord Some] by simp
  have own: "owns (p # map snd (map_erase k l)) h"
    using ok by (intro owns_mset [OF ms, THEN iffD1]) (simp add: reg_ok_def)
  then obtain h' where h': "safeDelete p h = Some (None, h')" "owns (map snd (map_erase k l)) h'"
    "\<And>q. q \<noteq> p \<Longrightarrow> deref q h' = deref q h" "deref p h' = None"
    by (elim safeDelete_owned) blast
  obtain a where a: "p = Some a"
    using own by (auto simp: owns_def)
  have "reg_map (map_erase k l, h') k' = ((reg_map (l, h))(k := None)) k'" for k'
  proof (cases "k' = k \<or> map_of l k' = None")
    case True
    then show ?thesis by (auto simp: reg_map_deref map_of_erase)
  next
    case False
    then obtain q where q: "map_of l k' = Some q" "k' \<noteq> k" by auto
    then have "q \<noteq> p"
      using reg_pointers_distinct [OF ok Some] by blast
    with q show ?thesis by (simp add: reg_map_deref map_of_erase h'(3))
  qed
  moreover have "owns (map snd (map_erase k l) @ ps) h'" if "owns (map snd l @ ps) h" for ps
  proof -
    have "owns (p # map snd (map_erase k l) @ ps) h"
      using that by (subst (asm) owns_mset [of _ "p # map snd (map_erase k l) @ ps"]) (simp_all add: ms del: mset_map)
    then show ?thesis
      by (elim safeDelete_owned) (use h'(1) in simp)
  qed
  moreover have "q \<notin> snd ` set l \<Longrightarrow> deref q h' = deref q h" for q
    using Some by (intro h'(3)) (force dest: map_of_SomeD)
  moreover have "tidy (snd ` set (map_erase k l) \<union> ps) h'" if "tidy (snd ` set l \<union> ps) h" for ps
  proof -
    have "snd ` set l = insert p (snd ` set (map_erase k l))"
      using arg_cong [OF ms, of set_mset] by simp
    then show ?thesis
      using that tidy_delete [OF _ h'(1), of "snd ` set (map_erase k l) \<union> ps"] a by simp
  qed
  ultimately show ?thesis
    using h' Some a ord
    by (intro that [of "map_erase k l" h']) (auto simp: reg_unregister_def reg_get_def reg_ok_def ordered_erase)
qed

lemma reg_registerNew_value:
  assumes ok: "reg_ok (l, h)" and new: "new_obj x h = (p, h1)"
  obtains l' h' where "reg_registerNew k p l h1 = Some (l', h')" and "reg_ok (l', h')"
    and "reg_map (l', h') = (reg_map (l, h))(k \<mapsto> x)"
    and "\<And>ps. owns (map snd l @ ps) h \<Longrightarrow> owns (map snd l' @ ps) h' \<and> (\<forall>q\<in>set ps. deref q h' = deref q h)"
    and "tidy (snd ` set l) h \<Longrightarrow> tidy (snd ` set l') h'"
proof -
  have own: "owns (map snd l) h" and ord: "ordered l"
    using ok by (auto simp: reg_ok_def)
  have p: "p = fst (new_obj x h)" and h1: "h1 = snd (new_obj x h)"
    using new by auto
  have own1: "owns (map snd l @ [p]) h1"
    using owns_new(2) [OF own] by (subst owns_mset [of _ "p # map snd l"]) (auto simp: p h1)
  have same1: "q \<in> snd ` set l \<Longrightarrow> deref q h1 = deref q h" for q
    using owns_new(3) [OF own] by (simp add: h1)
  have "owns (map snd l) h1"
    using own1 by (auto simp: owns_def)
  then have ok1: "reg_ok (l, h1)" by (simp add: reg_ok_def ord)
  have map1: "reg_map (l, h1) = reg_map (l, h)"
  proof
    fix k'
    have "map_of l k' = Some q \<Longrightarrow> deref q h1 = deref q h" for q
      by (rule same1) (force dest: map_of_SomeD)
    then show "reg_map (l, h1) k' = reg_map (l, h) k'"
      by (auto simp: reg_map_deref split: option.splits)
  qed
  obtain l2 h2 where u: "reg_unregister (\<lambda>h. Some k) l h1 = Some (l2, h2)" "reg_ok (l2, h2)"
    "reg_map (l2, h2) = (reg_map (l, h1))(k := None)" "l2 = map_erase k l"
    "\<And>ps. owns (map snd l @ ps) h1 \<Longrightarrow> owns (map snd l2 @ ps) h2"
    "\<And>q. q \<notin> snd ` set l \<Longrightarrow> deref q h2 = deref q h1"
    "\<And>ps. tidy (snd ` set l \<union> ps) h1 \<Longrightarrow> tidy (snd ` set l2 \<union> ps) h2"
    using reg_unregister_value [OF ok1] by metis
  have pl: "p \<notin> snd ` set l"
    using owns_new(1) [OF own] by (simp add: p)
  have own2: "owns (p # map snd l2) h2"
    using u(5) [OF own1] by (subst owns_mset [of _ "map snd l2 @ [p]"]) auto
  have absent: "map_of l2 k = None" and ord2: "ordered l2"
    using ord by (auto simp: u(4) map_of_erase ordered_erase)
  have ms: "mset (map snd (map_insert k p l2)) = mset (p # map snd l2)"
    using mset_insert [OF absent ord2] by simp
  show ?thesis
  proof
    show "reg_registerNew k p l h1 = Some (map_insert k p l2, h2)"
      by (simp add: reg_registerNew_def u(1))
    show "reg_ok (map_insert k p l2, h2)"
      using owns_mset [OF ms, THEN iffD2, OF own2] by (simp add: reg_ok_def ordered_insert ord2)
    have "deref p h2 = Some (Some x)"
      using u(6) [OF pl] by (simp add: p h1)
    then show "reg_map (map_insert k p l2, h2) = (reg_map (l, h))(k \<mapsto> x)"
      using u(3) map1 by (auto simp: fun_eq_iff reg_map_deref map_of_insert ord2 absent)
    have "snd ` set (map_insert k p l2) = insert p (snd ` set l2)"
      using arg_cong [OF ms, of set_mset] by simp
    then show "tidy (snd ` set (map_insert k p l2)) h2" if "tidy (snd ` set l) h"
      using u(7) [of "{p}"] tidy_new [OF that, of x] by (simp add: p h1)
    fix ps assume ps: "owns (map snd l @ ps) h"
    have "owns (map snd l @ p # ps) h1"
      using owns_new(2) [OF ps, of x] by (subst owns_mset [of _ "p # map snd l @ ps"]) (auto simp: p h1)
    from u(5) [OF this] have "owns (map snd (map_insert k p l2) @ ps) h2"
      by (subst owns_mset [of _ "map snd l2 @ p # ps"]) (simp_all add: ms del: mset_map)
    moreover have "deref q h2 = deref q h" if "q \<in> set ps" for q
    proof -
      have "q \<notin> snd ` set l" using ps that by (auto simp: owns_def)
      then show ?thesis using u(6) owns_new(3) [OF ps, of q x] that by (simp add: h1)
    qed
    ultimately show "owns (map snd (map_insert k p l2) @ ps) h2 \<and> (\<forall>q\<in>set ps. deref q h2 = deref q h)"
      by blast
  qed
qed

section \<open>The contract of a keyed registry\<close>

locale key_registry =
  fixes ok :: "'r \<Rightarrow> bool"
    and meaning :: "'r \<Rightarrow> 'k \<Rightarrow> 'a option"
    and put :: "'k \<Rightarrow> 'a \<Rightarrow> 'r \<Rightarrow> 'r option"
    and drop_key :: "'k \<Rightarrow> 'r \<Rightarrow> 'r option"
  assumes put_law: "ok r \<Longrightarrow> \<exists>r'. put k x r = Some r' \<and> ok r' \<and> meaning r' = (meaning r)(k \<mapsto> x)"
    and drop_law: "ok r \<Longrightarrow> \<exists>r'. drop_key k r = Some r' \<and> ok r' \<and> meaning r' = (meaning r)(k := None)"
begin

text \<open>A sequence of registrations (\<open>Some x\<close>) and removals (\<open>None\<close>).\<close>

fun run :: "('k \<times> 'a option) list \<Rightarrow> 'r \<Rightarrow> 'r option" where
  "run [] r = Some r"
| "run ((k, Some x) # ops) r = do { r \<leftarrow> put k x r; run ops r }"
| "run ((k, None) # ops) r = do { r \<leftarrow> drop_key k r; run ops r }"

lemma run_meaning:
  "ok r \<Longrightarrow> \<exists>r'. run ops r = Some r' \<and> ok r' \<and> meaning r' = fold (\<lambda>(k, v) m. m(k := v)) ops (meaning r)"
proof (induction ops r rule: run.induct)
  case (2 k x ops r)
  obtain r1 where "put k x r = Some r1" "ok r1" "meaning r1 = (meaning r)(k \<mapsto> x)"
    using put_law [OF 2(2)] by blast
  with 2(1) [of r1] show ?case by simp
next
  case (3 k ops r)
  obtain r1 where "drop_key k r = Some r1" "ok r1" "meaning r1 = (meaning r)(k := None)"
    using drop_law [OF 3(2)] by blast
  with 3(1) [of r1] show ?case by simp
qed simp

end

text \<open>Registering a new object, as every caller does, and removing a key that the caller holds.\<close>

definition reg_put :: "'k::linorder \<Rightarrow> 'a \<Rightarrow> 'k registry \<times> 'a heap \<Rightarrow> ('k registry \<times> 'a heap) option" where
  "reg_put k x r = (let (p, h) = new_obj x (snd r) in reg_registerNew k p (fst r) h)"

definition reg_drop :: "'k \<Rightarrow> 'k registry \<times> 'a heap \<Rightarrow> ('k registry \<times> 'a heap) option" where
  "reg_drop k r = reg_unregister (\<lambda>h. Some k) (fst r) (snd r)"

definition reg_tight :: "'k::linorder registry \<times> 'a heap \<Rightarrow> bool" where
  "reg_tight r \<longleftrightarrow> reg_ok r \<and> tidy (snd ` set (fst r)) (snd r)"

interpretation kr: key_registry reg_tight reg_map reg_put reg_drop
proof unfold_locales
  fix r :: "'a::linorder registry \<times> 'b heap" and k x
  assume r: "reg_tight r"
  obtain l h where lh: "r = (l, h)" by (cases r)
  obtain p h1 where new: "new_obj x h = (p, h1)" by (cases "new_obj x h")
  show "\<exists>r'. reg_put k x r = Some r' \<and> reg_tight r' \<and> reg_map r' = (reg_map r)(k \<mapsto> x)"
    using r reg_registerNew_value [OF _ new, of l k] unfolding reg_tight_def reg_put_def lh
    by (metis case_prod_conv fst_conv new snd_conv)
  show "\<exists>r'. reg_drop k r = Some r' \<and> reg_tight r' \<and> reg_map r' = (reg_map r)(k := None)"
    using r reg_unregister_value [of l h k] unfolding reg_tight_def reg_drop_def lh
    by (metis fst_conv snd_conv sup_bot_right)
qed

section \<open>RegistryWithPred: objects in order\<close>

type_synonym pointers = "nat option list"

text \<open>The predicate gets the pointer, as \<open>None\<close> when it is null.\<close>

fun rp_find :: "('a option \<Rightarrow> bool) \<Rightarrow> pointers \<Rightarrow> 'a heap \<Rightarrow> nat option option" where
  "rp_find P [] h = Some None"
| "rp_find P (p # ps) h = do { x \<leftarrow> deref p h; if P x then Some p else rp_find P ps h }"

definition rp_get :: "('a option \<Rightarrow> bool) \<Rightarrow> pointers \<Rightarrow> 'a heap \<Rightarrow> nat option option" where
  "rp_get P ps h = rp_find P ps h"

definition rp_registerNew :: "nat option \<Rightarrow> pointers \<Rightarrow> pointers" where
  "rp_registerNew p ps = ps @ [p]"

definition rp_unregisterAll :: "pointers \<Rightarrow> 'a heap \<Rightarrow> (pointers \<times> 'a heap) option" where
  "rp_unregisterAll ps h =
     (if ps \<noteq> [] then do { h \<leftarrow> delete_all ps h; Some ([], h) } else Some (ps, h))"

text \<open>
  \<open>unregister\<close>: the iterator is read again after the erasure, when it stands at the next element
  or, after the last one, at the end.
\<close>

definition rp_unregister :: "nat option \<Rightarrow> pointers \<Rightarrow> 'a heap \<Rightarrow> (pointers \<times> 'a heap) option" where
  "rp_unregister p ps h =
     (if p = None then Some (ps, h)
      else (let i = length (takeWhile (\<lambda>q. q \<noteq> p) ps)
            in if i < length ps \<and> ps ! i \<noteq> None then
                 do { let ps = take i ps @ drop (Suc i) ps;
                      q \<leftarrow> rd ps i;
                      (q, h) \<leftarrow> safeDelete q h;
                      ps \<leftarrow> wr ps i q;
                      Some (ps, h) }
               else Some (ps, h)))"

fun rp_deepCopy :: "pointers \<Rightarrow> pointers \<Rightarrow> 'a heap \<Rightarrow> (pointers \<times> 'a heap) option" where
  "rp_deepCopy [] ps h = Some (ps, h)"
| "rp_deepCopy (p # sr) ps h =
     do { x \<leftarrow> deref p h;
          x \<leftarrow> x;
          let (p, h) = new_obj x h;
          rp_deepCopy sr (rp_registerNew p ps) h }"

definition rp_assign :: "pointers \<Rightarrow> pointers \<Rightarrow> 'a heap \<Rightarrow> (pointers \<times> 'a heap) option" where
  "rp_assign sr ps h = do { (ps, h) \<leftarrow> rp_unregisterAll ps h; rp_deepCopy sr ps h }"

text \<open>The move assignment from another registry, which is left empty.\<close>

definition rp_move :: "pointers \<Rightarrow> pointers \<Rightarrow> 'a heap \<Rightarrow> (pointers \<times> pointers \<times> 'a heap) option" where
  "rp_move sr ps h = do { (ps, h) \<leftarrow> rp_unregisterAll ps h; Some (sr, [], h) }"

text \<open>\<open>operator<<\<close>: every object on a line of its own.\<close>

definition rp_log :: "('a \<Rightarrow> string) \<Rightarrow> pointers \<Rightarrow> 'a heap \<Rightarrow> string option" where
  "rp_log show_obj ps h =
     fold (\<lambda>p os. do { os \<leftarrow> os; x \<leftarrow> deref p h; x \<leftarrow> x; Some (os @ ''    '' @ show_obj x @ [CHR 0x0A]) }) ps (Some [])"

definition contents_of :: "pointers \<Rightarrow> 'a heap \<Rightarrow> 'a list" where
  "contents_of ps h = map (\<lambda>p. the (the (deref p h))) ps"

lemma owns_deref: "owns ps h \<Longrightarrow> p \<in> set ps \<Longrightarrow> deref p h = Some (Some (the (the (deref p h))))"
  by (fastforce simp: owns_def deref_def)

lemma contents_cong: "(\<And>p. p \<in> set ps \<Longrightarrow> deref p h' = deref p h) \<Longrightarrow> contents_of ps h' = contents_of ps h"
  by (simp add: contents_of_def)

lemma rp_find_list:
  "owns ps h \<Longrightarrow>
   \<exists>p. rp_find P ps h = Some p \<and> deref p h = Some (List.find (\<lambda>x. P (Some x)) (contents_of ps h))"
proof (induction ps)
  case (Cons p ps)
  have own: "owns ps h" using Cons.prems by (auto simp: owns_def)
  obtain x where "deref p h = Some (Some x)"
    using owns_deref [OF Cons.prems, of p] by auto
  then show ?case
    using Cons.IH [OF own] by (auto simp: contents_of_def)
qed (simp add: contents_of_def deref_def)

lemma rp_unregisterAll_empty:
  assumes "owns ps h"
  obtains h' where "rp_unregisterAll ps h = Some ([], h')" and "owns [] h'"
proof (cases ps)
  case Nil
  then show ?thesis using that [of h] assms by (simp add: rp_unregisterAll_def)
next
  case (Cons p qs)
  obtain h' where "delete_all ps h = Some h'" "owns [] h'"
    using delete_all_owned [of ps "[]" h] assms by auto
  then show ?thesis using that [of h'] Cons by (simp add: rp_unregisterAll_def)
qed

text \<open>
  A removed object that is followed by another one is leaked, and the follower is deleted in its
  place; the removal of the last object reads past the end.
\<close>

lemma rp_unregister_next:
  assumes own: "owns (ps @ p # q # qs) h"
  obtains h' where "rp_unregister p (ps @ p # q # qs) h = Some (ps @ None # qs, h')"
    and "deref p h' = deref p h" and "deref q h' = None"
proof -
  have "p \<noteq> None" "p \<notin> set ps" "q \<noteq> p"
    using own by (auto simp: owns_def)
  moreover have "owns (q # p # ps @ qs) h"
    using own by (subst owns_mset [of _ "ps @ p # q # qs"]) auto
  then obtain h' where "safeDelete q h = Some (None, h')" "\<And>r. r \<noteq> q \<Longrightarrow> deref r h' = deref r h" "deref q h' = None"
    by (elim safeDelete_owned) blast
  ultimately show ?thesis
    using that [of h'] by (simp add: rp_unregister_def takeWhile_append array_simps nth_append)
qed

lemma rp_unregister_last:
  assumes own: "owns (ps @ [p]) h"
  shows "rp_unregister p (ps @ [p]) h = None"
proof -
  have "p \<noteq> None" "p \<notin> set ps"
    using own by (auto simp: owns_def)
  then show ?thesis
    by (simp add: rp_unregister_def takeWhile_append rd_def)
qed

section \<open>The contract of a searched registry\<close>

locale pred_registry =
  fixes ok :: "'r \<Rightarrow> bool"
    and contents :: "'r \<Rightarrow> 'a list"
    and add :: "'a \<Rightarrow> 'r \<Rightarrow> 'r"
    and look :: "('a \<Rightarrow> bool) \<Rightarrow> 'r \<Rightarrow> 'a option option"
  assumes add_ok: "ok r \<Longrightarrow> ok (add x r)"
    and add_contents: "ok r \<Longrightarrow> contents (add x r) = contents r @ [x]"
    and look_contents: "ok r \<Longrightarrow> look P r = Some (List.find P (contents r))"
begin

lemma look_add:
  "ok r \<Longrightarrow> look P (add x r) = Some (case List.find P (contents r) of
     Some y \<Rightarrow> Some y | None \<Rightarrow> if P x then Some x else None)"
proof -
  have "List.find P (ys @ [x]) = (case List.find P ys of Some y \<Rightarrow> Some y | None \<Rightarrow> if P x then Some x else None)" for ys
    by (induction ys) simp_all
  then show "ok r \<Longrightarrow> ?thesis" by (simp add: add_ok add_contents look_contents)
qed

lemma look_added:
  assumes "ok r" and "look P r = Some None"
  shows "look P (add x r) = Some (if P x then Some x else None)"
  using assms look_add [of r P x] by (simp add: look_contents)

end

definition rp_ok :: "pointers \<times> 'a heap \<Rightarrow> bool" where
  "rp_ok r \<longleftrightarrow> owns (fst r) (snd r)"

definition rp_contents :: "pointers \<times> 'a heap \<Rightarrow> 'a list" where
  "rp_contents r = contents_of (fst r) (snd r)"

definition rp_add :: "'a \<Rightarrow> pointers \<times> 'a heap \<Rightarrow> pointers \<times> 'a heap" where
  "rp_add x r = (let (p, h) = new_obj x (snd r) in (rp_registerNew p (fst r), h))"

definition rp_look :: "('a \<Rightarrow> bool) \<Rightarrow> pointers \<times> 'a heap \<Rightarrow> 'a option option" where
  "rp_look P r = do { p \<leftarrow> rp_get (\<lambda>x. x \<noteq> None \<and> P (the x)) (fst r) (snd r); deref p (snd r) }"

interpretation rp: pred_registry rp_ok rp_contents rp_add rp_look
proof unfold_locales
  fix r :: "pointers \<times> 'a heap" and x P
  assume r: "rp_ok r"
  obtain ps h where ph: "r = (ps, h)" by (cases r)
  have own: "owns ps h" using r by (simp add: rp_ok_def ph)
  obtain p h1 where new: "new_obj x h = (p, h1)" by (cases "new_obj x h")
  have "owns (ps @ [p]) h1"
    using owns_new(2) [OF own, of x] new by (subst owns_mset [of _ "p # ps"]) auto
  then show "rp_ok (rp_add x r)"
    by (simp add: rp_ok_def rp_add_def ph new rp_registerNew_def)
  have "contents_of ps h1 = contents_of ps h"
    using owns_new(3) [OF own, of _ x] new by (intro contents_cong) simp
  then show "rp_contents (rp_add x r) = rp_contents r @ [x]"
    using deref_new [of x h] by (simp add: rp_contents_def rp_add_def ph new rp_registerNew_def contents_of_def)
  show "rp_look P r = Some (List.find P (rp_contents r))"
    using rp_find_list [OF own, of "\<lambda>x. x \<noteq> None \<and> P (the x)"]
    by (auto simp: rp_look_def rp_get_def rp_contents_def ph)
qed

section \<open>Properties\<close>

definition empty_heap :: "'a heap" where
  "empty_heap = \<lparr>cells = (\<lambda>a. None), next_cell = 0\<rparr>"

lemma empty_tight: "reg_tight ([], empty_heap)" "reg_map ([], empty_heap) = Map.empty"
  by (auto simp: reg_tight_def reg_ok_def ordered_def owns_def heap_ok_def empty_heap_def tidy_def reg_map_def reg_get_def)

text \<open>A program over a registry: registrations and removals one after the other.\<close>

fun registry_run :: "('k::linorder \<times> 'a option) list \<Rightarrow> 'k registry \<times> 'a heap \<Rightarrow> ('k registry \<times> 'a heap) option" where
  "registry_run [] r = Some r"
| "registry_run ((k, v) # ops) r =
     do { r \<leftarrow> (case v of Some x \<Rightarrow> reg_put k x r | None \<Rightarrow> reg_drop k r); registry_run ops r }"

lemma registry_run_eq: "registry_run ops r = kr.run ops r"
  by (induction ops r rule: kr.run.induct) (auto split: bind_splits)

text \<open>
  A keyed registry is a map: after any sequence of registrations and removals, each key has
  the object that was registered last, nothing was deleted twice, and the objects alive are
  exactly those of the entries.
\<close>
theorem registry_is_map:
  "(case registry_run ops ([], empty_heap) of
      None \<Rightarrow> False
    | Some (l, h) \<Rightarrow>
        reg_map (l, h) = fold (\<lambda>(k, v) m. m(k := v)) ops Map.empty
        \<and> Some ` dom (cells h) = snd ` set l \<and> distinct (map snd l) \<and> ordered l)"
proof -
  obtain l h where lh: "registry_run ops ([], empty_heap) = Some (l, h)" "reg_tight (l, h)"
    "reg_map (l, h) = fold (\<lambda>(k, v) m. m(k := v)) ops Map.empty"
    using kr.run_meaning [OF empty_tight(1), of ops] by (auto simp: registry_run_eq empty_tight(2))
  then have "Some ` dom (cells h) = snd ` set l"
    by (fastforce simp: reg_tight_def reg_ok_def owns_def tidy_def)
  with lh show ?thesis
    by (simp add: reg_tight_def reg_ok_def owns_def)
qed

end
