(* ===== verification/ElVerbose.thy ===== *)
theory ElVerbose
  imports ElFile ElRegistry "HOL-Library.List_Lexorder" "HOL-Library.Char_ord"
begin

text \<open>
  Verbose logging (\<open>easylogging.h\<close>, lines 3733 to 3876): the verbose level and the levels of
  modules, given as a text of patterns, and the decision whether a verbose message of a file is
  logged. The module table is a \<open>std::map\<close>, so that its patterns are tried in the order of the text.
\<close>

section \<open>Registry\<close>

record VRegistry =
  vr_level :: int
  vr_modules :: "(string \<times> int) list"

definition mk_VRegistry :: "int \<Rightarrow> VRegistry" where
  "mk_VRegistry level = \<lparr>vr_level = level, vr_modules = []\<rparr>"

definition setLevel :: "int \<Rightarrow> VRegistry \<Rightarrow> VRegistry" where
  "setLevel level r =
     (if level < 0 then r\<lparr>vr_level := 0\<rparr>
      else if 9 < level then r\<lparr>vr_level := int kMaxVerboseLevel\<rparr>
      else r\<lparr>vr_level := level\<rparr>)"

definition clearModules :: "VRegistry \<Rightarrow> VRegistry" where
  "clearModules r = r\<lparr>vr_modules := []\<rparr>"

text \<open>Replacing the suffix \<open>prev\<close>, when there is one, by \<open>sfx\<close>, which is not doubled.\<close>

definition addSuffix :: "string \<Rightarrow> string \<Rightarrow> string option \<Rightarrow> string" where
  "addSuffix ss sfx prev =
     (let ss = (case prev of
            Some p \<Rightarrow> if endsWith ss p then take (length ss - length p) ss else ss
          | None \<Rightarrow> ss);
          ss = (if endsWith ss sfx then take (length ss - length sfx) ss else ss)
      in ss @ sfx)"

text \<open>The suffixes in turn, each with the one it replaces; the last one is added after the chain.\<close>

definition module_suffixes :: "(string \<times> string option) list" where
  "module_suffixes =
     [(''.h'', None), (''.c'', Some ''.h''), (''.cpp'', Some ''.c''), (''.cc'', Some ''.cpp''),
      (''.cxx'', Some ''.cc''), (''.-inl.h'', Some ''.cxx''), (''.hxx'', Some ''.-inl.h''), (''.hpp'', Some ''.hxx'')]"

definition insert_module :: "enum_t \<Rightarrow> string \<Rightarrow> int \<Rightarrow> (string \<times> int) list \<Rightarrow> (string \<times> int) list" where
  "insert_module flags ss level modules =
     (let (ss, modules) =
        (if \<not> hasFlag (flag_int DisableVModulesExtensions) flags then
           (let (ss, modules) = fold (\<lambda>(sfx, prev) (ss, modules).
                  (let ss = addSuffix ss sfx prev in (ss, map_insert ss level modules))) module_suffixes (ss, modules)
            in (addSuffix ss ''.hh'' (Some ''.hpp''), modules))
         else (ss, modules))
      in map_insert ss level modules)"

text \<open>
  The scan of the text: \<open>isMod\<close> and \<open>isLevel\<close> say what the current character belongs to; of the
  digits after an equality sign the last one is the level.
\<close>

fun modules_loop :: "enum_t \<Rightarrow> string \<Rightarrow> bool \<Rightarrow> bool \<Rightarrow> string \<Rightarrow> int \<Rightarrow> (string \<times> int) list \<Rightarrow> (string \<times> int) list" where
  "modules_loop flags [] isMod isLevel ss level modules =
     (if ss \<noteq> [] \<and> level \<noteq> - 1 then insert_module flags ss level modules else modules)"
| "modules_loop flags (ch # rest) isMod isLevel ss level modules =
     (if ch = CHR ''='' then modules_loop flags rest False True ss level modules
      else if ch = CHR '','' then
        (if ss \<noteq> [] \<and> level \<noteq> - 1
         then modules_loop flags rest True False [] (- 1) (insert_module flags ss level modules)
         else modules_loop flags rest True False ss level modules)
      else if isMod then modules_loop flags rest isMod isLevel (ss @ [ch]) level modules
      else if isLevel then
        modules_loop flags rest isMod isLevel ss (if is_c_digit ch then int (of_char ch) - 48 else level) modules
      else modules_loop flags rest isMod isLevel ss level modules)"

definition setModules :: "enum_t \<Rightarrow> string \<Rightarrow> VRegistry \<Rightarrow> VRegistry" where
  "setModules flags modules r = r\<lparr>vr_modules := modules_loop flags modules True False [] (- 1) (vr_modules r)\<rparr>"

definition allowed :: "enum_t \<Rightarrow> int \<Rightarrow> string option \<Rightarrow> VRegistry \<Rightarrow> bool" where
  "allowed flags vlevel file r =
     (case file of
        None \<Rightarrow> vlevel \<le> vr_level r
      | Some f \<Rightarrow>
          if vr_modules r = [] then vlevel \<le> vr_level r
          else (case List.find (\<lambda>(pat, l). wildCardMatch f pat) (vr_modules r) of
                  Some (pat, l) \<Rightarrow> vlevel \<le> l
                | None \<Rightarrow> hasFlag (flag_int AllowVerboseIfModuleNotSpecified) flags))"

definition vModulesEnabled :: "enum_t \<Rightarrow> bool" where
  "vModulesEnabled flags \<longleftrightarrow> \<not> hasFlag (flag_int DisableVModules) flags"

text \<open>\<open>atoi\<close>: leading space, a sign, digits.\<close>

definition atoi :: "string \<Rightarrow> int" where
  "atoi s =
     (let s = dropWhile is_c_space s;
          neg = (s \<noteq> [] \<and> hd s = CHR ''-'');
          s = (if s \<noteq> [] \<and> hd s \<in> {CHR ''-'', CHR ''+''} then tl s else s);
          v = int (text_val (takeWhile is_c_digit s))
      in if neg then - v else v)"

definition setFromArgs :: "enum_t \<Rightarrow> args \<Rightarrow> VRegistry \<Rightarrow> VRegistry" where
  "setFromArgs flags a r =
     (if hasParam a ''-v'' \<or> hasParam a ''--verbose'' \<or> hasParam a ''-V'' \<or> hasParam a ''--VERBOSE''
      then setLevel (int kMaxVerboseLevel) r
      else if hasParamWithValue a ''--v'' then setLevel (atoi (the (getParamValue a ''--v''))) r
      else if hasParamWithValue a ''--V'' then setLevel (atoi (the (getParamValue a ''--V''))) r
      else if hasParamWithValue a ''-vmodule'' \<and> vModulesEnabled flags
      then setModules flags (the (getParamValue a ''-vmodule'')) r
      else if hasParamWithValue a ''-VMODULE'' \<and> vModulesEnabled flags
      then setModules flags (the (getParamValue a ''-VMODULE'')) r
      else r)"

section \<open>Level\<close>

definition level_in_range :: "VRegistry \<Rightarrow> bool" where
  "level_in_range r \<longleftrightarrow> 0 \<le> vr_level r \<and> vr_level r \<le> 9"

lemma setLevel_range: "level_in_range (setLevel l r)"
  by (simp add: setLevel_def level_in_range_def kMaxVerboseLevel_def)

lemma setModules_level [simp]: "vr_level (setModules flags m r) = vr_level r"
  by (simp add: setModules_def)

lemma setFromArgs_range: "level_in_range r \<Longrightarrow> level_in_range (setFromArgs flags a r)"
  using setLevel_range by (auto simp: setFromArgs_def level_in_range_def)

section \<open>Modules\<close>

text \<open>The table that a text of pairs should give: every pattern with its suffixes, first entries first.\<close>

definition module_names :: "enum_t \<Rightarrow> string \<Rightarrow> string list" where
  "module_names flags m =
     (if hasFlag (flag_int DisableVModulesExtensions) flags then [m]
      else map (\<lambda>sfx. m @ sfx) [''.h'', ''.c'', ''.cpp'', ''.cc'', ''.cxx'', ''.-inl.h'', ''.hxx'', ''.hpp'', ''.hh''])"

definition module_text :: "(string \<times> nat) list \<Rightarrow> string" where
  "module_text ms = concat (map (\<lambda>(m, l). m @ ''='' @ [char_of (l + 48)] @ '','') ms)"

definition plain_module :: "string \<Rightarrow> bool" where
  "plain_module m \<longleftrightarrow> m \<noteq> [] \<and> CHR ''='' \<notin> set m \<and> CHR '','' \<notin> set m \<and> CHR ''.'' \<notin> set m"

lemma ends_with_append: "endsWith (s @ sfx) sfx"
  by (auto simp: endsWith_suffix)

lemma addSuffix_first:
  assumes "CHR ''.'' \<notin> set m" and "hd sfx = CHR ''.''" and "sfx \<noteq> []"
  shows "addSuffix m sfx None = m @ sfx"
proof -
  have "CHR ''.'' \<in> set sfx" using assms(2,3) by (metis hd_in_set)
  then have "\<not> endsWith m sfx"
    using assms(1) by (auto simp: endsWith_suffix)
  then show ?thesis by (simp add: addSuffix_def)
qed

lemma addSuffix_next:
  assumes "CHR ''.'' \<notin> set m" and "hd sfx = CHR ''.''" and "sfx \<noteq> []"
  shows "addSuffix (m @ prev) sfx (Some prev) = m @ sfx"
  using addSuffix_first [OF assms] by (simp add: addSuffix_def ends_with_append)

lemma insert_module_names:
  assumes "CHR ''.'' \<notin> set m"
  shows "insert_module flags m l modules = fold (\<lambda>n. map_insert n l) (module_names flags m) modules"
proof (cases "hasFlag (flag_int DisableVModulesExtensions) flags")
  case False
  then show ?thesis
    by (simp add: insert_module_def module_suffixes_def module_names_def addSuffix_first [OF assms]
        addSuffix_next [OF assms] Let_def)
qed (simp add: insert_module_def module_names_def)

text \<open>The scan of a rendered pair.\<close>

lemma scan_name:
  "CHR ''='' \<notin> set m \<Longrightarrow> CHR '','' \<notin> set m \<Longrightarrow>
   modules_loop flags (m @ rest) True False ss level modules = modules_loop flags rest True False (ss @ m) level modules"
  by (induction m arbitrary: ss) auto

lemma scan_pair:
  assumes "plain_module m" and "l \<le> 9"
  shows "modules_loop flags (m @ ''='' @ [char_of (l + 48)] @ '','' @ rest) True False [] (- 1) modules
    = modules_loop flags rest True False [] (- 1) (insert_module flags m (int l) modules)"
proof -
  have m: "CHR ''='' \<notin> set m" "CHR '','' \<notin> set m" "m \<noteq> []"
    using assms(1) by (auto simp: plain_module_def)
  have digit: "of_char (char_of (l + 48) :: char) = l + 48"
    using assms(2) by (simp add: of_char_of)
  then have "char_of (l + 48) \<noteq> CHR ''=''" "char_of (l + 48) \<noteq> CHR '',''" "is_c_digit (char_of (l + 48))"
    using assms(2) by (auto simp: is_c_digit_def dest!: arg_cong [of _ _ "of_char :: char \<Rightarrow> nat"])
  then show ?thesis
    using m digit by (simp add: scan_name)
qed

lemma scan_modules:
  "\<forall>(m, l)\<in>set ms. plain_module m \<and> l \<le> 9 \<Longrightarrow>
   modules_loop flags (module_text ms) True False [] (- 1) modules
     = fold (\<lambda>(m, l). insert_module flags m (int l)) ms modules"
proof (induction ms arbitrary: modules)
  case (Cons e ms)
  obtain m l where e: "e = (m, l)" by (cases e)
  have "plain_module m" "l \<le> 9" using Cons.prems by (auto simp: e)
  then show ?case
    using scan_pair [of m l flags "module_text ms" modules] Cons by (simp add: module_text_def e)
qed (simp add: module_text_def)

lemma inserts_lookup:
  "ordered modules \<Longrightarrow> ordered (fold (\<lambda>n. map_insert n l) ns modules)
   \<and> map_of (fold (\<lambda>n. map_insert n l) ns modules) k
       = (case map_of modules k of Some v \<Rightarrow> Some v | None \<Rightarrow> if k \<in> set ns then Some l else None)"
  by (induction ns arbitrary: modules) (auto simp: ordered_insert map_of_insert split: option.splits)

definition module_entries :: "enum_t \<Rightarrow> (string \<times> nat) list \<Rightarrow> (string \<times> int) list" where
  "module_entries flags ms = concat (map (\<lambda>(m, l). map (\<lambda>n. (n, int l)) (module_names flags m)) ms)"

lemma map_of_names: "map_of (map (\<lambda>n. (n, v)) ns @ es) k = (if k \<in> set ns then Some v else map_of es k)"
  by (induction ns) auto

lemma modules_lookup:
  "\<forall>(m, l)\<in>set ms. plain_module m \<and> l \<le> 9 \<Longrightarrow> ordered modules \<Longrightarrow>
   ordered (fold (\<lambda>(m, l). insert_module flags m (int l)) ms modules)
   \<and> map_of (fold (\<lambda>(m, l). insert_module flags m (int l)) ms modules) k
       = (case map_of modules k of Some v \<Rightarrow> Some v | None \<Rightarrow> map_of (module_entries flags ms) k)"
proof (induction ms arbitrary: modules)
  case (Cons e ms)
  obtain m l where e: "e = (m, l)" by (cases e)
  have m: "CHR ''.'' \<notin> set m" using Cons.prems by (auto simp: e plain_module_def)
  let ?modules = "fold (\<lambda>n. map_insert n (int l)) (module_names flags m) modules"
  note step = inserts_lookup [OF Cons.prems(2), of "int l" "module_names flags m"]
  have "ordered (fold (\<lambda>(m, l). insert_module flags m (int l)) ms ?modules)
      \<and> map_of (fold (\<lambda>(m, l). insert_module flags m (int l)) ms ?modules) k
       = (case map_of ?modules k of Some v \<Rightarrow> Some v | None \<Rightarrow> map_of (module_entries flags ms) k)"
    using Cons.IH [of ?modules] Cons.prems(1) step by auto
  then show ?case
    using step [of k] by (auto simp: e insert_module_names [OF m] module_entries_def map_of_names
        simp del: map_of_append split: option.splits)
qed (simp add: module_entries_def split: option.splits)

text \<open>
  After setting modules from a text of pairs, the table is ordered and gives each pattern, with
  each of the source suffixes, the level of the first pair that names it; a file is then judged by
  the first pattern in that order that matches it.
\<close>
theorem setModules_table:
  assumes "\<forall>(m, l)\<in>set ms. plain_module m \<and> l \<le> 9"
  shows "map_of (vr_modules (setModules flags (module_text ms) (mk_VRegistry level))) k = map_of (module_entries flags ms) k
    \<and> sorted_wrt (<) (map fst (vr_modules (setModules flags (module_text ms) (mk_VRegistry level))))"
  using modules_lookup [OF assms ordered_Nil, of flags k] scan_modules [OF assms, of flags "[]"]
  by (simp add: setModules_def mk_VRegistry_def ordered_def)

lemma setModules_table_witness:
  "map_of (vr_modules (setModules 0 (module_text [(''prof'', 3), (''vm'', 5), (''prof'', 9)]) (mk_VRegistry 0))) ''prof.cpp''
    = Some 3"
proof -
  have "\<forall>(m, l)\<in>set [(''prof'', 3), (''vm'', 5), (''prof'', 9 :: nat)]. plain_module m \<and> l \<le> 9"
    by (simp add: plain_module_def)
  from setModules_table [OF this, of 0 0 "''prof.cpp''"]
  have "map_of (vr_modules (setModules 0 (module_text [(''prof'', 3), (''vm'', 5), (''prof'', 9)]) (mk_VRegistry 0))) ''prof.cpp''
    = map_of (module_entries 0 [(''prof'', 3), (''vm'', 5), (''prof'', 9)]) ''prof.cpp''" by blast
  also have "\<dots> = Some 3"
    by (simp add: module_entries_def module_names_def hasFlag_def bitwise_And_def)
  finally show ?thesis .
qed

text \<open>What is allowed for a file with a table: the first match decides, and the flag when there is none.\<close>

lemma allowed_modules:
  assumes "vr_modules r \<noteq> []"
  shows "allowed flags v (Some f) r \<longleftrightarrow>
    (case filter (\<lambda>(pat, l). wildCardMatch f pat) (vr_modules r) of
       [] \<Rightarrow> hasFlag (flag_int AllowVerboseIfModuleNotSpecified) flags
     | (pat, l) # _ \<Rightarrow> v \<le> l)"
proof -
  have "List.find P xs = (case filter P xs of [] \<Rightarrow> None | x # _ \<Rightarrow> Some x)" for P :: "string \<times> int \<Rightarrow> bool" and xs
    by (induction xs) auto
  then show ?thesis
    using assms by (auto simp: allowed_def split: list.splits)
qed

lemma allowed_monotone: "allowed flags v f r \<Longrightarrow> v' \<le> v \<Longrightarrow> allowed flags v' f r"
  by (auto simp: allowed_def split: option.splits if_splits)

end
