(* ===== verification/ElConf.thy ===== *)
theory ElConf
  imports ElFile ElRegistry
begin

text \<open>
  Configurations of a logger (\<open>easylogging.h\<close>, lines 2401 to 2892): the repository that maps a level
  and a configuration type to a text, its defaults, and the parser of configuration files.

  The repository is a registry with a predicate that owns its objects; by the interface
  \<open>pred_registry\<close>, which \<open>ElRegistry\<close> interprets on the pointers, it is the list of these objects.
\<close>

section \<open>Configuration\<close>

record Configuration =
  c_level :: Level
  c_type :: ConfigurationType
  c_value :: string

definition mk_Configuration :: "Level \<Rightarrow> ConfigurationType \<Rightarrow> string \<Rightarrow> Configuration" where
  "mk_Configuration level configurationType val = \<lparr>c_level = level, c_type = configurationType, c_value = val\<rparr>"

definition assign_Configuration :: "Configuration \<Rightarrow> Configuration \<Rightarrow> Configuration" where
  "assign_Configuration c other = c\<lparr>c_level := c_level other, c_type := c_type other, c_value := c_value other\<rparr>"

definition setValue :: "string \<Rightarrow> Configuration \<Rightarrow> Configuration" where
  "setValue val c = c\<lparr>c_value := val\<rparr>"

definition log_Configuration :: "Configuration \<Rightarrow> string" where
  "log_Configuration c = level_convertToString (c_level c) @ '' '' @ config_convertToString (c_type c)
     @ '' = '' @ takeWhile (\<lambda>ch. ch \<noteq> NUL) (c_value c)"

definition conf_predicate :: "Level \<Rightarrow> ConfigurationType \<Rightarrow> Configuration \<Rightarrow> bool" where
  "conf_predicate level configurationType conf \<longleftrightarrow> c_level conf = level \<and> c_type conf = configurationType"

section \<open>The repository\<close>

record Configurations =
  cf_list :: "Configuration list"
  cf_configurationFile :: string
  cf_isFromFile :: bool

definition empty_Configurations :: Configurations where
  "empty_Configurations = \<lparr>cf_list = [], cf_configurationFile = [], cf_isFromFile = False\<rparr>"

text \<open>The loop over the levels with a function that never stops it.\<close>

definition each_level :: "(Level \<Rightarrow> 's \<Rightarrow> 's) \<Rightarrow> 's \<Rightarrow> 's" where
  "each_level fn s = snd (the (forEachLevel level_kMinValid (\<lambda>i s. (False, fn (the (level_castFromInt i)) s)) s))"

lemma each_level_fold: "each_level fn s = fold fn walked_levels s"
  unfolding each_level_def forEachLevel_fold
  by (simp add: walked_levels_def level_castFromInt_def)

definition conf_get :: "Level \<Rightarrow> ConfigurationType \<Rightarrow> Configurations \<Rightarrow> Configuration option" where
  "conf_get level t c = List.find (conf_predicate level t) (cf_list c)"

definition conf_registerNew :: "Configuration \<Rightarrow> Configurations \<Rightarrow> Configurations" where
  "conf_registerNew conf c = c\<lparr>cf_list := cf_list c @ [conf]\<rparr>"

text \<open>The value is written to the object that \<open>get\<close> points to.\<close>

fun set_first :: "Level \<Rightarrow> ConfigurationType \<Rightarrow> string \<Rightarrow> Configuration list \<Rightarrow> Configuration list" where
  "set_first level t val [] = []"
| "set_first level t val (conf # l) =
     (if conf_predicate level t conf then setValue val conf # l else conf # set_first level t val l)"

definition put_conf :: "Level \<Rightarrow> ConfigurationType \<Rightarrow> string \<Rightarrow> Configurations \<Rightarrow> Configurations" where
  "put_conf level t val c =
     (if conf_get level t c = None then conf_registerNew (mk_Configuration level t val) c
      else c\<lparr>cf_list := set_first level t val (cf_list c)\<rparr>)"

text \<open>
  \<open>unsafeSet\<close> and \<open>unsafeSetGlobally\<close> call each other: for the global level every walked level is set,
  and for these the call ends with \<open>put_conf\<close>.
\<close>

definition unsafeSet :: "Level \<Rightarrow> ConfigurationType \<Rightarrow> string \<Rightarrow> Configurations \<Rightarrow> Configurations" where
  "unsafeSet level t val c =
     (let c = put_conf level t val c
      in if level = L_Global then each_level (\<lambda>l. put_conf l t val) c else c)"

definition unsafeSetGlobally :: "ConfigurationType \<Rightarrow> string \<Rightarrow> bool \<Rightarrow> Configurations \<Rightarrow> Configurations" where
  "unsafeSetGlobally t val includeGlobalLevel c =
     (let c = (if includeGlobalLevel then unsafeSet L_Global t val c else c)
      in each_level (\<lambda>l. unsafeSet l t val) c)"

lemma unsafeSet_rec:
  "unsafeSet level t val c =
     (let c = put_conf level t val c
      in if level = L_Global then unsafeSetGlobally t val False c else c)"
  by (simp add: unsafeSet_def unsafeSetGlobally_def each_level_fold walked_levels_def Let_def)

definition unsafeSetIfNotExist :: "Level \<Rightarrow> ConfigurationType \<Rightarrow> string \<Rightarrow> Configurations \<Rightarrow> Configurations" where
  "unsafeSetIfNotExist level t val c = (if conf_get level t c = None then unsafeSet level t val c else c)"

definition set_conf :: "Level \<Rightarrow> ConfigurationType \<Rightarrow> string \<Rightarrow> Configurations \<Rightarrow> Configurations" where
  "set_conf level t val c =
     (let c = unsafeSet level t val c
      in if level = L_Global then unsafeSetGlobally t val False c else c)"

definition set_from_conf :: "Configuration option \<Rightarrow> Configurations \<Rightarrow> Configurations" where
  "set_from_conf conf c = (case conf of None \<Rightarrow> c | Some conf \<Rightarrow> set_conf (c_level conf) (c_type conf) (c_value conf) c)"

definition setGlobally :: "ConfigurationType \<Rightarrow> string \<Rightarrow> bool \<Rightarrow> Configurations \<Rightarrow> Configurations" where
  "setGlobally t val includeGlobalLevel c =
     (let c = (if includeGlobalLevel then set_conf L_Global t val c else c)
      in each_level (\<lambda>l. set_conf l t val) c)"

text \<open>A pointer to configurations: null, the object itself, or another one.\<close>

datatype conf_ref = NullConf | ThisConf | OtherConf Configurations

definition setFromBase :: "conf_ref \<Rightarrow> Configurations \<Rightarrow> Configurations" where
  "setFromBase base c = (case base of
     NullConf \<Rightarrow> c
   | ThisConf \<Rightarrow> c
   | OtherConf b \<Rightarrow> fold (\<lambda>conf. set_from_conf (Some conf)) (cf_list b) c)"

definition hasConfiguration_at :: "Level \<Rightarrow> ConfigurationType \<Rightarrow> Configurations \<Rightarrow> bool" where
  "hasConfiguration_at level t c \<longleftrightarrow> conf_get level t c \<noteq> None"

definition hasConfiguration :: "ConfigurationType \<Rightarrow> Configurations \<Rightarrow> bool" where
  "hasConfiguration t c =
     snd (the (forEachLevel level_kMinValid
       (\<lambda>i result. let result = (if hasConfiguration_at (the (level_castFromInt i)) t c then True else result)
                   in (result, result)) False))"

definition conf_clear :: "Configurations \<Rightarrow> Configurations" where
  "conf_clear c = c\<lparr>cf_list := []\<rparr>"

section \<open>Defaults\<close>

definition format_default :: string where "format_default = ''%datetime %level [%logger] %msg''"
definition format_debug :: string where "format_debug = ''%datetime %level [%logger] [%user@%host] [%func] [%loc] %msg''"
definition format_verbose :: string where "format_verbose = ''%datetime %level-%vlevel [%logger] %msg''"
definition format_trace :: string where "format_trace = ''%datetime %level [%logger] [%func] [%loc] %msg''"

definition setToDefault :: "Configurations \<Rightarrow> Configurations" where
  "setToDefault c =
     (let c = setGlobally C_Enabled ''true'' True c;
          c = setGlobally C_Filename kDefaultLogFile True c;
          c = setGlobally C_ToFile ''true'' True c;
          c = setGlobally C_ToStandardOutput ''true'' True c;
          c = setGlobally C_MillisecondsWidthType ''3'' True c;
          c = setGlobally C_PerformanceTracking ''true'' True c;
          c = setGlobally C_MaxLogFileSize ''0'' True c;
          c = setGlobally C_LogFlushThreshold ''0'' True c;
          c = setGlobally C_Format format_default True c;
          c = set_conf L_Debug C_Format format_debug c;
          c = set_conf L_Error C_Format format_default c;
          c = set_conf L_Fatal C_Format format_default c;
          c = set_conf L_Verbose C_Format format_verbose c
      in set_conf L_Trace C_Format format_trace c)"

definition setRemainingToDefault :: "Configurations \<Rightarrow> Configurations" where
  "setRemainingToDefault c =
     (let c = unsafeSetIfNotExist L_Global C_Enabled ''true'' c;
          c = unsafeSetIfNotExist L_Global C_Filename kDefaultLogFile c;
          c = unsafeSetIfNotExist L_Global C_ToFile ''true'' c;
          c = unsafeSetIfNotExist L_Global C_ToStandardOutput ''true'' c;
          c = unsafeSetIfNotExist L_Global C_MillisecondsWidthType ''3'' c;
          c = unsafeSetIfNotExist L_Global C_PerformanceTracking ''true'' c;
          c = unsafeSetIfNotExist L_Global C_MaxLogFileSize ''0'' c;
          c = unsafeSetIfNotExist L_Global C_Format format_default c;
          c = unsafeSetIfNotExist L_Debug C_Format format_debug c;
          c = unsafeSetIfNotExist L_Error C_Format format_default c;
          c = unsafeSetIfNotExist L_Fatal C_Format format_default c;
          c = unsafeSetIfNotExist L_Verbose C_Format format_verbose c
      in unsafeSetIfNotExist L_Trace C_Format format_trace c)"

section \<open>Parser\<close>

abbreviation QUOTE :: char where "QUOTE \<equiv> CHR 0x22"
abbreviation BACKSLASH :: char where "BACKSLASH \<equiv> CHR 0x5C"
abbreviation NEWLINE :: char where "NEWLINE \<equiv> CHR 0x0A"

text \<open>The closing quote: escaped ones are skipped, and the search goes on two characters later.\<close>

function quote_loop :: "string \<Rightarrow> nat \<Rightarrow> nat option" where
  "quote_loop s quotesEnd =
     (if s ! (quotesEnd - 1) = BACKSLASH
      then (case str_find s [QUOTE] (quotesEnd + 2) of None \<Rightarrow> None | Some j \<Rightarrow> quote_loop s j)
      else Some quotesEnd)"
  by pat_completeness auto

termination
  by (relation "measure (\<lambda>(s, i). Suc (length s) - i)") (auto simp: str_find_Some)

declare quote_loop.simps [simp del]

text \<open>Without a closing quote \<open>quotesEnd\<close> is \<open>npos\<close>, and \<open>quotesEnd + 1\<close> wraps around to 0.\<close>

definition ignoreComments :: "string \<Rightarrow> string" where
  "ignoreComments line =
     (let quotesEnd = (case str_find line [QUOTE] 0 of
            None \<Rightarrow> None
          | Some quotesStart \<Rightarrow>
              (case str_find line [QUOTE] (quotesStart + 1) of None \<Rightarrow> None | Some e \<Rightarrow> quote_loop line e))
      in case str_find line kConfigurationComment 0 of
           None \<Rightarrow> line
         | Some foundAt \<Rightarrow>
             (let found = (case quotesEnd of
                  None \<Rightarrow> str_find line kConfigurationComment 0
                | Some e \<Rightarrow> if foundAt < e then str_find line kConfigurationComment (e + 1) else Some foundAt)
              in case found of None \<Rightarrow> line | Some i \<Rightarrow> take i line))"

definition isLevel :: "string \<Rightarrow> bool" where
  "isLevel line \<longleftrightarrow> startsWith line kConfigurationLevel"

definition isComment :: "string \<Rightarrow> bool" where
  "isComment line \<longleftrightarrow> startsWith line kConfigurationComment"

definition isConfig :: "string \<Rightarrow> bool" where
  "isConfig line \<longleftrightarrow>
     (let assignment = str_find line ''='' 0
      in line \<noteq> [] \<and> (let c = of_char (hd line) :: nat in 65 \<le> c \<and> c \<le> 90 \<or> 97 \<le> c \<and> c \<le> 122)
         \<and> (case assignment of None \<Rightarrow> False | Some i \<Rightarrow> i < length line))"

text \<open>The same loop over the value, which takes out the backslash of an escaped quote.\<close>

function unquote_loop :: "string \<Rightarrow> nat \<Rightarrow> string \<times> nat option" where
  "unquote_loop s quotesEnd =
     (if s ! (quotesEnd - 1) = BACKSLASH
      then (let s = take (quotesEnd - 1) s @ drop quotesEnd s
            in case str_find s [QUOTE] (quotesEnd + 2) of None \<Rightarrow> (s, None) | Some j \<Rightarrow> unquote_loop s j)
      else (s, Some quotesEnd))"
  by pat_completeness auto

termination
  by (relation "measure (\<lambda>(s, i). Suc (length s) - i)") (auto simp: str_find_Some)

declare unquote_loop.simps [simp del]

text \<open>The value of a line; \<open>substr\<close> is called with the position of the closing quote as its length.\<close>

definition unquote :: "string \<Rightarrow> string" where
  "unquote currValue =
     (case str_find currValue [QUOTE] 0 of
        None \<Rightarrow> currValue
      | Some quotesStart \<Rightarrow>
          (case (case str_find currValue [QUOTE] (quotesStart + 1) of
                   None \<Rightarrow> (currValue, None) | Some e \<Rightarrow> unquote_loop currValue e) of
             (currValue, None) \<Rightarrow> currValue
           | (currValue, Some quotesEnd) \<Rightarrow>
               if quotesStart \<noteq> quotesEnd \<and> quotesStart + 1 \<noteq> quotesEnd
               then take (quotesEnd - 1) (drop (quotesStart + 1) currValue) else currValue))"

definition c_str :: "string \<Rightarrow> string" where
  "c_str s = takeWhile (\<lambda>ch. ch \<noteq> NUL) s"

record parse_state =
  ps_configStr :: string
  ps_levelStr :: string
  ps_level :: Level

definition parseLine :: "string \<Rightarrow> parse_state \<times> Configurations \<Rightarrow> bool \<times> parse_state \<times> Configurations" where
  "parseLine line s =
     (let (st, conf) = s; line = trim line
      in if isComment line then (True, st, conf)
         else let line = trim (ignoreComments line)
         in if line = [] then (True, st, conf)
         else if isLevel line then
           (if length line \<le> 2 then (True, st, conf)
            else let levelStr = trim (toUpper (take (length line - 2) (drop 1 line)))
                 in (True, st\<lparr>ps_levelStr := levelStr, ps_level := level_convertFromString (c_str levelStr)\<rparr>, conf))
         else let (st, currConfig, currValue) =
             (if isConfig line then
                (let assignment = the (str_find line ''='' 0);
                     configStr = trim (toUpper (take assignment line))
                 in (st\<lparr>ps_configStr := configStr\<rparr>, config_convertFromString (c_str configStr),
                     unquote (trim (drop (assignment + 1) line))))
              else (st, C_Unknown, []))
         in if ps_level st = L_Unknown \<or> currConfig = C_Unknown then (False, st, conf)
            else (True, st, set_conf (ps_level st) currConfig currValue conf))"

definition start_state :: parse_state where
  "start_state = \<lparr>ps_configStr = [], ps_levelStr = [], ps_level = L_Unknown\<rparr>"

text \<open>The lines one after the other; the result is that of the last line.\<close>

fun parse_lines :: "string list \<Rightarrow> bool \<Rightarrow> parse_state \<times> Configurations \<Rightarrow> bool \<times> parse_state \<times> Configurations" where
  "parse_lines [] parsed s = (parsed, s)"
| "parse_lines (line # ls) parsed s = (let (parsed, s) = parseLine line s in parse_lines ls parsed s)"

text \<open>\<open>getline\<close> until it fails: an empty last line is not seen.\<close>

definition text_lines :: "string \<Rightarrow> string list" where
  "text_lines t = (let ls = split_on NEWLINE t in if last ls = [] then butlast ls else ls)"

definition parser_parseFromText :: "string \<Rightarrow> conf_ref \<Rightarrow> Configurations \<Rightarrow> bool \<times> Configurations" where
  "parser_parseFromText configurationsString base sender =
     (let sender = setFromBase base sender;
          (parsed, st, sender) = parse_lines (text_lines configurationsString) False (start_state, sender)
      in (parsed, sender))"

text \<open>A file is read while the stream is good, an empty last line included.\<close>

definition parser_parseFromFile :: "(string \<Rightarrow> string option) \<Rightarrow> string \<Rightarrow> conf_ref \<Rightarrow> Configurations \<Rightarrow> bool \<times> Configurations" where
  "parser_parseFromFile read_file configurationFile base sender =
     (let sender = setFromBase base sender;
          (parsed, st, sender) = (case read_file configurationFile of
              None \<Rightarrow> (False, start_state, sender)
            | Some t \<Rightarrow> parse_lines (split_on NEWLINE t) False (start_state, sender))
      in (parsed, sender))"

definition parseFromText :: "string \<Rightarrow> conf_ref \<Rightarrow> Configurations \<Rightarrow> bool \<times> Configurations" where
  "parseFromText configurationsString base c =
     (let (success, c) = parser_parseFromText configurationsString base c
      in (success, if success then c\<lparr>cf_isFromFile := False\<rparr> else c))"

definition parseFromFile :: "(string \<Rightarrow> bool) \<Rightarrow> (string \<Rightarrow> string option) \<Rightarrow> string \<Rightarrow> conf_ref \<Rightarrow> Configurations
    \<Rightarrow> bool \<times> Configurations" where
  "parseFromFile path_exists read_file configurationFile base c =
     (if \<not> path_exists configurationFile then (False, c)
      else let (success, c) = parser_parseFromFile read_file configurationFile base c
           in (success, c\<lparr>cf_isFromFile := success\<rparr>))"

definition mk_Configurations :: "(string \<Rightarrow> bool) \<Rightarrow> (string \<Rightarrow> string option) \<Rightarrow> string \<Rightarrow> bool \<Rightarrow> conf_ref \<Rightarrow> Configurations" where
  "mk_Configurations path_exists read_file configurationFile useDefaultsForRemaining base =
     (let c = \<lparr>cf_list = [], cf_configurationFile = configurationFile, cf_isFromFile = False\<rparr>;
          (success, c) = parseFromFile path_exists read_file configurationFile base c
      in if useDefaultsForRemaining then setRemainingToDefault c else c)"

section \<open>The repository as a table\<close>

definition conf_value :: "Level \<Rightarrow> ConfigurationType \<Rightarrow> Configurations \<Rightarrow> string option" where
  "conf_value level t c = map_option c_value (conf_get level t c)"

definition conf_key :: "Configuration \<Rightarrow> Level \<times> ConfigurationType" where
  "conf_key conf = (c_level conf, c_type conf)"

definition conf_ok :: "Configurations \<Rightarrow> bool" where
  "conf_ok c \<longleftrightarrow> distinct (map conf_key (cf_list c))"

text \<open>The repository offers the interface of a searched registry.\<close>

interpretation cr: pred_registry "\<lambda>_. True" cf_list conf_registerNew "\<lambda>P c. Some (List.find P (cf_list c))"
  by unfold_locales (simp_all add: conf_registerNew_def)

lemma conf_predicate_set: "conf_predicate level t (setValue val conf) = conf_predicate level t conf"
  by (simp add: conf_predicate_def setValue_def)

lemma conf_predicate_same:
  "conf_predicate level t conf \<Longrightarrow> conf_predicate level' t' conf \<longleftrightarrow> level' = level \<and> t' = t"
  by (auto simp: conf_predicate_def)

lemma find_set_first:
  "List.find (conf_predicate level' t') (set_first level t val l)
     = (if level' = level \<and> t' = t then map_option (setValue val) (List.find (conf_predicate level t) l)
        else List.find (conf_predicate level' t') l)"
  by (induction l) (auto simp: conf_predicate_set conf_predicate_same)

lemma keys_set_first: "map conf_key (set_first level t val l) = map conf_key l"
  by (induction l) (auto simp: conf_key_def setValue_def)

lemma put_conf_value:
  "conf_value level' t' (put_conf level t val c)
     = (if level' = level \<and> t' = t then Some val else conf_value level' t' c)"
proof (cases "conf_get level t c")
  case None
  then have "List.find (conf_predicate level t) (cf_list c) = None" by (simp add: conf_get_def)
  then show ?thesis
    using None cr.look_add [where r = c and P = "conf_predicate level' t'" and x = "mk_Configuration level t val"]
    by (auto simp: conf_value_def conf_get_def put_conf_def mk_Configuration_def conf_predicate_def
        split: option.splits)
next
  case (Some conf)
  then show ?thesis
    by (auto simp: conf_value_def conf_get_def put_conf_def find_set_first setValue_def)
qed

lemma put_conf_ok: "conf_ok (put_conf level t val c) \<longleftrightarrow> conf_ok c"
proof (cases "conf_get level t c")
  case None
  then have "(level, t) \<notin> conf_key ` set (cf_list c)"
    by (auto simp: conf_get_def find_None_iff conf_predicate_def conf_key_def)
  with None show ?thesis
    by (auto simp: conf_ok_def put_conf_def conf_registerNew_def mk_Configuration_def conf_key_def)
next
  case (Some conf)
  then show ?thesis by (auto simp: conf_ok_def put_conf_def keys_set_first)
qed

lemma puts_value:
  "conf_value level' t' (fold (\<lambda>l. put_conf l t val) ls c)
     = (if level' \<in> set ls \<and> t' = t then Some val else conf_value level' t' c)"
  by (induction ls arbitrary: c) (auto simp: put_conf_value)

lemma puts_ok: "conf_ok (fold (\<lambda>l. put_conf l t val) ls c) \<longleftrightarrow> conf_ok c"
  by (induction ls arbitrary: c) (auto simp: put_conf_ok)

lemma unsafeSet_value:
  "conf_value level' t' (unsafeSet level t val c)
     = (if t' = t \<and> (level' = level \<or> level = L_Global \<and> level' \<in> set walked_levels) then Some val
        else conf_value level' t' c)"
  by (cases "level = L_Global") (auto simp: unsafeSet_def Let_def each_level_fold puts_value put_conf_value)

lemma unsafeSet_ok: "conf_ok (unsafeSet level t val c) \<longleftrightarrow> conf_ok c"
  by (simp add: unsafeSet_def Let_def each_level_fold puts_ok put_conf_ok)

lemma global_not_walked: "L_Global \<notin> set walked_levels"
  by (simp add: walked_levels_def)

lemma unsafeSetGlobally_value:
  "unsafeSetGlobally t val False c = fold (\<lambda>l. put_conf l t val) walked_levels c"
  by (simp add: unsafeSetGlobally_def each_level_fold unsafeSet_def Let_def walked_levels_def)

text \<open>
  Setting a value for a level is seen by exactly that level, and by every other level too when it
  is the global one; no other configuration changes, and each level and type keeps at most one entry.
\<close>
theorem set_conf_value:
  "conf_value level' t' (set_conf level t val c)
     = (if t' = t \<and> (level' = level \<or> level = L_Global \<and> level' \<in> set walked_levels) then Some val
        else conf_value level' t' c)
   \<and> conf_ok (set_conf level t val c) = conf_ok c"
  by (auto simp: set_conf_def Let_def unsafeSetGlobally_value puts_value puts_ok unsafeSet_value unsafeSet_ok)

text \<open>The same facts for the other operations.\<close>

lemma set_conf_lookup:
  "conf_value level' t' (set_conf level t val c)
     = (if t' = t \<and> (level' = level \<or> level = L_Global \<and> level' \<in> set walked_levels) then Some val
        else conf_value level' t' c)"
  by (auto simp: set_conf_def Let_def unsafeSetGlobally_value puts_value unsafeSet_value)

lemma sets_value:
  "conf_value level' t' (fold (\<lambda>l. set_conf l t val) ls c)
     = (if t' = t \<and> (level' \<in> set ls \<or> L_Global \<in> set ls \<and> level' \<in> set walked_levels) then Some val
        else conf_value level' t' c)"
  by (induction ls arbitrary: c) (auto simp: set_conf_lookup)

lemma setGlobally_value:
  "conf_value level' t' (setGlobally t val True c)
     = (if t' = t \<and> level' \<noteq> L_Unknown then Some val else conf_value level' t' c)"
  by (cases level') (simp_all add: setGlobally_def each_level_fold sets_value set_conf_lookup Let_def walked_levels_def)

lemma setIfNotExist_value:
  "conf_value level' t' (unsafeSetIfNotExist level t val c)
     = (if conf_value level t c = None \<and> t' = t \<and> (level' = level \<or> level = L_Global \<and> level' \<in> set walked_levels)
        then Some val else conf_value level' t' c)"
  by (auto simp: unsafeSetIfNotExist_def unsafeSet_value conf_value_def [of level t])

lemma empty_value [simp]: "conf_value level t empty_Configurations = None"
  by (simp add: conf_value_def conf_get_def empty_Configurations_def)

lemma setToDefault_complete:
  "level \<noteq> L_Unknown \<Longrightarrow> t \<noteq> C_Unknown \<Longrightarrow> conf_value level t (setToDefault c) \<noteq> None"
  unfolding setToDefault_def Let_def
  by (cases t) (simp_all add: set_conf_lookup setGlobally_value)

lemma hasConfiguration_iff:
  "hasConfiguration t c \<longleftrightarrow> (\<exists>level\<in>set walked_levels. hasConfiguration_at level t c)"
  unfolding hasConfiguration_def forEachLevel_def level_kMaxValid_def level_kMinValid_def Let_def
  by (simp add: for_each_bit.simps walked_levels_def level_castFromInt_def)

text \<open>
  \<open>setRemainingToDefault\<close> writes to levels that have a value: when the global entry is missing, the
  default of the global level overwrites what was set for a single level.
\<close>

lemma remaining_overwrites:
  "conf_value L_Debug C_Enabled (set_conf L_Debug C_Enabled ''false'' empty_Configurations) = Some ''false''"
  "conf_value L_Debug C_Enabled (setRemainingToDefault (set_conf L_Debug C_Enabled ''false'' empty_Configurations))
     = Some ''true''"
  by (simp_all add: setRemainingToDefault_def Let_def setIfNotExist_value set_conf_lookup walked_levels_def)

section \<open>Reading back a configuration text\<close>

definition level_line :: "Level \<Rightarrow> string" where
  "level_line level = ''* '' @ level_convertToString level @ '':''"

definition conf_head :: "ConfigurationType \<Rightarrow> string" where
  "conf_head t = config_convertToString t @ '' = ''"

definition conf_line :: "ConfigurationType \<Rightarrow> string \<Rightarrow> string" where
  "conf_line t val = conf_head t @ QUOTE # val @ [QUOTE]"

type_synonym setting = "Level \<times> ConfigurationType \<times> string"

definition render :: "setting list \<Rightarrow> string" where
  "render es = concat (map (\<lambda>(level, t, val). level_line level @ NEWLINE # conf_line t val @ [NEWLINE]) es)"

definition renderable :: "setting \<Rightarrow> bool" where
  "renderable e \<longleftrightarrow> (case e of (level, t, val) \<Rightarrow> level \<noteq> L_Unknown \<and> t \<noteq> C_Unknown \<and> val \<noteq> []
     \<and> QUOTE \<notin> set val \<and> BACKSLASH \<notin> set val \<and> NEWLINE \<notin> set val)"

definition level_line_good :: "Level \<Rightarrow> bool" where
  "level_line_good level \<longleftrightarrow> (let l = level_line level in
     trim l = l \<and> \<not> isComment l \<and> ignoreComments l = l \<and> isLevel l \<and> \<not> length l \<le> 2 \<and> l \<noteq> []
     \<and> level_convertFromString (c_str (trim (toUpper (take (length l - 2) (drop 1 l))))) = level
     \<and> list_all (\<lambda>ch. ch \<noteq> NEWLINE) l)"

lemma level_lines_good:
  "list_all level_line_good [L_Global, L_Trace, L_Debug, L_Fatal, L_Error, L_Warning, L_Verbose, L_Info]"
  by code_simp

lemma level_line_facts: "level \<noteq> L_Unknown \<Longrightarrow> level_line_good level"
  using level_lines_good by (cases level) simp_all

lemma parse_level_line:
  assumes "level \<noteq> L_Unknown"
  shows "\<exists>str. parseLine (level_line level) (st, conf) = (True, st\<lparr>ps_levelStr := str, ps_level := level\<rparr>, conf)"
  using level_line_facts [OF assms] by (auto simp: parseLine_def Let_def level_line_good_def)

lemma trim_id: "s \<noteq> [] \<Longrightarrow> \<not> is_c_space (hd s) \<Longrightarrow> \<not> is_c_space (last s) \<Longrightarrow> trim s = s"
proof -
  assume s: "s \<noteq> []" "\<not> is_c_space (hd s)" "\<not> is_c_space (last s)"
  then have "rtrim s = s"
    by (cases s rule: rev_cases) (simp_all add: rtrim_def)
  with s show "trim s = s"
    by (cases s) (simp_all add: trim_def ltrim_def)
qed

lemma str_find_char:
  assumes "pos \<le> length u" and "ch \<notin> set (drop pos u)"
  shows "str_find (u @ ch # w) [ch] pos = Some (length u)"
proof -
  have "\<not> take 1 (drop j (u @ ch # w)) = [ch]" if "pos \<le> j" "j < length u" for j
  proof -
    have "(u @ ch # w) ! j = drop pos u ! (j - pos)" using that by (simp add: nth_append)
    moreover have "drop pos u ! (j - pos) \<in> set (drop pos u)" using that by (intro nth_mem) simp
    ultimately show ?thesis
      using assms(2) that by (auto simp: take_Suc_conv_app_nth hd_drop_conv_nth take_Suc)
  qed
  then show ?thesis
    using assms by (auto simp: str_find_Some)
qed

lemma str_find_end: "length s < pos + length pat \<Longrightarrow> str_find s pat pos = None"
  by (auto simp: str_find_None)

definition conf_head_good :: "ConfigurationType \<Rightarrow> bool" where
  "conf_head_good t \<longleftrightarrow> (let h = conf_head t; n = take (length h - 3) h in
     h = n @ '' = '' \<and> n \<noteq> [] \<and> list_all (\<lambda>ch. ch \<notin> {QUOTE, NEWLINE, CHR ''='', CHR ''#'', CHR ''*''}) n
     \<and> \<not> is_c_space (hd n) \<and> (let c = of_char (hd n) :: nat in 65 \<le> c \<and> c \<le> 90 \<or> 97 \<le> c \<and> c \<le> 122)
     \<and> config_convertFromString (c_str (trim (toUpper (n @ '' '')))) = t)"

lemma conf_heads_good:
  "list_all conf_head_good [C_Enabled, C_ToFile, C_ToStandardOutput, C_Format, C_Filename, C_MillisecondsWidthType,
     C_PerformanceTracking, C_MaxLogFileSize, C_LogFlushThreshold]"
  by code_simp

lemma conf_head_facts: "t \<noteq> C_Unknown \<Longrightarrow> conf_head_good t"
  using conf_heads_good by (cases t) simp_all

lemma quote_facts: "\<not> is_c_space QUOTE" "QUOTE \<noteq> CHR ''=''"
  by (simp_all add: is_c_space_def)

text \<open>The value between its quotes is found, with whatever comment signs it has.\<close>

lemma last_not_backslash: "val \<noteq> [] \<Longrightarrow> BACKSLASH \<notin> set val \<Longrightarrow> (u @ val @ w) ! (length u + length val - 1) \<noteq> BACKSLASH"
  by (cases val rule: rev_cases) (auto simp: nth_append)

lemma quoted_finds:
  assumes "QUOTE \<notin> set u" and "QUOTE \<notin> set val"
  shows "str_find (u @ QUOTE # val @ [QUOTE]) [QUOTE] 0 = Some (length u)"
    and "str_find (u @ QUOTE # val @ [QUOTE]) [QUOTE] (length u + 1) = Some (length u + 1 + length val)"
  using str_find_char [of 0 u QUOTE "val @ [QUOTE]"] assms
    str_find_char [of "length u + 1" "u @ QUOTE # val" QUOTE "[]"] by simp_all

lemma ignoreComments_quoted:
  assumes "QUOTE \<notin> set u" "QUOTE \<notin> set val" "val \<noteq> []" "BACKSLASH \<notin> set val"
  shows "ignoreComments (u @ QUOTE # val @ [QUOTE]) = u @ QUOTE # val @ [QUOTE]"
proof -
  let ?line = "u @ QUOTE # val @ [QUOTE]" and ?e = "length u + 1 + length val"
  have "?line ! (?e - 1) \<noteq> BACKSLASH"
    using last_not_backslash [OF assms(3,4), of "u @ [QUOTE]" "[QUOTE]"] by simp
  then have loop: "quote_loop ?line ?e = Some ?e"
    by (simp add: quote_loop.simps)
  have none: "str_find ?line kConfigurationComment (?e + 1) = None"
    by (rule str_find_end) (simp add: kConfigurationComment_def)
  have "i < ?e" if "str_find ?line kConfigurationComment 0 = Some i" for i
    using that by (simp add: str_find_Some kConfigurationComment_def)
  then show ?thesis
    using quoted_finds [OF assms(1,2)] loop none
    by (auto simp: ignoreComments_def Let_def split: option.splits)
qed

lemma unquote_quoted:
  assumes "QUOTE \<notin> set val" "val \<noteq> []" "BACKSLASH \<notin> set val"
  shows "unquote (QUOTE # val @ [QUOTE]) = val"
proof -
  let ?s = "QUOTE # val @ [QUOTE]"
  have "?s ! length val \<noteq> BACKSLASH"
    using last_not_backslash [OF assms(2,3), of "[QUOTE]" "[QUOTE]"] by simp
  then have "unquote_loop ?s (1 + length val) = (?s, Some (1 + length val))"
    by (simp add: unquote_loop.simps)
  then show ?thesis
    using quoted_finds [of "[]" val] assms by (simp add: unquote_def)
qed

text \<open>A rendered line is neither trimmed nor shortened, and it begins with the name of its setting.\<close>

lemma conf_line_plain:
  assumes "renderable (level, t, val)"
  obtains n where "conf_line t val = n @ '' = '' @ QUOTE # val @ [QUOTE]" "conf_head t = n @ '' = ''" "n \<noteq> []"
    "hd (conf_line t val) = hd n" "conf_line t val \<noteq> []" "trim (conf_line t val) = conf_line t val"
    "\<not> isComment (conf_line t val)" "\<not> isLevel (conf_line t val)" "ignoreComments (conf_line t val) = conf_line t val"
    "list_all (\<lambda>ch. ch \<notin> {QUOTE, NEWLINE, CHR ''='', CHR ''#'', CHR ''*''}) n"
    "let c = of_char (hd n) :: nat in 65 \<le> c \<and> c \<le> 90 \<or> 97 \<le> c \<and> c \<le> 122"
    "config_convertFromString (c_str (trim (toUpper (n @ '' '')))) = t"
proof -
  have e: "t \<noteq> C_Unknown" "val \<noteq> []" "QUOTE \<notin> set val" "BACKSLASH \<notin> set val"
    using assms by (auto simp: renderable_def)
  define n where "n = take (length (conf_head t) - 3) (conf_head t)"
  have head: "conf_head t = n @ '' = ''" "n \<noteq> []" "list_all (\<lambda>ch. ch \<notin> {QUOTE, NEWLINE, CHR ''='', CHR ''#'', CHR ''*''}) n"
    "\<not> is_c_space (hd n)" "let c = of_char (hd n) :: nat in 65 \<le> c \<and> c \<le> 90 \<or> 97 \<le> c \<and> c \<le> 122"
    "config_convertFromString (c_str (trim (toUpper (n @ '' '')))) = t"
    using conf_head_facts [OF e(1)] unfolding conf_head_good_def n_def Let_def by blast+
  let ?line = "conf_line t val"
  have line: "?line = n @ '' = '' @ QUOTE # val @ [QUOTE]"
    by (simp add: conf_line_def head(1))
  have hd: "hd ?line = hd n" and ne: "?line \<noteq> []"
    using head(2) by (simp_all add: line)
  have trimmed: "trim ?line = ?line"
    by (rule trim_id) (simp_all add: ne hd head(4), simp add: line quote_facts)
  have "hd n \<in> set n" using head(2) by simp
  then have sym: "hd ?line \<noteq> CHR ''#''" "hd ?line \<noteq> CHR ''*''"
    using head(3) by (auto simp: hd list_all_iff)
  have kinds: "\<not> isComment ?line" "\<not> isLevel ?line"
    using sym by (cases ?line; simp add: isComment_def isLevel_def startsWith_def kConfigurationComment_def
        kConfigurationLevel_def)+
  have quotes: "QUOTE \<notin> set (n @ '' = '')" using head(3) by (auto simp: list_all_iff)
  have no_comment: "ignoreComments ?line = ?line"
    using ignoreComments_quoted [OF quotes e(3,2,4)] by (simp add: line)
  show thesis
    by (rule that [OF line head(1,2) hd ne trimmed kinds no_comment head(3,5,6)])
qed

lemma parse_conf_line:
  assumes "renderable (level, t, val)" and "ps_level st = level"
  shows "\<exists>str. parseLine (conf_line t val) (st, conf) = (True, st\<lparr>ps_configStr := str\<rparr>, set_conf level t val conf)"
proof -
  have e: "t \<noteq> C_Unknown" "level \<noteq> L_Unknown" "val \<noteq> []" "QUOTE \<notin> set val" "BACKSLASH \<notin> set val"
    using assms by (auto simp: renderable_def)
  let ?line = "conf_line t val"
  obtain n where line: "?line = n @ '' = '' @ QUOTE # val @ [QUOTE]" and hd: "hd ?line = hd n" and ne: "?line \<noteq> []"
    and trimmed: "trim ?line = ?line" and kinds: "\<not> isComment ?line" "\<not> isLevel ?line" and no_comment: "ignoreComments ?line = ?line"
    and head: "list_all (\<lambda>ch. ch \<notin> {QUOTE, NEWLINE, CHR ''='', CHR ''#'', CHR ''*''}) n"
      "let c = of_char (hd n) :: nat in 65 \<le> c \<and> c \<le> 90 \<or> 97 \<le> c \<and> c \<le> 122"
      "config_convertFromString (c_str (trim (toUpper (n @ '' '')))) = t"
    using conf_line_plain [OF assms(1)] .
  have "CHR ''='' \<notin> set (n @ '' '')" using head(1) by (auto simp: list_all_iff)
  then have eq: "str_find ?line ''='' 0 = Some (length n + 1)"
    using str_find_char [of 0 "n @ '' ''" "CHR ''=''" "CHR '' '' # QUOTE # val @ [QUOTE]"] by (simp add: line)
  have config: "isConfig ?line"
    using ne eq head(2) by (simp add: isConfig_def Let_def hd) (simp add: line)
  have "trim (QUOTE # val @ [QUOTE]) = QUOTE # val @ [QUOTE]"
    by (rule trim_id) (simp_all add: quote_facts)
  moreover have "trim (CHR '' '' # QUOTE # val @ [QUOTE]) = trim (QUOTE # val @ [QUOTE])"
    by (cases val rule: rev_cases) (simp_all add: trim_def rtrim_def ltrim_def is_c_space_def)
  moreover have "drop (length n + 2) ?line = CHR '' '' # QUOTE # val @ [QUOTE]" by (simp add: line)
  ultimately have val: "unquote (trim (drop (length n + 2) ?line)) = val"
    using unquote_quoted [OF e(4,3,5)] by simp
  have "take (length n + 1) ?line = n @ '' ''" by (simp add: line)
  then show ?thesis
    using trimmed kinds no_comment ne eq config val head(3) e(1,2) assms(2)
    by (auto simp: parseLine_def Let_def)
qed

lemma split_on_line: "sep \<notin> set l \<Longrightarrow> split_on sep (l @ sep # rest) = l # split_on sep rest"
  by (induction l) auto

lemma split_on_nonempty: "split_on sep s \<noteq> []"
  by (induction s) (auto split: list.splits)

text \<open>The lines of a rendered text, with the empty line at its end.\<close>

definition render_lines :: "setting list \<Rightarrow> string list" where
  "render_lines es = concat (map (\<lambda>(level, t, val). [level_line level, conf_line t val]) es)"

lemma no_newline:
  assumes "renderable (level, t, val)"
  shows "NEWLINE \<notin> set (level_line level)" and "NEWLINE \<notin> set (conf_line t val)"
proof -
  have "level \<noteq> L_Unknown" "t \<noteq> C_Unknown" "NEWLINE \<notin> set val"
    using assms by (auto simp: renderable_def)
  note facts = level_line_facts [OF this(1)] conf_head_facts [OF this(2)] this(3)
  show "NEWLINE \<notin> set (level_line level)"
    using facts(1) by (auto simp: level_line_good_def Let_def list_all_iff)
  obtain n where "conf_head t = n @ '' = ''" and "NEWLINE \<notin> set n"
    using facts(2) by (auto simp: conf_head_good_def Let_def list_all_iff)
  then have "NEWLINE \<notin> set (conf_head t)" by simp
  then show "NEWLINE \<notin> set (conf_line t val)"
    using facts(3) by (simp add: conf_line_def)
qed

lemma split_render: "list_all renderable es \<Longrightarrow> split_on NEWLINE (render es) = render_lines es @ [[]]"
proof (induction es)
  case (Cons e es)
  obtain level t val where e: "e = (level, t, val)" by (cases e)
  have "split_on NEWLINE (level_line level @ NEWLINE # conf_line t val @ NEWLINE # render es)
      = level_line level # conf_line t val # split_on NEWLINE (render es)"
    using no_newline [of level t val] Cons.prems by (simp add: split_on_line e)
  then show ?case using Cons by (simp add: render_def render_lines_def e)
qed (simp add: render_def render_lines_def)

lemma parse_rendered_lines:
  "list_all renderable es \<Longrightarrow>
   \<exists>st'. parse_lines (render_lines es) parsed (st, conf)
     = (parsed \<or> es \<noteq> [], st', fold (\<lambda>(level, t, val). set_conf level t val) es conf)"
proof (induction es arbitrary: parsed st conf)
  case (Cons e es)
  obtain level t val where e: "e = (level, t, val)" by (cases e)
  have ren: "renderable (level, t, val)" "level \<noteq> L_Unknown"
    using Cons.prems by (auto simp: e renderable_def)
  obtain str where 1: "parseLine (level_line level) (st, conf) = (True, st\<lparr>ps_levelStr := str, ps_level := level\<rparr>, conf)"
    using parse_level_line [OF ren(2)] by blast
  obtain str' where 2: "parseLine (conf_line t val) (st\<lparr>ps_levelStr := str, ps_level := level\<rparr>, conf)
      = (True, st\<lparr>ps_levelStr := str, ps_level := level, ps_configStr := str'\<rparr>, set_conf level t val conf)"
    using parse_conf_line [OF ren(1), of "st\<lparr>ps_levelStr := str, ps_level := level\<rparr>" conf] by auto
  show ?case
    using Cons.IH [of True "st\<lparr>ps_levelStr := str, ps_level := level, ps_configStr := str'\<rparr>" "set_conf level t val conf"]
      Cons.prems 1 2 by (simp add: render_lines_def e)
qed (auto simp: render_lines_def)



text \<open>
  Two limits of the parser: the quotes stay when an escaped quote stands right before the closing
  one, and a text is accepted when only its last line can be parsed.
\<close>

lemma escaped_quote_keeps_quotes:
  "unquote [QUOTE, CHR ''a'', BACKSLASH, QUOTE, CHR ''b'', QUOTE] = [QUOTE, CHR ''a'', QUOTE, CHR ''b'', QUOTE]"
  by code_simp

lemma last_line_decides:
  "fst (parse_lines (ls @ [line]) parsed s) = fst (parseLine line (snd (parse_lines ls parsed s)))"
  by (induction ls parsed s rule: parse_lines.induct) (simp_all add: split_beta)

end
