(* ===== verification/ElFormat.thy ===== *)
theory ElFormat
  imports ElStr "HOL-Library.Sublist"
begin

text \<open>
  Log formats (\<open>easylogging.h\<close>, lines 2151 to 2391): the search for the specifiers of a format, the
  extraction of the date format and the substitution of the parts that are known when a logger is
  configured. User and host are parameters. An unchecked access outside a string is \<open>None\<close>.
\<close>

section \<open>The format\<close>

record LogFormat =
  lf_level :: Level
  lf_userFormat :: string
  lf_format :: string
  lf_dateTimeFormat :: string
  lf_flags :: enum_t

definition empty_LogFormat :: LogFormat where
  "empty_LogFormat = \<lparr>lf_level = L_Unknown, lf_userFormat = [], lf_format = [], lf_dateTimeFormat = [], lf_flags = 0\<rparr>"

text \<open>The copy constructor takes every field, the copy assignment leaves out the format.\<close>

definition copy_LogFormat :: "LogFormat \<Rightarrow> LogFormat" where
  "copy_LogFormat other = \<lparr>lf_level = lf_level other, lf_userFormat = lf_userFormat other,
     lf_format = lf_format other, lf_dateTimeFormat = lf_dateTimeFormat other, lf_flags = lf_flags other\<rparr>"

definition assign_LogFormat :: "LogFormat \<Rightarrow> LogFormat \<Rightarrow> LogFormat" where
  "assign_LogFormat f other = f\<lparr>lf_level := lf_level other, lf_userFormat := lf_userFormat other,
     lf_dateTimeFormat := lf_dateTimeFormat other, lf_flags := lf_flags other\<rparr>"

definition eq_LogFormat :: "LogFormat \<Rightarrow> LogFormat \<Rightarrow> bool" where
  "eq_LogFormat f other \<longleftrightarrow> lf_level f = lf_level other \<and> lf_userFormat f = lf_userFormat other
     \<and> lf_format f = lf_format other \<and> lf_dateTimeFormat f = lf_dateTimeFormat other \<and> lf_flags f = lf_flags other"

lemma eq_LogFormat_iff: "eq_LogFormat f g \<longleftrightarrow> f = (g :: LogFormat)"
  by (auto simp: eq_LogFormat_def intro: LogFormat.equality)

lemma copy_LogFormat_eq: "copy_LogFormat f = f"
  by (simp add: copy_LogFormat_def)

lemma assign_keeps_format: "lf_format (assign_LogFormat f other) = lf_format f"
  by (simp add: assign_LogFormat_def)

definition lf_hasFlag :: "FormatFlags \<Rightarrow> LogFormat \<Rightarrow> bool" where
  "lf_hasFlag flag f = hasFlag (format_int flag) (lf_flags f)"

definition lf_addFlag :: "FormatFlags \<Rightarrow> LogFormat \<Rightarrow> LogFormat" where
  "lf_addFlag flag f = f\<lparr>lf_flags := addFlag (format_int flag) (lf_flags f)\<rparr>"

definition log_LogFormat :: "LogFormat \<Rightarrow> string" where
  "log_LogFormat f = lf_format f"

section \<open>Flags\<close>

text \<open>
  \<open>conditionalAddFlag\<close>: the loop goes on one character behind the start of the last match. A match
  after a percent sign counts as escaped; once the flag is set its percent sign is taken out, after
  which the match stands one character earlier.
\<close>

function cond_flag_loop :: "string \<Rightarrow> FormatFlags \<Rightarrow> nat \<Rightarrow> string \<Rightarrow> LogFormat \<Rightarrow> string \<times> LogFormat" where
  "cond_flag_loop spec flag pos fc f = (case str_find fc spec pos of
     None \<Rightarrow> (fc, f)
   | Some i \<Rightarrow>
       if 0 < i \<and> fc ! (i - 1) = kFormatSpecifierChar then
         (if lf_hasFlag flag f then cond_flag_loop spec flag (i + 2) (take (i - 1) fc @ drop i fc) f
          else cond_flag_loop spec flag (i + 1) fc f)
       else cond_flag_loop spec flag (i + 1) fc (if lf_hasFlag flag f then f else lf_addFlag flag f))"
  by pat_completeness auto

termination
  by (relation "measure (\<lambda>(spec, flag, pos, fc, f). Suc (length fc) - pos)") (auto simp: str_find_Some)

declare cond_flag_loop.simps [simp del]

definition conditionalAddFlag :: "specifier \<Rightarrow> FormatFlags \<Rightarrow> string \<times> LogFormat \<Rightarrow> string \<times> LogFormat" where
  "conditionalAddFlag spec flag s = cond_flag_loop (specifier_text spec) flag 0 (fst s) (snd s)"

text \<open>The specifiers in the order in which \<open>parseFromFormat\<close> looks for them.\<close>

definition format_specifiers :: "(specifier \<times> FormatFlags) list" where
  "format_specifiers =
     [(Sp_App, F_AppName), (Sp_Level, F_Level), (Sp_LevShort, F_LevelShort), (Sp_Logger, F_LoggerId),
      (Sp_Thread, F_ThreadId), (Sp_File, F_File), (Sp_FBase, F_FileBase), (Sp_Line, F_Line),
      (Sp_Loc, F_Location), (Sp_Func, F_Function), (Sp_User, F_User), (Sp_Host, F_Host),
      (Sp_Msg, F_LogMessage), (Sp_VLevel, F_VerboseLevel)]"

section \<open>Date format\<close>

text \<open>
  The walk over the escaped occurrences; when the last of them is escaped too, the condition of the
  loop reads the string at \<open>npos - 1\<close>.
\<close>

function date_loop :: "string \<Rightarrow> string \<Rightarrow> nat \<Rightarrow> nat option" where
  "date_loop spec s i =
     (if 0 < i \<and> s ! (i - 1) = kFormatSpecifierChar
      then (case str_find s spec (i + 1) of None \<Rightarrow> None | Some j \<Rightarrow> date_loop spec s j)
      else Some i)"
  by pat_completeness auto

termination
  by (relation "measure (\<lambda>(spec, s, i). Suc (length s) - i)") (auto simp: str_find_Some)

declare date_loop.simps [simp del]

text \<open>
  The text between braces, read as a C string from behind the opening one, and the number of
  characters to erase, with the braces that are there.
\<close>

definition brace_text :: "string \<Rightarrow> string \<times> nat" where
  "brace_text p =
     (let ss = takeWhile (\<lambda>c. c \<noteq> CHR ''}'' \<and> c \<noteq> NUL) p;
          rest = drop (length ss) p
      in (ss, 1 + length ss + (if rest \<noteq> [] \<and> hd rest = CHR ''}'' then 1 else 0)))"

definition updateDateFormat :: "nat \<Rightarrow> string \<Rightarrow> LogFormat \<Rightarrow> string \<times> LogFormat" where
  "updateDateFormat index currFormat f =
     (let index = (if lf_hasFlag F_DateTime f then index + length (specifier_text Sp_DateTime) else index)
      in if index < length currFormat \<and> currFormat ! index = CHR ''{'' then
           (let (ss, count) = brace_text (drop (Suc index) currFormat)
            in (take index currFormat @ drop (index + count) currFormat, f\<lparr>lf_dateTimeFormat := ss\<rparr>))
         else
           (currFormat, if lf_hasFlag F_DateTime f then f\<lparr>lf_dateTimeFormat := kDefaultDateTimeFormat\<rparr> else f))"

section \<open>Parsing\<close>

definition updateFormatSpec :: "string \<Rightarrow> string \<Rightarrow> LogFormat \<Rightarrow> LogFormat" where
  "updateFormatSpec user host f =
     (let replace = (\<lambda>spec val f. f\<lparr>lf_format := replaceFirstWithEscape (lf_format f) (specifier_text spec) val\<rparr>);
          f = (if lf_level f \<in> {L_Debug, L_Info, L_Warning, L_Error, L_Fatal, L_Verbose, L_Trace}
               then replace Sp_LevShort (level_short_log_value (lf_level f))
                      (replace Sp_Level (level_log_value (lf_level f)) f)
               else f);
          f = (if lf_hasFlag F_User f then replace Sp_User user f else f)
      in if lf_hasFlag F_Host f then replace Sp_Host host f else f)"

definition parseFromFormat :: "string \<Rightarrow> string \<Rightarrow> string \<Rightarrow> LogFormat \<Rightarrow> LogFormat option" where
  "parseFromFormat user host userFormat f =
     (let (fc, f) = fold (\<lambda>(spec, flag). conditionalAddFlag spec flag) format_specifiers
                      (userFormat, f\<lparr>lf_flags := 0\<rparr>);
          spec = specifier_text Sp_DateTime
      in do { (fc, f) \<leftarrow> (case str_find fc spec 0 of
                 None \<Rightarrow> Some (fc, f)
               | Some dateIndex \<Rightarrow>
                   do { dateIndex \<leftarrow> date_loop spec fc dateIndex;
                        Some (updateDateFormat dateIndex fc (lf_addFlag F_DateTime f)) });
              Some (updateFormatSpec user host (f\<lparr>lf_format := fc\<rparr>)) })"

definition mk_LogFormat :: "string \<Rightarrow> string \<Rightarrow> Level \<Rightarrow> string \<Rightarrow> LogFormat option" where
  "mk_LogFormat user host level format =
     parseFromFormat user host format (empty_LogFormat\<lparr>lf_level := level, lf_userFormat := format\<rparr>)"

section \<open>Custom specifiers\<close>

record CustomFormatSpecifier =
  cfs_formatSpecifier :: string
  cfs_resolver :: string

definition cfs_eq :: "CustomFormatSpecifier \<Rightarrow> string \<Rightarrow> bool" where
  "cfs_eq c formatSpecifier \<longleftrightarrow> cfs_formatSpecifier c = formatSpecifier"

section \<open>What a format asks for\<close>

definition occurs :: "string \<Rightarrow> string \<Rightarrow> bool" where
  "occurs spec s \<longleftrightarrow> (\<exists>u w. s = u @ spec @ w)"

definition unescaped :: "string \<Rightarrow> string \<Rightarrow> bool" where
  "unescaped spec s \<longleftrightarrow> (\<exists>u w. s = u @ spec @ w \<and> (u = [] \<or> last u \<noteq> CHR ''%''))"

definition specifier_flag :: "specifier \<Rightarrow> FormatFlags" where
  "specifier_flag sp = (if sp = Sp_DateTime then F_DateTime else the (map_of format_specifiers sp))"

text \<open>The same, by the position of the occurrence and by recursion over the string.\<close>

definition occ :: "string \<Rightarrow> string \<Rightarrow> nat \<Rightarrow> bool" where
  "occ spec s i \<longleftrightarrow> i + length spec \<le> length s \<and> take (length spec) (drop i s) = spec"

definition plain_occ :: "string \<Rightarrow> string \<Rightarrow> nat \<Rightarrow> bool" where
  "plain_occ spec s i \<longleftrightarrow> occ spec s i \<and> \<not> (0 < i \<and> s ! (i - 1) = CHR ''%'')"

lemma str_find_occ:
  "str_find s spec pos = Some i \<longleftrightarrow> pos \<le> i \<and> occ spec s i \<and> (\<forall>j. pos \<le> j \<and> j < i \<longrightarrow> \<not> occ spec s j)"
  "str_find s spec pos = None \<longleftrightarrow> (\<forall>i\<ge>pos. \<not> occ spec s i)"
  by (auto simp: str_find_Some str_find_None occ_def)

lemma occ_split: "occ spec s i \<longleftrightarrow> (\<exists>u w. s = u @ spec @ w \<and> length u = i)"
proof
  assume "occ spec s i"
  then have "s = take i s @ spec @ drop (i + length spec) s" "length (take i s) = i"
    by (auto simp: occ_def) (metis append_take_drop_id drop_drop add.commute)
  then show "\<exists>u w. s = u @ spec @ w \<and> length u = i" by blast
qed (auto simp: occ_def)

lemma occurs_occ: "occurs spec s \<longleftrightarrow> (\<exists>i. occ spec s i)"
  by (auto simp: occurs_def occ_split)

lemma unescaped_plain: "unescaped spec s \<longleftrightarrow> (\<exists>i. plain_occ spec s i)"
proof -
  have "u = [] \<or> last u \<noteq> CHR ''%'' \<longleftrightarrow> \<not> (0 < length u \<and> (u @ spec @ w) ! (length u - 1) = CHR ''%'')" for u w
    by (cases "u = []") (simp_all add: nth_append last_conv_nth)
  then show ?thesis
    unfolding unescaped_def plain_occ_def occ_split by blast
qed

fun scan :: "bool \<Rightarrow> string \<Rightarrow> char \<Rightarrow> string \<Rightarrow> bool" where
  "scan plain spec prev [] \<longleftrightarrow> False"
| "scan plain spec prev (c # s) \<longleftrightarrow>
     ((plain \<longrightarrow> prev \<noteq> CHR ''%'') \<and> prefix spec (c # s)) \<or> scan plain spec c s"

lemma scan_iff:
  assumes "spec \<noteq> []"
  shows "scan plain spec prev s \<longleftrightarrow>
    (\<exists>u w. s = u @ spec @ w \<and> (plain \<longrightarrow> (if u = [] then prev else last u) \<noteq> CHR ''%''))"
proof (induction s arbitrary: prev)
  case (Cons c s)
  have "(\<exists>u w. c # s = u @ spec @ w \<and> (plain \<longrightarrow> (if u = [] then prev else last u) \<noteq> CHR ''%''))
    \<longleftrightarrow> (\<exists>w. c # s = spec @ w \<and> (plain \<longrightarrow> prev \<noteq> CHR ''%''))
      \<or> (\<exists>u w. s = u @ spec @ w \<and> (plain \<longrightarrow> (if u = [] then c else last u) \<noteq> CHR ''%''))"
    (is "?l \<longleftrightarrow> ?a \<or> ?b")
  proof
    assume ?l
    then obtain u w where u: "c # s = u @ spec @ w"
      "plain \<longrightarrow> (if u = [] then prev else last u) \<noteq> CHR ''%''" by blast
    show "?a \<or> ?b"
    proof (cases u)
      case Nil
      with u show ?thesis by simp
    next
      case (Cons d v)
      with u have "s = v @ spec @ w \<and> (plain \<longrightarrow> (if v = [] then c else last v) \<noteq> CHR ''%'')"
        by auto
      then show ?thesis by blast
    qed
  next
    assume "?a \<or> ?b"
    then show ?l
    proof
      assume ?a
      then obtain w where "c # s = [] @ spec @ w \<and> (plain \<longrightarrow> prev \<noteq> CHR ''%'')" by auto
      then show ?l by (intro exI [of _ "[]"] exI [of _ w]) auto
    next
      assume ?b
      then obtain u w where "s = u @ spec @ w" "plain \<longrightarrow> (if u = [] then c else last u) \<noteq> CHR ''%''" by blast
      then show ?l by (intro exI [of _ "c # u"] exI [of _ w]) auto
    qed
  qed
  moreover have "(\<exists>w. c # s = spec @ w \<and> (plain \<longrightarrow> prev \<noteq> CHR ''%''))
      \<longleftrightarrow> (plain \<longrightarrow> prev \<noteq> CHR ''%'') \<and> prefix spec (c # s)"
    by (auto simp: prefix_def)
  ultimately show ?case
    unfolding scan.simps Cons.IH by blast
qed (use assms in simp)

lemma occurs_scan: "spec \<noteq> [] \<Longrightarrow> occurs spec s \<longleftrightarrow> scan False spec NUL s"
  by (simp add: occurs_def scan_iff)

lemma unescaped_scan: "spec \<noteq> [] \<Longrightarrow> unescaped spec s \<longleftrightarrow> scan True spec NUL s"
  by (auto simp: unescaped_def scan_iff)

text \<open>
  The specifiers: a percent sign first and no other, and none a prefix of another, so that taking
  out the percent sign of an escaped occurrence of one does not touch the occurrences of another.
\<close>

lemma specifier_shape: "\<exists>t. specifier_text sp = CHR ''%'' # t \<and> CHR ''%'' \<notin> set t \<and> t \<noteq> []"
  by (cases sp) simp_all

lemma specifier_nonempty [simp]: "specifier_text sp \<noteq> []"
  by (cases sp) simp_all

lemma specifier_prefix: "prefix (specifier_text sp) (specifier_text sp') \<Longrightarrow> sp = sp'"
  by (cases sp; cases sp') simp_all

lemma specifier_clash:
  assumes "prefix (specifier_text sp) w" and "prefix (specifier_text sp') w"
  shows "sp = sp'"
  using prefix_same_cases [OF assms] specifier_prefix by metis

lemma prefix_stop: "x \<notin> set t \<Longrightarrow> prefix t (u @ x # w) \<longleftrightarrow> prefix t u"
proof (induction t arbitrary: u)
  case (Cons a t)
  then show ?case by (cases u) auto
qed simp

lemma scan_erase:
  assumes other: "sp' \<noteq> sp" and w: "prefix (specifier_text sp) w"
  shows "scan plain (specifier_text sp') prev (u @ CHR ''%'' # w) = scan plain (specifier_text sp') prev (u @ w)"
proof (induction u arbitrary: prev)
  case Nil
  obtain t where t: "specifier_text sp' = CHR ''%'' # t" "CHR ''%'' \<notin> set t" "t \<noteq> []"
    using specifier_shape by blast
  obtain v where v: "w = CHR ''%'' # v"
    using w specifier_shape [of sp] by (auto simp: prefix_def)
  have "\<not> prefix (specifier_text sp') (CHR ''%'' # w)"
    using t v by (cases "tl (specifier_text sp')") auto
  moreover have "\<not> prefix (specifier_text sp') w"
    using specifier_clash [OF w] other by blast
  ultimately show ?case by (simp add: v)
next
  case (Cons c u)
  obtain t where t: "specifier_text sp' = CHR ''%'' # t" "CHR ''%'' \<notin> set t"
    using specifier_shape by blast
  obtain v where v: "w = CHR ''%'' # v"
    using w specifier_shape [of sp] by (auto simp: prefix_def)
  have "prefix (specifier_text sp') (c # u @ CHR ''%'' # w) \<longleftrightarrow> prefix (specifier_text sp') (c # u @ w)"
    using t by (auto simp: v prefix_stop)
  then show ?case by (simp add: Cons.IH)
qed

section \<open>The flag loop\<close>

lemma cond_flag_loop_flags:
  "cond_flag_loop spec flag pos fc f = (fc', f') \<Longrightarrow>
   lf_hasFlag g f' \<longleftrightarrow> lf_hasFlag g f \<or> (g = flag \<and> (\<exists>i\<ge>pos. plain_occ spec fc i))"
proof (induction spec flag pos fc f rule: cond_flag_loop.induct)
  case (1 spec flag pos fc f)
  show ?case
  proof (cases "str_find fc spec pos")
    case None
    with 1(4) show ?thesis
      by (auto simp: cond_flag_loop.simps [of spec flag pos fc f] str_find_occ plain_occ_def)
  next
    case (Some i)
    then have i: "pos \<le> i" "occ spec fc i" "\<And>j. pos \<le> j \<Longrightarrow> j < i \<Longrightarrow> \<not> occ spec fc j"
      by (auto simp: str_find_occ)
    have later: "(\<exists>j\<ge>pos. plain_occ spec fc j) \<longleftrightarrow> plain_occ spec fc i \<or> (\<exists>j\<ge>i + 1. plain_occ spec fc j)"
      using i by (auto simp: plain_occ_def Suc_le_eq) (metis linorder_neqE_nat order.trans less_imp_le)+
    consider (erase) "0 < i \<and> fc ! (i - 1) = kFormatSpecifierChar" "lf_hasFlag flag f"
      | (skip) "0 < i \<and> fc ! (i - 1) = kFormatSpecifierChar" "\<not> lf_hasFlag flag f"
      | (hit) "\<not> (0 < i \<and> fc ! (i - 1) = kFormatSpecifierChar)"
      by blast
    then show ?thesis
    proof cases
      case erase
      then show ?thesis
        using 1(1) [OF Some erase] 1(4) by (auto simp: cond_flag_loop.simps [of spec flag pos fc f] Some)
    next
      case skip
      then have "\<not> plain_occ spec fc i" by (simp add: plain_occ_def kFormatSpecifierChar_def)
      then show ?thesis
        using 1(2) [OF Some skip] 1(4) skip later
        by (auto simp: cond_flag_loop.simps [of spec flag pos fc f] Some)
    next
      case hit
      then have "plain_occ spec fc i" using i by (simp add: plain_occ_def kFormatSpecifierChar_def)
      then show ?thesis
        using 1(3) [OF Some hit] 1(4) hit later
        by (auto simp: cond_flag_loop.simps [of spec flag pos fc f] Some lf_hasFlag_def lf_addFlag_def
            format_flag_added split: if_splits)
    qed
  qed
qed

lemma cond_flag_loop_scan:
  assumes "cond_flag_loop (specifier_text sp) flag pos fc f = (fc', f')" and "sp' \<noteq> sp"
  shows "scan plain (specifier_text sp') prev fc' = scan plain (specifier_text sp') prev fc"
  using assms
proof (induction "specifier_text sp" flag pos fc f rule: cond_flag_loop.induct)
  case (1 flag pos fc f)
  note eq = cond_flag_loop.simps [of "specifier_text sp" flag pos fc f]
  show ?case
  proof (cases "str_find fc (specifier_text sp) pos")
    case None
    with 1(4) show ?thesis by (simp add: eq)
  next
    case (Some i)
    then have occ: "occ (specifier_text sp) fc i" by (simp add: str_find_occ)
    show ?thesis
    proof (cases "0 < i \<and> fc ! (i - 1) = kFormatSpecifierChar \<and> lf_hasFlag flag f")
      case True
      obtain k where k: "i = Suc k" using True by (cases i) auto
      have bound: "i < length fc"
        using occ by (cases sp) (simp_all add: occ_def)
      have pre: "prefix (specifier_text sp) (drop i fc)"
        using occ by (metis occ_def take_is_prefix)
      have "fc = take k fc @ CHR ''%'' # drop i fc"
        using True bound k by (simp add: kFormatSpecifierChar_def) (metis Suc_lessD id_take_nth_drop)
      then have "scan plain (specifier_text sp') prev fc
          = scan plain (specifier_text sp') prev (take k fc @ drop i fc)"
        using scan_erase [OF 1(5) pre] by metis
      then show ?thesis
        using 1(1) [OF Some] 1(4,5) True k by (simp add: eq Some)
    next
      case False
      then show ?thesis
        using 1(2,3) [OF Some] 1(4,5) by (auto simp: eq Some split: if_splits)
    qed
  qed
qed

text \<open>The whole pass over the specifiers: each sets its own flag, as the user's format asks.\<close>

lemma conditionalAddFlag_effect:
  assumes "conditionalAddFlag sp flag (fc, f) = (fc', f')"
  shows "lf_hasFlag g f' \<longleftrightarrow> lf_hasFlag g f \<or> g = flag \<and> unescaped (specifier_text sp) fc"
    and "sp' \<noteq> sp \<Longrightarrow> unescaped (specifier_text sp') fc' = unescaped (specifier_text sp') fc"
    and "sp' \<noteq> sp \<Longrightarrow> occurs (specifier_text sp') fc' = occurs (specifier_text sp') fc"
  using cond_flag_loop_flags [of "specifier_text sp" flag 0 fc f fc' f' g]
    cond_flag_loop_scan [of sp flag 0 fc f fc' f' sp'] assms
  by (simp_all add: conditionalAddFlag_def unescaped_plain flip: unescaped_scan occurs_scan)
     (simp_all add: unescaped_scan occurs_scan flip: unescaped_plain)

lemma specifiers_effect:
  "fold (\<lambda>(sp, flag). conditionalAddFlag sp flag) sps (fc, f) = (fc', f') \<Longrightarrow> distinct (map fst sps) \<Longrightarrow>
   (lf_hasFlag g f' \<longleftrightarrow> lf_hasFlag g f \<or> (\<exists>(sp, flag)\<in>set sps. g = flag \<and> unescaped (specifier_text sp) fc))
   \<and> (\<forall>sp'. sp' \<notin> fst ` set sps \<longrightarrow> unescaped (specifier_text sp') fc' = unescaped (specifier_text sp') fc
        \<and> occurs (specifier_text sp') fc' = occurs (specifier_text sp') fc)"
proof (induction sps arbitrary: fc f)
  case (Cons e sps)
  obtain sp flag where e: "e = (sp, flag)" by (cases e)
  obtain fc1 f1 where 1: "conditionalAddFlag sp flag (fc, f) = (fc1, f1)" by (cases "conditionalAddFlag sp flag (fc, f)")
  note eff = conditionalAddFlag_effect [OF 1]
  have notin: "sp \<notin> fst ` set sps" using Cons.prems(2) by (simp add: e)
  have IH: "(lf_hasFlag g f' \<longleftrightarrow> lf_hasFlag g f1 \<or> (\<exists>(sp, flag)\<in>set sps. g = flag \<and> unescaped (specifier_text sp) fc1))
     \<and> (\<forall>sp'. sp' \<notin> fst ` set sps \<longrightarrow> unescaped (specifier_text sp') fc' = unescaped (specifier_text sp') fc1
        \<and> occurs (specifier_text sp') fc' = occurs (specifier_text sp') fc1)"
    using Cons.IH [of fc1 f1] Cons.prems by (simp add: e 1)
  have "(\<exists>(sp, flag)\<in>set sps. g = flag \<and> unescaped (specifier_text sp) fc1)
    \<longleftrightarrow> (\<exists>(sp, flag)\<in>set sps. g = flag \<and> unescaped (specifier_text sp) fc)"
    using eff(2) notin by (intro bex_cong refl) force
  with IH show ?case
    using eff by (simp add: e)
qed simp

lemma format_specifiers_all: "fst ` set format_specifiers = UNIV - {Sp_DateTime}"
proof (intro set_eqI iffI)
  fix sp :: specifier
  assume "sp \<in> UNIV - {Sp_DateTime}"
  then show "sp \<in> fst ` set format_specifiers"
    by (cases sp) (simp_all add: format_specifiers_def)
qed (auto simp: format_specifiers_def)

lemma format_flag_other: "g \<noteq> g' \<Longrightarrow> lf_hasFlag g (lf_addFlag g' f) = lf_hasFlag g f"
  by (simp add: lf_hasFlag_def lf_addFlag_def format_flag_added)

lemma updateFormatSpec_flags: "lf_flags (updateFormatSpec user host f) = lf_flags f"
  by (simp add: updateFormatSpec_def Let_def)

lemma updateDateFormat_flags: "lf_flags (snd (updateDateFormat i fc f)) = lf_flags f"
  by (simp add: updateDateFormat_def Let_def split: prod.split)

text \<open>The date search ends at the first occurrence that is not escaped.\<close>

lemma date_loop_iff:
  "occ spec s i \<Longrightarrow> \<forall>j<i. \<not> plain_occ spec s j \<Longrightarrow>
   (case date_loop spec s i of None \<Rightarrow> \<forall>j. \<not> plain_occ spec s j
      | Some k \<Rightarrow> plain_occ spec s k \<and> (\<forall>j<k. \<not> plain_occ spec s j))"
proof (induction spec s i rule: date_loop.induct)
  case (1 spec s i)
  show ?case
  proof (cases "0 < i \<and> s ! (i - 1) = kFormatSpecifierChar")
    case esc: True
    then have here: "\<not> plain_occ spec s i"
      by (simp add: plain_occ_def kFormatSpecifierChar_def)
    show ?thesis
    proof (cases "str_find s spec (i + 1)")
      case None
      then have "\<not> plain_occ spec s j" if "i < j" for j
        using that by (auto simp: str_find_occ plain_occ_def)
      then show ?thesis
        using 1(3) here by (auto simp: date_loop.simps [of spec s i] esc None simp del: One_nat_def) (metis linorder_neqE_nat)
    next
      case (Some k)
      then have k: "i < k" "occ spec s k" "\<And>j. i < j \<Longrightarrow> j < k \<Longrightarrow> \<not> occ spec s j"
        by (auto simp: str_find_occ)
      have "\<forall>j<k. \<not> plain_occ spec s j"
        using 1(3) here k(3) by (metis linorder_neqE_nat plain_occ_def)
      with 1(1) [OF esc Some k(2)] show ?thesis
        by (simp add: date_loop.simps [of spec s i] esc Some del: One_nat_def)
    qed
  next
    case False
    with 1(2,3) show ?thesis
      by (auto simp: date_loop.simps [of spec s i] plain_occ_def kFormatSpecifierChar_def)
  qed
qed

lemma parseFromFormat_cases:
  "case parseFromFormat user host userFormat f of
     None \<Rightarrow> occurs (specifier_text Sp_DateTime) userFormat \<and> \<not> unescaped (specifier_text Sp_DateTime) userFormat
   | Some r \<Rightarrow> occurs (specifier_text Sp_DateTime) userFormat = unescaped (specifier_text Sp_DateTime) userFormat
       \<and> lf_hasFlag (specifier_flag sp) r = unescaped (specifier_text sp) userFormat"
proof -
  let ?date = "specifier_text Sp_DateTime"
  obtain fc f1 where fold: "fold (\<lambda>(sp, flag). conditionalAddFlag sp flag) format_specifiers
      (userFormat, f\<lparr>lf_flags := 0\<rparr>) = (fc, f1)"
    by (cases "fold (\<lambda>(sp, flag). conditionalAddFlag sp flag) format_specifiers (userFormat, f\<lparr>lf_flags := 0\<rparr>)")
  have dist: "distinct (map fst format_specifiers)" "distinct (map snd format_specifiers)"
    by (simp_all add: format_specifiers_def)
  have flags: "lf_hasFlag g f1 \<longleftrightarrow> (\<exists>(sp, flag)\<in>set format_specifiers. g = flag \<and> unescaped (specifier_text sp) userFormat)" for g
    using specifiers_effect [OF fold dist(1), of g] format_flag_empty [of g] by (simp add: lf_hasFlag_def)
  have date: "unescaped ?date fc = unescaped ?date userFormat" "occurs ?date fc = occurs ?date userFormat"
    using specifiers_effect [OF fold dist(1)] format_specifiers_all by blast+
  have no_date: "\<not> lf_hasFlag F_DateTime f1"
    by (simp add: flags format_specifiers_def)
  have own: "lf_hasFlag (specifier_flag sp) f1 \<longleftrightarrow> unescaped (specifier_text sp) userFormat" if "sp \<noteq> Sp_DateTime"
    using that unfolding flags by (cases sp) (simp_all add: specifier_flag_def format_specifiers_def)
  have other: "specifier_flag sp = F_DateTime \<longleftrightarrow> sp = Sp_DateTime"
    by (cases sp) (simp_all add: specifier_flag_def format_specifiers_def)
  note parse = parseFromFormat_def [of user host userFormat f] fold Let_def prod.case
  show ?thesis
  proof (cases "str_find fc ?date 0")
    case None
    then have "\<not> occurs ?date fc" "\<not> unescaped ?date fc"
      by (auto simp: str_find_occ occurs_occ unescaped_plain plain_occ_def)
    then show ?thesis
      using date own other no_date
      by (cases "sp = Sp_DateTime")
        (simp_all add: parse None lf_hasFlag_def updateFormatSpec_flags del: specifier_text.simps)
  next
    case (Some i)
    then have i: "occ ?date fc i" "\<forall>j<i. \<not> plain_occ ?date fc j"
      by (auto simp: str_find_occ plain_occ_def)
    have occurs: "occurs ?date fc" using i by (auto simp: occurs_occ)
    show ?thesis
    proof (cases "date_loop ?date fc i")
      case none: None
      then have "\<not> unescaped ?date fc"
        using date_loop_iff [OF i] by (simp add: unescaped_plain)
      then show ?thesis using date occurs by (simp add: parse Some none del: specifier_text.simps)
    next
      case some: (Some k)
      then have "unescaped ?date fc"
        using date_loop_iff [OF i] by (auto simp: unescaped_plain)
      moreover have "lf_hasFlag (specifier_flag sp) (lf_addFlag F_DateTime f1)
          \<longleftrightarrow> sp = Sp_DateTime \<or> lf_hasFlag (specifier_flag sp) f1"
        by (simp add: lf_hasFlag_def lf_addFlag_def format_flag_added other del: format_int.simps)
      ultimately show ?thesis
        using date occurs own
        by (cases "sp = Sp_DateTime")
          (simp_all add: parse Some some lf_hasFlag_def updateFormatSpec_flags updateDateFormat_flags split_beta
            del: specifier_text.simps)
    qed
  qed
qed

text \<open>
  A parsed format has the flag of a specifier if and only if the user's format contains the
  specifier without a percent sign in front; and the parser reads outside its string (no result)
  exactly when the date specifier occurs, but only escaped.
\<close>
theorem parseFromFormat_flags:
  "case parseFromFormat user host userFormat f of
     None \<Rightarrow> occurs (specifier_text Sp_DateTime) userFormat \<and> \<not> unescaped (specifier_text Sp_DateTime) userFormat
   | Some r \<Rightarrow> occurs (specifier_text Sp_DateTime) userFormat = unescaped (specifier_text Sp_DateTime) userFormat
       \<and> lf_hasFlag (specifier_flag sp) r = unescaped (specifier_text sp) userFormat"
  by (rule parseFromFormat_cases)

text \<open>Sample formats: the default one, escapes, and the escaped date that is read out of bounds.\<close>

lemma parse_examples:
  "map_option lf_format (mk_LogFormat ''u'' ''h'' L_Info ''%datetime{%H} %level %msg'') = Some ''%datetime INFO  %msg''"
  "map_option lf_format (mk_LogFormat ''u'' ''h'' L_Info ''%%level %user'') = Some ''%level u''"
  "mk_LogFormat ''u'' ''h'' L_Info ''%%datetime'' = None"
  by code_simp+

end
