(* ===== verification/ElTime.thy ===== *)
theory ElTime
  imports ElStr "HOL-Library.Signed_Division"
begin

text \<open>
  Dates in log lines (class \<open>DateTime\<close>): the formatter that writes into a buffer of fixed size is
  shown to write the text of the format, cut at the size of the buffer; \<open>getDateTime\<close> is defined
  exactly when that text leaves room for its terminator.
\<close>

record tm =
  tm_sec :: nat
  tm_min :: nat
  tm_hour :: nat
  tm_mday :: nat
  tm_mon :: nat
  tm_year :: nat
  tm_wday :: nat

record timeval =
  tv_sec :: "64 word"
  tv_usec :: "64 word"

section \<open>The formatter\<close>

text \<open>
  What one specifier adds, with the helper that adds it; the outer \<open>None\<close> is an index out of the
  tables of names, the inner one a specifier that adds nothing.
\<close>

datatype piece = Number nat int | Text string

definition format_piece :: "tm \<Rightarrow> nat \<Rightarrow> MillisecondsWidth \<Rightarrow> char \<Rightarrow> piece option option" where
  "format_piece t msec w c =
     (if c = CHR ''d'' then Some (Some (Number (tm_mday t) 2))
      else if c = CHR ''a'' then map_option (Some \<circ> Text) (rd kDaysAbbrev (tm_wday t))
      else if c = CHR ''A'' then map_option (Some \<circ> Text) (rd kDays (tm_wday t))
      else if c = CHR ''M'' then Some (Some (Number (tm_mon t + 1) 2))
      else if c = CHR ''b'' then map_option (Some \<circ> Text) (rd kMonthsAbbrev (tm_mon t))
      else if c = CHR ''B'' then map_option (Some \<circ> Text) (rd kMonths (tm_mon t))
      else if c = CHR ''y'' then Some (Some (Number (tm_year t + nat kYearBase) 2))
      else if c = CHR ''Y'' then Some (Some (Number (tm_year t + nat kYearBase) 4))
      else if c = CHR ''h'' then Some (Some (Number (tm_hour t mod 12) 2))
      else if c = CHR ''H'' then Some (Some (Number (tm_hour t) 2))
      else if c = CHR ''m'' then Some (Some (Number (tm_min t) 2))
      else if c = CHR ''s'' then Some (Some (Number (tm_sec t) 2))
      else if c = CHR ''z'' \<or> c = CHR ''g'' then Some (Some (Number msec (mw_width w)))
      else if c = CHR ''F'' then Some (Some (Text (if 12 \<le> tm_hour t then kPm else kAm)))
      else Some None)"

definition add_piece :: "piece \<Rightarrow> nat \<Rightarrow> nat \<Rightarrow> char list \<Rightarrow> (char list \<times> nat) option" where
  "add_piece p buf lim b = (case p of
     Number n len \<Rightarrow> convertAndAddToBuff n len True buf lim b
   | Text s \<Rightarrow> addToBuff s buf lim b)"

text \<open>
  The loop: after a percent sign, a second one is an escape, the end of the format leaves a plain
  percent sign, and every other character is a specifier. A full buffer ends the loop only at the
  next plain character.
\<close>

fun parseFormat :: "tm \<Rightarrow> nat \<Rightarrow> MillisecondsWidth \<Rightarrow> nat \<Rightarrow> string \<Rightarrow> nat \<Rightarrow> char list
    \<Rightarrow> (char list \<times> nat) option" where
  "parseFormat t msec w lim [] buf b = Some (b, buf)"
| "parseFormat t msec w lim [c] buf b =
     (if buf = lim then Some (b, buf) else do { b \<leftarrow> wr b buf c; Some (b, Suc buf) })"
| "parseFormat t msec w lim (c # d # format) buf b =
     (if c = kFormatSpecifierChar \<and> d \<noteq> kFormatSpecifierChar then
        do { p \<leftarrow> format_piece t msec w d;
             (case p of
                None \<Rightarrow> parseFormat t msec w lim format buf b
              | Some p \<Rightarrow> do { (b, buf) \<leftarrow> add_piece p buf lim b; parseFormat t msec w lim format buf b }) }
      else if c = kFormatSpecifierChar then
        (if buf = lim then Some (b, buf)
         else do { b \<leftarrow> wr b buf d; parseFormat t msec w lim format (Suc buf) b })
      else
        (if buf = lim then Some (b, buf)
         else do { b \<leftarrow> wr b buf c; parseFormat t msec w lim (d # format) (Suc buf) b }))"

text \<open>Reading a C string out of a buffer: without a terminator the read leaves the buffer.\<close>

definition c_string :: "char list \<Rightarrow> string option" where
  "c_string b = (if NUL \<in> set b then Some (takeWhile (\<lambda>c. c \<noteq> NUL) b) else None)"

definition kBuffSize :: nat where "kBuffSize = 30"

text \<open>\<open>localtime_r\<close> and the clock are parameters.\<close>

definition getDateTime :: "(64 word \<Rightarrow> tm) \<Rightarrow> timeval \<Rightarrow> string \<Rightarrow> MillisecondsWidth \<Rightarrow> string option" where
  "getDateTime localtime_r currTime format msWidth =
     (let timeInfo = localtime_r (tv_sec currTime);
          buff = replicate kBuffSize NUL;
          msec = unat (tv_usec currTime) div mw_offset msWidth
      in do { (buff, pos) \<leftarrow> parseFormat timeInfo msec msWidth kBuffSize format 0 buff;
              c_string buff })"

definition getTimeDifference :: "timeval \<Rightarrow> timeval \<Rightarrow> TimestampUnit \<Rightarrow> 64 word" where
  "getTimeDifference endTime startTime unit =
     (if unit = Microsecond then
        (1000000 * tv_sec endTime + tv_usec endTime) - (1000000 * tv_sec startTime + tv_usec startTime)
      else
        word_of_int (sint ((tv_sec endTime - tv_sec startTime) * 1000000
          + (tv_usec endTime - tv_usec startTime)) sdiv 1000))"

section \<open>The text of a format\<close>

definition piece_text :: "piece \<Rightarrow> string" where
  "piece_text p = (case p of Number n len \<Rightarrow> number_text n len True | Text s \<Rightarrow> s)"

fun format_text :: "tm \<Rightarrow> nat \<Rightarrow> MillisecondsWidth \<Rightarrow> string \<Rightarrow> string option" where
  "format_text t msec w [] = Some []"
| "format_text t msec w [c] = Some [c]"
| "format_text t msec w (c # d # format) =
     (if c = kFormatSpecifierChar \<and> d \<noteq> kFormatSpecifierChar then
        do { p \<leftarrow> format_piece t msec w d; rest \<leftarrow> format_text t msec w format;
             Some ((case p of None \<Rightarrow> [] | Some p \<Rightarrow> piece_text p) @ rest) }
      else if c = kFormatSpecifierChar then
        do { rest \<leftarrow> format_text t msec w format; Some (d # rest) }
      else do { rest \<leftarrow> format_text t msec w (d # format); Some (c # rest) })"

text \<open>The buffer that holds a text, cut to the size and padded with terminators.\<close>

definition holds :: "nat \<Rightarrow> string \<Rightarrow> char list" where
  "holds sz s = take sz s @ replicate (sz - length s) NUL"

lemma length_holds [simp]: "length (holds sz s) = sz"
  by (simp add: holds_def)

lemma holds_set: "length s < sz \<Longrightarrow> (holds sz s)[length s := c] = holds sz (s @ [c])"
proof -
  assume "length s < sz"
  then obtain k where k: "sz - length s = Suc k"
    by (metis Suc_diff_Suc)
  then show ?thesis
    by (simp add: holds_def list_update_append Suc_diff_le)
qed

lemma holds_full: "sz \<le> length s \<Longrightarrow> holds sz (s @ t) = holds sz s"
  by (simp add: holds_def)

lemma addToBuff_holds:
  "length s \<le> sz \<Longrightarrow>
   addToBuff str (length s) sz (holds sz s) = Some (holds sz (s @ str), min sz (length s + length str))"
proof (induction str arbitrary: s)
  case Nil
  have "(holds sz s)[length s := NUL] = holds sz s" if "length s < sz"
    using that by (metis holds_def holds_set le_add1 length_append list_update_id nth_append_length
        nth_append_right append_Nil2 diff_is_0_eq' less_imp_le_nat nth_replicate take_all zero_less_diff cancel_comm_monoid_add_class.diff_cancel)
  with Nil show ?case by (simp add: array_simps)
next
  case (Cons c str)
  show ?case
  proof (cases "length s < sz")
    case True
    with Cons.IH [of "s @ [c]"] show ?thesis
      by (simp add: array_simps holds_set)
  next
    case False
    with Cons.prems show ?thesis by (simp add: holds_full)
  qed
qed

lemma add_piece_holds:
  "length s \<le> sz \<Longrightarrow>
   add_piece p (length s) sz (holds sz s)
     = Some (holds sz (s @ piece_text p), min sz (length s + length (piece_text p)))"
  by (simp add: add_piece_def piece_text_def convertAndAddToBuff_def addToBuff_holds split: piece.split)

text \<open>Once the buffer is full nothing changes it any more.\<close>

lemma parseFormat_full:
  "length s = sz \<Longrightarrow> format_text t msec w format = Some tx \<Longrightarrow>
   parseFormat t msec w sz format sz (holds sz s) = Some (holds sz s, sz)"
proof (induction t msec w format arbitrary: tx rule: format_text.induct)
  case (3 t msec w c d format)
  have add: "add_piece p sz sz (holds sz s) = Some (holds sz s, sz)" for p
    using add_piece_holds [of s sz p] 3 by (simp add: holds_full)
  show ?case
  proof (cases "c = kFormatSpecifierChar \<and> d \<noteq> kFormatSpecifierChar")
    case True
    then obtain p rest where "format_piece t msec w d = Some p" "format_text t msec w format = Some rest"
      using 3 by (auto split: bind_splits)
    with True 3 show ?thesis by (simp add: add split: option.split)
  qed auto
qed auto

lemma parseFormat_holds:
  "length s \<le> sz \<Longrightarrow> format_text t msec w format = Some tx \<Longrightarrow>
   parseFormat t msec w sz format (length s) (holds sz s)
     = Some (holds sz (s @ tx), min sz (length s + length tx))"
proof (induction t msec w format arbitrary: s tx rule: format_text.induct)
  case (2 t msec w c)
  then show ?case
    by (cases "length s = sz") (auto simp: holds_full array_simps holds_set)
next
  case (3 t msec w c d format)
  show ?case
  proof (cases "c = kFormatSpecifierChar \<and> d \<noteq> kFormatSpecifierChar")
    case True
    then obtain p rest where p: "format_piece t msec w d = Some p" and rest: "format_text t msec w format = Some rest"
      and tx: "tx = (case p of None \<Rightarrow> [] | Some p \<Rightarrow> piece_text p) @ rest"
      using 3 by (auto split: bind_splits)
    show ?thesis
    proof (cases p)
      case None
      with 3 True p rest tx show ?thesis by simp
    next
      case (Some q)
      note add = add_piece_holds [OF 3(4), of q]
      show ?thesis
      proof (cases "length s + length (piece_text q) \<le> sz")
        case fits: True
        then have "parseFormat t msec w sz format (length (s @ piece_text q)) (holds sz (s @ piece_text q))
            = Some (holds sz ((s @ piece_text q) @ rest), min sz (length (s @ piece_text q) + length rest))"
          using 3 True p rest Some by (intro 3(1)) auto
        with True p Some add tx fits show ?thesis
          by (simp add: add.assoc min_absorb2)
      next
        case False
        let ?full = "take sz (s @ piece_text q)"
        have full: "holds sz (s @ piece_text q) = holds sz ?full" "length ?full = sz"
          using False 3(4) by (simp_all add: holds_def min_absorb1)
        have "holds sz (s @ piece_text q @ rest) = holds sz ?full"
          using False 3(4) by (simp add: holds_def min_absorb1)
        moreover have "parseFormat t msec w sz format sz (holds sz ?full) = Some (holds sz ?full, sz)"
          using full(2) rest by (rule parseFormat_full)
        ultimately show ?thesis
          using True p Some add tx False full by (simp add: min_absorb1)
      qed
    qed
  next
    case plain: False
    define x where "x = (if c = kFormatSpecifierChar then d else c)"
    define fs where "fs = (if c = kFormatSpecifierChar then format else d # format)"
    obtain rest where rest: "format_text t msec w fs = Some rest" and tx: "tx = x # rest"
      using 3(5) plain by (auto simp: x_def fs_def split: bind_splits if_splits)
    have step: "parseFormat t msec w sz (c # d # format) (length s) (holds sz s) =
      (if length s = sz then Some (holds sz s, length s)
       else do { b \<leftarrow> wr (holds sz s) (length s) x; parseFormat t msec w sz fs (Suc (length s)) b })"
      using plain by (auto simp: x_def fs_def)
    show ?thesis
    proof (cases "length s = sz")
      case True
      with step tx show ?thesis by (simp add: holds_full)
    next
      case False
      then have "length (s @ [x]) \<le> sz" using 3(4) by simp
      then have "parseFormat t msec w sz fs (length (s @ [x])) (holds sz (s @ [x]))
          = Some (holds sz ((s @ [x]) @ rest), min sz (length (s @ [x]) + length rest))"
      proof (cases "c = kFormatSpecifierChar")
        case True
        with 3(2) [of "s @ [x]" rest] plain rest \<open>length (s @ [x]) \<le> sz\<close> show ?thesis
          by (simp add: fs_def)
      next
        case False
        with 3(3) [of "s @ [x]" rest] plain rest \<open>length (s @ [x]) \<le> sz\<close> show ?thesis
          by (simp add: fs_def)
      qed
      with step tx False 3(4) show ?thesis
        by (simp add: array_simps holds_set)
    qed
  qed
qed simp

lemma c_string_holds:
  "NUL \<notin> set s \<Longrightarrow> c_string (holds sz s) = (if length s < sz then Some s else None)"
proof (cases "length s < sz")
  case True
  assume s: "NUL \<notin> set s"
  obtain k where k: "sz - length s = Suc k"
    using True by (metis Suc_diff_Suc)
  then have "holds sz s = s @ NUL # replicate k NUL"
    using True by (simp add: holds_def)
  moreover have "takeWhile (\<lambda>c. c \<noteq> NUL) (s @ NUL # replicate k NUL) = s"
    using s by (induction s) auto
  ultimately show ?thesis using True by (simp add: c_string_def)
next
  case False
  assume s: "NUL \<notin> set s"
  then have "NUL \<notin> set (holds sz s)"
    using False in_set_takeD by (fastforce simp: holds_def)
  with False show ?thesis by (simp add: c_string_def)
qed

lemma getDateTime_eq:
  assumes "format_text (localtime_r (tv_sec now)) (unat (tv_usec now) div mw_offset w) w format = Some tx"
    and "NUL \<notin> set tx"
  shows "getDateTime localtime_r now format w = (if length tx < 30 then Some tx else None)"
proof -
  have "replicate kBuffSize NUL = holds kBuffSize []"
    by (simp add: holds_def)
  then have "parseFormat (localtime_r (tv_sec now)) (unat (tv_usec now) div mw_offset w) w kBuffSize format 0
      (replicate kBuffSize NUL) = Some (holds kBuffSize tx, min kBuffSize (length tx))"
    using parseFormat_holds [of "[]" kBuffSize, OF _ assms(1)] by simp
  then show ?thesis
    using c_string_holds [OF assms(2)] by (simp add: getDateTime_def Let_def kBuffSize_def)
qed

text \<open>
  \<open>getDateTime\<close> yields exactly the text of its format when this is shorter than the buffer of
  30 characters; a longer one fills the buffer to the last byte, without a terminator, and the
  string that is made of it reads beyond the buffer.
\<close>
theorem getDateTime_text:
  assumes "format_text (localtime_r (tv_sec now)) (unat (tv_usec now) div mw_offset w) w format = Some tx"
    and "NUL \<notin> set tx"
  shows "getDateTime localtime_r now format w = (if length tx < 30 then Some tx else None)"
  using assms by (rule getDateTime_eq)

definition sample_tm :: tm where
  "sample_tm = \<lparr>tm_sec = 5, tm_min = 4, tm_hour = 13, tm_mday = 29, tm_mon = 1, tm_year = 116, tm_wday = 1\<rparr>"

lemma getDateTime_text_witness:
  "getDateTime (\<lambda>s. sample_tm) \<lparr>tv_sec = 0, tv_usec = 123456\<rparr> ''%H:%m at %Y'' (mk_MillisecondsWidth 3)
     = (if length ''13:04 at 2016'' < 30 then Some ''13:04 at 2016'' else None)"
  by (rule getDateTime_text)
    (simp_all add: sample_tm_def kFormatSpecifierChar_def format_piece_def piece_text_def number_text_def
      number_text_code kYearBase_def char_of_def bit_0)

lemma long_date_overflows:
  "getDateTime (\<lambda>s. sample_tm) \<lparr>tv_sec = 0, tv_usec = 123456\<rparr> ''today is a very special day: %d''
     (mk_MillisecondsWidth 3) = None"
  by (subst getDateTime_eq [where tx = "''today is a very special day: 29''"])
    (simp_all add: sample_tm_def kFormatSpecifierChar_def format_piece_def piece_text_def number_text_def
      number_text_code char_of_def bit_0)

end
