(* ===== verification/ElTyped.thy ===== *)
theory ElTyped
  imports ElConf ElFormat ElTime "HOL-Library.List_Lexorder" "HOL-Library.Char_ord"
begin

text \<open>
  Typed configurations (\<open>easylogging.h\<close>, lines 2903 to 3220): what a logger reads while it writes,
  built from its configurations, with the log files they open.

  The user, the host, the clock and the file system are parameters. Streams are objects of a heap
  that hold the name of the file they are open on; a null stream is \<open>None\<close>. An unchecked read
  through an invalid iterator or index is \<open>None\<close>.
\<close>

section \<open>Levels as keys\<close>

instantiation Level :: linorder
begin

definition less_eq_Level :: "Level \<Rightarrow> Level \<Rightarrow> bool" where
  "less_eq_Level l l' \<longleftrightarrow> level_int l \<le> level_int l'"

definition less_Level :: "Level \<Rightarrow> Level \<Rightarrow> bool" where
  "less_Level l l' \<longleftrightarrow> level_int l < level_int l'"

instance
proof
  fix x y z :: Level
  show "x < y \<longleftrightarrow> x \<le> y \<and> \<not> y \<le> x" by (auto simp: less_eq_Level_def less_Level_def)
  show "x \<le> x" by (simp add: less_eq_Level_def)
  show "x \<le> y \<Longrightarrow> y \<le> z \<Longrightarrow> x \<le> z" by (auto simp: less_eq_Level_def)
  show "x \<le> y \<Longrightarrow> y \<le> x \<Longrightarrow> x = y"
    by (simp add: less_eq_Level_def level_enum.to_int_inj flip: order.eq_iff)
  show "x \<le> y \<or> y \<le> x" by (auto simp: less_eq_Level_def)
qed

end

section \<open>Values by level\<close>

type_synonym 'a level_map = "(Level \<times> 'a) list"

definition unsafeGetConfigByVal :: "'a \<Rightarrow> Level \<Rightarrow> 'a level_map \<Rightarrow> 'a" where
  "unsafeGetConfigByVal dflt level confMap =
     (case map_of confMap level of
        Some v \<Rightarrow> v
      | None \<Rightarrow> (case map_of confMap L_Global of Some v \<Rightarrow> v | None \<Rightarrow> dflt))"

definition unsafeGetConfigByRef :: "Level \<Rightarrow> 'a level_map \<Rightarrow> 'a option" where
  "unsafeGetConfigByRef level confMap =
     (case map_of confMap level of Some v \<Rightarrow> Some v | None \<Rightarrow> map_of confMap L_Global)"

text \<open>A value that is there already is assigned with the copy assignment of its type.\<close>

definition tc_setValue :: "('a \<Rightarrow> 'a \<Rightarrow> 'a) \<Rightarrow> Level \<Rightarrow> 'a \<Rightarrow> bool \<Rightarrow> 'a level_map \<Rightarrow> 'a level_map" where
  "tc_setValue asg level v includeGlobalLevel confMap =
     (if confMap = [] \<and> includeGlobalLevel then map_insert L_Global v confMap
      else if map_of confMap L_Global = Some v then confMap
      else if map_of confMap level = None then map_insert level v confMap
      else map (\<lambda>(l, old). if l = level then (l, asg old v) else (l, old)) confMap)"

definition overwrite :: "'a \<Rightarrow> 'a \<Rightarrow> 'a" where
  "overwrite old v = v"

definition getBool :: "string \<Rightarrow> bool" where
  "getBool boolStr = (let b = trim boolStr in b = ''TRUE'' \<or> b = ''true'' \<or> b = ''1'')"

text \<open>\<open>atol\<close> of the C library stops at the largest \<open>long\<close>.\<close>

definition getULong :: "string \<Rightarrow> 64 word" where
  "getULong confVal =
     (let s = trim confVal
      in if s = [] \<or> \<not> list_all isDigit s then 0 else of_nat (min (2 ^ 63 - 1) (text_val s)))"

section \<open>State\<close>

record 'f log_env =
  env_user :: string
  env_host :: string
  env_localtime :: "64 word \<Rightarrow> tm"
  env_now :: timeval
  env_fs :: "'f file_system"

record 'f log_world =
  w_files :: files
  w_streams :: "string option heap"
  w_reference :: "(string \<times> nat option) list"
  w_dirs :: 'f

record TypedConfigurations =
  m_enabledMap :: "bool level_map"
  m_toFileMap :: "bool level_map"
  m_filenameMap :: "string level_map"
  m_toStandardOutputMap :: "bool level_map"
  m_logFormatMap :: "LogFormat level_map"
  m_millisecondsWidthMap :: "MillisecondsWidth level_map"
  m_performanceTrackingMap :: "bool level_map"
  m_fileStreamMap :: "nat option level_map"
  m_maxLogFileSizeMap :: "64 word level_map"
  m_logFlushThresholdMap :: "64 word level_map"

definition empty_typed :: TypedConfigurations where
  "empty_typed = \<lparr>m_enabledMap = [], m_toFileMap = [], m_filenameMap = [], m_toStandardOutputMap = [],
     m_logFormatMap = [], m_millisecondsWidthMap = [], m_performanceTrackingMap = [], m_fileStreamMap = [],
     m_maxLogFileSizeMap = [], m_logFlushThresholdMap = []\<rparr>"

definition tc_enabled :: "Level \<Rightarrow> TypedConfigurations \<Rightarrow> bool" where
  "tc_enabled level tc = unsafeGetConfigByVal False level (m_enabledMap tc)"

definition tc_toFile :: "Level \<Rightarrow> TypedConfigurations \<Rightarrow> bool" where
  "tc_toFile level tc = unsafeGetConfigByVal False level (m_toFileMap tc)"

definition tc_filename :: "Level \<Rightarrow> TypedConfigurations \<Rightarrow> string option" where
  "tc_filename level tc = unsafeGetConfigByRef level (m_filenameMap tc)"

definition tc_toStandardOutput :: "Level \<Rightarrow> TypedConfigurations \<Rightarrow> bool" where
  "tc_toStandardOutput level tc = unsafeGetConfigByVal False level (m_toStandardOutputMap tc)"

definition tc_logFormat :: "Level \<Rightarrow> TypedConfigurations \<Rightarrow> LogFormat option" where
  "tc_logFormat level tc = unsafeGetConfigByRef level (m_logFormatMap tc)"

definition tc_millisecondsWidth :: "Level \<Rightarrow> TypedConfigurations \<Rightarrow> MillisecondsWidth option" where
  "tc_millisecondsWidth level tc = unsafeGetConfigByRef level (m_millisecondsWidthMap tc)"

definition tc_performanceTracking :: "Level \<Rightarrow> TypedConfigurations \<Rightarrow> bool" where
  "tc_performanceTracking level tc = unsafeGetConfigByVal False level (m_performanceTrackingMap tc)"

definition tc_fileStream :: "Level \<Rightarrow> TypedConfigurations \<Rightarrow> nat option option" where
  "tc_fileStream level tc = unsafeGetConfigByRef level (m_fileStreamMap tc)"

definition tc_maxLogFileSize :: "Level \<Rightarrow> TypedConfigurations \<Rightarrow> 64 word" where
  "tc_maxLogFileSize level tc = unsafeGetConfigByVal 0 level (m_maxLogFileSizeMap tc)"

definition tc_logFlushThreshold :: "Level \<Rightarrow> TypedConfigurations \<Rightarrow> 64 word" where
  "tc_logFlushThreshold level tc = unsafeGetConfigByVal 0 level (m_logFlushThresholdMap tc)"

section \<open>Log files\<close>

definition resolveFilename :: "'f log_env \<Rightarrow> string \<Rightarrow> string option" where
  "resolveFilename env filename =
     (let spec = specifier_text Sp_DateTime
      in case str_find filename spec 0 of
           None \<Rightarrow> Some filename
         | Some dateIndex \<Rightarrow>
             do { dateIndex \<leftarrow> date_loop spec filename dateIndex;
                  let p = dateIndex + length spec;
                  let (resulting, fmt) =
                    (if p < length filename \<and> filename ! p = CHR ''{'' then
                       (let (ss, count) = brace_text (drop (Suc p) filename)
                        in (take p filename @ drop (p + count) filename, ss))
                     else (filename, kDefaultDateTimeFormatInFilename));
                  now \<leftarrow> getDateTime (env_localtime env) (env_now env) fmt (mk_MillisecondsWidth 3);
                  replaceAll resulting spec (replaceAll_char now (CHR ''/'') (CHR ''-'')) })"

text \<open>A new stream: a stream object unless the file could not be opened.\<close>

definition open_stream :: "string \<Rightarrow> 'f log_world \<Rightarrow> nat option \<times> 'f log_world" where
  "open_stream filename w =
     (let (fs, fl) = newFileStream filename (w_files w); w = w\<lparr>w_files := fl\<rparr>
      in case fs of
           None \<Rightarrow> (None, w)
         | Some name \<Rightarrow> (let (p, h) = new_obj (Some name) (w_streams w) in (p, w\<lparr>w_streams := h\<rparr>)))"

definition create_stream :: "string \<Rightarrow> Level \<Rightarrow> TypedConfigurations \<times> 'f log_world
    \<Rightarrow> (TypedConfigurations \<times> 'f log_world) option" where
  "create_stream resolvedFilename level s =
     (let (tc, w) = s
      in do { (fs, tc, w) \<leftarrow>
          (case map_of (w_reference w) resolvedFilename of
             None \<Rightarrow>
               (let (fs, w) = open_stream resolvedFilename w;
                    tc = tc\<lparr>m_filenameMap := map_insert level resolvedFilename (m_filenameMap tc),
                            m_fileStreamMap := map_insert level fs (m_fileStreamMap tc)\<rparr>
                in do { p \<leftarrow> map_of (m_fileStreamMap tc) level;
                        Some (fs, tc, w\<lparr>w_reference := map_insert resolvedFilename p (w_reference w)\<rparr>) })
           | Some fs \<Rightarrow>
               Some (fs, tc\<lparr>m_filenameMap := map_insert level resolvedFilename (m_filenameMap tc),
                            m_fileStreamMap := map_insert level fs (m_fileStreamMap tc)\<rparr>, w));
        Some ((if fs = None then tc\<lparr>m_toFileMap := tc_setValue overwrite level False True (m_toFileMap tc)\<rparr> else tc), w) })"

definition insertFile :: "'f log_env \<Rightarrow> Level \<Rightarrow> string \<Rightarrow> TypedConfigurations \<times> 'f log_world
    \<Rightarrow> (TypedConfigurations \<times> 'f log_world) option" where
  "insertFile env level fullFilename s =
     do { resolvedFilename \<leftarrow> resolveFilename env fullFilename;
          let (tc, w) = s;
          let filePath = extractPathFromFilename resolvedFilename;
          let w = (if length filePath < length resolvedFilename
                   then w\<lparr>w_dirs := snd (createPath (env_fs env) filePath (w_dirs w))\<rparr> else w);
          create_stream resolvedFilename
            (if m_filenameMap tc = [] \<and> m_fileStreamMap tc = [] then L_Global else level) (tc, w) }"

text \<open>The file a stream is open on, and its size.\<close>

definition stream_file :: "nat option \<Rightarrow> 'f log_world \<Rightarrow> string option" where
  "stream_file fs w = do { name \<leftarrow> deref fs (w_streams w); name \<leftarrow> name; name }"

definition stream_size :: "nat option \<Rightarrow> 'f log_world \<Rightarrow> nat" where
  "stream_size fs w = getSizeOfFile (stream_file fs w) (w_files w)"

text \<open>Closing a stream and opening it again with truncation; the callback runs in between.\<close>

definition reopen_trunc :: "nat \<Rightarrow> string \<Rightarrow> 'f log_world \<Rightarrow> 'f log_world" where
  "reopen_trunc a fname w =
     (if can_open (w_files w) fname
      then w\<lparr>w_files := (w_files w)\<lparr>contents := (contents (w_files w))(fname \<mapsto> [])\<rparr>,
             w_streams := (w_streams w)\<lparr>cells := (cells (w_streams w))(a \<mapsto> Some fname)\<rparr>\<rparr>
      else w\<lparr>w_streams := (w_streams w)\<lparr>cells := (cells (w_streams w))(a \<mapsto> None)\<rparr>\<rparr>)"

type_synonym 'f roll_out = "string \<Rightarrow> nat \<Rightarrow> 'f log_world \<Rightarrow> 'f log_world"

definition unsafeValidateFileRolling :: "Level \<Rightarrow> 'f roll_out \<Rightarrow> TypedConfigurations \<times> 'f log_world
    \<Rightarrow> (bool \<times> 'f log_world) option" where
  "unsafeValidateFileRolling level preRollOutCallback s =
     (let (tc, w) = s
      in do { fs \<leftarrow> unsafeGetConfigByRef level (m_fileStreamMap tc);
              (case fs of
                 None \<Rightarrow> Some (True, w)
               | Some a \<Rightarrow>
                   (let maxLogFileSize = unsafeGetConfigByVal 0 level (m_maxLogFileSizeMap tc);
                        currFileSize = stream_size fs w
                    in if maxLogFileSize \<noteq> 0 \<and> unat maxLogFileSize \<le> currFileSize then
                         do { fname \<leftarrow> unsafeGetConfigByRef level (m_filenameMap tc);
                              Some (True, reopen_trunc a fname (preRollOutCallback fname currFileSize w)) }
                       else Some (False, w))) })"

definition validateFileRolling :: "Level \<Rightarrow> 'f roll_out \<Rightarrow> TypedConfigurations \<times> 'f log_world
    \<Rightarrow> (bool \<times> 'f log_world) option" where
  "validateFileRolling level preRollOutCallback s = unsafeValidateFileRolling level preRollOutCallback s"

definition defaultPreRollOutCallback :: "'f roll_out" where
  "defaultPreRollOutCallback fname currFileSize w = w"

section \<open>Building\<close>

definition build_conf :: "'f log_env \<Rightarrow> Configuration \<Rightarrow> TypedConfigurations \<Rightarrow> TypedConfigurations option" where
  "build_conf env conf tc =
     (let level = c_level conf; val = c_value conf
      in case c_type conf of
        C_Enabled \<Rightarrow> Some (tc\<lparr>m_enabledMap := tc_setValue overwrite level (getBool val) True (m_enabledMap tc)\<rparr>)
      | C_ToFile \<Rightarrow> Some (tc\<lparr>m_toFileMap := tc_setValue overwrite level (getBool val) True (m_toFileMap tc)\<rparr>)
      | C_ToStandardOutput \<Rightarrow> Some (tc\<lparr>m_toStandardOutputMap :=
          tc_setValue overwrite level (getBool val) True (m_toStandardOutputMap tc)\<rparr>)
      | C_Filename \<Rightarrow> Some tc
      | C_Format \<Rightarrow>
          do { f \<leftarrow> mk_LogFormat (env_user env) (env_host env) level val;
               Some (tc\<lparr>m_logFormatMap := tc_setValue assign_LogFormat level f True (m_logFormatMap tc)\<rparr>) }
      | C_MillisecondsWidthType \<Rightarrow> Some (tc\<lparr>m_millisecondsWidthMap :=
          tc_setValue overwrite L_Global (mk_MillisecondsWidth (sint (ucast (getULong val) :: 32 word))) True
            (m_millisecondsWidthMap tc)\<rparr>)
      | C_PerformanceTracking \<Rightarrow> Some (tc\<lparr>m_performanceTrackingMap :=
          tc_setValue overwrite L_Global (getBool val) True (m_performanceTrackingMap tc)\<rparr>)
      | C_MaxLogFileSize \<Rightarrow> Some (tc\<lparr>m_maxLogFileSizeMap :=
          tc_setValue overwrite level (getULong val) True (m_maxLogFileSizeMap tc)\<rparr>)
      | C_LogFlushThreshold \<Rightarrow> Some (tc\<lparr>m_logFlushThresholdMap :=
          tc_setValue overwrite level (getULong val) True (m_logFlushThresholdMap tc)\<rparr>)
      | C_Unknown \<Rightarrow> Some tc)"

fun build_confs :: "'f log_env \<Rightarrow> Configuration list \<Rightarrow> TypedConfigurations \<Rightarrow> TypedConfigurations option" where
  "build_confs env [] tc = Some tc"
| "build_confs env (conf # confs) tc = do { tc \<leftarrow> build_conf env conf tc; build_confs env confs tc }"

fun build_files :: "'f log_env \<Rightarrow> Configuration list \<Rightarrow> TypedConfigurations \<times> 'f log_world
    \<Rightarrow> (TypedConfigurations \<times> 'f log_world) option" where
  "build_files env [] s = Some s"
| "build_files env (conf # confs) s =
     do { s \<leftarrow> (if c_type conf = C_Filename then insertFile env (c_level conf) (c_value conf) s else Some s);
          build_files env confs s }"

fun build_rolling :: "Configuration list \<Rightarrow> TypedConfigurations \<Rightarrow> 'f log_world \<Rightarrow> 'f log_world option" where
  "build_rolling [] tc w = Some w"
| "build_rolling (conf # confs) tc w =
     do { (b, w) \<leftarrow> unsafeValidateFileRolling (c_level conf) defaultPreRollOutCallback (tc, w);
          build_rolling confs tc w }"

definition build :: "'f log_env \<Rightarrow> Configurations \<Rightarrow> TypedConfigurations \<times> 'f log_world
    \<Rightarrow> (TypedConfigurations \<times> 'f log_world) option" where
  "build env configurations s =
     (let confs = cf_list configurations; (tc, w) = s;
          withFileSizeLimit = filter (\<lambda>conf. c_type conf = C_MaxLogFileSize) confs
      in do { tc \<leftarrow> build_confs env confs tc;
              (tc, w) \<leftarrow> build_files env confs (tc, w);
              w \<leftarrow> build_rolling withFileSizeLimit tc w;
              Some (tc, w) })"

definition mk_TypedConfigurations :: "'f log_env \<Rightarrow> Configurations \<Rightarrow> 'f log_world
    \<Rightarrow> (TypedConfigurations \<times> 'f log_world) option" where
  "mk_TypedConfigurations env configurations w = build env configurations (empty_typed, w)"

section \<open>Reading what was configured\<close>

lemma typed_by_ref:
  "unsafeGetConfigByVal dflt level m = (case unsafeGetConfigByRef level m of Some v \<Rightarrow> v | None \<Rightarrow> dflt)"
  by (simp add: unsafeGetConfigByVal_def unsafeGetConfigByRef_def split: option.splits)

text \<open>A map with a value for the global level, and what a further level changes in it.\<close>

lemma tc_setValue_first:
  "unsafeGetConfigByRef level (tc_setValue asg l v True []) = Some v"
  "ordered (tc_setValue asg l v True [])" "map_of (tc_setValue asg l v True []) = [L_Global \<mapsto> v]"
  by (auto simp: tc_setValue_def unsafeGetConfigByRef_def ordered_def)

lemma tc_setValue_further:
  assumes "ordered m" and "map_of m L_Global = Some g" and "map_of m l = None"
  shows "unsafeGetConfigByRef level (tc_setValue asg l v True m)
      = (if level = l then Some v else unsafeGetConfigByRef level m)"
    and "ordered (tc_setValue asg l v True m)" and "map_of (tc_setValue asg l v True m) L_Global = Some g"
    and "level \<noteq> l \<Longrightarrow> map_of (tc_setValue asg l v True m) level = map_of m level"
  using assms by (auto simp: tc_setValue_def unsafeGetConfigByRef_def map_of_insert ordered_insert split: option.splits)

definition tc_sets :: "('a \<Rightarrow> 'a \<Rightarrow> 'a) \<Rightarrow> (Level \<times> 'a) list \<Rightarrow> 'a level_map \<Rightarrow> 'a level_map" where
  "tc_sets asg es m = fold (\<lambda>(l, v). tc_setValue asg l v True) es m"

lemma tc_sets_further:
  assumes "ordered m" and "map_of m L_Global = Some g" and "distinct (map fst es)"
    and "\<forall>l\<in>fst ` set es. map_of m l = None"
  shows "unsafeGetConfigByRef level (tc_sets asg es m)
    = (case map_of es level of Some v \<Rightarrow> Some v | None \<Rightarrow> unsafeGetConfigByRef level m)"
  using assms
proof (induction es arbitrary: m)
  case (Cons e es)
  obtain l v where e: "e = (l, v)" by (cases e)
  note further = tc_setValue_further [OF Cons.prems(1,2), where l = l and asg = asg and v = v]
  have l: "map_of m l = None" "l \<notin> fst ` set es" using Cons.prems by (auto simp: e)
  have "\<forall>k\<in>fst ` set es. map_of (tc_setValue asg l v True m) k = None"
  proof
    fix k assume k: "k \<in> fst ` set es"
    then have "k \<noteq> l" using l(2) by blast
    then show "map_of (tc_setValue asg l v True m) k = None"
      using further(4) [OF l(1)] k Cons.prems(4) by (auto simp: e)
  qed
  then have rest: "unsafeGetConfigByRef level (tc_sets asg es (tc_setValue asg l v True m))
      = (case map_of es level of Some v \<Rightarrow> Some v | None \<Rightarrow> unsafeGetConfigByRef level (tc_setValue asg l v True m))"
    using Cons.IH further(2,3) [OF l(1)] Cons.prems(3) by (simp add: e)
  have "level = l \<Longrightarrow> map_of es level = None" using l(2) by (simp add: map_of_eq_None_iff)
  then have "(case map_of es level of Some v \<Rightarrow> Some v | None \<Rightarrow> unsafeGetConfigByRef level (tc_setValue asg l v True m))
      = (case map_of (e # es) level of Some v \<Rightarrow> Some v | None \<Rightarrow> unsafeGetConfigByRef level m)"
    using further(1) [OF l(1)] by (cases "level = l") (simp_all add: e split: option.splits)
  moreover have "tc_sets asg (e # es) m = tc_sets asg es (tc_setValue asg l v True m)"
    by (simp add: tc_sets_def e)
  ultimately show ?case using rest by simp
qed (simp add: tc_sets_def)

text \<open>Values that start with the global level, each level at most once: every one can be read.\<close>

definition starts_global :: "(Level \<times> 'a) list \<Rightarrow> bool" where
  "starts_global es \<longleftrightarrow> (case es of [] \<Rightarrow> True | e # _ \<Rightarrow> fst e = L_Global)"

lemma tc_sets_value:
  assumes "distinct (map fst es)" and "starts_global es"
  shows "unsafeGetConfigByRef level (tc_sets asg es [])
    = (case map_of es level of Some v \<Rightarrow> Some v | None \<Rightarrow> map_of es L_Global)"
proof (cases es)
  case (Cons e rest)
  obtain g where e: "e = (L_Global, g)" using assms(2) by (cases e) (simp add: starts_global_def Cons)
  let ?m = "tc_setValue asg L_Global g True []"
  note m = tc_setValue_first [where asg = asg and l = L_Global and v = g]
  have "\<forall>k\<in>fst ` set rest. map_of ?m k = None"
  proof
    fix k assume "k \<in> fst ` set rest"
    then have "k \<noteq> L_Global" using assms(1) by (force simp: Cons e)
    then show "map_of ?m k = None" by (simp add: m(3))
  qed
  then have "unsafeGetConfigByRef level (tc_sets asg rest ?m)
     = (case map_of rest level of Some v \<Rightarrow> Some v | None \<Rightarrow> Some g)"
    using assms(1) m by (simp add: tc_sets_further [OF m(2), of g] Cons e split: option.splits)
  moreover have "map_of rest L_Global = None"
    using assms(1) by (simp add: Cons e map_of_eq_None_iff)
  ultimately show ?thesis
    by (auto simp: Cons e tc_sets_def split: option.splits)
qed (simp add: tc_sets_def unsafeGetConfigByRef_def)

text \<open>Otherwise the first value is stored for the global level and may be lost.\<close>

lemma tc_sets_loses:
  "unsafeGetConfigByVal True L_Debug (tc_sets overwrite [(L_Debug, False), (L_Global, True)] []) = True"
  by (simp add: tc_sets_def tc_setValue_def overwrite_def unsafeGetConfigByVal_def)

text \<open>The values of a type in the order of the repository.\<close>

definition of_type :: "ConfigurationType \<Rightarrow> (Configuration \<Rightarrow> 'a) \<Rightarrow> Configuration list \<Rightarrow> (Level \<times> 'a) list" where
  "of_type t f confs = map (\<lambda>c. (c_level c, f c)) (filter (\<lambda>c. c_type c = t) confs)"

definition global_first :: "ConfigurationType \<Rightarrow> Configurations \<Rightarrow> bool" where
  "global_first t c \<longleftrightarrow> starts_global (of_type t c_value (cf_list c))"

definition configured :: "ConfigurationType \<Rightarrow> Level \<Rightarrow> Configurations \<Rightarrow> Configuration option" where
  "configured t level c = (case conf_get level t c of Some conf \<Rightarrow> Some conf | None \<Rightarrow> conf_get L_Global t c)"

lemma of_type_lookup: "map_of (of_type t f (cf_list c)) level = map_option f (conf_get level t c)"
proof -
  have "map_of (of_type t f confs) level = map_option f (List.find (conf_predicate level t) confs)" for confs
    by (induction confs) (auto simp: of_type_def conf_predicate_def)
  then show ?thesis by (simp add: conf_get_def)
qed

lemma of_type_distinct:
  assumes "conf_ok c"
  shows "distinct (map fst (of_type t f (cf_list c)))"
proof -
  have "distinct (map conf_key confs) \<Longrightarrow> distinct (map fst (of_type t f confs))" for confs
    by (induction confs) (auto simp: of_type_def conf_key_def)
  with assms show ?thesis by (simp add: conf_ok_def)
qed

lemma of_type_starts: "starts_global (of_type t f confs) \<longleftrightarrow> starts_global (of_type t g confs)"
  by (cases "filter (\<lambda>c. c_type c = t) confs") (simp_all add: starts_global_def of_type_def)

lemma typed_lookup:
  assumes "conf_ok c" and "global_first t c"
  shows "unsafeGetConfigByRef level (tc_sets asg (of_type t f (cf_list c)) []) = map_option f (configured t level c)"
proof -
  have "starts_global (of_type t f (cf_list c))"
    using assms(2) of_type_starts unfolding global_first_def by blast
  then show ?thesis
    by (simp add: tc_sets_value [OF of_type_distinct [OF assms(1)]] of_type_lookup configured_def split: option.splits)
qed

lemma build_confs_maps:
  "build_confs env confs tc = Some tc' \<Longrightarrow>
     m_enabledMap tc' = tc_sets overwrite (of_type C_Enabled (getBool \<circ> c_value) confs) (m_enabledMap tc)
   \<and> m_toStandardOutputMap tc' = tc_sets overwrite (of_type C_ToStandardOutput (getBool \<circ> c_value) confs) (m_toStandardOutputMap tc)
   \<and> m_maxLogFileSizeMap tc' = tc_sets overwrite (of_type C_MaxLogFileSize (getULong \<circ> c_value) confs) (m_maxLogFileSizeMap tc)
   \<and> m_logFlushThresholdMap tc' = tc_sets overwrite (of_type C_LogFlushThreshold (getULong \<circ> c_value) confs) (m_logFlushThresholdMap tc)
   \<and> m_logFormatMap tc' = tc_sets assign_LogFormat
       (of_type C_Format (\<lambda>c. the (mk_LogFormat (env_user env) (env_host env) (c_level c) (c_value c))) confs) (m_logFormatMap tc)
   \<and> (\<forall>c\<in>set confs. c_type c = C_Format \<longrightarrow> mk_LogFormat (env_user env) (env_host env) (c_level c) (c_value c) \<noteq> None)"
proof (induction confs arbitrary: tc)
  case (Cons conf confs)
  obtain tc1 where tc1: "build_conf env conf tc = Some tc1" "build_confs env confs tc1 = Some tc'"
    using Cons.prems by (auto split: bind_splits)
  have "tc_sets asg ((l, v) # es) m = tc_sets asg es (tc_setValue asg l v True m)" for asg l and v :: 'x and es m
    by (simp add: tc_sets_def)
  then show ?case
    using Cons.IH [OF tc1(2)] tc1(1)
    by (cases "c_type conf") (auto simp: build_conf_def of_type_def Let_def tc_sets_def split: bind_splits)
qed (simp add: tc_sets_def of_type_def)

lemma case_map: "(case map_option f x of Some v \<Rightarrow> v | None \<Rightarrow> d) = (case x of None \<Rightarrow> d | Some y \<Rightarrow> f y)"
  by (cases x) simp_all

text \<open>The files change only the file maps.\<close>

definition same_values :: "TypedConfigurations \<Rightarrow> TypedConfigurations \<Rightarrow> bool" where
  "same_values tc tc' \<longleftrightarrow> m_enabledMap tc' = m_enabledMap tc \<and> m_toStandardOutputMap tc' = m_toStandardOutputMap tc
     \<and> m_maxLogFileSizeMap tc' = m_maxLogFileSizeMap tc \<and> m_logFlushThresholdMap tc' = m_logFlushThresholdMap tc
     \<and> m_logFormatMap tc' = m_logFormatMap tc \<and> m_millisecondsWidthMap tc' = m_millisecondsWidthMap tc
     \<and> m_performanceTrackingMap tc' = m_performanceTrackingMap tc"

lemma same_values_refl [simp]: "same_values tc tc"
  by (simp add: same_values_def)

lemma create_stream_frame:
  "create_stream f l (tc, w) = Some (tc', w') \<Longrightarrow> same_values tc tc'"
  by (auto simp: create_stream_def same_values_def split: bind_splits option.splits prod.splits if_splits)

lemma build_files_frame: "build_files env confs (tc, w) = Some (tc', w') \<Longrightarrow> same_values tc tc'"
proof (induction confs arbitrary: tc w)
  case (Cons conf confs)
  from Cons.prems obtain tc1 w1 where 1: "build_files env confs (tc1, w1) = Some (tc', w')"
    and "(if c_type conf = C_Filename then insertFile env (c_level conf) (c_value conf) (tc, w) else Some (tc, w)) = Some (tc1, w1)"
    by (auto split: bind_splits)
  then have "same_values tc tc1"
    by (auto simp: insertFile_def Let_def split: bind_splits if_splits dest: create_stream_frame)
  with Cons.IH [OF 1] show ?case by (simp add: same_values_def)
qed (simp add: same_values_def)

lemma typed_values:
  assumes "mk_TypedConfigurations env c w = Some (tc, w')" and "conf_ok c" and "\<forall>t. global_first t c"
  shows "tc_enabled level tc = (case configured C_Enabled level c of None \<Rightarrow> False | Some conf \<Rightarrow> getBool (c_value conf))
    \<and> tc_toStandardOutput level tc
        = (case configured C_ToStandardOutput level c of None \<Rightarrow> False | Some conf \<Rightarrow> getBool (c_value conf))
    \<and> tc_maxLogFileSize level tc
        = (case configured C_MaxLogFileSize level c of None \<Rightarrow> 0 | Some conf \<Rightarrow> getULong (c_value conf))
    \<and> tc_logFlushThreshold level tc
        = (case configured C_LogFlushThreshold level c of None \<Rightarrow> 0 | Some conf \<Rightarrow> getULong (c_value conf))
    \<and> tc_logFormat level tc
        = (case configured C_Format level c of None \<Rightarrow> None
           | Some conf \<Rightarrow> mk_LogFormat (env_user env) (env_host env) (c_level conf) (c_value conf))"
proof -
  obtain tc1 where tc1: "build_confs env (cf_list c) empty_typed = Some tc1"
    and "\<exists>w1. build_files env (cf_list c) (tc1, w) = Some (tc, w1)"
    using assms(1) by (auto simp: mk_TypedConfigurations_def build_def Let_def split: bind_splits prod.splits)
  then have same: "same_values tc1 tc" using build_files_frame by blast
  note maps = build_confs_maps [OF tc1] and look = typed_lookup [OF assms(2)]
  have first: "global_first t c" for t using assms(3) by blast
  have parsed: "conf \<in> set (cf_list c) \<Longrightarrow> c_type conf = C_Format \<Longrightarrow>
      mk_LogFormat (env_user env) (env_host env) (c_level conf) (c_value conf) \<noteq> None" for conf
    using maps by blast
  have "conf \<in> set (cf_list c) \<and> c_type conf = C_Format" if "configured C_Format level c = Some conf" for conf
    using that by (auto simp: configured_def conf_get_def find_Some_iff conf_predicate_def split: option.splits)
  then have format: "map_option (\<lambda>c. the (mk_LogFormat (env_user env) (env_host env) (c_level c) (c_value c))) (configured C_Format level c)
      = (case configured C_Format level c of None \<Rightarrow> None
           | Some conf \<Rightarrow> mk_LogFormat (env_user env) (env_host env) (c_level conf) (c_value conf))"
    using parsed by (auto split: option.splits)
  have "tc_enabled level tc = (case configured C_Enabled level c of None \<Rightarrow> False | Some conf \<Rightarrow> getBool (c_value conf))"
    "tc_toStandardOutput level tc
        = (case configured C_ToStandardOutput level c of None \<Rightarrow> False | Some conf \<Rightarrow> getBool (c_value conf))"
    "tc_maxLogFileSize level tc
        = (case configured C_MaxLogFileSize level c of None \<Rightarrow> 0 | Some conf \<Rightarrow> getULong (c_value conf))"
    "tc_logFlushThreshold level tc
        = (case configured C_LogFlushThreshold level c of None \<Rightarrow> 0 | Some conf \<Rightarrow> getULong (c_value conf))"
    using maps same
    by (simp_all add: same_values_def tc_enabled_def tc_toStandardOutput_def tc_maxLogFileSize_def
        tc_logFlushThreshold_def typed_by_ref empty_typed_def look [OF first] split: option.splits)
  moreover have "tc_logFormat level tc
      = map_option (\<lambda>c. the (mk_LogFormat (env_user env) (env_host env) (c_level c) (c_value c))) (configured C_Format level c)"
    using maps same by (simp add: same_values_def tc_logFormat_def empty_typed_def look [OF first])
  ultimately show ?thesis
    using format by simp
qed


section \<open>Configurations that start with the global level\<close>

definition all_global_first :: "Configurations \<Rightarrow> bool" where
  "all_global_first c \<longleftrightarrow> (\<forall>t. global_first t c)"

lemma global_first_keys: "global_first t c \<longleftrightarrow> starts_global (filter (\<lambda>k. snd k = t) (map conf_key (cf_list c)))"
  by (cases "filter (\<lambda>c. c_type c = t) (cf_list c)")
    (simp_all add: global_first_def of_type_def starts_global_def filter_map comp_def conf_key_def)

lemma put_conf_first:
  assumes "all_global_first c" and "level = L_Global \<or> conf_value L_Global t c \<noteq> None"
  shows "all_global_first (put_conf level t v c)"
proof (cases "conf_get level t c")
  case None
  have "starts_global (filter (\<lambda>k. snd k = t') (map conf_key (cf_list c) @ [(level, t)]))" for t'
  proof (cases "filter (\<lambda>k. snd k = t') (map conf_key (cf_list c))")
    case Nil
    have "level = L_Global" if "t' = t"
    proof -
      have "conf_value L_Global t c = None"
        using Nil that by (auto simp: conf_value_def conf_get_def find_None_iff conf_predicate_def conf_key_def
            filter_empty_conv)
      with assms(2) show ?thesis by blast
    qed
    with Nil show ?thesis by (simp add: starts_global_def)
  next
    case (Cons k ks)
    moreover have "starts_global (filter (\<lambda>k. snd k = t') (map conf_key (cf_list c)))"
      using assms(1) by (simp add: all_global_first_def global_first_keys)
    ultimately show ?thesis by (simp add: starts_global_def)
  qed
  with None show ?thesis
    by (simp add: all_global_first_def global_first_keys put_conf_def conf_registerNew_def mk_Configuration_def conf_key_def)
next
  case (Some conf)
  with assms(1) show ?thesis
    by (simp add: all_global_first_def global_first_keys put_conf_def keys_set_first)
qed

lemma puts_first:
  "all_global_first c \<Longrightarrow> conf_value L_Global t c \<noteq> None \<Longrightarrow> all_global_first (fold (\<lambda>l. put_conf l t v) ls c)"
proof (induction ls arbitrary: c)
  case (Cons l ls)
  then show ?case
    using put_conf_first [OF Cons.prems(1), of l t v] by (simp add: put_conf_value)
qed simp

lemma set_conf_first:
  assumes "all_global_first c" and "level = L_Global \<or> conf_value L_Global t c \<noteq> None"
  shows "all_global_first (set_conf level t v c)"
proof (cases "level = L_Global")
  case True
  let ?c = "put_conf L_Global t v c"
  have "all_global_first ?c" and "conf_value L_Global t ?c \<noteq> None"
    using put_conf_first [OF assms(1), of L_Global t v] by (simp_all add: put_conf_value)
  then show ?thesis
    unfolding set_conf_def Let_def unsafeSetGlobally_value unsafeSet_def each_level_fold True
    by (auto intro!: puts_first simp: puts_value)
next
  case False
  then show ?thesis
    using put_conf_first [OF assms] by (simp add: set_conf_def unsafeSet_def Let_def)
qed

lemma setGlobally_first: "all_global_first c \<Longrightarrow> all_global_first (setGlobally t v True c)"
proof -
  assume "all_global_first c"
  then have first: "all_global_first (set_conf L_Global t v c)" "conf_value L_Global t (set_conf L_Global t v c) \<noteq> None"
    by (simp_all add: set_conf_first set_conf_lookup)
  have "all_global_first c' \<Longrightarrow> conf_value L_Global t c' \<noteq> None \<Longrightarrow> all_global_first (fold (\<lambda>l. set_conf l t v) ls c')" for c' ls
  proof (induction ls arbitrary: c')
    case (Cons l ls)
    then show ?case by (simp add: set_conf_first set_conf_lookup)
  qed simp
  from this [OF first] show ?thesis
    by (simp add: setGlobally_def each_level_fold)
qed

lemma empty_first: "all_global_first empty_Configurations"
  by (simp add: all_global_first_def global_first_def empty_Configurations_def of_type_def starts_global_def)

lemma defaults_first: "all_global_first (setToDefault empty_Configurations)"
  unfolding setToDefault_def Let_def
  by (simp add: set_conf_first set_conf_lookup setGlobally_first setGlobally_value empty_first)

lemma set_conf_distinct: "conf_ok c \<Longrightarrow> conf_ok (set_conf level t v c)"
  by (simp add: set_conf_def Let_def unsafeSetGlobally_value puts_ok unsafeSet_ok)

text \<open>
  Copying configurations into an empty repository sets them one after the other; when they start with
  the global level, every entry arrives, and the global ones reach the levels that have none.
\<close>

definition entry_value :: "Configuration list \<Rightarrow> Level \<Rightarrow> ConfigurationType \<Rightarrow> string option" where
  "entry_value l level t = map_option c_value (List.find (conf_predicate level t) l)"

lemma entry_value_snoc:
  "entry_value (l @ [conf]) level t = (case entry_value l level t of Some v \<Rightarrow> Some v
     | None \<Rightarrow> if c_level conf = level \<and> c_type conf = t then Some (c_value conf) else None)"
  by (induction l) (auto simp: entry_value_def conf_predicate_def)

lemma entry_value_None: "entry_value l level t = None \<longleftrightarrow> (level, t) \<notin> conf_key ` set l"
  by (auto simp: entry_value_def find_None_iff conf_predicate_def conf_key_def)

lemma copied_value:
  assumes "distinct (map conf_key l)" and "starts_global (filter (\<lambda>k. snd k = t) (map conf_key l))"
  shows "conf_value level t (fold (\<lambda>conf. set_from_conf (Some conf)) l c)
    = (case entry_value l level t of Some v \<Rightarrow> Some v
       | None \<Rightarrow> if level \<in> set walked_levels \<and> entry_value l L_Global t \<noteq> None then entry_value l L_Global t
                  else conf_value level t c)"
  using assms
proof (induction l rule: rev_induct)
  case (snoc conf l)
  have dist: "distinct (map conf_key l)" using snoc.prems(1) by simp
  have start: "starts_global (filter (\<lambda>k. snd k = t) (map conf_key l))"
    using snoc.prems(2) by (cases "filter (\<lambda>k. snd k = t) (map conf_key l)") (auto simp: starts_global_def)
  note IH = snoc.IH [OF dist start]
  have fresh: "entry_value l (c_level conf) (c_type conf) = None"
    using snoc.prems(1) by (simp add: entry_value_None conf_key_def)
  have none: "entry_value l lv t = None" if "c_type conf = t" "c_level conf = L_Global" for lv
  proof -
    have "filter (\<lambda>k. snd k = t) (map conf_key l) = []"
    proof (cases "filter (\<lambda>k. snd k = t) (map conf_key l)")
      case (Cons k ks)
      then have "fst k = L_Global" "k \<in> set (filter (\<lambda>k. snd k = t) (map conf_key l))"
        using start by (auto simp: starts_global_def)
      then have "(L_Global, t) \<in> conf_key ` set l" by (cases k) auto
      with snoc.prems(1) that show ?thesis by (simp add: conf_key_def)
    qed simp
    then show ?thesis by (auto simp: entry_value_None filter_empty_conv) (metis snd_conv)
  qed
  show ?case
    using IH fresh none
    by (auto simp: set_from_conf_def set_conf_lookup entry_value_snoc global_not_walked split: option.splits)
qed (simp add: entry_value_def)

lemma setFromBase_value:
  assumes "conf_ok b" and "all_global_first b"
  shows "conf_value level t (setFromBase (OtherConf b) empty_Configurations)
    = (case conf_value level t b of Some v \<Rightarrow> Some v
       | None \<Rightarrow> if level \<in> set walked_levels then conf_value L_Global t b else None)"
proof -
  have "conf_value lv t b = entry_value (cf_list b) lv t" for lv
    by (simp add: conf_value_def conf_get_def entry_value_def)
  then show ?thesis
    using copied_value [of "cf_list b" t level empty_Configurations] assms
    by (auto simp: setFromBase_def conf_ok_def all_global_first_def global_first_keys split: option.splits)
qed

lemma sets_keep:
  "conf_ok c \<Longrightarrow> conf_ok (fold (\<lambda>conf. set_from_conf (Some conf)) l c)"
  by (induction l arbitrary: c) (simp_all add: set_from_conf_def set_conf_distinct)

lemma starts_global_butlast: "starts_global (l @ r) \<Longrightarrow> starts_global l"
  by (cases l) (auto simp: starts_global_def)

lemma starts_global_member: "starts_global l \<Longrightarrow> l \<noteq> [] \<Longrightarrow> \<exists>x\<in>set l. fst x = L_Global"
  by (cases l) (auto simp: starts_global_def)

lemma copied_first:
  assumes "distinct (map conf_key l)" and "\<And>t. starts_global (filter (\<lambda>k. snd k = t) (map conf_key l))"
  shows "all_global_first (fold (\<lambda>conf. set_from_conf (Some conf)) l empty_Configurations)"
  using assms
proof (induction l rule: rev_induct)
  case (snoc conf l)
  let ?c = "fold (\<lambda>conf. set_from_conf (Some conf)) l empty_Configurations"
  have start: "starts_global (filter (\<lambda>k. snd k = t) (map conf_key l))" for t
    using snoc.prems(2) [of t] by (auto intro: starts_global_butlast)
  have "all_global_first ?c"
    using snoc.IH snoc.prems(1) start by simp
  moreover have "conf_value L_Global (c_type conf) ?c \<noteq> None" if "c_level conf \<noteq> L_Global"
  proof -
    let ?f = "filter (\<lambda>k. snd k = c_type conf) (map conf_key l)"
    have "starts_global (?f @ [(c_level conf, c_type conf)])"
      using snoc.prems(2) [of "c_type conf"] conf_key_def [of conf] by simp
    then have "?f \<noteq> []" using that by (auto simp: starts_global_def)
    then obtain k where "k \<in> set ?f" "fst k = L_Global"
      using starts_global_member [OF start] by blast
    then have "k \<in> conf_key ` set l" "k = (L_Global, c_type conf)"
      by (simp_all add: prod_eq_iff)
    then have "entry_value l L_Global (c_type conf) \<noteq> None" by (simp add: entry_value_None)
    then show ?thesis
      using copied_value [OF _ start, where level = L_Global and c = empty_Configurations] snoc.prems(1) by (auto split: option.splits)
  qed
  ultimately have "all_global_first (set_from_conf (Some conf) ?c)"
    unfolding set_from_conf_def option.case by (blast intro: set_conf_first)
  then show ?case by simp
qed (simp add: empty_first)

lemma setFromBase_first:
  "conf_ok b \<Longrightarrow> all_global_first b \<Longrightarrow> all_global_first (setFromBase (OtherConf b) empty_Configurations)"
  using copied_first [of "cf_list b"]
  by (simp add: setFromBase_def conf_ok_def all_global_first_def [of b] global_first_keys)

lemma setFromBase_ok: "conf_ok c \<Longrightarrow> conf_ok (setFromBase b c)"
  by (cases b) (simp_all add: setFromBase_def sets_keep)

lemma empty_ok: "conf_ok empty_Configurations"
  by (simp add: conf_ok_def empty_Configurations_def)

lemma setGlobally_ok: "conf_ok c \<Longrightarrow> conf_ok (setGlobally t v g c)"
proof -
  have "conf_ok c' \<Longrightarrow> conf_ok (fold (\<lambda>l. set_conf l t v) ls c')" for ls c'
    by (induction ls arbitrary: c') (simp_all add: set_conf_distinct)
  then show "conf_ok c \<Longrightarrow> ?thesis"
    by (simp add: setGlobally_def each_level_fold set_conf_distinct)
qed

lemma defaults_ok: "conf_ok (setToDefault empty_Configurations)"
  by (simp add: setToDefault_def Let_def set_conf_distinct setGlobally_ok empty_ok)

lemma entry_in_list:
  assumes "conf_ok c" and "conf \<in> set (cf_list c)"
  shows "conf_value (c_level conf) (c_type conf) c = Some (c_value conf)"
proof -
  have "distinct (map conf_key l) \<Longrightarrow> conf \<in> set l \<Longrightarrow> List.find (conf_predicate (c_level conf) (c_type conf)) l = Some conf" for l
    by (induction l) (force simp: conf_predicate_def conf_key_def)+
  then show ?thesis using assms by (simp add: conf_value_def conf_get_def conf_ok_def)
qed

section \<open>Building succeeds\<close>

text \<open>
  What a configuration needs so that no step of \<open>build\<close> leaves a map or a string: formats whose date
  is not only escaped, file names that can be resolved, and a file for every size limit.
\<close>

definition buildable :: "'f log_env \<Rightarrow> Configurations \<Rightarrow> bool" where
  "buildable env c \<longleftrightarrow>
     list_all (\<lambda>conf.
       (c_type conf = C_Format \<longrightarrow> mk_LogFormat (env_user env) (env_host env) (c_level conf) (c_value conf) \<noteq> None)
       \<and> (c_type conf = C_Filename \<longrightarrow> resolveFilename env (c_value conf) \<noteq> None)) (cf_list c)
     \<and> (list_ex (\<lambda>conf. c_type conf = C_MaxLogFileSize) (cf_list c)
        \<longrightarrow> list_ex (\<lambda>conf. c_type conf = C_Filename) (cf_list c))"

lemma build_confs_total:
  "list_all (\<lambda>conf. c_type conf = C_Format \<longrightarrow>
      mk_LogFormat (env_user env) (env_host env) (c_level conf) (c_value conf) \<noteq> None) confs
   \<Longrightarrow> \<exists>tc'. build_confs env confs tc = Some tc' \<and> m_filenameMap tc' = m_filenameMap tc \<and> m_fileStreamMap tc' = m_fileStreamMap tc"
proof (induction confs arbitrary: tc)
  case (Cons conf confs)
  have "\<exists>tc1. build_conf env conf tc = Some tc1 \<and> m_filenameMap tc1 = m_filenameMap tc \<and> m_fileStreamMap tc1 = m_fileStreamMap tc"
    using Cons.prems by (cases "c_type conf") (auto simp: build_conf_def Let_def)
  then obtain tc1 where 1: "build_conf env conf tc = Some tc1" "m_filenameMap tc1 = m_filenameMap tc"
    "m_fileStreamMap tc1 = m_fileStreamMap tc" by blast
  with Cons.IH [of tc1] Cons.prems show ?case by simp
qed simp

text \<open>Both file maps know the global level once they know any.\<close>

definition files_global :: "TypedConfigurations \<Rightarrow> bool" where
  "files_global tc \<longleftrightarrow> ordered (m_filenameMap tc) \<and> ordered (m_fileStreamMap tc)
     \<and> map_of (m_filenameMap tc) L_Global \<noteq> None \<and> map_of (m_fileStreamMap tc) L_Global \<noteq> None"

definition no_files :: "TypedConfigurations \<Rightarrow> bool" where
  "no_files tc \<longleftrightarrow> m_filenameMap tc = [] \<and> m_fileStreamMap tc = []"

lemma create_stream_total:
  assumes "files_global tc \<or> no_files tc \<and> level = L_Global"
  shows "\<exists>tc' w'. create_stream f level (tc, w) = Some (tc', w') \<and> files_global tc'"
proof -
  have ord: "ordered (m_filenameMap tc)" "ordered (m_fileStreamMap tc)"
    using assms by (auto simp: files_global_def no_files_def ordered_def)
  have upd: "files_global (tc\<lparr>m_filenameMap := map_insert level f (m_filenameMap tc),
      m_fileStreamMap := map_insert level fs (m_fileStreamMap tc)\<rparr>)" for fs
    using assms ord by (auto simp: files_global_def no_files_def map_of_insert ordered_insert)
  have off: "files_global tc' \<Longrightarrow> files_global (tc'\<lparr>m_toFileMap := m\<rparr>)" for tc' m
    by (simp add: files_global_def)
  have at: "\<exists>p. map_of (map_insert level fs (m_fileStreamMap tc)) level = Some p" for fs
    using ord by (cases "map_of (m_fileStreamMap tc) level") (auto simp: map_of_insert)
  show ?thesis
  proof (cases "map_of (w_reference w) f")
    case None
    obtain fs w1 where o: "open_stream f w = (fs, w1)" by (cases "open_stream f w")
    obtain p where p: "map_of (map_insert level fs (m_fileStreamMap tc)) level = Some p"
      using at by blast
    show ?thesis
      using upd [of fs] off by (auto simp: create_stream_def None o p Let_def)
  next
    case (Some fs)
    show ?thesis
      using upd [of fs] off by (auto simp: create_stream_def Some Let_def)
  qed
qed

lemma insertFile_total:
  assumes "resolveFilename env name \<noteq> None" and "files_global tc \<or> no_files tc"
  shows "\<exists>tc' w'. insertFile env level name (tc, w) = Some (tc', w') \<and> files_global tc'"
proof -
  obtain f where f: "resolveFilename env name = Some f" using assms(1) by auto
  have "(m_filenameMap tc = [] \<and> m_fileStreamMap tc = []) \<longleftrightarrow> no_files tc" by (simp add: no_files_def)
  then show ?thesis
    using create_stream_total [of tc "if no_files tc then L_Global else level" f] assms(2)
    by (auto simp: insertFile_def f Let_def)
qed

lemma build_files_total:
  "list_all (\<lambda>conf. c_type conf = C_Filename \<longrightarrow> resolveFilename env (c_value conf) \<noteq> None) confs
   \<Longrightarrow> files_global tc \<or> no_files tc
   \<Longrightarrow> \<exists>tc' w'. build_files env confs (tc, w) = Some (tc', w')
        \<and> (files_global tc' \<or> no_files tc' \<and> \<not> list_ex (\<lambda>conf. c_type conf = C_Filename) confs \<and> no_files tc)"
proof (induction confs arbitrary: tc w)
  case (Cons conf confs)
  show ?case
  proof (cases "c_type conf = C_Filename")
    case True
    then obtain tc1 w1 where 1: "insertFile env (c_level conf) (c_value conf) (tc, w) = Some (tc1, w1)" "files_global tc1"
      using insertFile_total [of env "c_value conf" tc "c_level conf" w] Cons.prems by auto
    have "\<not> no_files tc1" using 1(2) by (auto simp: files_global_def no_files_def)
    with Cons.IH [of tc1 w1] Cons.prems(1) 1 True show ?thesis by auto
  next
    case False
    with Cons.IH [of tc w] Cons.prems show ?thesis by auto
  qed
qed auto

lemma rolling_total:
  "files_global tc \<Longrightarrow> \<exists>w'. build_rolling confs tc w = Some w'"
proof (induction confs arbitrary: w)
  case (Cons conf confs)
  have "\<exists>b w'. unsafeValidateFileRolling (c_level conf) defaultPreRollOutCallback (tc, w) = Some (b, w')"
    using Cons.prems
    by (auto simp: unsafeValidateFileRolling_def files_global_def unsafeGetConfigByRef_def Let_def split: option.splits)
  with Cons show ?case by auto
qed simp

lemma build_total:
  assumes "buildable env c"
  shows "\<exists>tc w'. mk_TypedConfigurations env c w = Some (tc, w')
    \<and> (list_ex (\<lambda>conf. c_type conf = C_Filename) (cf_list c) \<longrightarrow> files_global tc)"
proof -
  obtain tc1 where 1: "build_confs env (cf_list c) empty_typed = Some tc1" "no_files tc1"
    using build_confs_total [of env "cf_list c" empty_typed] assms
    by (auto simp: buildable_def list_all_iff empty_typed_def no_files_def)
  obtain tc2 w2 where 2: "build_files env (cf_list c) (tc1, w) = Some (tc2, w2)"
    "files_global tc2 \<or> \<not> list_ex (\<lambda>conf. c_type conf = C_Filename) (cf_list c)"
    using build_files_total [of env "cf_list c" tc1 w] 1 assms by (auto simp: buildable_def list_all_iff)
  let ?sized = "filter (\<lambda>conf. c_type conf = C_MaxLogFileSize) (cf_list c)"
  have "\<exists>w3. build_rolling ?sized tc2 w2 = Some w3"
  proof (cases "?sized = []")
    case False
    then have "list_ex (\<lambda>conf. c_type conf = C_MaxLogFileSize) (cf_list c)"
      by (auto simp: filter_empty_conv list_ex_iff)
    then have "files_global tc2" using 2(2) assms by (auto simp: buildable_def)
    then show ?thesis by (rule rolling_total)
  qed simp
  then show ?thesis
    using 1 2 by (auto simp: mk_TypedConfigurations_def build_def Let_def)
qed

text \<open>A sample environment, with a file system in which every path exists and every file opens.\<close>

definition sample_env :: "unit log_env" where
  "sample_env = \<lparr>env_user = ''user'', env_host = ''host'', env_localtime = (\<lambda>_. sample_tm),
     env_now = \<lparr>tv_sec = 0, tv_usec = 0\<rparr>,
     env_fs = \<lparr>fs_exists = (\<lambda>path _. True), fs_mkdir = (\<lambda>path d. (0, d))\<rparr>\<rparr>"

definition sample_world :: "unit log_world" where
  "sample_world = \<lparr>w_files = \<lparr>can_open = (\<lambda>_. True), contents = (\<lambda>_. None)\<rparr>, w_streams = empty_heap,
     w_reference = [], w_dirs = ()\<rparr>"

definition sample_conf :: Configurations where
  "sample_conf = set_conf L_Debug C_Enabled ''false'' (set_conf L_Global C_Enabled ''true'' empty_Configurations)"

lemma sample_conf_facts: "conf_ok sample_conf" "all_global_first sample_conf"
proof -
  show "conf_ok sample_conf" by (simp add: sample_conf_def set_conf_distinct empty_ok)
  show "all_global_first sample_conf"
    unfolding sample_conf_def by (intro set_conf_first) (simp_all add: empty_first set_conf_lookup)
qed

lemma sample_conf_list:
  "map conf_key (cf_list sample_conf) = map (\<lambda>l. (l, C_Enabled)) (L_Global # walked_levels)"
  by (simp add: sample_conf_def set_conf_def unsafeSet_def unsafeSetGlobally_value each_level_fold Let_def
      walked_levels_def put_conf_def conf_get_def conf_predicate_def conf_registerNew_def mk_Configuration_def
      empty_Configurations_def conf_key_def setValue_def)

lemma build_enabled_only:
  assumes "\<forall>c\<in>set confs. c_type c = C_Enabled"
  shows "\<exists>tc'. build_confs env confs tc = Some tc'" and "build_files env confs s = Some s"
    and "filter (\<lambda>c. c_type c = C_MaxLogFileSize) confs = []"
proof -
  show "\<exists>tc'. build_confs env confs tc = Some tc'"
    using assms by (induction confs arbitrary: tc) (auto simp: build_conf_def)
  show "build_files env confs s = Some s"
    using assms by (induction confs) auto
  show "filter (\<lambda>c. c_type c = C_MaxLogFileSize) confs = []"
    using assms by (auto simp: filter_empty_conv)
qed


text \<open>
  The configurations that lose a value in \<open>setRemainingToDefault\<close> would lose it here too: a first entry
  for a single level becomes the global value. The format of an entry that is assigned anew stays
  the old one.
\<close>

lemma first_entry_becomes_global:
  "unsafeGetConfigByVal True L_Info (tc_sets overwrite [(L_Debug, False)] []) = False"
  by (simp add: tc_sets_def tc_setValue_def overwrite_def unsafeGetConfigByVal_def)

lemma assigned_format_stale:
  "map_option lf_format (unsafeGetConfigByRef L_Global
      (tc_sets assign_LogFormat [(L_Debug, f), (L_Global, g)] [])) = (if f = g then Some (lf_format g) else Some (lf_format f))"
  by (simp add: tc_sets_def tc_setValue_def unsafeGetConfigByRef_def assign_keeps_format)

end
