(* ===== verification/ElComplete.thy ===== *)
theory ElComplete
  imports ElTyped
begin

text \<open>
  Complete configurations: every type of the enumeration is configured for the global level, each value
  can be used, and the repository lists the global level first. Setting a usable value keeps a
  repository complete, copying a complete one yields a complete one, and typed configurations
  that are built from one hold everything a logger reads.
\<close>

section \<open>Usable values\<close>

definition known_configs :: "ConfigurationType list" where
  "known_configs = walked_configs @ [C_LogFlushThreshold]"

lemmas known_configs_list = known_configs_def walked_configs_def

text \<open>A format whose date is not only escaped, and a file name whose date can be filled in.\<close>

definition value_ok :: "'f log_env \<Rightarrow> ConfigurationType \<Rightarrow> string \<Rightarrow> bool" where
  "value_ok env t v \<longleftrightarrow> t \<in> set known_configs
     \<and> (t = C_Format \<longrightarrow> mk_LogFormat (env_user env) (env_host env) L_Global v \<noteq> None)
     \<and> (t = C_Filename \<longrightarrow> resolveFilename env v \<noteq> None)"

definition values_ok :: "'f log_env \<Rightarrow> Configuration list \<Rightarrow> bool" where
  "values_ok env confs \<longleftrightarrow> list_all (\<lambda>conf. value_ok env (c_type conf) (c_value conf)) confs"

lemma values_ok_list [simp]:
  "values_ok env []" "values_ok env (conf # confs) \<longleftrightarrow> value_ok env (c_type conf) (c_value conf) \<and> values_ok env confs"
  "values_ok env (confs @ confs') \<longleftrightarrow> values_ok env confs \<and> values_ok env confs'"
  by (simp_all add: values_ok_def)

text \<open>Whether a format can be parsed does not depend on the level, the user or the host.\<close>

lemma mk_LogFormat_None:
  "mk_LogFormat user host level v = None \<longleftrightarrow>
     occurs (specifier_text Sp_DateTime) v \<and> \<not> unescaped (specifier_text Sp_DateTime) v"
  using parseFromFormat_cases [where user = user and host = host and userFormat = v
      and f = "empty_LogFormat\<lparr>lf_level := level, lf_userFormat := v\<rparr>" and sp = Sp_App]
  by (auto simp: mk_LogFormat_def simp del: specifier_text.simps split: option.splits)

lemma mk_LogFormat_any: "mk_LogFormat user host level v = None \<longleftrightarrow> mk_LogFormat user' host' level' v = None"
  by (simp add: mk_LogFormat_None)

lemma set_first_values:
  "values_ok env l \<Longrightarrow> value_ok env t v \<Longrightarrow> values_ok env (set_first level t v l)"
  by (induction l) (auto simp: setValue_def conf_predicate_def)

lemma put_conf_values:
  "values_ok env (cf_list c) \<Longrightarrow> value_ok env t v \<Longrightarrow> values_ok env (cf_list (put_conf level t v c))"
  by (simp add: put_conf_def conf_registerNew_def mk_Configuration_def set_first_values)

lemma puts_values:
  "values_ok env (cf_list c) \<Longrightarrow> value_ok env t v \<Longrightarrow> values_ok env (cf_list (fold (\<lambda>l. put_conf l t v) ls c))"
  by (induction ls arbitrary: c) (simp_all add: put_conf_values)

lemma set_conf_values:
  "values_ok env (cf_list c) \<Longrightarrow> value_ok env t v \<Longrightarrow> values_ok env (cf_list (set_conf level t v c))"
  by (simp add: set_conf_def unsafeSet_def unsafeSetGlobally_value each_level_fold Let_def puts_values put_conf_values)

section \<open>Completeness\<close>

definition complete_conf :: "'f log_env \<Rightarrow> Configurations \<Rightarrow> bool" where
  "complete_conf env c \<longleftrightarrow> conf_ok c \<and> values_ok env (cf_list c) \<and> all_global_first c
     \<and> list_all (\<lambda>t. conf_value L_Global t c \<noteq> None) known_configs"

lemma complete_value: "complete_conf env c \<Longrightarrow> value_ok env t v \<Longrightarrow> conf_value L_Global t c \<noteq> None"
  by (auto simp: complete_conf_def value_ok_def list_all_iff)

lemma complete_set:
  assumes "complete_conf env c" and "value_ok env t v"
  shows "complete_conf env (set_conf level t v c)"
  using assms complete_value [OF assms]
  by (auto simp: complete_conf_def set_conf_distinct set_conf_values set_conf_first set_conf_lookup list_all_iff)

lemma complete_sets: "complete_conf env c \<Longrightarrow> value_ok env t v \<Longrightarrow> complete_conf env (fold (\<lambda>l. set_conf l t v) ls c)"
  by (induction ls arbitrary: c) (simp_all add: complete_set)

lemma complete_globally:
  "complete_conf env c \<Longrightarrow> value_ok env t v \<Longrightarrow> complete_conf env (setGlobally t v g c)"
  by (simp add: setGlobally_def each_level_fold complete_sets complete_set)

lemma complete_from:
  "complete_conf env c \<Longrightarrow> values_ok env l \<Longrightarrow> complete_conf env (fold (\<lambda>conf. set_from_conf (Some conf)) l c)"
  by (induction l arbitrary: c) (simp_all add: set_from_conf_def complete_set)

lemma complete_base:
  "complete_conf env c \<Longrightarrow> values_ok env (case base of OtherConf b \<Rightarrow> cf_list b | _ \<Rightarrow> [])
     \<Longrightarrow> complete_conf env (setFromBase base c)"
  by (cases base) (simp_all add: setFromBase_def complete_from)

text \<open>A complete repository is copied into an empty one.\<close>

lemma values_copied:
  "values_ok env (cf_list c) \<Longrightarrow> values_ok env l
     \<Longrightarrow> values_ok env (cf_list (fold (\<lambda>conf. set_from_conf (Some conf)) l c))"
  by (induction l arbitrary: c) (simp_all add: set_from_conf_def set_conf_values)

lemma complete_copied:
  assumes "complete_conf env b"
  shows "complete_conf env (setFromBase (OtherConf b) empty_Configurations)"
proof -
  have b: "conf_ok b" "values_ok env (cf_list b)" "all_global_first b"
    using assms by (simp_all add: complete_conf_def)
  have "values_ok env (cf_list (setFromBase (OtherConf b) empty_Configurations))"
    using values_copied [of env empty_Configurations "cf_list b"] b
    by (simp add: setFromBase_def empty_Configurations_def)
  moreover have "conf_value L_Global t (setFromBase (OtherConf b) empty_Configurations) \<noteq> None"
    if "t \<in> set known_configs" for t
    using that assms setFromBase_value [OF b(1,3), of L_Global t]
    by (auto simp: complete_conf_def list_all_iff split: option.splits)
  ultimately show ?thesis
    using b by (simp add: complete_conf_def setFromBase_first setFromBase_ok empty_ok list_all_iff)
qed

text \<open>The defaults.\<close>

lemma default_formats:
  "value_ok env C_Format format_default" "value_ok env C_Format format_debug"
  "value_ok env C_Format format_verbose" "value_ok env C_Format format_trace"
proof -
  have "unescaped (specifier_text Sp_DateTime) (specifier_text Sp_DateTime @ s)" for s
    by (auto simp: unescaped_def simp del: specifier_text.simps)
  then have "value_ok env C_Format (specifier_text Sp_DateTime @ s)" for s
    by (simp add: value_ok_def known_configs_list mk_LogFormat_None del: specifier_text.simps)
  from this [of "drop 9 v" for v] have dated: "take 9 v = specifier_text Sp_DateTime \<Longrightarrow> value_ok env C_Format v" for v
    by (metis append_take_drop_id)
  show "value_ok env C_Format format_default" "value_ok env C_Format format_debug"
    "value_ok env C_Format format_verbose" "value_ok env C_Format format_trace"
    by (simp_all add: dated format_default_def format_debug_def format_verbose_def format_trace_def)
qed

lemma default_filename: "value_ok env C_Filename kDefaultLogFile"
proof -
  have "str_find kDefaultLogFile (specifier_text Sp_DateTime) 0 = None" by code_simp
  then show ?thesis by (simp add: value_ok_def known_configs_list resolveFilename_def)
qed

lemma default_others: "t \<in> set known_configs \<Longrightarrow> t \<noteq> C_Format \<Longrightarrow> t \<noteq> C_Filename \<Longrightarrow> value_ok env t v"
  by (simp add: value_ok_def)

lemma values_globally:
  "values_ok env (cf_list c) \<Longrightarrow> value_ok env t v \<Longrightarrow> values_ok env (cf_list (setGlobally t v g c))"
proof -
  have "values_ok env (cf_list c') \<Longrightarrow> value_ok env t v \<Longrightarrow> values_ok env (cf_list (fold (\<lambda>l. set_conf l t v) ls c'))" for ls c'
    by (induction ls arbitrary: c') (simp_all add: set_conf_values)
  then show "values_ok env (cf_list c) \<Longrightarrow> value_ok env t v \<Longrightarrow> ?thesis"
    by (simp add: setGlobally_def each_level_fold set_conf_values)
qed

lemma defaults_complete: "complete_conf env (setToDefault empty_Configurations)"
proof -
  have "values_ok env (cf_list (setToDefault empty_Configurations))"
    unfolding setToDefault_def Let_def
    by (intro set_conf_values values_globally default_formats default_filename default_others)
      (simp_all add: empty_Configurations_def known_configs_list)
  moreover have "list_all (\<lambda>t. conf_value L_Global t (setToDefault empty_Configurations) \<noteq> None) known_configs"
    by (simp add: setToDefault_def Let_def known_configs_list set_conf_lookup setGlobally_value)
  ultimately show ?thesis
    by (simp add: complete_conf_def defaults_ok defaults_first)
qed

section \<open>Typed configurations of a complete repository\<close>

definition typed_ready :: "TypedConfigurations \<Rightarrow> bool" where
  "typed_ready tc \<longleftrightarrow> files_global tc \<and> map_of (m_millisecondsWidthMap tc) L_Global \<noteq> None
     \<and> list_all (\<lambda>level. tc_logFormat level tc \<noteq> None) walked_levels"

lemma complete_type: "complete_conf env c \<Longrightarrow> t \<in> set known_configs \<Longrightarrow> list_ex (\<lambda>conf. c_type conf = t) (cf_list c)"
proof -
  assume "complete_conf env c" "t \<in> set known_configs"
  then have "conf_value L_Global t c \<noteq> None"
    by (auto simp: complete_conf_def list_all_iff)
  then show "list_ex (\<lambda>conf. c_type conf = t) (cf_list c)"
    by (auto simp: conf_value_def conf_get_def find_None_iff conf_predicate_def list_ex_iff)
qed

lemma complete_buildable: "complete_conf env c \<Longrightarrow> buildable env c"
proof -
  assume c: "complete_conf env c"
  have "mk_LogFormat (env_user env) (env_host env) (c_level conf) v = None
      \<longleftrightarrow> mk_LogFormat (env_user env) (env_host env) L_Global v = None" for conf v
    by (rule mk_LogFormat_any)
  then show "buildable env c"
    using c complete_type [OF c, of C_Filename]
    by (auto simp: buildable_def complete_conf_def values_ok_def value_ok_def list_all_iff known_configs_list
        simp del: not_None_eq)
qed

lemma build_confs_width:
  "build_confs env confs tc = Some tc' \<Longrightarrow>
     list_ex (\<lambda>conf. c_type conf = C_MillisecondsWidthType) confs \<or> map_of (m_millisecondsWidthMap tc) L_Global \<noteq> None
   \<Longrightarrow> map_of (m_millisecondsWidthMap tc') L_Global \<noteq> None"
proof (induction confs arbitrary: tc)
  case (Cons conf confs)
  obtain tc1 where tc1: "build_conf env conf tc = Some tc1" "build_confs env confs tc1 = Some tc'"
    using Cons.prems(1) by (auto split: bind_splits)
  have set: "map_of (tc_setValue overwrite L_Global v True m) L_Global \<noteq> None" for v :: MillisecondsWidth and m
  proof -
    have "map_of m L_Global = None \<or> L_Global \<in> fst ` set m" by (auto simp: map_of_eq_None_iff)
    moreover have "map_of (map (\<lambda>(l, old). if l = L_Global then (l, overwrite old v) else (l, old)) m) L_Global \<noteq> None"
      if "L_Global \<in> fst ` set m"
      using that by (auto simp: map_of_eq_None_iff image_iff split: if_splits) force
    moreover have "map_of (map_insert L_Global v m) L_Global \<noteq> None"
    proof (induction m)
      case (Cons e m)
      then show ?case by (cases e) (auto simp del: not_None_eq)
    qed simp
    ultimately show ?thesis
      by (auto simp: tc_setValue_def simp del: not_None_eq)
  qed
  have "list_ex (\<lambda>conf. c_type conf = C_MillisecondsWidthType) confs \<or> map_of (m_millisecondsWidthMap tc1) L_Global \<noteq> None"
    using Cons.prems(2) tc1(1) set
    by (cases "c_type conf") (auto simp: build_conf_def Let_def split: bind_splits)
  with Cons.IH [OF tc1(2)] show ?case by blast
qed simp

lemma build_ready:
  assumes c: "complete_conf env c"
  shows "\<exists>tc w'. mk_TypedConfigurations env c w = Some (tc, w') \<and> typed_ready tc"
proof -
  obtain tc w' where tc: "mk_TypedConfigurations env c w = Some (tc, w')" "files_global tc"
    using build_total [OF complete_buildable [OF c], of w] complete_type [OF c, of C_Filename]
    by (auto simp: known_configs_list)
  have ok: "conf_ok c" "\<forall>t. global_first t c"
    using c by (auto simp: complete_conf_def all_global_first_def)
  obtain tc1 w1 where tc1: "build_confs env (cf_list c) empty_typed = Some tc1"
    and "build_files env (cf_list c) (tc1, w) = Some (tc, w1)"
    using tc(1) by (auto simp: mk_TypedConfigurations_def build_def Let_def split: bind_splits prod.splits)
  then have "m_millisecondsWidthMap tc = m_millisecondsWidthMap tc1"
    using build_files_frame [of env "cf_list c" tc1 w tc w1] by (simp add: same_values_def)
  then have width: "map_of (m_millisecondsWidthMap tc) L_Global \<noteq> None"
    using build_confs_width [OF tc1] complete_type [OF c, of C_MillisecondsWidthType] by (simp add: known_configs_list)
  have "tc_logFormat level tc \<noteq> None" for level
  proof -
    have "conf_get L_Global C_Format c \<noteq> None"
      using c by (auto simp: complete_conf_def known_configs_list conf_value_def)
    then obtain conf where conf: "configured C_Format level c = Some conf"
      by (cases "conf_get level C_Format c") (auto simp: configured_def)
    then have "conf \<in> set (cf_list c)" "c_type conf = C_Format"
      by (auto simp: configured_def conf_get_def find_Some_iff conf_predicate_def split: option.splits)
    then have "mk_LogFormat (env_user env) (env_host env) (c_level conf) (c_value conf) \<noteq> None"
      using complete_buildable [OF c] by (auto simp: buildable_def list_all_iff)
    then show ?thesis
      using typed_values [OF tc(1) ok, of level] conf by simp
  qed
  with tc width show ?thesis by (auto simp: typed_ready_def list_all_iff)
qed

end
