(* ===== verification/ElHit.thy ===== *)
theory ElHit
  imports ElRegistry
begin

text \<open>
  Hit counters for occasional logging (\<open>easylogging.h\<close>, lines 3222 to 3357): the counter of a source
  location, its registry on the pointer model of \<open>ElRegistry\<close>, and the three validations. Counts
  are 64-bit words.
\<close>

section \<open>Counters\<close>

record HitCounter =
  hc_filename :: string
  hc_lineNumber :: "64 word"
  hc_hitCounts :: "64 word"

definition mk_HitCounter :: "string \<Rightarrow> 64 word \<Rightarrow> HitCounter" where
  "mk_HitCounter filename lineNumber = \<lparr>hc_filename = filename, hc_lineNumber = lineNumber, hc_hitCounts = 0\<rparr>"

definition assign_HitCounter :: "HitCounter \<Rightarrow> HitCounter \<Rightarrow> HitCounter" where
  "assign_HitCounter c other = c\<lparr>hc_filename := hc_filename other, hc_lineNumber := hc_lineNumber other,
     hc_hitCounts := hc_hitCounts other\<rparr>"

definition resetLocation :: "string \<Rightarrow> 64 word \<Rightarrow> HitCounter \<Rightarrow> HitCounter" where
  "resetLocation filename lineNumber c = c\<lparr>hc_filename := filename, hc_lineNumber := lineNumber\<rparr>"

definition validateHitCounts :: "64 word \<Rightarrow> HitCounter \<Rightarrow> HitCounter" where
  "validateHitCounts n c =
     (let m = of_nat kMaxLogPerCounter :: 64 word;
          c = (if m \<le> hc_hitCounts c then c\<lparr>hc_hitCounts := (if 1 \<le> n then m mod n else 0)\<rparr> else c)
      in c\<lparr>hc_hitCounts := hc_hitCounts c + 1\<rparr>)"

definition hc_increment :: "HitCounter \<Rightarrow> HitCounter" where
  "hc_increment c = c\<lparr>hc_hitCounts := hc_hitCounts c + 1\<rparr>"

definition hc_predicate :: "string \<Rightarrow> 64 word \<Rightarrow> HitCounter option \<Rightarrow> bool" where
  "hc_predicate filename lineNumber counter =
     (case counter of None \<Rightarrow> False
      | Some c \<Rightarrow> hc_filename c = filename \<and> hc_lineNumber c = lineNumber)"

section \<open>Validations\<close>

type_synonym hit_registry = "pointers \<times> HitCounter heap"

text \<open>A write through a pointer.\<close>

definition update_obj :: "nat option \<Rightarrow> ('a \<Rightarrow> 'a) \<Rightarrow> 'a heap \<Rightarrow> 'a heap option" where
  "update_obj p g h = do { a \<leftarrow> p; x \<leftarrow> cells h a; Some (h\<lparr>cells := (cells h)(a \<mapsto> g x)\<rparr>) }"

definition the_counter :: "nat option \<Rightarrow> HitCounter heap \<Rightarrow> HitCounter option" where
  "the_counter p h = do { c \<leftarrow> deref p h; c }"

text \<open>The first statements of every validation: the counter of the location, a new one if there is none.\<close>

definition find_or_register :: "string \<Rightarrow> 64 word \<Rightarrow> hit_registry \<Rightarrow> (nat option \<times> hit_registry) option" where
  "find_or_register filename lineNumber r =
     do { counter \<leftarrow> rp_get (hc_predicate filename lineNumber) (fst r) (snd r);
          Some (if counter = None then
                  (let (counter, h) = new_obj (mk_HitCounter filename lineNumber) (snd r)
                   in (counter, rp_registerNew counter (fst r), h))
                else (counter, r)) }"

definition validateEveryN :: "string \<Rightarrow> 64 word \<Rightarrow> 64 word \<Rightarrow> hit_registry \<Rightarrow> (bool \<times> hit_registry) option" where
  "validateEveryN filename lineNumber n r =
     do { (counter, ps, h) \<leftarrow> find_or_register filename lineNumber r;
          h \<leftarrow> update_obj counter (validateHitCounts n) h;
          c \<leftarrow> the_counter counter h;
          Some (1 \<le> n \<and> hc_hitCounts c \<noteq> 0 \<and> hc_hitCounts c mod n = 0, ps, h) }"

definition validateAfterN :: "string \<Rightarrow> 64 word \<Rightarrow> 64 word \<Rightarrow> hit_registry \<Rightarrow> (bool \<times> hit_registry) option" where
  "validateAfterN filename lineNumber n r =
     do { (counter, ps, h) \<leftarrow> find_or_register filename lineNumber r;
          c \<leftarrow> the_counter counter h;
          if n \<le> hc_hitCounts c then Some (True, ps, h)
          else do { h \<leftarrow> update_obj counter hc_increment h; Some (False, ps, h) } }"

definition validateNTimes :: "string \<Rightarrow> 64 word \<Rightarrow> 64 word \<Rightarrow> hit_registry \<Rightarrow> (bool \<times> hit_registry) option" where
  "validateNTimes filename lineNumber n r =
     do { (counter, ps, h) \<leftarrow> find_or_register filename lineNumber r;
          h \<leftarrow> update_obj counter hc_increment h;
          c \<leftarrow> the_counter counter h;
          Some (hc_hitCounts c \<le> n, ps, h) }"

definition getCounter :: "string \<Rightarrow> 64 word \<Rightarrow> hit_registry \<Rightarrow> nat option option" where
  "getCounter filename lineNumber r = rp_get (hc_predicate filename lineNumber) (fst r) (snd r)"

section \<open>The count of a location\<close>

definition at_location :: "string \<times> 64 word \<Rightarrow> HitCounter \<Rightarrow> bool" where
  "at_location loc c \<longleftrightarrow> hc_filename c = fst loc \<and> hc_lineNumber c = snd loc"

definition hit_count :: "hit_registry \<Rightarrow> string \<times> 64 word \<Rightarrow> 64 word" where
  "hit_count r loc = (case List.find (at_location loc) (rp_contents r) of None \<Rightarrow> 0 | Some c \<Rightarrow> hc_hitCounts c)"

lemma hc_predicate_at: "hc_predicate f l (Some c) = at_location (f, l) c"
  by (simp add: hc_predicate_def at_location_def)

lemma rp_find_append:
  "owns ps h \<Longrightarrow> rp_find P (ps @ qs) h =
     do { p \<leftarrow> rp_find P ps h; if p = None then rp_find P qs h else Some p }"
proof (induction ps)
  case (Cons p ps)
  have "owns ps h" using Cons.prems by (auto simp: owns_def)
  moreover obtain a x where "p = Some a" "cells h a = Some x"
    using Cons.prems by (auto simp: owns_def)
  ultimately show ?case using Cons.IH by (simp add: deref_def)
qed simp

lemma rp_find_cong: "(\<And>p. p \<in> set ps \<Longrightarrow> deref p h' = deref p h) \<Longrightarrow> rp_find P ps h' = rp_find P ps h"
  by (induction ps) (auto split: bind_splits)

lemma rp_find_in: "rp_find P ps h = Some p \<Longrightarrow> p \<noteq> None \<Longrightarrow> p \<in> set ps"
  by (induction ps) (auto split: bind_splits if_splits)

lemma update_obj_value:
  assumes own: "owns ps h" and p: "p \<in> set ps" and c: "deref p h = Some (Some c)"
  obtains h' where "update_obj p g h = Some h'" and "owns ps h'" and "deref p h' = Some (Some (g c))"
    and "\<And>q. q \<noteq> p \<Longrightarrow> deref q h' = deref q h"
proof -
  obtain a where a: "p = Some a" "cells h a = Some c"
    using own p c by (auto simp: owns_def deref_def)
  show ?thesis
  proof
    show "update_obj p g h = Some (h\<lparr>cells := (cells h)(a \<mapsto> g c)\<rparr>)"
      by (simp add: update_obj_def a)
    show "owns ps (h\<lparr>cells := (cells h)(a \<mapsto> g c)\<rparr>)"
      using own a by (force simp: owns_def heap_ok_def)
  qed (auto simp: deref_def a split: option.splits)
qed

lemma contents_update_other:
  assumes "\<And>q. q \<noteq> p \<Longrightarrow> deref q h' = deref q h" and "deref p h = Some (Some c)"
    and "deref p h' = Some (Some c')" and "\<not> Q c" and "\<not> Q c'"
  shows "List.find Q (contents_of ps h') = List.find Q (contents_of ps h)"
proof (induction ps)
  case (Cons q ps)
  then show ?case using assms by (cases "q = p") (auto simp: contents_of_def)
qed (simp add: contents_of_def)

lemma rp_find_update:
  assumes "\<And>q. q \<noteq> p \<Longrightarrow> deref q h' = deref q h" and "deref p h' = Some (Some c')" and "P (Some c')"
    and "p \<noteq> None"
  shows "rp_find P ps h = Some p \<Longrightarrow> rp_find P ps h' = Some p"
proof (induction ps)
  case (Cons q ps)
  then show ?case using assms by (cases "q = p") (auto split: bind_splits if_splits)
qed (use assms in simp)

lemma find_none_append: "List.find Q xs = None \<Longrightarrow> List.find Q (xs @ [x]) = (if Q x then Some x else None)"
  by (induction xs) (auto split: if_splits)

lemma find_append_other: "\<not> Q x \<Longrightarrow> List.find Q (xs @ [x]) = List.find Q xs"
  by (induction xs) simp_all

text \<open>What a validation finds, and what a write to that counter does: a change of one count.\<close>

lemma find_or_register_value:
  assumes ok: "rp_ok r"
  obtains p r' c where "find_or_register (fst loc) (snd loc) r = Some (p, r')" and "rp_ok r'"
    and "p \<noteq> None" and "deref p (snd r') = Some (Some c)" and "at_location loc c"
    and "rp_find (hc_predicate (fst loc) (snd loc)) (fst r') (snd r') = Some p"
    and "hc_hitCounts c = hit_count r loc" and "hit_count r' = hit_count r"
proof -
  obtain ps h where r: "r = (ps, h)" by (cases r)
  have own: "owns ps h" using ok by (simp add: rp_ok_def r)
  let ?P = "hc_predicate (fst loc) (snd loc)"
  have pred: "(\<lambda>x. ?P (Some x)) = at_location loc"
    by (simp add: hc_predicate_at fun_eq_iff)
  obtain p where p: "rp_find ?P ps h = Some p" "deref p h = Some (List.find (at_location loc) (contents_of ps h))"
    using rp_find_list [OF own, of ?P] by (auto simp: pred)
  show ?thesis
  proof (cases "p = None")
    case False
    then obtain c where c: "deref p h = Some (Some c)"
      using owns_deref [OF own] rp_find_in [OF p(1)] by blast
    with p have "List.find (at_location loc) (contents_of ps h) = Some c" by simp
    then have "at_location loc c" and "hit_count r loc = hc_hitCounts c"
      by (metis find_Some_iff) (simp add: hit_count_def rp_contents_def r \<open>List.find _ _ = Some c\<close>)
    moreover from False obtain a where "p = Some a" by auto
    ultimately show ?thesis
      using ok p c by (intro that [of p r c]) (simp_all add: find_or_register_def rp_get_def r)
  next
    case True
    let ?c = "mk_HitCounter (fst loc) (snd loc)"
    obtain q h' where new: "new_obj ?c h = (q, h')" by (cases "new_obj ?c h")
    have r': "rp_add ?c r = (ps @ [q], h')" by (simp add: rp_add_def r new rp_registerNew_def)
    have q: "deref q h' = Some (Some ?c)" "q \<noteq> None"
      using deref_new [of ?c h] new by (auto simp: new_obj_def)
    have none: "List.find (at_location loc) (contents_of ps h) = None"
      using True p by (simp add: deref_def)
    have contents: "contents_of (ps @ [q]) h' = contents_of ps h @ [?c]"
      using rp.add_contents [OF ok, of ?c] unfolding r' by (simp add: r rp_contents_def)
    have at: "at_location loc ?c" by (simp add: at_location_def mk_HitCounter_def)
    have "rp_find ?P ps h' = Some None"
      using owns_new(3) [OF own, of _ ?c] new p(1) True by (subst rp_find_cong [of _ _ h]) auto
    moreover have "owns ps h'"
      using rp.add_ok [OF ok, of ?c] by (auto simp: rp_ok_def r' owns_def)
    ultimately have "rp_find ?P (ps @ [q]) h' = Some q"
      using q at by (simp add: rp_find_append hc_predicate_at)
    moreover have "hit_count (ps @ [q], h') = hit_count r"
    proof
      fix loc'
      show "hit_count (ps @ [q], h') loc' = hit_count r loc'"
      proof (cases "loc' = loc")
        case True
        then show ?thesis
          using at none by (simp add: hit_count_def contents find_none_append r rp_contents_def mk_HitCounter_def)
      next
        case False
        then have "\<not> at_location loc' ?c"
          by (auto simp: at_location_def mk_HitCounter_def prod_eq_iff)
        then show ?thesis by (simp add: hit_count_def contents find_append_other r rp_contents_def)
      qed
    qed
    moreover have "rp_ok (ps @ [q], h')"
      using rp.add_ok [OF ok, of ?c] by (simp add: r')
    moreover have "find_or_register (fst loc) (snd loc) r = Some (q, ps @ [q], h')"
      using p True by (simp add: find_or_register_def rp_get_def r new rp_registerNew_def)
    moreover have "hc_hitCounts ?c = hit_count r loc"
      using none by (simp add: hit_count_def rp_contents_def r mk_HitCounter_def)
    ultimately show ?thesis
      using q at by (intro that [of q "(ps @ [q], h')" ?c]) simp_all
  qed
qed

lemma counter_update:
  assumes ok: "rp_ok (ps, h)" and p: "rp_find (hc_predicate (fst loc) (snd loc)) ps h = Some p" "p \<noteq> None"
    and c: "deref p h = Some (Some c)" "at_location loc c" and g: "at_location loc (g c)"
  obtains h' where "update_obj p g h = Some h'" and "rp_ok (ps, h')" and "the_counter p h' = Some (g c)"
    and "hit_count (ps, h') = (hit_count (ps, h))(loc := hc_hitCounts (g c))"
proof -
  let ?P = "hc_predicate (fst loc) (snd loc)"
  have own: "owns ps h" using ok by (simp add: rp_ok_def)
  obtain h' where h': "update_obj p g h = Some h'" "owns ps h'" "deref p h' = Some (Some (g c))"
    "\<And>q. q \<noteq> p \<Longrightarrow> deref q h' = deref q h"
    using update_obj_value [OF own rp_find_in [OF p] c(1)] by blast
  have "rp_find ?P ps h' = Some p"
    using rp_find_update [OF h'(4,3) _ p(2) p(1)] g by (simp add: hc_predicate_at)
  then have here: "List.find (at_location loc) (contents_of ps h') = Some (g c)"
    using rp_find_list [OF h'(2), of ?P] h'(3) by (simp add: hc_predicate_at)
  have "hit_count (ps, h') loc' = ((hit_count (ps, h))(loc := hc_hitCounts (g c))) loc'" for loc'
  proof (cases "loc' = loc")
    case True
    then show ?thesis using here by (simp add: hit_count_def rp_contents_def)
  next
    case False
    then have "\<not> at_location loc' c" "\<not> at_location loc' (g c)"
      using c(2) g by (auto simp: at_location_def prod_eq_iff)
    then show ?thesis
      using False contents_update_other [OF h'(4) c(1) h'(3)] by (simp add: hit_count_def rp_contents_def)
  qed
  then have "hit_count (ps, h') = (hit_count (ps, h))(loc := hc_hitCounts (g c))" by blast
  then show ?thesis
    using h' by (intro that [of h']) (auto simp: the_counter_def rp_ok_def)
qed

section \<open>Counting\<close>

datatype hit_kind = EveryN | AfterN | NTimes

definition validate :: "hit_kind \<Rightarrow> string \<times> 64 word \<Rightarrow> 64 word \<Rightarrow> hit_registry \<Rightarrow> (bool \<times> hit_registry) option" where
  "validate k loc n r = (case k of
     EveryN \<Rightarrow> validateEveryN (fst loc) (snd loc) n r
   | AfterN \<Rightarrow> validateAfterN (fst loc) (snd loc) n r
   | NTimes \<Rightarrow> validateNTimes (fst loc) (snd loc) n r)"

text \<open>The new count of a location and the answer, by the count before.\<close>

definition next_count :: "hit_kind \<Rightarrow> 64 word \<Rightarrow> 64 word \<Rightarrow> 64 word" where
  "next_count k n c = (case k of
     EveryN \<Rightarrow> (if 100000 \<le> c then (if 1 \<le> n then 100000 mod n else 0) else c) + 1
   | AfterN \<Rightarrow> if n \<le> c then c else c + 1
   | NTimes \<Rightarrow> c + 1)"

definition answer :: "hit_kind \<Rightarrow> 64 word \<Rightarrow> 64 word \<Rightarrow> bool" where
  "answer k n c = (case k of
     EveryN \<Rightarrow> 1 \<le> n \<and> next_count EveryN n c \<noteq> 0 \<and> next_count EveryN n c mod n = 0
   | AfterN \<Rightarrow> n \<le> c
   | NTimes \<Rightarrow> c + 1 \<le> n)"

lemma validate_value:
  assumes ok: "rp_ok r"
  obtains r' where "validate k loc n r = Some (answer k n (hit_count r loc), r')" and "rp_ok r'"
    and "hit_count r' = (hit_count r)(loc := next_count k n (hit_count r loc))"
proof -
  obtain p r1 c where f: "find_or_register (fst loc) (snd loc) r = Some (p, r1)" "rp_ok r1" "p \<noteq> None"
    "deref p (snd r1) = Some (Some c)" "at_location loc c"
    "rp_find (hc_predicate (fst loc) (snd loc)) (fst r1) (snd r1) = Some p"
    "hc_hitCounts c = hit_count r loc" "hit_count r1 = hit_count r"
    using find_or_register_value [OF ok] by blast
  obtain ps h where r1: "r1 = (ps, h)" by (cases r1)
  have upd: "at_location loc (g c) \<Longrightarrow> \<exists>h'. update_obj p g h = Some h' \<and> rp_ok (ps, h') \<and> the_counter p h' = Some (g c)
      \<and> hit_count (ps, h') = (hit_count (ps, h))(loc := hc_hitCounts (g c))" for g
    using counter_update [of ps h loc p c g] f by (auto simp: r1)
  have keep: "at_location loc (validateHitCounts n c)" "at_location loc (hc_increment c)"
    using f(5) by (auto simp: at_location_def validateHitCounts_def hc_increment_def Let_def)
  have counts: "hc_hitCounts (validateHitCounts n c) = next_count EveryN n (hit_count r loc)"
    "hc_hitCounts (hc_increment c) = hit_count r loc + 1"
    by (simp_all add: validateHitCounts_def hc_increment_def next_count_def Let_def f(7)[symmetric] kMaxLogPerCounter_def)
  show ?thesis
  proof (cases k)
    case EveryN
    with upd [of "validateHitCounts n", OF keep(1)] f counts show ?thesis
      by (auto simp: validate_def validateEveryN_def r1 answer_def intro!: that)
  next
    case AfterN
    have "the_counter p h = Some c" using f(4) by (simp add: the_counter_def r1)
    with AfterN upd [of hc_increment, OF keep(2)] f counts show ?thesis
      by (cases "n \<le> hit_count r loc")
        (auto simp: validate_def validateAfterN_def r1 answer_def next_count_def fun_upd_idem intro!: that)
  next
    case NTimes
    with upd [of hc_increment, OF keep(2)] f counts show ?thesis
      by (auto simp: validate_def validateNTimes_def r1 answer_def next_count_def intro!: that)
  qed
qed

text \<open>A sequence of validations: each location uses one kind of validation with one number.\<close>

fun run_hits :: "(string \<times> 64 word \<Rightarrow> hit_kind \<times> 64 word) \<Rightarrow> (string \<times> 64 word) list \<Rightarrow> hit_registry
    \<Rightarrow> (bool list \<times> hit_registry) option" where
  "run_hits policy [] r = Some ([], r)"
| "run_hits policy (loc # locs) r =
     do { (b, r) \<leftarrow> validate (fst (policy loc)) loc (snd (policy loc)) r;
          (bs, r) \<leftarrow> run_hits policy locs r;
          Some (b # bs, r) }"

text \<open>What each validation promises for the \<open>i\<close>-th call at its location, counted from 1.\<close>

fun promised :: "hit_kind \<Rightarrow> nat \<Rightarrow> nat \<Rightarrow> bool" where
  "promised EveryN n i \<longleftrightarrow> n dvd i"
| "promised AfterN n i \<longleftrightarrow> n < i"
| "promised NTimes n i \<longleftrightarrow> i \<le> n"

text \<open>The stored count after \<open>s\<close> calls at its location.\<close>

fun counts :: "hit_kind \<Rightarrow> 64 word \<Rightarrow> 64 word \<Rightarrow> nat \<Rightarrow> bool" where
  "counts EveryN n c s \<longleftrightarrow> 1 \<le> unat n \<and> unat n \<le> 100000 \<and> unat c \<le> 100000 \<and> unat c mod unat n = s mod unat n"
| "counts AfterN n c s \<longleftrightarrow> unat c = min (unat n) s"
| "counts NTimes n c s \<longleftrightarrow> unat c = s"

lemma unat_Suc: "unat c < 2 ^ 64 - 1 \<Longrightarrow> unat (c + 1 :: 64 word) = Suc (unat c)"
  by (simp add: unat_word_ariths)

lemma every_step:
  assumes "counts EveryN n c s"
  shows "answer EveryN n c = promised EveryN (unat n) (Suc s)" "counts EveryN n (next_count EveryN n c) (Suc s)"
proof -
  let ?d = "if 100000 \<le> c then 100000 mod n else c"
  have n: "1 \<le> unat n" "unat n \<le> 100000" and c: "unat c \<le> 100000" "unat c mod unat n = s mod unat n"
    using assms by simp_all
  have "1 \<le> n" using n by (simp add: word_le_nat_alt)
  then have nxt: "next_count EveryN n c = ?d + 1" by (simp add: next_count_def)
  have d: "unat ?d < 100000" "unat ?d mod unat n = s mod unat n"
  proof -
    have "unat c = 100000" if "100000 \<le> c" using that c by (simp add: word_le_nat_alt)
    moreover have "(100000::nat) mod unat n < unat n" using n by simp
    then have "(100000::nat) mod unat n < 100000" using n by linarith
    ultimately show "unat ?d < 100000" "unat ?d mod unat n = s mod unat n"
      using c by (auto simp: unat_mod word_le_nat_alt)
  qed
  have u: "unat (next_count EveryN n c) = Suc (unat ?d)"
    unfolding nxt using d by (intro unat_Suc) simp
  then have m: "unat (next_count EveryN n c) mod unat n = Suc s mod unat n"
    using d(2) by (metis mod_Suc_eq)
  have "next_count EveryN n c \<noteq> 0"
    using u by (metis nat.distinct(1) unat_0)
  moreover have "next_count EveryN n c mod n = 0 \<longleftrightarrow> unat (next_count EveryN n c) mod unat n = 0"
    by (metis unat_0 unat_mod word_unat_eq_iff)
  ultimately show "answer EveryN n c = promised EveryN (unat n) (Suc s)"
    using m \<open>1 \<le> n\<close> by (simp add: answer_def dvd_eq_mod_eq_0)
  show "counts EveryN n (next_count EveryN n c) (Suc s)"
    using n u d m by simp
qed

lemma hit_step:
  assumes "counts k n c s" and "Suc s < 2 ^ 64"
  shows "answer k n c = promised k (unat n) (Suc s)" and "counts k n (next_count k n c) (Suc s)"
proof -
  have "answer k n c = promised k (unat n) (Suc s) \<and> counts k n (next_count k n c) (Suc s)"
  proof (cases k)
    case EveryN
    with every_step assms show ?thesis by blast
  next
    case AfterN
    with assms have c: "unat c = min (unat n) s" by simp
    have "n \<le> c \<longleftrightarrow> unat n \<le> s" by (simp add: word_le_nat_alt c)
    moreover have "unat (c + 1) = Suc s" if "\<not> unat n \<le> s"
      using that c assms(2) by (subst unat_Suc) auto
    ultimately show ?thesis
      using AfterN c by (auto simp: answer_def next_count_def)
  next
    case NTimes
    with assms have c: "unat c = s" by simp
    then have "unat (c + 1) = Suc s"
      using assms(2) by (subst unat_Suc) auto
    then show ?thesis using NTimes by (simp add: answer_def next_count_def word_le_nat_alt)
  qed
  then show "answer k n c = promised k (unat n) (Suc s)" and "counts k n (next_count k n c) (Suc s)"
    by simp_all
qed

lemma run_hits_promised:
  assumes "rp_ok r" and "\<And>loc. loc \<in> set locs \<Longrightarrow> counts (fst (policy loc)) (snd (policy loc)) (hit_count r loc) (seen loc)"
    and "\<And>loc. seen loc + length locs < 2 ^ 64"
  shows "\<exists>bs r'. run_hits policy locs r = Some (bs, r') \<and> length bs = length locs \<and> (\<forall>i<length locs.
    bs ! i = promised (fst (policy (locs ! i))) (unat (snd (policy (locs ! i))))
               (seen (locs ! i) + count_list (take (Suc i) locs) (locs ! i)))"
  using assms
proof (induction locs arbitrary: r seen)
  case (Cons loc locs)
  let ?k = "fst (policy loc)" and ?n = "snd (policy loc)"
  obtain r1 where r1: "validate ?k loc ?n r = Some (answer ?k ?n (hit_count r loc), r1)" "rp_ok r1"
    "hit_count r1 = (hit_count r)(loc := next_count ?k ?n (hit_count r loc))"
    using validate_value [OF Cons.prems(1)] by blast
  have "counts ?k ?n (hit_count r loc) (seen loc)" "Suc (seen loc) < 2 ^ 64"
    using Cons.prems(2) [of loc] Cons.prems(3) [of loc] by auto
  note step = hit_step [OF this]
  let ?seen = "seen(loc := Suc (seen loc))"
  have "counts (fst (policy l)) (snd (policy l)) (hit_count r1 l) (?seen l)" if "l \<in> set locs" for l
    using step(2) Cons.prems(2) [of l] that by (simp add: r1(3))
  moreover have "?seen l + length locs < 2 ^ 64" for l
    using Cons.prems(3) [of l] Cons.prems(3) [of loc] by simp
  ultimately obtain bs r2 where rec: "run_hits policy locs r1 = Some (bs, r2)" "length bs = length locs"
    "\<forall>i<length locs. bs ! i = promised (fst (policy (locs ! i))) (unat (snd (policy (locs ! i))))
       (?seen (locs ! i) + count_list (take (Suc i) locs) (locs ! i))"
    using Cons.IH [OF r1(2), of ?seen] by blast
  have "\<forall>i<length (loc # locs). ((answer ?k ?n (hit_count r loc)) # bs) ! i
      = promised (fst (policy ((loc # locs) ! i))) (unat (snd (policy ((loc # locs) ! i))))
          (seen ((loc # locs) ! i) + count_list (take (Suc i) (loc # locs)) ((loc # locs) ! i))"
  proof (intro allI impI)
    fix i assume "i < length (loc # locs)"
    then show "((answer ?k ?n (hit_count r loc)) # bs) ! i
      = promised (fst (policy ((loc # locs) ! i))) (unat (snd (policy ((loc # locs) ! i))))
          (seen ((loc # locs) ! i) + count_list (take (Suc i) (loc # locs)) ((loc # locs) ! i))"
      using step(1) rec(3) by (cases i) auto
  qed
  then show ?case using r1(1) rec(1,2) by simp
qed simp

text \<open>
  Whatever the order in which locations are reached, the \<open>i\<close>-th call at a location answers as its
  validation promises: every \<open>n\<close>-th call for \<open>n\<close> up to 100000 in spite of the reset of the count, the
  calls after the first \<open>n\<close>, or the first \<open>n\<close> calls.
\<close>
theorem hits_as_promised:
  assumes "length locs < 2 ^ 64"
    and "\<forall>loc\<in>set locs. fst (policy loc) = EveryN \<longrightarrow> 1 \<le> unat (snd (policy loc)) \<and> unat (snd (policy loc)) \<le> 100000"
  shows "\<exists>bs r. run_hits policy locs ([], empty_heap) = Some (bs, r) \<and> length bs = length locs \<and>
    (\<forall>i<length locs. bs ! i = promised (fst (policy (locs ! i))) (unat (snd (policy (locs ! i))))
       (count_list (take (Suc i) locs) (locs ! i)))"
proof -
  have ok: "rp_ok ([], empty_heap)"
    by (simp add: rp_ok_def owns_def heap_ok_def empty_heap_def)
  have zero: "hit_count ([], empty_heap) loc = 0" for loc
    by (simp add: hit_count_def rp_contents_def contents_of_def)
  have "counts (fst (policy loc)) (snd (policy loc)) (hit_count ([], empty_heap) loc) 0" if "loc \<in> set locs" for loc
    using assms(2) that by (cases "fst (policy loc)") (simp_all add: zero)
  then show ?thesis
    using run_hits_promised [OF ok, of locs policy "\<lambda>_. 0"] assms(1) by simp
qed

lemma hits_as_promised_witness:
  "\<exists>bs r. run_hits (\<lambda>loc. if snd loc = 1 then (EveryN, 2) else (NTimes, 1))
      [(''a.cpp'', 1), (''a.cpp'', 2), (''a.cpp'', 1), (''a.cpp'', 2)] ([], empty_heap) = Some (bs, r)
    \<and> bs ! 0 = False \<and> bs ! 1 = True \<and> bs ! 2 = True \<and> bs ! 3 = False"
proof -
  let ?locs = "[(''a.cpp'', 1), (''a.cpp'', 2), (''a.cpp'', 1), (''a.cpp'', 2)] :: (string \<times> 64 word) list"
  let ?policy = "\<lambda>loc :: string \<times> 64 word. if snd loc = 1 then (EveryN, 2) else (NTimes, 1 :: 64 word)"
  obtain bs r where br: "run_hits ?policy ?locs ([], empty_heap) = Some (bs, r)"
    "\<forall>i<length ?locs. bs ! i = promised (fst (?policy (?locs ! i))) (unat (snd (?policy (?locs ! i))))
       (count_list (take (Suc i) ?locs) (?locs ! i))"
    using hits_as_promised [of ?locs ?policy] by auto
  have "bs ! 0 = False" "bs ! 1 = True" "bs ! 2 = True" "bs ! 3 = False"
    using br(2) [rule_format, of 0] br(2) [rule_format, of 1] br(2) [rule_format, of 2] br(2) [rule_format, of 3]
    by simp_all
  with br(1) show ?thesis by blast
qed

text \<open>
  Beyond the reset the promise fails: with \<open>n = 100001\<close> every call from the 100001st on is a hit,
  because the reset puts the count at 100000 each time.
\<close>

lemma every_n_sticks:
  "next_count EveryN 100001 100000 = 100001" "next_count EveryN 100001 100001 = 100001" "answer EveryN 100001 100001"
  by (simp_all add: next_count_def answer_def)

end
