(* ===== verification/ElLogger.thy ===== *)
theory ElLogger
  imports ElComplete ElHit
begin

text \<open>
  Loggers and their repository (\<open>easylogging.h\<close>, lines 3364 to 3376 and 3398 to 3731): the
  configuration of a logger, the counts of lines that are not flushed yet, and the registry that
  creates loggers on demand. Loggers are objects of a heap; a read through a null or dangling
  pointer, or through an invalid iterator, is \<open>None\<close>. The buffering of streams is not modelled, so
  that flushing a stream has no effect of its own.
\<close>

section \<open>Callbacks and builders\<close>

record Callback =
  cb_enabled :: bool

definition mk_Callback :: Callback where
  "mk_Callback = \<lparr>cb_enabled = True\<rparr>"

definition cb_setEnabled :: "bool \<Rightarrow> Callback \<Rightarrow> Callback" where
  "cb_setEnabled enabled c = c\<lparr>cb_enabled := enabled\<rparr>"

datatype DispatchAction = DA_None | DA_NormalLog | DA_SysLog

fun dispatch_int :: "DispatchAction \<Rightarrow> enum_t" where
  "dispatch_int DA_None = 1"
| "dispatch_int DA_NormalLog = 2"
| "dispatch_int DA_SysLog = 4"

definition ESC :: char where "ESC = CHR 0x1B"

definition convertToColoredOutput :: "bool \<Rightarrow> string \<Rightarrow> Level \<Rightarrow> string" where
  "convertToColoredOutput supportsColor logLine level =
     (if \<not> supportsColor then logLine
      else let resetColor = ESC # ''[0m''
      in if level = L_Error \<or> level = L_Fatal then ESC # ''[31m'' @ logLine @ resetColor
         else if level = L_Warning then ESC # ''[33m'' @ logLine @ resetColor
         else if level = L_Debug then ESC # ''[32m'' @ logLine @ resetColor
         else if level = L_Info then ESC # ''[36m'' @ logLine @ resetColor
         else if level = L_Trace then ESC # ''[35m'' @ logLine @ resetColor
         else logLine)"

section \<open>Logger\<close>

record Logger =
  lg_id :: string
  lg_typedConfigurations :: "TypedConfigurations option"
  lg_stream :: string
  lg_parentApplicationName :: string
  lg_isConfigured :: bool
  lg_configurations :: Configurations
  lg_unflushedCount :: "(Level \<times> 32 word) list"
  lg_hasLogBuilder :: bool

definition initUnflushedCount :: "Logger \<Rightarrow> Logger" where
  "initUnflushedCount lg =
     lg\<lparr>lg_unflushedCount := each_level (\<lambda>level. map_insert level 0) []\<rparr>"

definition isValidId :: "string \<Rightarrow> bool" where
  "isValidId lid \<longleftrightarrow> list_all (str_contains kValidLoggerIdSymbols) lid"

text \<open>\<open>flush(level, fs)\<close>: a null stream is looked up when the level goes to a file.\<close>

definition flush_level :: "Level \<Rightarrow> nat option \<Rightarrow> Logger \<Rightarrow> Logger option" where
  "flush_level level fs lg =
     do { fs \<leftarrow> (if fs = None then
                    do { tc \<leftarrow> lg_typedConfigurations lg;
                         if tc_toFile level tc then tc_fileStream level tc else Some None }
                  else Some fs);
          if fs \<noteq> None then
            do { _ \<leftarrow> map_of (lg_unflushedCount lg) level;
                 Some (lg\<lparr>lg_unflushedCount := map (\<lambda>(l, n). if l = level then (l, 0) else (l, n)) (lg_unflushedCount lg)\<rparr>) }
          else Some lg }"

definition flush_all :: "Logger \<Rightarrow> Logger option" where
  "flush_all lg = each_level (\<lambda>level lg. do { lg \<leftarrow> lg; flush_level level None lg }) (Some lg)"

definition isFlushNeeded :: "Level \<Rightarrow> Logger \<Rightarrow> (bool \<times> Logger) option" where
  "isFlushNeeded level lg =
     do { n \<leftarrow> map_of (lg_unflushedCount lg) level;
          tc \<leftarrow> lg_typedConfigurations lg;
          Some (tc_logFlushThreshold level tc \<le> ucast (n + 1),
                lg\<lparr>lg_unflushedCount := map (\<lambda>(l, k). if l = level then (l, n + 1) else (l, k)) (lg_unflushedCount lg)\<rparr>) }"

definition lg_enabled :: "Level \<Rightarrow> Logger \<Rightarrow> bool option" where
  "lg_enabled level lg = map_option (tc_enabled level) (lg_typedConfigurations lg)"

text \<open>
  The format of each level is changed in place: the reference goes to the entry of the level or, when
  there is none, to that of the global level.
\<close>

definition resolve_level :: "string \<Rightarrow> Level \<Rightarrow> TypedConfigurations option \<Rightarrow> TypedConfigurations option" where
  "resolve_level lid level tc =
     do { tc \<leftarrow> tc;
          let key = (if map_of (m_logFormatMap tc) level = None then L_Global else level);
          f \<leftarrow> map_of (m_logFormatMap tc) key;
          let f = f\<lparr>lf_format := replaceFirstWithEscape (lf_format f) (specifier_text Sp_Logger) lid\<rparr>;
          Some (tc\<lparr>m_logFormatMap := map (\<lambda>(l, g). if l = key then (l, f) else (l, g)) (m_logFormatMap tc)\<rparr>) }"

definition resolveLoggerFormatSpec :: "string \<Rightarrow> TypedConfigurations \<Rightarrow> TypedConfigurations option" where
  "resolveLoggerFormatSpec lid tc = each_level (resolve_level lid) (Some tc)"

text \<open>
  Two repositories are compared by the objects they point to; each owns its own, so that only the
  repository itself and another empty one count as equal.
\<close>

definition confs_differ :: "Configurations \<Rightarrow> conf_ref \<Rightarrow> bool" where
  "confs_differ c other = (case other of
     NullConf \<Rightarrow> False | ThisConf \<Rightarrow> False | OtherConf b \<Rightarrow> cf_list c \<noteq> [] \<or> cf_list b \<noteq> [])"

text \<open>
  \<open>configure\<close>: the old typed configurations are flushed and deleted, the new ones are built from the
  logger's own configurations, after these have taken over the given ones.
\<close>

definition configure :: "'f log_env \<Rightarrow> conf_ref \<Rightarrow> Logger \<times> 'f log_world \<Rightarrow> (Logger \<times> 'f log_world) option" where
  "configure env configurations s =
     (let (lg, w) = s; lg = initUnflushedCount (lg\<lparr>lg_isConfigured := False\<rparr>)
      in do { lg \<leftarrow> (if lg_typedConfigurations lg \<noteq> None
                         \<and> hasConfiguration_at L_Global C_Filename (lg_configurations lg)
                      then flush_all lg else Some lg);
              let lg = (if confs_differ (lg_configurations lg) configurations
                        then lg\<lparr>lg_configurations := setFromBase configurations (lg_configurations lg)\<rparr> else lg);
              (tc, w) \<leftarrow> mk_TypedConfigurations env (lg_configurations lg) w;
              tc \<leftarrow> resolveLoggerFormatSpec (lg_id lg) tc;
              Some (lg\<lparr>lg_typedConfigurations := Some tc, lg_isConfigured := True\<rparr>, w) })"

definition reconfigure :: "'f log_env \<Rightarrow> Logger \<times> 'f log_world \<Rightarrow> (Logger \<times> 'f log_world) option" where
  "reconfigure env s = configure env ThisConf s"

definition mk_Logger :: "'f log_env \<Rightarrow> string \<Rightarrow> Configurations \<Rightarrow> 'f log_world \<Rightarrow> (Logger \<times> 'f log_world) option" where
  "mk_Logger env lid configurations w =
     configure env (OtherConf configurations)
       (initUnflushedCount \<lparr>lg_id = lid, lg_typedConfigurations = None, lg_stream = [], lg_parentApplicationName = [],
          lg_isConfigured = False, lg_configurations = empty_Configurations, lg_unflushedCount = [],
          lg_hasLogBuilder = False\<rparr>, w)"

section \<open>Registered loggers\<close>

record 'f loggers =
  rl_list :: "string registry"
  rl_heap :: "Logger heap"
  rl_defaultConfigurations :: Configurations
  rl_world :: "'f log_world"

definition mk_RegisteredLoggers :: "'f log_world \<Rightarrow> 'f loggers" where
  "mk_RegisteredLoggers w = \<lparr>rl_list = [], rl_heap = empty_heap,
     rl_defaultConfigurations = setToDefault empty_Configurations, rl_world = w\<rparr>"

definition setDefaultConfigurations :: "conf_ref \<Rightarrow> 'f loggers \<Rightarrow> 'f loggers" where
  "setDefaultConfigurations configurations r =
     r\<lparr>rl_defaultConfigurations := setFromBase configurations (rl_defaultConfigurations r)\<rparr>"

definition rl_get :: "'f log_env \<Rightarrow> string \<Rightarrow> bool \<Rightarrow> 'f loggers \<Rightarrow> (nat option \<times> 'f loggers) option" where
  "rl_get env lid forceCreation r =
     (let logger = reg_get lid (rl_list r)
      in if logger = None \<and> forceCreation then
           (if \<not> isValidId lid then Some (None, r)
            else do { (lg, w) \<leftarrow> mk_Logger env lid (rl_defaultConfigurations r) (rl_world r);
                      let (logger, h) = new_obj (lg\<lparr>lg_hasLogBuilder := True\<rparr>) (rl_heap r);
                      (l, h) \<leftarrow> reg_registerNew lid logger (rl_list r) h;
                      Some (logger, r\<lparr>rl_list := l, rl_heap := h, rl_world := w\<rparr>) })
         else Some (logger, r))"

definition rl_has :: "string \<Rightarrow> 'f loggers \<Rightarrow> bool" where
  "rl_has lid r \<longleftrightarrow> reg_get lid (rl_list r) \<noteq> None"

text \<open>
  \<open>unregister\<close> hands the identifier of the logger on by reference, so that the erasure reads it from
  the logger that was deleted before.
\<close>

definition rl_unregister :: "nat option \<Rightarrow> 'f loggers \<Rightarrow> 'f loggers option" where
  "rl_unregister logger r =
     do { (l, h) \<leftarrow> reg_unregister (\<lambda>h. do { lg \<leftarrow> deref logger h; lg \<leftarrow> lg; Some (lg_id lg) }) (rl_list r) (rl_heap r);
          Some (r\<lparr>rl_list := l, rl_heap := h\<rparr>) }"

definition rl_remove :: "string \<Rightarrow> 'f loggers \<Rightarrow> (bool \<times> 'f loggers) option" where
  "rl_remove lid r =
     (if lid = ''default'' then Some (False, r)
      else let logger = reg_get lid (rl_list r)
      in if logger \<noteq> None then do { r \<leftarrow> rl_unregister logger r; Some (True, r) } else Some (True, r))"

section \<open>Properties\<close>

lemma isValidId_set: "isValidId lid \<longleftrightarrow> set lid \<subseteq> set kValidLoggerIdSymbols"
  by (auto simp: isValidId_def list_all_iff str_contains_set)

text \<open>A logger that is registered cannot be removed without a read through a dangling reference.\<close>

definition loggers_ok :: "'f loggers \<Rightarrow> bool" where
  "loggers_ok r \<longleftrightarrow> reg_ok (rl_list r, rl_heap r)
     \<and> (\<forall>lid a. reg_get lid (rl_list r) = Some a \<longrightarrow> map_option lg_id (cells (rl_heap r) a) = Some lid)"

lemma remove_dangles:
  assumes "loggers_ok r" and "rl_has lid r" and "lid \<noteq> ''default''"
  shows "rl_remove lid r = None"
proof -
  obtain a where a: "reg_get lid (rl_list r) = Some a" using assms(2) by (auto simp: rl_has_def)
  then obtain lg where lg: "cells (rl_heap r) a = Some lg" "lg_id lg = lid"
    using assms(1) by (auto simp: loggers_ok_def)
  then have "rl_unregister (Some a) r = None"
    using a by (simp add: rl_unregister_def reg_unregister_def deref_def safeDelete_def)
  with a assms(3) show ?thesis by (simp add: rl_remove_def)
qed

section \<open>A configured logger\<close>

text \<open>What \<open>configure\<close> establishes: everything a line needs can be read.\<close>

definition counted :: "Logger \<Rightarrow> bool" where
  "counted lg \<longleftrightarrow> list_all (\<lambda>level. map_of (lg_unflushedCount lg) level \<noteq> None) walked_levels"

definition all_flushed :: "Logger \<Rightarrow> bool" where
  "all_flushed lg \<longleftrightarrow> list_all (\<lambda>level. map_of (lg_unflushedCount lg) level = Some 0) walked_levels"

definition logger_ready :: "'f log_env \<Rightarrow> Logger \<Rightarrow> bool" where
  "logger_ready env lg \<longleftrightarrow> lg_isConfigured lg \<and> counted lg \<and> complete_conf env (lg_configurations lg)
     \<and> (case lg_typedConfigurations lg of None \<Rightarrow> False | Some tc \<Rightarrow> typed_ready tc)"

lemma initUnflushedCount_flushed: "all_flushed (initUnflushedCount lg)"
  by (auto simp: all_flushed_def initUnflushedCount_def each_level_fold walked_levels_def less_Level_def)

lemma flushed_counted: "all_flushed lg \<Longrightarrow> counted lg"
  by (auto simp: all_flushed_def counted_def list_all_iff)

text \<open>Flushing resets counts, and only counts.\<close>

lemma reset_count:
  "map_of (map (\<lambda>(l, n). if l = level then (l, v) else (l, n)) m) l
     = (if l = level \<and> map_of m l \<noteq> None then Some v else map_of m l)"
  by (induction m) auto

definition same_but_counts :: "Logger \<Rightarrow> Logger \<Rightarrow> bool" where
  "same_but_counts lg lg' \<longleftrightarrow> (\<exists>m. lg' = lg\<lparr>lg_unflushedCount := m\<rparr>)"

lemma same_but_counts_refl: "same_but_counts lg lg"
  unfolding same_but_counts_def by (rule exI [of _ "lg_unflushedCount lg"]) simp

lemma same_but_counts_trans: "same_but_counts a b \<Longrightarrow> same_but_counts b c \<Longrightarrow> same_but_counts a c"
  by (auto simp: same_but_counts_def)

lemma flush_level_ready:
  assumes "counted lg" and "lg_typedConfigurations lg = Some tc" and "files_global tc" and "level \<in> set walked_levels"
  shows "\<exists>lg'. flush_level level fs lg = Some lg' \<and> counted lg' \<and> same_but_counts lg lg'
    \<and> (all_flushed lg \<longrightarrow> all_flushed lg')"
proof -
  let ?zero = "map (\<lambda>(l, n). if l = level then (l, 0) else (l, n)) (lg_unflushedCount lg)"
  have n: "map_of (lg_unflushedCount lg) level \<noteq> None"
    using assms(1,4) by (auto simp: counted_def list_all_iff)
  have fs: "tc_fileStream level tc \<noteq> None"
    using assms(3) by (auto simp: tc_fileStream_def unsafeGetConfigByRef_def files_global_def split: option.splits)
  have reset: "counted (lg\<lparr>lg_unflushedCount := ?zero\<rparr>)"
    using assms(1) by (auto simp: counted_def reset_count list_all_iff)
  have flushed: "all_flushed lg \<longrightarrow> all_flushed (lg\<lparr>lg_unflushedCount := ?zero\<rparr>)"
    by (auto simp: all_flushed_def reset_count list_all_iff)
  have keep: "flush_level level fs lg = Some lg \<Longrightarrow> ?thesis"
    using assms(1) by (auto intro: same_but_counts_refl)
  have zero: "flush_level level fs lg = Some (lg\<lparr>lg_unflushedCount := ?zero\<rparr>) \<Longrightarrow> ?thesis"
    using reset flushed by (auto simp: same_but_counts_def)
  obtain k p where k: "map_of (lg_unflushedCount lg) level = Some k" and p: "tc_fileStream level tc = Some p"
    using n fs by auto
  show ?thesis
  proof (cases "fs \<noteq> None \<or> tc_toFile level tc \<and> p \<noteq> None")
    case True
    have "flush_level level fs lg = Some (lg\<lparr>lg_unflushedCount := ?zero\<rparr>)"
      unfolding flush_level_def assms(2) using True k p by (cases fs) auto
    then show ?thesis by (rule zero)
  next
    case False
    have "flush_level level fs lg = Some lg"
      unfolding flush_level_def assms(2) using False p by auto
    then show ?thesis by (rule keep)
  qed
qed

lemma flush_all_ready:
  assumes "counted lg" and "lg_typedConfigurations lg = Some tc" and "files_global tc"
  shows "\<exists>lg'. flush_all lg = Some lg' \<and> counted lg' \<and> same_but_counts lg lg'
    \<and> (all_flushed lg \<longrightarrow> all_flushed lg')"
proof -
  have "set ls \<subseteq> set walked_levels \<Longrightarrow> counted l \<Longrightarrow> lg_typedConfigurations l = Some tc \<Longrightarrow>
      \<exists>l'. fold (\<lambda>level lg. do { lg \<leftarrow> lg; flush_level level None lg }) ls (Some l) = Some l' \<and> counted l'
        \<and> same_but_counts l l' \<and> (all_flushed l \<longrightarrow> all_flushed l')" for ls l
  proof (induction ls arbitrary: l)
    case Nil
    then show ?case by (simp add: same_but_counts_refl)
  next
    case (Cons level ls)
    obtain l1 where 1: "flush_level level None l = Some l1" "counted l1" "same_but_counts l l1"
      "all_flushed l \<longrightarrow> all_flushed l1"
      using flush_level_ready [of l tc level None] Cons.prems assms(3) by auto
    then have "lg_typedConfigurations l1 = Some tc"
      using Cons.prems(3) by (auto simp: same_but_counts_def)
    from Cons.IH [OF _ 1(2) this] Cons.prems(1) 1 show ?case
      by (auto intro: same_but_counts_trans)
  qed
  from this [OF order.refl assms(1,2)] show ?thesis
    by (simp add: flush_all_def each_level_fold)
qed

text \<open>Filling in the logger's name changes the formats, and no other part.\<close>

lemma map_values_None: "map_of (map (\<lambda>(l, g). if l = k then (l, f) else (l, g)) m) l = None \<longleftrightarrow> map_of m l = None"
  by (auto simp: reset_count simp del: not_None_eq)

lemma resolve_levels:
  assumes "\<forall>level\<in>set ls. tc_logFormat level tc \<noteq> None"
  shows "\<exists>m. fold (resolve_level lid) ls (Some tc) = Some (tc\<lparr>m_logFormatMap := m\<rparr>)
     \<and> (\<forall>l. map_of m l = None \<longleftrightarrow> map_of (m_logFormatMap tc) l = None)"
  using assms
proof (induction ls arbitrary: tc)
  case Nil
  then show ?case by (intro exI [of _ "m_logFormatMap tc"]) simp
next
  case (Cons level ls)
  let ?key = "if map_of (m_logFormatMap tc) level = None then L_Global else level"
  obtain f where f: "map_of (m_logFormatMap tc) ?key = Some f"
    using Cons.prems by (auto simp: tc_logFormat_def unsafeGetConfigByRef_def split: option.splits)
  define m where "m = map (\<lambda>(l, g). if l = ?key
      then (l, f\<lparr>lf_format := replaceFirstWithEscape (lf_format f) (specifier_text Sp_Logger) lid\<rparr>) else (l, g)) (m_logFormatMap tc)"
  have 1: "resolve_level lid level (Some tc) = Some (tc\<lparr>m_logFormatMap := m\<rparr>)"
    using f by (simp add: resolve_level_def Let_def m_def del: specifier_text.simps)
  have dom: "map_of m l = None \<longleftrightarrow> map_of (m_logFormatMap tc) l = None" for l
    by (simp add: m_def map_values_None)
  have "\<forall>level\<in>set ls. tc_logFormat level (tc\<lparr>m_logFormatMap := m\<rparr>) \<noteq> None"
    using Cons.prems dom by (auto simp: tc_logFormat_def unsafeGetConfigByRef_def simp del: not_None_eq split: option.splits)
  from Cons.IH [OF this] obtain m' where
    "fold (resolve_level lid) ls (Some (tc\<lparr>m_logFormatMap := m\<rparr>)) = Some (tc\<lparr>m_logFormatMap := m'\<rparr>)"
    "\<forall>l. map_of m' l = None \<longleftrightarrow> map_of m l = None" by auto
  then show ?case using 1 dom by auto
qed

lemma resolve_ready:
  assumes "typed_ready tc"
  shows "\<exists>m. resolveLoggerFormatSpec lid tc = Some (tc\<lparr>m_logFormatMap := m\<rparr>) \<and> typed_ready (tc\<lparr>m_logFormatMap := m\<rparr>)"
proof -
  have "\<forall>level\<in>set walked_levels. tc_logFormat level tc \<noteq> None"
    using assms by (auto simp: typed_ready_def list_all_iff)
  from resolve_levels [OF this] obtain m where m:
    "fold (resolve_level lid) walked_levels (Some tc) = Some (tc\<lparr>m_logFormatMap := m\<rparr>)"
    "\<And>l. map_of m l = None \<longleftrightarrow> map_of (m_logFormatMap tc) l = None" by auto
  have "tc_logFormat level (tc\<lparr>m_logFormatMap := m\<rparr>) = None \<longleftrightarrow> tc_logFormat level tc = None" for level
    using m(2) [of level] m(2) [of L_Global]
    by (auto simp: tc_logFormat_def unsafeGetConfigByRef_def simp del: not_None_eq split: option.splits)
  then have "typed_ready (tc\<lparr>m_logFormatMap := m\<rparr>)"
    using assms by (simp add: typed_ready_def files_global_def)
  with m(1) show ?thesis
    by (intro exI [of _ m]) (simp add: resolveLoggerFormatSpec_def each_level_fold)
qed

text \<open>Configuring a new logger, or one that is ready, with configurations that leave it complete.\<close>

definition taken_over :: "conf_ref \<Rightarrow> Configurations \<Rightarrow> Configurations" where
  "taken_over base c = (if confs_differ c base then setFromBase base c else c)"

definition enabled_by :: "Configurations \<Rightarrow> Level \<Rightarrow> bool" where
  "enabled_by c level = (case configured C_Enabled level c of None \<Rightarrow> False | Some conf \<Rightarrow> getBool (c_value conf))"

lemma configure_ready:
  assumes lg: "lg_typedConfigurations lg = None \<or> logger_ready env lg"
    and c: "complete_conf env (taken_over base (lg_configurations lg))"
  shows "\<exists>lg' w'. configure env base (lg, w) = Some (lg', w') \<and> logger_ready env lg'
     \<and> lg_id lg' = lg_id lg \<and> lg_configurations lg' = taken_over base (lg_configurations lg)
     \<and> lg_stream lg' = lg_stream lg \<and> lg_hasLogBuilder lg' = lg_hasLogBuilder lg
     \<and> all_flushed lg'
     \<and> (\<forall>level. lg_enabled level lg' = Some (enabled_by (taken_over base (lg_configurations lg)) level))"
proof -
  define lg1 where "lg1 = initUnflushedCount (lg\<lparr>lg_isConfigured := False\<rparr>)"
  have flushed: "all_flushed lg1" by (simp add: lg1_def initUnflushedCount_flushed)
  have lg1: "counted lg1" "lg_typedConfigurations lg1 = lg_typedConfigurations lg" "same_but_counts (lg\<lparr>lg_isConfigured := False\<rparr>) lg1"
    using flushed_counted [OF initUnflushedCount_flushed] by (auto simp: lg1_def initUnflushedCount_def same_but_counts_def)
  let ?flush = "if lg_typedConfigurations lg1 \<noteq> None \<and> hasConfiguration_at L_Global C_Filename (lg_configurations lg1)
      then flush_all lg1 else Some lg1"
  have "\<exists>lg2. ?flush = Some lg2 \<and> counted lg2 \<and> same_but_counts lg1 lg2 \<and> all_flushed lg2"
  proof (cases "lg_typedConfigurations lg")
    case None
    then show ?thesis using lg1 flushed by (simp add: same_but_counts_refl)
  next
    case (Some tc)
    then have "files_global tc" using lg by (simp add: logger_ready_def typed_ready_def)
    then show ?thesis
      using flush_all_ready [of lg1 tc] lg1(1,2) Some flushed by (simp add: same_but_counts_refl)
  qed
  then obtain lg2 where lg2: "?flush = Some lg2" "counted lg2" "same_but_counts (lg\<lparr>lg_isConfigured := False\<rparr>) lg2"
    "all_flushed lg2"
    using lg1(3) by (auto intro: same_but_counts_trans)
  let ?c = "taken_over base (lg_configurations lg)"
  have lg3: "(if confs_differ (lg_configurations lg2) base
      then lg2\<lparr>lg_configurations := setFromBase base (lg_configurations lg2)\<rparr> else lg2) = lg2\<lparr>lg_configurations := ?c\<rparr>"
    using lg2(3) by (auto simp: taken_over_def same_but_counts_def)
  obtain tc w' where tc: "mk_TypedConfigurations env ?c w = Some (tc, w')" "typed_ready tc"
    using build_ready [OF c, of w] by blast
  obtain m where tc': "resolveLoggerFormatSpec (lg_id lg2) tc = Some (tc\<lparr>m_logFormatMap := m\<rparr>)"
    "typed_ready (tc\<lparr>m_logFormatMap := m\<rparr>)"
    using resolve_ready [OF tc(2)] by blast
  have "tc_enabled level tc = enabled_by ?c level" for level
    using typed_values [OF tc(1)] c by (simp add: complete_conf_def all_global_first_def enabled_by_def)
  then have enabled: "tc_enabled level (tc\<lparr>m_logFormatMap := m\<rparr>) = enabled_by ?c level" for level
    by (simp add: tc_enabled_def)
  have "configure env base (lg, w)
      = Some (lg2\<lparr>lg_configurations := ?c, lg_typedConfigurations := Some (tc\<lparr>m_logFormatMap := m\<rparr>), lg_isConfigured := True\<rparr>, w')"
    unfolding configure_def Let_def prod.case lg1_def [symmetric] lg2(1) bind.bind_lunit lg3
    by (simp add: tc(1) tc'(1))
  then show ?thesis
    using lg2 c tc'(2) enabled
    by (auto simp: logger_ready_def counted_def all_flushed_def same_but_counts_def lg_enabled_def)
qed

lemma reconfigure_ready:
  assumes "logger_ready env lg"
  shows "\<exists>lg' w'. reconfigure env (lg, w) = Some (lg', w') \<and> logger_ready env lg'
     \<and> lg_id lg' = lg_id lg \<and> lg_configurations lg' = lg_configurations lg
     \<and> lg_stream lg' = lg_stream lg \<and> lg_hasLogBuilder lg' = lg_hasLogBuilder lg"
proof -
  have "complete_conf env (lg_configurations lg)"
    using assms by (simp add: logger_ready_def)
  then show ?thesis
    using configure_ready [of lg env ThisConf w] assms
    unfolding reconfigure_def taken_over_def confs_differ_def by auto
qed

lemma mk_Logger_ready:
  assumes "complete_conf env c"
  shows "\<exists>lg w'. mk_Logger env lid c w = Some (lg, w') \<and> logger_ready env lg \<and> lg_id lg = lid \<and> lg_stream lg = []
     \<and> lg_configurations lg = setFromBase (OtherConf c) empty_Configurations"
proof -
  have "conf_value L_Global C_Format c \<noteq> None"
    using assms by (simp add: complete_conf_def known_configs_list)
  then have "cf_list c \<noteq> []"
    by (auto simp: conf_value_def conf_get_def)
  then have "taken_over (OtherConf c) empty_Configurations = setFromBase (OtherConf c) empty_Configurations"
    by (simp add: taken_over_def confs_differ_def)
  then have c: "complete_conf env (taken_over (OtherConf c) empty_Configurations)"
    "taken_over (OtherConf c) empty_Configurations = setFromBase (OtherConf c) empty_Configurations"
    using complete_copied [OF assms] by simp_all
  define lg0 where "lg0 = initUnflushedCount \<lparr>lg_id = lid, lg_typedConfigurations = None, lg_stream = [],
      lg_parentApplicationName = [], lg_isConfigured = False, lg_configurations = empty_Configurations,
      lg_unflushedCount = [], lg_hasLogBuilder = False\<rparr>"
  then have "lg_typedConfigurations lg0 = None" "lg_configurations lg0 = empty_Configurations" "lg_id lg0 = lid"
    "lg_stream lg0 = []" "mk_Logger env lid c w = configure env (OtherConf c) (lg0, w)"
    by (simp_all add: initUnflushedCount_def mk_Logger_def)
  then show ?thesis
    using configure_ready [of lg0 env "OtherConf c" w] c by auto
qed

section \<open>A repository whose loggers are ready\<close>

definition rl_map :: "'f loggers \<Rightarrow> string \<Rightarrow> Logger option" where
  "rl_map r = reg_map (rl_list r, rl_heap r)"

definition registry_ready :: "'f log_env \<Rightarrow> 'f loggers \<Rightarrow> bool" where
  "registry_ready env r \<longleftrightarrow> reg_ok (rl_list r, rl_heap r) \<and> complete_conf env (rl_defaultConfigurations r)
     \<and> (\<forall>lid lg. rl_map r lid = Some lg \<longrightarrow> lg_id lg = lid \<and> logger_ready env lg)"

lemma new_registry_ready: "registry_ready env (mk_RegisteredLoggers w)"
  by (simp add: registry_ready_def mk_RegisteredLoggers_def defaults_complete rl_map_def reg_map_def reg_get_def
      reg_ok_def owns_def heap_ok_def empty_heap_def ordered_def)

lemma setDefault_ready:
  "registry_ready env r \<Longrightarrow> values_ok env (cf_list b) \<Longrightarrow> registry_ready env (setDefaultConfigurations (OtherConf b) r)"
  by (simp add: registry_ready_def setDefaultConfigurations_def rl_map_def complete_base)

lemma absent_key:
  assumes "reg_ok (l, h)" and "reg_get k l = None"
  shows "map_of l k = None"
proof (cases "map_of l k")
  case (Some p)
  then have "p \<in> snd ` set l" by (force dest: map_of_SomeD)
  then have "p \<noteq> None" using assms(1) by (auto simp: reg_ok_def owns_def)
  with Some assms(2) show ?thesis by (auto simp: reg_get_def)
qed simp

lemma rl_has_map: "registry_ready env r \<Longrightarrow> rl_has lid r \<longleftrightarrow> rl_map r lid \<noteq> None"
proof (cases "reg_get lid (rl_list r)")
  case None
  then show ?thesis by (simp add: rl_has_def rl_map_def reg_map_def)
next
  case (Some a)
  assume "registry_ready env r"
  then have "rl_map r lid \<noteq> None"
    using Some reg_map_cell [of "rl_list r" "rl_heap r" lid "Some a"]
    by (simp add: registry_ready_def rl_map_def reg_get_Some)
  then show ?thesis
    using Some by (simp add: rl_has_def)
qed

lemma rl_get_cases:
  assumes r: "registry_ready env r"
  shows "\<exists>p r'. rl_get env lid force r = Some (p, r') \<and> registry_ready env r'
     \<and> p = reg_get lid (rl_list r') \<and> (p = None \<longleftrightarrow> \<not> rl_has lid r \<and> \<not> (force \<and> isValidId lid))
     \<and> (\<forall>other. other \<noteq> lid \<or> rl_has lid r \<longrightarrow> rl_map r' other = rl_map r other)
     \<and> (\<forall>lg. \<not> rl_has lid r \<and> rl_map r' lid = Some lg \<longrightarrow> lg_stream lg = []
          \<and> lg_configurations lg = setFromBase (OtherConf (rl_defaultConfigurations r)) empty_Configurations)
     \<and> rl_defaultConfigurations r' = rl_defaultConfigurations r"
proof (cases "\<not> rl_has lid r \<and> force \<and> isValidId lid")
  case False
  have "rl_get env lid force r = Some (reg_get lid (rl_list r), r)"
    using False by (cases "reg_get lid (rl_list r)") (auto simp: rl_get_def rl_has_def Let_def)
  moreover have "\<not> rl_has lid r \<Longrightarrow> rl_map r lid = None"
    using rl_has_map [OF r] by blast
  ultimately show ?thesis
    using r False by (auto simp: rl_has_def)
next
  case True
  then have absent: "reg_get lid (rl_list r) = None" by (simp add: rl_has_def)
  have ok: "reg_ok (rl_list r, rl_heap r)" and c: "complete_conf env (rl_defaultConfigurations r)"
    using r by (auto simp: registry_ready_def)
  obtain lg w where lg: "mk_Logger env lid (rl_defaultConfigurations r) (rl_world r) = Some (lg, w)" "logger_ready env lg"
    "lg_id lg = lid" "lg_stream lg = []"
    "lg_configurations lg = setFromBase (OtherConf (rl_defaultConfigurations r)) empty_Configurations"
    using mk_Logger_ready [OF c] by blast
  let ?lg = "lg\<lparr>lg_hasLogBuilder := True\<rparr>"
  have ready: "logger_ready env ?lg" "lg_id ?lg = lid"
    using lg by (simp_all add: logger_ready_def counted_def)
  obtain p h where new: "new_obj ?lg (rl_heap r) = (p, h)" by (cases "new_obj ?lg (rl_heap r)")
  obtain l' h' where reg: "reg_registerNew lid p (rl_list r) h = Some (l', h')" "reg_ok (l', h')"
    "reg_map (l', h') = (reg_map (rl_list r, rl_heap r))(lid \<mapsto> ?lg)"
    by (rule reg_registerNew_value [OF ok new, of lid]) blast
  have get: "rl_get env lid force r = Some (p, r\<lparr>rl_list := l', rl_heap := h', rl_world := w\<rparr>)"
    using True absent by (simp add: rl_get_def lg(1) new reg(1))
  have "l' = map_insert lid p (rl_list r)"
    using reg(1) absent by (simp add: reg_registerNew_def reg_unregister_def)
  moreover have "map_of (rl_list r) lid = None"
    using absent_key [OF ok absent] .
  moreover have "p \<noteq> None" using new by (auto simp: new_obj_def)
  ultimately have p: "p = reg_get lid l'"
    using ok by (simp add: reg_get_def map_of_insert reg_ok_def split: option.splits)
  have "registry_ready env (r\<lparr>rl_list := l', rl_heap := h', rl_world := w\<rparr>)"
    using r reg(2,3) ready by (auto simp: registry_ready_def rl_map_def)
  then show ?thesis
    using get p \<open>p \<noteq> None\<close> True reg(3) lg(4,5)
    by (intro exI [of _ p] exI [of _ "r\<lparr>rl_list := l', rl_heap := h', rl_world := w\<rparr>"]) (auto simp: rl_map_def)
qed

text \<open>
  In a repository of configured loggers, looking up a logger never fails: it yields a null pointer
  only for a logger that is missing and may not be created, or has an invalid name; a new logger is
  configured from the defaults, and no other logger changes.
\<close>
theorem rl_get_ready:
  assumes "registry_ready env r"
  shows "\<exists>p r'. rl_get env lid force r = Some (p, r') \<and> registry_ready env r'
     \<and> p = reg_get lid (rl_list r') \<and> (p = None \<longleftrightarrow> \<not> rl_has lid r \<and> \<not> (force \<and> isValidId lid))
     \<and> (\<forall>other. other \<noteq> lid \<or> rl_has lid r \<longrightarrow> rl_map r' other = rl_map r other)
     \<and> (\<forall>lg. \<not> rl_has lid r \<and> rl_map r' lid = Some lg \<longrightarrow> lg_stream lg = []
          \<and> lg_configurations lg = setFromBase (OtherConf (rl_defaultConfigurations r)) empty_Configurations)
     \<and> rl_defaultConfigurations r' = rl_defaultConfigurations r"
  using assms by (rule rl_get_cases)

lemma rl_get_ready_witness:
  "\<exists>a r'. rl_get sample_env ''default'' True (mk_RegisteredLoggers sample_world) = Some (Some a, r') \<and> registry_ready sample_env r'"
proof -
  have valid: "isValidId ''default''" by code_simp
  obtain p r' where "rl_get sample_env ''default'' True (mk_RegisteredLoggers sample_world) = Some (p, r')"
    "registry_ready sample_env r'" "p \<noteq> None"
    using rl_get_ready [where lid = "''default''" and force = True, OF new_registry_ready [of sample_env sample_world]] valid
    by metis
  then show ?thesis by blast
qed

text \<open>
  Configuring a new or a configured logger with settings that leave its configurations complete
  succeeds: the counters start at zero, every level has a format, a width, and a file, and is enabled as
  its configuration, or else the global one, says.
\<close>
theorem configure_complete:
  assumes "lg_typedConfigurations lg = None \<or> logger_ready env lg"
    and "complete_conf env (taken_over base (lg_configurations lg))"
  shows "\<exists>lg' w'. configure env base (lg, w) = Some (lg', w') \<and> logger_ready env lg' \<and> all_flushed lg'
     \<and> lg_id lg' = lg_id lg \<and> lg_configurations lg' = taken_over base (lg_configurations lg)
     \<and> (\<forall>level. lg_enabled level lg' = Some (enabled_by (lg_configurations lg') level))"
  using configure_ready [OF assms, of w] by auto

lemma configure_complete_witness:
  "\<exists>lg lg' w'. mk_Logger sample_env ''default'' (setToDefault empty_Configurations) sample_world = Some (lg, w')
     \<and> (\<exists>w''. configure sample_env (OtherConf sample_conf) (lg, w') = Some (lg', w''))
     \<and> lg_enabled L_Debug lg' = Some False \<and> lg_enabled L_Info lg' = Some True"
proof -
  obtain lg w' where lg: "mk_Logger sample_env ''default'' (setToDefault empty_Configurations) sample_world = Some (lg, w')"
    "logger_ready sample_env lg"
    using mk_Logger_ready [where w = sample_world and lid = "''default''", OF defaults_complete [of sample_env]] by blast
  let ?c = "taken_over (OtherConf sample_conf) (lg_configurations lg)"
  have list: "set (map conf_key (cf_list sample_conf)) \<subseteq> UNIV \<times> {C_Enabled}"
    unfolding sample_conf_list by auto
  then have "values_ok sample_env (cf_list sample_conf)"
    by (auto simp: values_ok_def list_all_iff value_ok_def known_configs_list conf_key_def)
  then have "complete_conf sample_env ?c"
    using lg(2) by (simp add: taken_over_def complete_base logger_ready_def)
  then obtain lg' w'' where lg': "configure sample_env (OtherConf sample_conf) (lg, w') = Some (lg', w'')"
    "lg_configurations lg' = ?c" "\<And>level. lg_enabled level lg' = Some (enabled_by ?c level)"
    using configure_complete [of lg sample_env "OtherConf sample_conf" w'] lg(2) by metis
  have "cf_list sample_conf \<noteq> []"
    using sample_conf_list by auto
  then have c: "?c = fold (\<lambda>conf. set_from_conf (Some conf)) (cf_list sample_conf) (lg_configurations lg)"
    by (simp add: taken_over_def confs_differ_def setFromBase_def)
  have keys: "distinct (map conf_key (cf_list sample_conf))"
    "starts_global (filter (\<lambda>k. snd k = C_Enabled) (map conf_key (cf_list sample_conf)))"
    using sample_conf_facts by (simp_all add: conf_ok_def all_global_first_def global_first_keys [symmetric])
  have entry: "entry_value (cf_list sample_conf) level C_Enabled = conf_value level C_Enabled sample_conf" for level
    by (simp add: entry_value_def conf_value_def conf_get_def)
  have "conf_value L_Debug C_Enabled ?c = Some ''false''" "conf_value L_Info C_Enabled ?c = Some ''true''"
    unfolding c copied_value [OF keys] entry by (simp_all add: sample_conf_def set_conf_lookup walked_levels_def)
  then have "\<not> enabled_by ?c L_Debug" "enabled_by ?c L_Info"
    by (auto simp: enabled_by_def configured_def conf_value_def getBool_def trim_def ltrim_def rtrim_def is_c_space_def)
  with lg(1) lg' show ?thesis by auto
qed

text \<open>
  C18. A registered logger cannot be unregistered safely: the removal reads the name of the logger
  through a reference after the logger was deleted.
\<close>
theorem rl_remove_dangles:
  assumes "loggers_ok r" and "rl_has lid r" and "lid \<noteq> ''default''"
  shows "rl_remove lid r = None"
  using assms by (rule remove_dangles)

lemma ready_loggers_ok: "registry_ready env r \<Longrightarrow> loggers_ok r"
proof -
  assume r: "registry_ready env r"
  have "map_option lg_id (cells (rl_heap r) a) = Some lid" if "reg_get lid (rl_list r) = Some a" for lid a
  proof -
    have "map_of (rl_list r) lid = Some (Some a)" using that by (simp add: reg_get_Some)
    with r have "rl_map r lid \<noteq> None" "rl_map r lid = cells (rl_heap r) a"
      using reg_map_cell [of "rl_list r" "rl_heap r" lid "Some a"] that
      by (simp_all add: registry_ready_def rl_map_def reg_map_def)
    with r show ?thesis by (auto simp: registry_ready_def)
  qed
  with r show "loggers_ok r" by (simp add: loggers_ok_def registry_ready_def)
qed

lemma rl_remove_dangles_witness:
  "\<exists>a r. rl_get sample_env ''audit'' True (mk_RegisteredLoggers sample_world) = Some (Some a, r) \<and> rl_remove ''audit'' r = None"
proof -
  have valid: "isValidId ''audit''" by code_simp
  obtain p r where "rl_get sample_env ''audit'' True (mk_RegisteredLoggers sample_world) = Some (p, r)"
    "registry_ready sample_env r" "p = reg_get ''audit'' (rl_list r)" "p \<noteq> None"
    using rl_get_cases [where lid = "''audit''" and force = True, OF new_registry_ready [of sample_env sample_world]] valid
    by metis
  then obtain a where r: "rl_get sample_env ''audit'' True (mk_RegisteredLoggers sample_world) = Some (Some a, r)"
    "registry_ready sample_env r" "reg_get ''audit'' (rl_list r) = Some a" by auto
  then have "rl_remove ''audit'' r = None"
    using rl_remove_dangles [OF ready_loggers_ok [OF r(2)], of "''audit''"] by (simp add: rl_has_def)
  with r(1) show ?thesis by blast
qed

text \<open>
  The formats of levels without an entry of their own are one object, which is resolved once for each
  of them: an escaped specifier is taken for a plain one the second time.
\<close>

lemma escaped_logger_replaced:
  "map_option (\<lambda>tc. map_option lf_format (tc_logFormat L_Info tc))
     (resolveLoggerFormatSpec ''x'' (empty_typed\<lparr>m_logFormatMap := [(L_Global, empty_LogFormat\<lparr>lf_format := ''%%logger''\<rparr>)]\<rparr>))
   = Some (Some ''x'')"
  unfolding resolveLoggerFormatSpec_def each_level_fold by code_simp

end
