(* ===== verification/ElBuilder.thy ===== *)
theory ElBuilder
  imports ElLogger
begin

text \<open>
  Log messages and the default log builder (\<open>easylogging.h\<close>, lines 3878 to 3900 and 4414 to 4491): the
  line that is made of a message, its logger's format and the installed custom specifiers. The
  buffer of the builder is a list of bytes; every write to it is checked.
\<close>

section \<open>Messages\<close>

record LogMessage =
  lm_level :: Level
  lm_file :: string
  lm_line :: "64 word"
  lm_func :: string
  lm_verboseLevel :: "32 word"
  lm_logger :: "nat option"
  lm_message :: string

text \<open>The message is the text that stands in the logger's stream.\<close>

definition mk_LogMessage :: "Level \<Rightarrow> string \<Rightarrow> 64 word \<Rightarrow> string \<Rightarrow> 32 word \<Rightarrow> nat option \<Rightarrow> Logger \<Rightarrow> LogMessage" where
  "mk_LogMessage level file line func verboseLevel logger lg =
     \<lparr>lm_level = level, lm_file = file, lm_line = line, lm_func = func, lm_verboseLevel = verboseLevel,
       lm_logger = logger, lm_message = lg_stream lg\<rparr>"

section \<open>Default builder\<close>

definition kBuilderBuffer :: nat where
  "kBuilderBuffer = kSourceFilenameMaxLength + kSourceLineMaxLength"

definition clearBuff :: "char list \<Rightarrow> char list option" where
  "clearBuff buff = wr buff 0 NUL"

text \<open>A file name is appended to the C string in the buffer, without a look at the buffer's size.\<close>

definition append_name :: "(string \<Rightarrow> string \<Rightarrow> nat \<Rightarrow> string option) \<Rightarrow> string \<Rightarrow> char list \<Rightarrow> char list option" where
  "append_name name_of file buff =
     do { t \<leftarrow> c_string buff;
          t \<leftarrow> name_of file t kSourceFilenameMaxLength;
          if length t < length buff then Some (t @ NUL # drop (Suc (length t)) buff) else None }"

definition fill :: "specifier \<Rightarrow> string \<Rightarrow> string \<Rightarrow> string" where
  "fill sp v logLine = replaceFirstWithEscape logLine (specifier_text sp) v"

definition name_step :: "(string \<Rightarrow> string \<Rightarrow> nat \<Rightarrow> string option) \<Rightarrow> string \<Rightarrow> char list \<Rightarrow> (string \<times> char list) option" where
  "name_step name_of file buff =
     do { buff \<leftarrow> clearBuff buff; buff \<leftarrow> append_name name_of file buff; t \<leftarrow> c_string buff; Some (t, buff) }"

definition number_step :: "nat \<Rightarrow> int \<Rightarrow> char list \<Rightarrow> (string \<times> char list) option" where
  "number_step n len buff =
     do { buff \<leftarrow> clearBuff buff;
          (buff, buf) \<leftarrow> convertAndAddToBuff n len False 0 kBuilderBuffer buff;
          t \<leftarrow> c_string buff;
          Some (t, buff) }"

text \<open>The location copies the buffer onto itself to get behind the file name.\<close>

definition location_step :: "string \<Rightarrow> nat \<Rightarrow> char list \<Rightarrow> (string \<times> char list) option" where
  "location_step file line buff =
     do { buff \<leftarrow> clearBuff buff;
          buff \<leftarrow> append_name buildStrippedFilename file buff;
          t \<leftarrow> c_string buff;
          (buff, buf) \<leftarrow> addToBuff t 0 kBuilderBuffer buff;
          (buff, buf) \<leftarrow> addToBuff '':'' buf kBuilderBuffer buff;
          (buff, buf) \<leftarrow> convertAndAddToBuff line (int kSourceLineMaxLength) False buf kBuilderBuffer buff;
          t \<leftarrow> c_string buff;
          Some (t, buff) }"

definition builder_build :: "'f log_env \<Rightarrow> CustomFormatSpecifier list \<Rightarrow> Logger \<Rightarrow> LogMessage \<Rightarrow> bool \<Rightarrow> string option" where
  "builder_build env specs lg msg appendNewLine =
     do { tc \<leftarrow> lg_typedConfigurations lg;
          logFormat \<leftarrow> tc_logFormat (lm_level msg) tc;
          let has = (\<lambda>flag. lf_hasFlag flag logFormat);
          let logLine = lf_format logFormat;
          let buff = replicate kBuilderBuffer NUL;
          let logLine = (if has F_AppName then fill Sp_App (lg_parentApplicationName lg) logLine else logLine);
          let logLine = (if has F_ThreadId then fill Sp_Thread [] logLine else logLine);
          logLine \<leftarrow> (if has F_DateTime then
            do { width \<leftarrow> tc_millisecondsWidth (lm_level msg) tc;
                 now \<leftarrow> getDateTime (env_localtime env) (env_now env) (lf_dateTimeFormat logFormat) width;
                 Some (fill Sp_DateTime now logLine) } else Some logLine);
          let logLine = (if has F_Function then fill Sp_Func (lm_func msg) logLine else logLine);
          (logLine, buff) \<leftarrow> (if has F_File then
            do { (t, buff) \<leftarrow> name_step buildStrippedFilename (lm_file msg) buff;
                 Some (fill Sp_File t logLine, buff) } else Some (logLine, buff));
          (logLine, buff) \<leftarrow> (if has F_FileBase then
            do { (t, buff) \<leftarrow> name_step buildBaseFilename (lm_file msg) buff;
                 Some (fill Sp_FBase t logLine, buff) } else Some (logLine, buff));
          (logLine, buff) \<leftarrow> (if has F_Line then
            do { (t, buff) \<leftarrow> number_step (unat (lm_line msg)) (int kSourceLineMaxLength) buff;
                 Some (fill Sp_Line t logLine, buff) } else Some (logLine, buff));
          (logLine, buff) \<leftarrow> (if has F_Location then
            do { (t, buff) \<leftarrow> location_step (lm_file msg) (unat (lm_line msg)) buff;
                 Some (fill Sp_Loc t logLine, buff) } else Some (logLine, buff));
          (logLine, buff) \<leftarrow> (if lm_level msg = L_Verbose \<and> has F_VerboseLevel then
            do { (t, buff) \<leftarrow> number_step (unat (scast (lm_verboseLevel msg) :: 64 word)) 1 buff;
                 Some (fill Sp_VLevel t logLine, buff) } else Some (logLine, buff));
          let logLine = (if has F_LogMessage then fill Sp_Msg (lm_message msg) logLine else logLine);
          let logLine = fold (\<lambda>c logLine. replaceFirstWithEscape logLine (cfs_formatSpecifier c) (cfs_resolver c)) specs logLine;
          Some (if appendNewLine then logLine @ [NEWLINE] else logLine) }"

section \<open>What the buffer holds\<close>

definition kept_name :: "string \<Rightarrow> string" where
  "kept_name file = the (buildStrippedFilename file [] kSourceFilenameMaxLength)"

definition kept_base :: "string \<Rightarrow> string" where
  "kept_base file = the (buildBaseFilename file [] kSourceFilenameMaxLength)"

definition text_of_number :: "nat \<Rightarrow> int \<Rightarrow> string" where
  "text_of_number n len = number_text n len False"

lemma c_string_text: "NUL \<notin> set t \<Longrightarrow> c_string (t @ NUL # r) = Some t"
  by (induction t) (auto simp: c_string_def)

lemma digit_loop_size: "digit_loop n p len acc = (p', len', acc') \<Longrightarrow> length acc' + p' = length acc + p"
proof (induction n p len acc rule: digit_loop.induct)
  case (2 n p len acc)
  then show ?case by (cases "0 < n \<and> 0 < len") auto
qed auto

lemma digit_loop_chars:
  "digit_loop n p len acc = (p', len', acc') \<Longrightarrow> NUL \<notin> set acc \<Longrightarrow> NUL \<notin> set acc'"
proof (induction n p len acc rule: digit_loop.induct)
  case (2 n p len acc)
  have "char_of (n mod 10 + 48) \<noteq> NUL"
  proof
    assume "char_of (n mod 10 + 48) = NUL"
    then have "(of_char (char_of (n mod 10 + 48) :: char) :: nat) = of_char NUL" by simp
    then show False by simp
  qed
  with 2 show ?case by (cases "0 < n \<and> 0 < len") auto
qed auto

lemma text_of_number_facts: "length (text_of_number n len) \<le> 8" "NUL \<notin> set (text_of_number n len)"
proof -
  obtain p' len' acc where r: "digit_loop n 8 len [] = (p', len', acc)"
    by (cases "digit_loop n 8 len []") auto
  with digit_loop_size [OF r] digit_loop_chars [OF r]
  show "length (text_of_number n len) \<le> 8" "NUL \<notin> set (text_of_number n len)"
    by (auto simp: text_of_number_def number_text_def)
qed

text \<open>File names are at most 100 characters long.\<close>

lemma cut_filename_name:
  obtains app where "\<And>buff. cut_filename filename buff 100 = Some (buff @ app)" "length app \<le> 100"
    "set app \<subseteq> set filename \<union> {CHR ''.''}"
proof (cases "100 \<le> length filename")
  case True
  let ?f = "drop (length filename - 100) filename"
  have len: "length ?f = 100" using True by simp
  have sub: "set ?f \<subseteq> set filename" "set (drop 3 ?f) \<subseteq> set filename"
    by (auto dest: in_set_dropD)
  show thesis
  proof (cases "cchar ?f 0 \<noteq> CHR ''.'' \<and> cchar ?f 1 \<noteq> CHR ''.''")
    case dots: True
    show thesis
      by (rule that [of "''..'' @ drop 3 ?f"]) (use True len sub dots in \<open>auto simp: cut_filename_def Let_def\<close>)
  next
    case False
    show thesis
      by (rule that [of ?f]) (use True len sub False in \<open>auto simp: cut_filename_def Let_def\<close>)
  qed
next
  case False
  show thesis
    by (rule that [of filename]) (use False in \<open>auto simp: cut_filename_def\<close>)
qed

definition names_file :: "(string \<Rightarrow> string \<Rightarrow> nat \<Rightarrow> string option) \<Rightarrow> bool" where
  "names_file name_of \<longleftrightarrow> (\<forall>file. \<exists>app. (\<forall>buff. name_of file buff 100 = Some (buff @ app)) \<and> length app \<le> 100
     \<and> set app \<subseteq> set file \<union> {CHR ''.''})"

lemma names_stripped: "names_file buildStrippedFilename"
  unfolding names_file_def buildStrippedFilename_def by (metis cut_filename_name)

lemma names_base: "names_file buildBaseFilename"
  unfolding names_file_def
proof
  fix filename :: string
  let ?f = "case last_index CHR ''/'' filename of None \<Rightarrow> filename
    | Some lastSlashAt \<Rightarrow> drop (if lastSlashAt \<noteq> 0 then lastSlashAt + 1 else 0) filename"
  obtain app where "\<forall>buff. cut_filename ?f buff 100 = Some (buff @ app)" "length app \<le> 100"
    "set app \<subseteq> set ?f \<union> {CHR ''.''}"
    using spec [OF names_stripped [unfolded names_file_def buildStrippedFilename_def], of ?f] by blast
  moreover have "set ?f \<subseteq> set filename"
    by (auto split: option.splits dest: in_set_dropD)
  ultimately show "\<exists>app. (\<forall>buff. buildBaseFilename filename buff 100 = Some (buff @ app)) \<and> length app \<le> 100
     \<and> set app \<subseteq> set filename \<union> {CHR ''.''}"
    by (intro exI [of _ app]) (auto simp: buildBaseFilename_def Let_def)
qed

text \<open>A buffer that holds a text, and what the steps make of any buffer of the builder's size.\<close>

lemma clearBuff_text:
  assumes "length buff = 110"
  obtains r where "clearBuff buff = Some (NUL # r)" "length r = 109"
  using that [of "drop 1 buff"] assms by (cases buff) (simp_all add: clearBuff_def wr_def)

lemma append_name_text:
  assumes named: "names_file name_of" and "length r = 109" and plain: "NUL \<notin> set file"
  obtains s where "append_name name_of file (NUL # r) = Some (the (name_of file [] 100) @ NUL # s)"
    "length (the (name_of file [] 100)) \<le> 100" "length (the (name_of file [] 100) @ NUL # s) = 110"
    "NUL \<notin> set (the (name_of file [] 100))"
proof -
  obtain app where app: "name_of file [] 100 = Some app" "length app \<le> 100" "set app \<subseteq> set file \<union> {CHR ''.''}"
    using named unfolding names_file_def by (metis append_Nil)
  have "c_string (NUL # r) = Some []"
    using c_string_text [of "[]" r] by simp
  with app assms(2) have "append_name name_of file (NUL # r) = Some (app @ NUL # drop (Suc (length app)) (NUL # r))"
    by (simp add: append_name_def kSourceFilenameMaxLength_def)
  moreover have "NUL \<notin> set app" using app(3) plain by auto
  ultimately show thesis
    using that [of "drop (Suc (length app)) (NUL # r)"] app assms(2) by simp
qed

lemma add_text:
  assumes "length (t @ NUL # r) = 110" and "length t + length s < 110"
  obtains q where "addToBuff s (length t) 110 (t @ NUL # r) = Some ((t @ s) @ NUL # q, length (t @ s))"
    "length ((t @ s) @ NUL # q) = 110"
proof
  show "addToBuff s (length t) 110 (t @ NUL # r)
      = Some ((t @ s) @ NUL # drop (length t + length s + 1) (t @ NUL # r), length (t @ s))"
    using addToBuff_fits [of "length t" s 110 "t @ NUL # r"] assms by simp
qed (use assms in simp)

lemma name_step_text:
  assumes "names_file name_of" and "length buff = 110" and "NUL \<notin> set file"
  obtains buff' where "name_step name_of file buff = Some (the (name_of file [] 100), buff')" "length buff' = 110"
proof -
  obtain r where r: "clearBuff buff = Some (NUL # r)" "length r = 109"
    using clearBuff_text [OF assms(2)] .
  obtain s where s: "append_name name_of file (NUL # r) = Some (the (name_of file [] 100) @ NUL # s)"
    "length (the (name_of file [] 100) @ NUL # s) = 110" "NUL \<notin> set (the (name_of file [] 100))"
    using append_name_text [OF assms(1) r(2) assms(3)] .
  with r show thesis
    by (intro that [OF _ s(2)]) (simp add: name_step_def c_string_text)
qed

lemma number_step_text:
  assumes "length buff = 110"
  obtains buff' where "number_step n len buff = Some (text_of_number n len, buff')" "length buff' = 110"
proof -
  obtain r where r: "clearBuff buff = Some (NUL # r)" "length r = 109"
    using clearBuff_text [OF assms] .
  note digits = text_of_number_facts [of n len]
  have "length ([] @ NUL # r) = 110" "length [] + length (text_of_number n len) < 110"
    using r(2) digits(1) by simp_all
  from add_text [OF this] obtain q where q:
    "addToBuff (text_of_number n len) 0 110 (NUL # r) = Some (text_of_number n len @ NUL # q, length (text_of_number n len))"
    "length (text_of_number n len @ NUL # q) = 110" by auto
  then show thesis
    using r digits(2)
    by (intro that [OF _ q(2)]) (simp add: number_step_def convertAndAddToBuff_def text_of_number_def [symmetric] c_string_text
      kBuilderBuffer_def kSourceFilenameMaxLength_def kSourceLineMaxLength_def)
qed

lemma location_step_text:
  assumes "length buff = 110" and "NUL \<notin> set file"
  obtains buff' where "location_step file line buff
      = Some (kept_name file @ '':'' @ text_of_number line (int kSourceLineMaxLength), buff')" "length buff' = 110"
proof -
  let ?t = "kept_name file" and ?n = "text_of_number line (int kSourceLineMaxLength)"
  have sizes: "kSourceFilenameMaxLength = 100" "kBuilderBuffer = 110"
    by (simp_all add: kBuilderBuffer_def kSourceFilenameMaxLength_def kSourceLineMaxLength_def)
  have t: "?t = the (buildStrippedFilename file [] 100)" by (simp add: kept_name_def sizes)
  obtain r where r: "clearBuff buff = Some (NUL # r)" "length r = 109"
    using clearBuff_text [OF assms(1)] .
  obtain s where s: "append_name buildStrippedFilename file (NUL # r) = Some (?t @ NUL # s)"
    "length ?t \<le> 100" "length (?t @ NUL # s) = 110" "NUL \<notin> set ?t"
    using append_name_text [OF names_stripped r(2) assms(2)] unfolding t [symmetric] .
  note n = text_of_number_facts [of line "int kSourceLineMaxLength"]
  have self: "addToBuff ?t 0 110 (?t @ NUL # s) = Some (?t @ NUL # s, length ?t)"
    using addToBuff_fits [of 0 ?t 110 "?t @ NUL # s"] s(2,3) by simp
  obtain q1 where q1: "addToBuff '':'' (length ?t) 110 (?t @ NUL # s) = Some ((?t @ '':'') @ NUL # q1, length (?t @ '':''))"
    "length ((?t @ '':'') @ NUL # q1) = 110"
    using add_text [OF s(3), of "'':''"] s(2) by auto
  have "length (?t @ '':'') + length ?n < 110" using s(2) n(1) by simp
  from add_text [OF q1(2) this] obtain q2 where q2:
    "addToBuff ?n (length (?t @ '':'')) 110 ((?t @ '':'') @ NUL # q1) = Some (((?t @ '':'') @ ?n) @ NUL # q2, length ((?t @ '':'') @ ?n))"
    "length (((?t @ '':'') @ ?n) @ NUL # q2) = 110" .
  have "NUL \<notin> set ((?t @ '':'') @ ?n)" using s(4) n(2) by auto
  from c_string_text [OF this, of q2] have "location_step file line buff = Some ((?t @ '':'') @ ?n, ((?t @ '':'') @ ?n) @ NUL # q2)"
    unfolding location_step_def r(1) bind.bind_lunit s(1) c_string_text [OF s(4)] sizes self prod.case q1(1)
      convertAndAddToBuff_def text_of_number_def [symmetric] q2(1) by simp
  then show thesis
    by (intro that [OF _ q2(2)]) simp
qed

section \<open>The line without the buffer\<close>

text \<open>The parts of a line in the order in which the builder fills them in.\<close>

definition line_parts :: "Logger \<Rightarrow> LogMessage \<Rightarrow> string \<Rightarrow> (FormatFlags \<times> specifier \<times> string) list" where
  "line_parts lg msg now =
     (let name = kept_name (lm_file msg); line = text_of_number (unat (lm_line msg)) (int kSourceLineMaxLength)
      in [(F_AppName, Sp_App, lg_parentApplicationName lg), (F_ThreadId, Sp_Thread, []), (F_DateTime, Sp_DateTime, now),
          (F_Function, Sp_Func, lm_func msg), (F_File, Sp_File, name), (F_FileBase, Sp_FBase, kept_base (lm_file msg)),
          (F_Line, Sp_Line, line), (F_Location, Sp_Loc, name @ '':'' @ line)]
       @ (if lm_level msg = L_Verbose
          then [(F_VerboseLevel, Sp_VLevel, text_of_number (unat (scast (lm_verboseLevel msg) :: 64 word)) 1)] else [])
       @ [(F_LogMessage, Sp_Msg, lm_message msg)])"

definition fill_parts :: "LogFormat \<Rightarrow> (FormatFlags \<times> specifier \<times> string) list \<Rightarrow> string" where
  "fill_parts f parts = fold (\<lambda>(flag, sp, v) l. if lf_hasFlag flag f then fill sp v l else l) parts (lf_format f)"

definition fill_customs :: "CustomFormatSpecifier list \<Rightarrow> string \<Rightarrow> string" where
  "fill_customs specs logLine = fold (\<lambda>c logLine. replaceFirstWithEscape logLine (cfs_formatSpecifier c) (cfs_resolver c)) specs logLine"

text \<open>Each conditional step fills its part in and leaves a buffer of the same size.\<close>

lemma step_if:
  assumes "length buff = 110" and "\<And>buff. length buff = 110 \<Longrightarrow> \<exists>buff'. step buff = Some (t, buff') \<and> length buff' = 110"
  obtains buff' where "\<And>logLine. (if c then do { (t, buff) \<leftarrow> step buff; Some (fill sp t logLine, buff) } else Some (logLine, buff))
      = Some (if c then fill sp t logLine else logLine, buff')" "length buff' = 110"
proof (cases c)
  case True
  obtain buff' where "step buff = Some (t, buff')" "length buff' = 110" using assms by blast
  with that [of buff'] True show thesis by simp
next
  case False
  with that [of buff] assms(1) show thesis by simp
qed

lemma builder_line:
  assumes tc: "lg_typedConfigurations lg = Some tc" and f: "tc_logFormat (lm_level msg) tc = Some f"
    and plain: "NUL \<notin> set (lm_file msg)"
    and now: "lf_hasFlag F_DateTime f \<Longrightarrow> Option.bind (tc_millisecondsWidth (lm_level msg) tc)
        (getDateTime (env_localtime env) (env_now env) (lf_dateTimeFormat f)) = Some now"
  shows "builder_build env specs lg msg nl
     = Some (fill_customs specs (fill_parts f (line_parts lg msg now)) @ (if nl then [NEWLINE] else []))"
proof -
  let ?file = "lm_file msg" and ?b0 = "replicate kBuilderBuffer NUL"
  let ?n = "unat (lm_line msg)" and ?v = "unat (scast (lm_verboseLevel msg) :: 64 word)"
  have name: "\<exists>b'. name_step buildStrippedFilename ?file b = Some (kept_name ?file, b') \<and> length b' = 110" if "length b = 110" for b
    by (rule name_step_text [OF names_stripped that plain]) (simp add: kept_name_def kSourceFilenameMaxLength_def)
  have base: "\<exists>b'. name_step buildBaseFilename ?file b = Some (kept_base ?file, b') \<and> length b' = 110" if "length b = 110" for b
    by (rule name_step_text [OF names_base that plain]) (simp add: kept_base_def kSourceFilenameMaxLength_def)
  have num: "\<exists>b'. number_step n len b = Some (text_of_number n len, b') \<and> length b' = 110" if "length b = 110" for b n len
    using number_step_text [OF that, of n len] by metis
  have loc: "\<exists>b'. location_step ?file n b = Some (kept_name ?file @ '':'' @ text_of_number n (int kSourceLineMaxLength), b')
      \<and> length b' = 110" if "length b = 110" for b n
    using location_step_text [OF that plain, of n] by metis
  have b0: "length ?b0 = 110"
    by (simp add: kBuilderBuffer_def kSourceFilenameMaxLength_def kSourceLineMaxLength_def)
  obtain b1 where s1: "\<And>l. (if lf_hasFlag F_File f then do { (t, buff) \<leftarrow> name_step buildStrippedFilename ?file ?b0;
      Some (fill Sp_File t l, buff) } else Some (l, ?b0)) = Some (if lf_hasFlag F_File f then fill Sp_File (kept_name ?file) l else l, b1)"
    and b1: "length b1 = 110"
    by (rule step_if [OF b0 name, where c = "lf_hasFlag F_File f" and sp = Sp_File]) blast+
  obtain b2 where s2: "\<And>l. (if lf_hasFlag F_FileBase f then do { (t, buff) \<leftarrow> name_step buildBaseFilename ?file b1;
      Some (fill Sp_FBase t l, buff) } else Some (l, b1)) = Some (if lf_hasFlag F_FileBase f then fill Sp_FBase (kept_base ?file) l else l, b2)"
    and b2: "length b2 = 110"
    by (rule step_if [OF b1 base, where c = "lf_hasFlag F_FileBase f" and sp = Sp_FBase]) blast+
  obtain b3 where s3: "\<And>l. (if lf_hasFlag F_Line f then do { (t, buff) \<leftarrow> number_step ?n (int kSourceLineMaxLength) b2;
      Some (fill Sp_Line t l, buff) } else Some (l, b2))
      = Some (if lf_hasFlag F_Line f then fill Sp_Line (text_of_number ?n (int kSourceLineMaxLength)) l else l, b3)"
    and b3: "length b3 = 110"
    by (rule step_if [OF b2 num, where c = "lf_hasFlag F_Line f" and sp = Sp_Line]) blast+
  obtain b4 where s4: "\<And>l. (if lf_hasFlag F_Location f then do { (t, buff) \<leftarrow> location_step ?file ?n b3;
      Some (fill Sp_Loc t l, buff) } else Some (l, b3)) = Some (if lf_hasFlag F_Location f
        then fill Sp_Loc (kept_name ?file @ '':'' @ text_of_number ?n (int kSourceLineMaxLength)) l else l, b4)"
    and b4: "length b4 = 110"
    by (rule step_if [OF b3 loc, where c = "lf_hasFlag F_Location f" and sp = Sp_Loc]) blast+
  obtain b5 where s5: "\<And>l. (if lm_level msg = L_Verbose \<and> lf_hasFlag F_VerboseLevel f then do { (t, buff) \<leftarrow> number_step ?v 1 b4;
      Some (fill Sp_VLevel t l, buff) } else Some (l, b4)) = Some (if lm_level msg = L_Verbose \<and> lf_hasFlag F_VerboseLevel f
        then fill Sp_VLevel (text_of_number ?v 1) l else l, b5)"
    by (rule step_if [OF b4 num, where c = "lm_level msg = L_Verbose \<and> lf_hasFlag F_VerboseLevel f" and sp = Sp_VLevel]) blast+
  have date: "(if lf_hasFlag F_DateTime f then
      do { width \<leftarrow> tc_millisecondsWidth (lm_level msg) tc;
           now \<leftarrow> getDateTime (env_localtime env) (env_now env) (lf_dateTimeFormat f) width;
           Some (fill Sp_DateTime now l) } else Some l) = Some (if lf_hasFlag F_DateTime f then fill Sp_DateTime now l else l)" for l
    using now by (auto split: bind_splits)
  show ?thesis
    unfolding builder_build_def tc bind.bind_lunit f Let_def date s1 prod.case s2 s3 s4 s5
    by (simp add: fill_parts_def line_parts_def fill_customs_def Let_def)
qed

text \<open>
  C17. The default builder makes exactly the line that its parts describe: every part whose flag the
  format has is filled in, in the order of the builder, file names are cut to 100 characters and
  numbers to 8 digits, and no step ever leaves the buffer of 110 bytes.
\<close>
theorem builder_line_exact:
  assumes "lg_typedConfigurations lg = Some tc" and "tc_logFormat (lm_level msg) tc = Some f"
    and "NUL \<notin> set (lm_file msg)"
    and "lf_hasFlag F_DateTime f \<Longrightarrow> Option.bind (tc_millisecondsWidth (lm_level msg) tc)
        (getDateTime (env_localtime env) (env_now env) (lf_dateTimeFormat f)) = Some now"
  shows "builder_build env specs lg msg nl
     = Some (fill_customs specs (fill_parts f (line_parts lg msg now)) @ (if nl then [NEWLINE] else []))"
  using assms by (rule builder_line)

definition sample_format :: LogFormat where
  "sample_format = empty_LogFormat\<lparr>lf_format := ''%file:%line %msg'',
     lf_flags := format_int F_File OR format_int F_Line OR format_int F_LogMessage\<rparr>"

definition sample_logger :: Logger where
  "sample_logger = \<lparr>lg_id = ''default'',
     lg_typedConfigurations = Some (empty_typed\<lparr>m_logFormatMap := [(L_Global, sample_format)]\<rparr>), lg_stream = [],
     lg_parentApplicationName = [], lg_isConfigured = True, lg_configurations = empty_Configurations,
     lg_unflushedCount = [], lg_hasLogBuilder = True\<rparr>"

definition sample_message :: LogMessage where
  "sample_message = \<lparr>lm_level = L_Info, lm_file = ''a.cpp'', lm_line = 42, lm_func = ''f'', lm_verboseLevel = 0,
     lm_logger = None, lm_message = ''hi''\<rparr>"

lemma builder_line_exact_witness:
  "builder_build sample_env [] sample_logger sample_message False = Some ''a.cpp:42 hi''"
proof -
  have tc: "lg_typedConfigurations sample_logger = Some (empty_typed\<lparr>m_logFormatMap := [(L_Global, sample_format)]\<rparr>)"
    by (simp add: sample_logger_def)
  have f: "tc_logFormat (lm_level sample_message) (empty_typed\<lparr>m_logFormatMap := [(L_Global, sample_format)]\<rparr>) = Some sample_format"
    by (simp add: tc_logFormat_def unsafeGetConfigByRef_def sample_message_def)
  have "fill_customs [] (fill_parts sample_format (line_parts sample_logger sample_message [])) = ''a.cpp:42 hi''"
    by code_simp
  then show ?thesis
    using builder_line_exact [OF tc f, of sample_env "[]" "[]" False]
    by (simp add: sample_message_def) (simp add: sample_format_def empty_LogFormat_def lf_hasFlag_def hasFlag_def bitwise_And_def)
qed

end
