(* ===== verification/ElStreams.thy ===== *)
theory ElStreams
  imports ElLogger
begin

text \<open>
  No logger writes through a dangling stream: the streams that the reference map and the typed
  configurations hold stay alive while loggers are built and configured.
\<close>

section \<open>Live streams\<close>

definition live :: "nat option \<Rightarrow> 'f log_world \<Rightarrow> bool" where
  "live p w \<longleftrightarrow> (case p of None \<Rightarrow> True | Some a \<Rightarrow> cells (w_streams w) a \<noteq> None)"

definition all_live :: "('k \<times> nat option) list \<Rightarrow> 'f log_world \<Rightarrow> bool" where
  "all_live m w \<longleftrightarrow> (\<forall>p\<in>snd ` set m. live p w)"

definition world_ok :: "'f log_world \<Rightarrow> bool" where
  "world_ok w \<longleftrightarrow> all_live (w_reference w) w"

definition keeps_live :: "'f log_world \<Rightarrow> 'f log_world \<Rightarrow> bool" where
  "keeps_live w w' \<longleftrightarrow> (\<forall>a. cells (w_streams w) a \<noteq> None \<longrightarrow> cells (w_streams w') a \<noteq> None)"

lemma keeps_live_refl [simp]: "keeps_live w w"
  by (simp add: keeps_live_def)

lemma keeps_live_trans: "keeps_live w w' \<Longrightarrow> keeps_live w' w'' \<Longrightarrow> keeps_live w w''"
  by (simp add: keeps_live_def)

lemma keeps_live: "keeps_live w w' \<Longrightarrow> live p w \<Longrightarrow> live p w'"
  by (auto simp: keeps_live_def live_def split: option.splits)

lemma keeps_all_live: "keeps_live w w' \<Longrightarrow> all_live m w \<Longrightarrow> all_live m w'"
  by (auto simp: all_live_def keeps_live)

lemma all_live_insert: "all_live m w \<Longrightarrow> live p w \<Longrightarrow> all_live (map_insert k p m) w"
proof -
  have "set (map_insert k p m) \<subseteq> insert (k, p) (set m)"
  proof (induction m)
    case (Cons e m)
    then show ?case by (cases e) auto
  qed simp
  then show "all_live m w \<Longrightarrow> live p w \<Longrightarrow> ?thesis"
    by (fastforce simp: all_live_def)
qed

lemma all_live_lookup: "all_live m w \<Longrightarrow> map_of m k = Some p \<Longrightarrow> live p w"
  by (force simp: all_live_def dest: map_of_SomeD)

lemma open_stream_live:
  assumes "open_stream f w = (p, w')"
  shows "live p w'" "keeps_live w w'" "w_reference w' = w_reference w"
proof -
  have "cells (w_streams w') a \<noteq> None" if "cells (w_streams w) a \<noteq> None" for a
    using assms that by (auto simp: open_stream_def new_obj_def Let_def split: prod.splits option.splits if_splits)
  then show "keeps_live w w'" by (simp add: keeps_live_def)
  show "live p w'" "w_reference w' = w_reference w"
    using assms by (auto simp: open_stream_def new_obj_def live_def Let_def split: prod.splits option.splits)
qed

text \<open>Typed configurations whose streams are alive, in a world whose reference map is.\<close>

definition streams_ok :: "TypedConfigurations \<times> 'f log_world \<Rightarrow> bool" where
  "streams_ok s \<longleftrightarrow> world_ok (snd s) \<and> all_live (m_fileStreamMap (fst s)) (snd s)"

lemma streams_ok_other:
  "streams_ok (tc, w) \<Longrightarrow> m_fileStreamMap tc' = m_fileStreamMap tc \<Longrightarrow> w_streams w' = w_streams w
   \<Longrightarrow> w_reference w' = w_reference w \<Longrightarrow> streams_ok (tc', w')"
  by (simp add: streams_ok_def world_ok_def all_live_def live_def cong: option.case_cong)

lemma create_stream_live:
  assumes ok: "streams_ok (tc, w)" and c: "create_stream f level (tc, w) = Some (tc', w')"
  shows "streams_ok (tc', w') \<and> keeps_live w w'"
proof (cases "map_of (w_reference w) f")
  case None
  obtain p w1 where o: "open_stream f w = (p, w1)" by (cases "open_stream f w")
  note new = open_stream_live [OF o]
  have m: "all_live (map_insert level p (m_fileStreamMap tc)) w1"
    using ok by (intro all_live_insert [OF keeps_all_live [OF new(2)] new(1)]) (simp add: streams_ok_def)
  obtain q where q: "map_of (map_insert level p (m_fileStreamMap tc)) level = Some q"
    using c by (auto simp: create_stream_def None o Let_def split: bind_splits)
  have "live q w1" using all_live_lookup [OF m q] .
  moreover have "all_live (w_reference w1) w1"
    using ok keeps_all_live [OF new(2)] new(3) by (auto simp: streams_ok_def world_ok_def)
  ultimately have ref: "all_live (map_insert f q (w_reference w1)) w1"
    by (rule all_live_insert [rotated])
  have "w' = w1\<lparr>w_reference := map_insert f q (w_reference w1)\<rparr>"
    "m_fileStreamMap tc' = map_insert level p (m_fileStreamMap tc)"
    using c by (auto simp: create_stream_def None o q Let_def split: if_splits)
  then show ?thesis
    using m ref new(2) by (simp add: streams_ok_def world_ok_def all_live_def live_def keeps_live_def cong: option.case_cong)
next
  case (Some p)
  then have "live p w" using ok all_live_lookup by (auto simp: streams_ok_def world_ok_def)
  moreover have "w' = w" "m_fileStreamMap tc' = map_insert level p (m_fileStreamMap tc)"
    using c by (auto simp: create_stream_def Some Let_def split: if_splits)
  ultimately show ?thesis
    using ok by (simp add: streams_ok_def all_live_insert)
qed

lemma insertFile_live:
  assumes "streams_ok (tc, w)" and "insertFile env level f (tc, w) = Some (tc', w')"
  shows "streams_ok (tc', w') \<and> keeps_live w w'"
proof -
  obtain g w1 k where "create_stream g k (tc, w1) = Some (tc', w')" and w1: "w1 = w \<or> (\<exists>d. w1 = w\<lparr>w_dirs := d\<rparr>)"
    using assms(2) by (auto simp: insertFile_def Let_def split: bind_splits if_splits)
  moreover have "streams_ok (tc, w1)" "keeps_live w w1"
    using streams_ok_other [OF assms(1), of tc w1] w1 by (auto simp: keeps_live_def)
  ultimately show ?thesis
    using create_stream_live keeps_live_trans by blast
qed

lemma build_files_live:
  "streams_ok (tc, w) \<Longrightarrow> build_files env confs (tc, w) = Some (tc', w') \<Longrightarrow> streams_ok (tc', w') \<and> keeps_live w w'"
proof (induction confs arbitrary: tc w)
  case (Cons conf confs)
  show ?case
  proof (cases "c_type conf = C_Filename")
    case True
    then obtain tc1 w1 where "insertFile env (c_level conf) (c_value conf) (tc, w) = Some (tc1, w1)"
      and rest: "build_files env confs (tc1, w1) = Some (tc', w')"
      using Cons.prems(2) by (auto split: bind_splits)
    then have "streams_ok (tc1, w1)" "keeps_live w w1"
      using insertFile_live [OF Cons.prems(1)] by blast+
    with Cons.IH [OF _ rest] show ?thesis using keeps_live_trans by blast
  next
    case False
    with Cons show ?thesis by simp
  qed
qed simp

lemma rolling_live:
  "build_rolling confs tc w = Some w' \<Longrightarrow> streams_ok (tc, w) \<Longrightarrow> streams_ok (tc, w') \<and> keeps_live w w'"
proof (induction confs arbitrary: w)
  case (Cons conf confs)
  obtain b w1 where 1: "unsafeValidateFileRolling (c_level conf) defaultPreRollOutCallback (tc, w) = Some (b, w1)"
    and rest: "build_rolling confs tc w1 = Some w'"
    using Cons.prems(1) by (auto split: bind_splits)
  have keep: "keeps_live w w1" and ref: "w_reference w1 = w_reference w"
    using 1 by (auto simp: unsafeValidateFileRolling_def reopen_trunc_def defaultPreRollOutCallback_def keeps_live_def Let_def
        split: bind_splits option.splits if_splits)
  then have "streams_ok (tc, w1)"
    using Cons.prems(2) keeps_all_live [OF keep, of "w_reference w"] keeps_all_live [OF keep, of "m_fileStreamMap tc"]
    by (simp add: streams_ok_def world_ok_def)
  with Cons.IH [OF rest] keep show ?case using keeps_live_trans by blast
qed simp

lemma build_confs_streams: "build_confs env confs tc = Some tc' \<Longrightarrow> m_fileStreamMap tc' = m_fileStreamMap tc"
proof (induction confs arbitrary: tc)
  case (Cons conf confs)
  obtain tc1 where tc1: "build_conf env conf tc = Some tc1" "build_confs env confs tc1 = Some tc'"
    using Cons.prems by (auto split: bind_splits)
  then have "m_fileStreamMap tc1 = m_fileStreamMap tc"
    by (cases "c_type conf") (auto simp: build_conf_def Let_def split: bind_splits)
  with Cons.IH [OF tc1(2)] show ?case by simp
qed simp

lemma mk_TypedConfigurations_live:
  assumes "mk_TypedConfigurations env c w = Some (tc, w')" and "world_ok w"
  shows "streams_ok (tc, w') \<and> keeps_live w w'"
proof -
  obtain tc1 w1 where 1: "build_confs env (cf_list c) empty_typed = Some tc1"
    "build_files env (cf_list c) (tc1, w) = Some (tc, w1)"
    "build_rolling (filter (\<lambda>conf. c_type conf = C_MaxLogFileSize) (cf_list c)) tc w1 = Some w'"
    using assms(1) by (auto simp: mk_TypedConfigurations_def build_def Let_def split: bind_splits prod.splits)
  have "streams_ok (tc1, w)"
    using build_confs_streams [OF 1(1)] assms(2) by (simp add: streams_ok_def all_live_def empty_typed_def)
  then have "streams_ok (tc, w1)" "keeps_live w w1"
    using build_files_live [OF _ 1(2)] by blast+
  with rolling_live [OF 1(3)] show ?thesis using keeps_live_trans by blast
qed

section \<open>Loggers\<close>

text \<open>A logger whose streams are alive.\<close>

definition logger_live :: "Logger \<Rightarrow> 'f log_world \<Rightarrow> bool" where
  "logger_live lg w \<longleftrightarrow> (case lg_typedConfigurations lg of None \<Rightarrow> True | Some tc \<Rightarrow> all_live (m_fileStreamMap tc) w)"

lemma logger_live_mono: "keeps_live w w' \<Longrightarrow> logger_live lg w \<Longrightarrow> logger_live lg w'"
  by (auto simp: logger_live_def keeps_all_live split: option.splits)

lemma resolve_streams:
  "fold (resolve_level lid) ls (Some tc) = Some tc' \<Longrightarrow> m_fileStreamMap tc' = m_fileStreamMap tc"
proof (induction ls arbitrary: tc)
  case (Cons l ls)
  have none: "fold (resolve_level lid) ls None = None"
    by (induction ls) (simp_all add: resolve_level_def)
  then obtain tc1 where 1: "resolve_level lid l (Some tc) = Some tc1"
    using Cons.prems by (cases "resolve_level lid l (Some tc)") simp_all
  then have "m_fileStreamMap tc1 = m_fileStreamMap tc"
    by (auto simp: resolve_level_def Let_def split: bind_splits)
  with Cons.IH [of tc1] Cons.prems 1 show ?case by simp
qed simp

lemma configure_live:
  assumes "configure env base (lg, w) = Some (lg', w')" and "world_ok w"
  shows "logger_live lg' w' \<and> world_ok w' \<and> keeps_live w w'"
proof -
  obtain c tc tc' lid where tc: "mk_TypedConfigurations env c w = Some (tc, w')"
    and tc': "resolveLoggerFormatSpec lid tc = Some tc'" "lg_typedConfigurations lg' = Some tc'"
    using assms(1) by (auto simp: configure_def Let_def split: bind_splits)
  have "m_fileStreamMap tc' = m_fileStreamMap tc"
    using tc'(1) resolve_streams by (auto simp: resolveLoggerFormatSpec_def each_level_fold)
  then show ?thesis
    using mk_TypedConfigurations_live [OF tc assms(2)] tc'(2) by (simp add: logger_live_def streams_ok_def)
qed

end
