(* ===== verification/ElStorage.thy ===== *)
theory ElStorage
  imports ElBuilder ElStreams ElVerbose
begin

text \<open>
  The storage of the logging library and the dispatching of messages (\<open>easylogging.h\<close>, lines 3955 to
  4215, 4219 to 4282 and 4492 to 4532): the global state with its loggers, flags, callbacks and custom
  specifiers, the handler that writes a line to its file and to the terminal, and the dispatcher
  that calls the handlers.

  The classes of the program's own callbacks are parameters. What is written to the terminal is
  kept as a text. A write to a stream that is open succeeds.
\<close>

section \<open>State\<close>

datatype dispatch_class = DefaultLogDispatch | UserDispatch nat
datatype tracking_class = DefaultPerformanceTracking | UserTracking nat

type_synonym 'c callbacks = "(string \<times> 'c \<times> Callback) list"

text \<open>The logging level of the hierarchy has no value until it is set.\<close>

record 'f Storage =
  st_hitCounters :: hit_registry
  st_loggers :: "'f loggers"
  st_flags :: enum_t
  st_vRegistry :: VRegistry
  st_commandLineArgs :: args
  st_preRollOutCallback :: "'f roll_out"
  st_logDispatchCallbacks :: "dispatch_class callbacks"
  st_performanceTrackingCallbacks :: "tracking_class callbacks"
  st_customFormatSpecifiers :: "CustomFormatSpecifier list"
  st_loggingLevel :: "Level option"
  st_stdout :: string

section \<open>Flags, callbacks and custom specifiers\<close>

definition st_addFlag :: "LoggingFlag \<Rightarrow> 'f Storage \<Rightarrow> 'f Storage" where
  "st_addFlag flag st = st\<lparr>st_flags := addFlag (flag_int flag) (st_flags st)\<rparr>"

definition st_removeFlag :: "LoggingFlag \<Rightarrow> 'f Storage \<Rightarrow> 'f Storage" where
  "st_removeFlag flag st = st\<lparr>st_flags := removeFlag (flag_int flag) (st_flags st)\<rparr>"

definition st_hasFlag :: "LoggingFlag \<Rightarrow> 'f Storage \<Rightarrow> bool" where
  "st_hasFlag flag st = hasFlag (flag_int flag) (st_flags st)"

definition setFlags :: "enum_t \<Rightarrow> 'f Storage \<Rightarrow> 'f Storage" where
  "setFlags flags st = st\<lparr>st_flags := flags\<rparr>"

definition setPreRollOutCallback :: "'f roll_out \<Rightarrow> 'f Storage \<Rightarrow> 'f Storage" where
  "setPreRollOutCallback callback st = st\<lparr>st_preRollOutCallback := callback\<rparr>"

definition unsetPreRollOutCallback :: "'f Storage \<Rightarrow> 'f Storage" where
  "unsetPreRollOutCallback st = st\<lparr>st_preRollOutCallback := defaultPreRollOutCallback\<rparr>"

definition hasCustomFormatSpecifier :: "string \<Rightarrow> 'f Storage \<Rightarrow> bool" where
  "hasCustomFormatSpecifier formatSpecifier st
     \<longleftrightarrow> list_ex (\<lambda>c. cfs_eq c formatSpecifier) (st_customFormatSpecifiers st)"

definition installCustomFormatSpecifier :: "CustomFormatSpecifier \<Rightarrow> 'f Storage \<Rightarrow> 'f Storage" where
  "installCustomFormatSpecifier c st =
     (if hasCustomFormatSpecifier (cfs_formatSpecifier c) st then st
      else st\<lparr>st_customFormatSpecifiers := st_customFormatSpecifiers st @ [c]\<rparr>)"

fun erase_custom :: "string \<Rightarrow> CustomFormatSpecifier list \<Rightarrow> CustomFormatSpecifier list \<times> bool" where
  "erase_custom s [] = ([], False)"
| "erase_custom s (c # cs) =
     (if cfs_eq c s then (cs, True) else (let (cs, found) = erase_custom s cs in (c # cs, found)))"

definition uninstallCustomFormatSpecifier :: "string \<Rightarrow> 'f Storage \<Rightarrow> bool \<times> 'f Storage" where
  "uninstallCustomFormatSpecifier s st =
     (let (cs, found) = erase_custom s (st_customFormatSpecifiers st)
      in if found then (True, st\<lparr>st_customFormatSpecifiers := cs\<rparr>) else (False, st))"

definition setLoggingLevel :: "Level \<Rightarrow> 'f Storage \<Rightarrow> 'f Storage" where
  "setLoggingLevel level st = st\<lparr>st_loggingLevel := Some level\<rparr>"

definition installCallback :: "'c \<Rightarrow> string \<Rightarrow> 'c callbacks \<Rightarrow> bool \<times> 'c callbacks" where
  "installCallback cls lid mapT =
     (if map_of mapT lid = None then (True, map_insert lid (cls, mk_Callback) mapT) else (False, mapT))"

definition uninstallCallback :: "string \<Rightarrow> 'c callbacks \<Rightarrow> 'c callbacks" where
  "uninstallCallback lid mapT = (if map_of mapT lid \<noteq> None then map_erase lid mapT else mapT)"

definition find_callback :: "string \<Rightarrow> 'c callbacks \<Rightarrow> ('c \<times> Callback) option" where
  "find_callback lid mapT = map_of mapT lid"

definition installLogDispatchCallback :: "dispatch_class \<Rightarrow> string \<Rightarrow> 'f Storage \<Rightarrow> bool \<times> 'f Storage" where
  "installLogDispatchCallback cls lid st =
     (let (r, m) = installCallback cls lid (st_logDispatchCallbacks st) in (r, st\<lparr>st_logDispatchCallbacks := m\<rparr>))"

definition uninstallLogDispatchCallback :: "string \<Rightarrow> 'f Storage \<Rightarrow> 'f Storage" where
  "uninstallLogDispatchCallback lid st =
     st\<lparr>st_logDispatchCallbacks := uninstallCallback lid (st_logDispatchCallbacks st)\<rparr>"

definition logDispatchCallback :: "string \<Rightarrow> 'f Storage \<Rightarrow> (dispatch_class \<times> Callback) option" where
  "logDispatchCallback lid st = find_callback lid (st_logDispatchCallbacks st)"

definition installPerformanceTrackingCallback :: "tracking_class \<Rightarrow> string \<Rightarrow> 'f Storage \<Rightarrow> bool \<times> 'f Storage" where
  "installPerformanceTrackingCallback cls lid st =
     (let (r, m) = installCallback cls lid (st_performanceTrackingCallbacks st)
      in (r, st\<lparr>st_performanceTrackingCallbacks := m\<rparr>))"

definition uninstallPerformanceTrackingCallback :: "string \<Rightarrow> 'f Storage \<Rightarrow> 'f Storage" where
  "uninstallPerformanceTrackingCallback lid st =
     st\<lparr>st_performanceTrackingCallbacks := uninstallCallback lid (st_performanceTrackingCallbacks st)\<rparr>"

definition performanceTrackingCallback :: "string \<Rightarrow> 'f Storage \<Rightarrow> (tracking_class \<times> Callback) option" where
  "performanceTrackingCallback lid st = find_callback lid (st_performanceTrackingCallbacks st)"

section \<open>Occasional logging\<close>

definition count_with :: "(hit_registry \<Rightarrow> (bool \<times> hit_registry) option) \<Rightarrow> 'f Storage \<Rightarrow> (bool \<times> 'f Storage) option" where
  "count_with check st = do { (b, r) \<leftarrow> check (st_hitCounters st); Some (b, st\<lparr>st_hitCounters := r\<rparr>) }"

definition validateEveryNCounter :: "string \<Rightarrow> 64 word \<Rightarrow> 64 word \<Rightarrow> 'f Storage \<Rightarrow> (bool \<times> 'f Storage) option" where
  "validateEveryNCounter filename lineNumber occasion = count_with (validateEveryN filename lineNumber occasion)"

definition validateAfterNCounter :: "string \<Rightarrow> 64 word \<Rightarrow> 64 word \<Rightarrow> 'f Storage \<Rightarrow> (bool \<times> 'f Storage) option" where
  "validateAfterNCounter filename lineNumber n = count_with (validateAfterN filename lineNumber n)"

definition validateNTimesCounter :: "string \<Rightarrow> 64 word \<Rightarrow> 64 word \<Rightarrow> 'f Storage \<Rightarrow> (bool \<times> 'f Storage) option" where
  "validateNTimesCounter filename lineNumber n = count_with (validateNTimes filename lineNumber n)"

section \<open>Construction and arguments\<close>

text \<open>An operation of the logger that a pointer stands for.\<close>

definition on_logger :: "nat option \<Rightarrow> (Logger \<times> 'f log_world \<Rightarrow> (Logger \<times> 'f log_world) option)
    \<Rightarrow> 'f loggers \<Rightarrow> 'f loggers option" where
  "on_logger p g r =
     do { a \<leftarrow> p;
          lg \<leftarrow> cells (rl_heap r) a;
          (lg, w) \<leftarrow> g (lg, rl_world r);
          Some (r\<lparr>rl_heap := (rl_heap r)\<lparr>cells := (cells (rl_heap r))(a \<mapsto> lg)\<rparr>, rl_world := w\<rparr>) }"

definition set_globally_and_reconfigure :: "'f log_env \<Rightarrow> ConfigurationType \<Rightarrow> string \<Rightarrow> Logger \<times> 'f log_world
    \<Rightarrow> (Logger \<times> 'f log_world) option" where
  "set_globally_and_reconfigure env t v s =
     (let (lg, w) = s
      in reconfigure env (lg\<lparr>lg_configurations := setGlobally t v False (lg_configurations lg)\<rparr>, w))"

definition performance_format :: string where
  "performance_format = ''%datetime %level %msg''"

definition mk_Storage :: "'f log_env \<Rightarrow> 'f log_world \<Rightarrow> 'f Storage option" where
  "mk_Storage env w =
     do { (p, r) \<leftarrow> rl_get env kDefaultLoggerId True (mk_RegisteredLoggers w);
          (performanceLogger, r) \<leftarrow> rl_get env kPerformanceLoggerId True r;
          r \<leftarrow> on_logger performanceLogger (set_globally_and_reconfigure env C_Format performance_format) r;
          let st = \<lparr>st_hitCounters = ([], empty_heap), st_loggers = r, st_flags = 0, st_vRegistry = mk_VRegistry 0,
                     st_commandLineArgs = \<lparr>m_argv = [], m_paramsWithValue = [], m_params = []\<rparr>,
                     st_preRollOutCallback = defaultPreRollOutCallback, st_logDispatchCallbacks = [],
                     st_performanceTrackingCallbacks = [], st_customFormatSpecifiers = [],
                     st_loggingLevel = None, st_stdout = []\<rparr>;
          let st = st_addFlag AllowVerboseIfModuleNotSpecified st;
          let (b, st) = installLogDispatchCallback DefaultLogDispatch ''DefaultLogDispatchCallback'' st;
          let (b, st) = installPerformanceTrackingCallback DefaultPerformanceTracking ''DefaultPerformanceTrackingCallback'' st;
          Some st }"

text \<open>Configuring every registered logger, in the order of their names.\<close>

fun configure_pointers :: "(Logger \<times> 'f log_world \<Rightarrow> (Logger \<times> 'f log_world) option) \<Rightarrow> nat option list
    \<Rightarrow> 'f loggers \<Rightarrow> 'f loggers option" where
  "configure_pointers g [] r = Some r"
| "configure_pointers g (p # ps) r = do { r \<leftarrow> on_logger p g r; configure_pointers g ps r }"

definition on_all_loggers :: "(Logger \<times> 'f log_world \<Rightarrow> (Logger \<times> 'f log_world) option) \<Rightarrow> 'f loggers \<Rightarrow> 'f loggers option" where
  "on_all_loggers g r = configure_pointers g (map snd (rl_list r)) r"

definition setApplicationArguments :: "'f log_env \<Rightarrow> string list option \<Rightarrow> 'f Storage \<Rightarrow> 'f Storage option" where
  "setApplicationArguments env argv st =
     (let a = setArgs argv (st_commandLineArgs st);
          st = st\<lparr>st_commandLineArgs := a, st_vRegistry := setFromArgs (st_flags st) a (st_vRegistry st)\<rparr>
      in if hasParamWithValue a kDefaultLogFileParam then
           do { v \<leftarrow> getParamValue a kDefaultLogFileParam;
                let c = setGlobally C_Filename v False empty_Configurations;
                r \<leftarrow> on_all_loggers (configure env (OtherConf c)) (setDefaultConfigurations (OtherConf c) (st_loggers st));
                Some (st\<lparr>st_loggers := r\<rparr>) }
         else Some st)"

section \<open>Dispatching\<close>

text \<open>Writing to a stream: the answer says whether the stream is still good.\<close>

definition write_stream :: "nat \<Rightarrow> string \<Rightarrow> 'f log_world \<Rightarrow> (bool \<times> 'f log_world) option" where
  "write_stream a line w = (case cells (w_streams w) a of
     None \<Rightarrow> None
   | Some None \<Rightarrow> Some (False, w)
   | Some (Some name) \<Rightarrow>
       (let old = (case contents (w_files w) name of None \<Rightarrow> [] | Some c \<Rightarrow> c)
        in Some (True, w\<lparr>w_files := (w_files w)\<lparr>contents := (contents (w_files w))(name \<mapsto> old @ line)\<rparr>\<rparr>)))"

text \<open>
  Writing a line to the file of its level, with the flush that is due: at once under
  \<open>ImmediateFlush\<close>, and else when the count of the level has reached its threshold.
\<close>

definition write_to_file :: "bool \<Rightarrow> Level \<Rightarrow> string \<Rightarrow> Logger \<times> 'f log_world \<Rightarrow> (Logger \<times> 'f log_world) option" where
  "write_to_file immediate level line s =
     (let (lg, w) = s
      in do { tc \<leftarrow> lg_typedConfigurations lg;
              fs \<leftarrow> tc_fileStream level tc;
              (case fs of
                 None \<Rightarrow> Some (lg, w)
               | Some a \<Rightarrow>
                   do { (good, w) \<leftarrow> write_stream a line w;
                        if \<not> good then Some (lg, w)
                        else do { (due, lg) \<leftarrow> (if immediate then Some (True, lg) else isFlushNeeded level lg);
                                  lg \<leftarrow> (if due then flush_level level fs lg else Some lg);
                                  Some (lg, w) } }) })"

type_synonym dispatch_data = "LogMessage \<times> DispatchAction"

text \<open>The environment of the dispatching: the terminal, and the handlers of the program's own callbacks.\<close>

record 'f app_env =
  app_log :: "'f log_env"
  app_supportsColor :: bool
  app_userDispatch :: "nat \<Rightarrow> dispatch_data \<Rightarrow> 'f Storage \<Rightarrow> 'f Storage option"

definition the_logger :: "nat option \<Rightarrow> 'f Storage \<Rightarrow> Logger option" where
  "the_logger p st = do { a \<leftarrow> p; cells (rl_heap (st_loggers st)) a }"

definition dispatch_line :: "'f app_env \<Rightarrow> dispatch_data \<Rightarrow> string \<Rightarrow> 'f Storage \<Rightarrow> 'f Storage option" where
  "dispatch_line env data logLine st =
     (let (msg, action) = data
      in if action = DA_NormalLog then
           do { lg \<leftarrow> the_logger (lm_logger msg) st;
                tc \<leftarrow> lg_typedConfigurations lg;
                r \<leftarrow> (if tc_toFile (lm_level msg) tc
                       then on_logger (lm_logger msg) (write_to_file (st_hasFlag ImmediateFlush st) (lm_level msg) logLine) (st_loggers st)
                       else Some (st_loggers st));
                let st = st\<lparr>st_loggers := r\<rparr>;
                Some (if tc_toStandardOutput (lm_level msg) tc then
                        (let logLine = (if st_hasFlag ColoredTerminalOutput st
                                        then convertToColoredOutput (app_supportsColor env) logLine (lm_level msg) else logLine)
                         in st\<lparr>st_stdout := st_stdout st @ logLine\<rparr>)
                      else st) }
         else Some st)"

definition default_handle :: "'f app_env \<Rightarrow> dispatch_data \<Rightarrow> 'f Storage \<Rightarrow> 'f Storage option" where
  "default_handle env data st =
     do { lg \<leftarrow> the_logger (lm_logger (fst data)) st;
          if \<not> lg_hasLogBuilder lg then None
          else do { line \<leftarrow> builder_build (app_log env) (st_customFormatSpecifiers st) lg (fst data) (snd data = DA_NormalLog);
                    dispatch_line env data line st } }"

definition handle_dispatch :: "'f app_env \<Rightarrow> dispatch_class \<Rightarrow> dispatch_data \<Rightarrow> 'f Storage \<Rightarrow> 'f Storage option" where
  "handle_dispatch env cls data st = (case cls of
     DefaultLogDispatch \<Rightarrow> default_handle env data st
   | UserDispatch n \<Rightarrow> app_userDispatch env n data st)"

fun run_callbacks :: "'f app_env \<Rightarrow> dispatch_class callbacks \<Rightarrow> dispatch_data \<Rightarrow> 'f Storage \<Rightarrow> 'f Storage option" where
  "run_callbacks env [] data st = Some st"
| "run_callbacks env ((lid, cls, cb) # cbs) data st =
     do { st \<leftarrow> (if cb_enabled cb then handle_dispatch env cls data st else Some st);
          run_callbacks env cbs data st }"

definition dispatcher_dispatch :: "'f app_env \<Rightarrow> bool \<Rightarrow> dispatch_data \<Rightarrow> 'f Storage \<Rightarrow> 'f Storage option" where
  "dispatcher_dispatch env proceed data st =
     (let (msg, action) = data; proceed = (if proceed \<and> action = DA_None then False else proceed)
      in if \<not> proceed then Some st
         else do { lg \<leftarrow> the_logger (lm_logger msg) st;
                   tc \<leftarrow> lg_typedConfigurations lg;
                   w \<leftarrow> (if st_hasFlag StrictLogFileSizeCheck st
                          then map_option snd (validateFileRolling (lm_level msg) (st_preRollOutCallback st) (tc, rl_world (st_loggers st)))
                          else Some (rl_world (st_loggers st)));
                   let st = st\<lparr>st_loggers := (st_loggers st)\<lparr>rl_world := w\<rparr>\<rparr>;
                   run_callbacks env (st_logDispatchCallbacks st) data st })"

section \<open>A storage whose loggers are ready\<close>

definition registry_live :: "'f loggers \<Rightarrow> bool" where
  "registry_live r \<longleftrightarrow> world_ok (rl_world r)
     \<and> (\<forall>lid lg. rl_map r lid = Some lg \<longrightarrow> logger_live lg (rl_world r) \<and> lg_hasLogBuilder lg)"

definition loggers_ready :: "'f log_env \<Rightarrow> 'f loggers \<Rightarrow> bool" where
  "loggers_ready env r \<longleftrightarrow> registry_ready env r \<and> registry_live r"

lemma rl_map_Some:
  assumes "registry_ready env r" and "reg_get lid (rl_list r) = Some a"
  obtains lg where "rl_map r lid = Some lg" "cells (rl_heap r) a = Some lg"
proof -
  have "map_of (rl_list r) lid = Some (Some a)" using assms(2) by (simp add: reg_get_Some)
  with assms(1) have "rl_map r lid \<noteq> None"
    using reg_map_cell [of "rl_list r" "rl_heap r" lid "Some a"] by (simp add: registry_ready_def rl_map_def)
  moreover have "rl_map r lid = cells (rl_heap r) a"
    using assms(2) by (simp add: rl_map_def reg_map_def)
  ultimately show thesis using that by fastforce
qed

text \<open>Changing the object behind a pointer changes one entry of the map that the registry stands for.\<close>

lemma owns_update:
  assumes "owns ps h" and "cells h a = Some x"
  shows "owns ps (h\<lparr>cells := (cells h)(a \<mapsto> y)\<rparr>)"
  using assms by (force simp: owns_def heap_ok_def)

lemma reg_update:
  assumes ok: "reg_ok (l, h)" and a: "reg_get k l = Some a" and x: "cells h a = Some x"
  shows "reg_ok (l, h\<lparr>cells := (cells h)(a \<mapsto> y)\<rparr>)"
    and "reg_map (l, h\<lparr>cells := (cells h)(a \<mapsto> y)\<rparr>) = (reg_map (l, h))(k \<mapsto> y)"
proof -
  show "reg_ok (l, h\<lparr>cells := (cells h)(a \<mapsto> y)\<rparr>)"
    using ok owns_update [OF _ x] by (simp add: reg_ok_def)
  show "reg_map (l, h\<lparr>cells := (cells h)(a \<mapsto> y)\<rparr>) = (reg_map (l, h))(k \<mapsto> y)"
  proof
    fix k'
    have "k' = k" if "reg_get k' l = Some a"
      by (rule reg_pointers_distinct [OF ok, where p = "Some a"]) (use a that in \<open>simp_all add: reg_get_Some\<close>)
    then have "k' \<noteq> k \<Longrightarrow> reg_get k' l \<noteq> Some a" by blast
    then show "reg_map (l, h\<lparr>cells := (cells h)(a \<mapsto> y)\<rparr>) k' = ((reg_map (l, h))(k \<mapsto> y)) k'"
      using a by (cases "k' = k") (auto simp: reg_map_def split: option.splits)
  qed
qed

definition changed_logger :: "string \<Rightarrow> Logger \<Rightarrow> 'f log_world \<Rightarrow> 'f loggers \<Rightarrow> 'f loggers \<Rightarrow> bool" where
  "changed_logger lid lg w r r' \<longleftrightarrow> rl_list r' = rl_list r \<and> rl_map r' = (rl_map r)(lid \<mapsto> lg) \<and> rl_world r' = w
     \<and> rl_defaultConfigurations r' = rl_defaultConfigurations r"

lemma on_logger_ready:
  assumes r: "loggers_ready env r" and p: "reg_get lid (rl_list r) = Some a" and lg: "rl_map r lid = Some lg"
    and g: "g (lg, rl_world r) = Some (lg', w')"
    and new: "logger_ready env lg'" "lg_id lg' = lg_id lg" "lg_hasLogBuilder lg'" "logger_live lg' w'"
    and w': "world_ok w'" "keeps_live (rl_world r) w'"
  shows "\<exists>r'. on_logger (Some a) g r = Some r' \<and> changed_logger lid lg' w' r r' \<and> loggers_ready env r'"
proof -
  have ready: "registry_ready env r" using r by (simp add: loggers_ready_def)
  then have ok: "reg_ok (rl_list r, rl_heap r)" by (simp add: registry_ready_def)
  have cell: "cells (rl_heap r) a = Some lg"
    using rl_map_Some [OF ready p] lg by auto
  define r' where "r' = r\<lparr>rl_heap := (rl_heap r)\<lparr>cells := (cells (rl_heap r))(a \<mapsto> lg')\<rparr>, rl_world := w'\<rparr>"
  have map: "rl_map r' = (rl_map r)(lid \<mapsto> lg')"
    using reg_update(2) [OF ok p cell] by (simp add: r'_def rl_map_def)
  have "lg_id lg' = lid" using ready lg new(2) by (simp add: registry_ready_def)
  then have "registry_ready env r'"
    using ready reg_update(1) [OF ok p cell] new(1) by (auto simp: registry_ready_def map) (simp_all add: r'_def)
  moreover have "registry_live r'"
    using r new w' logger_live_mono [OF w'(2)]
    by (auto simp: loggers_ready_def registry_live_def map) (simp_all add: r'_def)
  moreover have "on_logger (Some a) g r = Some r'"
    by (simp add: on_logger_def cell g r'_def)
  ultimately show ?thesis
    by (intro exI [of _ r']) (simp add: changed_logger_def map loggers_ready_def, simp add: r'_def)
qed

text \<open>A logger that is created: built from the default configurations, in the world of the registry.\<close>

lemma rl_get_new:
  assumes ok: "reg_ok (rl_list r, rl_heap r)" and get: "rl_get env lid force r = Some (p, r')"
    and new: "reg_get lid (rl_list r) = None \<and> force \<and> isValidId lid"
  obtains lg w where "mk_Logger env lid (rl_defaultConfigurations r) (rl_world r) = Some (lg, w)"
    "rl_map r' = (rl_map r)(lid \<mapsto> lg\<lparr>lg_hasLogBuilder := True\<rparr>)" "rl_world r' = w"
proof -
  obtain lg w h h' l' where mk: "mk_Logger env lid (rl_defaultConfigurations r) (rl_world r) = Some (lg, w)"
    and obj: "new_obj (lg\<lparr>lg_hasLogBuilder := True\<rparr>) (rl_heap r) = (p, h)"
    and reg: "reg_registerNew lid p (rl_list r) h = Some (l', h')"
    and r'_def: "r' = r\<lparr>rl_list := l', rl_heap := h', rl_world := w\<rparr>"
    using get new by (auto simp: rl_get_def Let_def split: bind_splits prod.splits)
  have "reg_map (l', h') = (reg_map (rl_list r, rl_heap r))(lid \<mapsto> lg\<lparr>lg_hasLogBuilder := True\<rparr>)"
    by (rule reg_registerNew_value [OF ok obj, of lid]) (simp add: reg)
  then show thesis using mk by (intro that) (simp_all add: rl_map_def r'_def)
qed

lemma rl_get_live:
  assumes r: "loggers_ready env r" and get: "rl_get env lid force r = Some (p, r')"
  shows "loggers_ready env r' \<and> keeps_live (rl_world r) (rl_world r')"
proof -
  have ready: "registry_ready env r" using r by (simp add: loggers_ready_def)
  then have r': "registry_ready env r'"
    using rl_get_cases [OF ready, of lid force] get by auto
  show ?thesis
  proof (cases "reg_get lid (rl_list r) = None \<and> force \<and> isValidId lid")
    case False
    then have "r' = r" using get by (auto simp: rl_get_def Let_def split: if_splits)
    then show ?thesis using r by simp
  next
    case True
    have ok: "reg_ok (rl_list r, rl_heap r)" using ready by (simp add: registry_ready_def)
    obtain lg w where mk: "mk_Logger env lid (rl_defaultConfigurations r) (rl_world r) = Some (lg, w)"
      and map: "rl_map r' = (rl_map r)(lid \<mapsto> lg\<lparr>lg_hasLogBuilder := True\<rparr>)" and world: "rl_world r' = w"
      using rl_get_new [OF ok get True] .
    have w: "world_ok (rl_world r)" using r by (simp add: loggers_ready_def registry_live_def)
    have live: "logger_live lg w \<and> world_ok w \<and> keeps_live (rl_world r) w"
      using configure_live [OF _ w] mk by (fastforce simp: mk_Logger_def)
    then have "logger_live (lg\<lparr>lg_hasLogBuilder := True\<rparr>) w" "keeps_live (rl_world r) w" "world_ok w"
      by (simp_all add: logger_live_def)
    then have "registry_live r'"
      using r by (auto simp: loggers_ready_def registry_live_def map world intro: logger_live_mono)
    with r' live show ?thesis by (simp add: loggers_ready_def world)
  qed
qed

section \<open>What a line changes\<close>

text \<open>The file a level is written to, if its stream is open; and the world after a line was appended.\<close>

definition target_file :: "Level \<Rightarrow> Logger \<Rightarrow> 'f log_world \<Rightarrow> string option" where
  "target_file level lg w =
     do { tc \<leftarrow> lg_typedConfigurations lg;
          if tc_toFile level tc then do { fs \<leftarrow> tc_fileStream level tc; stream_file fs w } else None }"

definition appended :: "string option \<Rightarrow> string \<Rightarrow> 'f log_world \<Rightarrow> 'f log_world" where
  "appended f line w = (case f of
     None \<Rightarrow> w
   | Some name \<Rightarrow> w\<lparr>w_files := (w_files w)\<lparr>contents := (contents (w_files w))
       (name \<mapsto> (case contents (w_files w) name of None \<Rightarrow> [] | Some c \<Rightarrow> c) @ line)\<rparr>\<rparr>)"

lemma appended_streams [simp]: "w_streams (appended f line w) = w_streams w" "w_reference (appended f line w) = w_reference w"
  by (auto simp: appended_def split: option.splits)

lemma appended_live: "keeps_live w (appended f line w)" "world_ok w \<Longrightarrow> world_ok (appended f line w)"
  by (simp_all add: keeps_live_def world_ok_def all_live_def live_def cong: option.case_cong)

lemma ready_typed:
  assumes "logger_ready env lg"
  obtains tc where "lg_typedConfigurations lg = Some tc" "typed_ready tc" "counted lg"
  using assms by (auto simp: logger_ready_def split: option.splits)

lemma isFlushNeeded_ready:
  assumes "counted lg" and "lg_typedConfigurations lg = Some tc" and "level \<in> set walked_levels"
  obtains due lg' where "isFlushNeeded level lg = Some (due, lg')" "counted lg'" "same_but_counts lg lg'"
proof -
  obtain n where n: "map_of (lg_unflushedCount lg) level = Some n"
    using assms(1,3) by (auto simp: counted_def list_all_iff)
  let ?m = "map (\<lambda>(l, k). if l = level then (l, n + 1) else (l, k)) (lg_unflushedCount lg)"
  have "isFlushNeeded level lg = Some (tc_logFlushThreshold level tc \<le> ucast (n + 1), lg\<lparr>lg_unflushedCount := ?m\<rparr>)"
    by (simp add: isFlushNeeded_def n assms(2))
  moreover have "counted (lg\<lparr>lg_unflushedCount := ?m\<rparr>)"
    using assms(1) by (auto simp: counted_def reset_count list_all_iff)
  moreover have "same_but_counts lg (lg\<lparr>lg_unflushedCount := ?m\<rparr>)"
    by (auto simp: same_but_counts_def)
  ultimately show thesis by (rule that)
qed

lemma write_to_file_ready:
  assumes lg: "logger_ready env lg" and live: "logger_live lg w" and level: "level \<in> set walked_levels"
    and tc: "lg_typedConfigurations lg = Some tc" and to_file: "tc_toFile level tc"
  obtains lg' where "write_to_file imm level line (lg, w) = Some (lg', appended (target_file level lg w) line w)"
    "counted lg'" "same_but_counts lg lg'"
proof -
  have counts: "counted lg" and files: "files_global tc"
    using ready_typed [OF lg] tc by (auto simp: typed_ready_def)
  obtain fs where fs: "tc_fileStream level tc = Some fs"
    using files by (cases "map_of (m_fileStreamMap tc) level") (auto simp: tc_fileStream_def unsafeGetConfigByRef_def files_global_def)
  have same: "same_but_counts lg lg" by (rule same_but_counts_refl)
  show thesis
  proof (cases fs)
    case None
    then have "target_file level lg w = None"
      by (simp add: target_file_def tc fs to_file stream_file_def deref_def)
    with None show thesis
      by (intro that [OF _ counts same]) (simp add: write_to_file_def tc fs appended_def)
  next
    case (Some a)
    have "fs \<in> snd ` set (m_fileStreamMap tc)"
      using fs by (force simp: tc_fileStream_def unsafeGetConfigByRef_def dest: map_of_SomeD split: option.splits)
    then obtain s where s: "cells (w_streams w) a = Some s"
      using live tc Some by (fastforce simp: logger_live_def all_live_def live_def)
    show thesis
    proof (cases s)
      case None
      then have "target_file level lg w = None"
        by (simp add: target_file_def tc fs to_file Some stream_file_def deref_def s)
      with None show thesis
        by (intro that [OF _ counts same]) (simp add: write_to_file_def tc fs Some s write_stream_def appended_def)
    next
      case name: (Some name)
      have target: "target_file level lg w = Some name"
        by (simp add: target_file_def tc fs to_file Some stream_file_def deref_def s name)
      have written: "write_stream a line w = Some (True, appended (Some name) line w)"
        by (simp add: write_stream_def s name appended_def Let_def)
      obtain due lg1 where 1: "(if imm then Some (True, lg) else isFlushNeeded level lg) = Some (due, lg1)"
        "counted lg1" "same_but_counts lg lg1"
      proof (cases imm)
        case True
        then show thesis using counts same by (intro that) simp_all
      next
        case False
        with isFlushNeeded_ready [OF counts tc level] that show thesis by metis
      qed
      have tc1: "lg_typedConfigurations lg1 = Some tc"
        using 1(3) tc by (auto simp: same_but_counts_def)
      obtain lg2 where 2: "(if due then flush_level level fs lg1 else Some lg1) = Some lg2" "counted lg2" "same_but_counts lg lg2"
        using flush_level_ready [OF 1(2) tc1 files level, of fs] 1 by (cases due) (auto intro: same_but_counts_trans)
      have "write_to_file imm level line (lg, w) = Some (lg2, appended (Some name) line w)"
        using 1(1) 2(1) by (cases due) (simp_all add: write_to_file_def tc fs Some written)
      with 2(2,3) target show thesis by (intro that) simp_all
    qed
  qed
qed

lemma same_but_counts_ready:
  "same_but_counts lg lg' \<Longrightarrow> counted lg' \<Longrightarrow> logger_ready env lg \<Longrightarrow> logger_ready env lg'"
  by (auto simp: same_but_counts_def logger_ready_def)

text \<open>The default handler: the line is appended to the file of its level and to the terminal.\<close>

definition shown_line :: "'f app_env \<Rightarrow> Level \<Rightarrow> Logger \<Rightarrow> 'f Storage \<Rightarrow> string \<Rightarrow> string" where
  "shown_line env level lg st line =
     (case lg_typedConfigurations lg of None \<Rightarrow> [] | Some tc \<Rightarrow>
        if tc_toStandardOutput level tc then
          (if st_hasFlag ColoredTerminalOutput st then convertToColoredOutput (app_supportsColor env) line level else line)
        else [])"

definition line_written :: "'f app_env \<Rightarrow> Level \<Rightarrow> string \<Rightarrow> string \<Rightarrow> Logger \<Rightarrow> 'f Storage \<Rightarrow> 'f Storage \<Rightarrow> bool" where
  "line_written env level line lid lg st st' \<longleftrightarrow>
     (\<exists>r' lg'. st' = st\<lparr>st_loggers := r', st_stdout := st_stdout st @ shown_line env level lg st line\<rparr>
        \<and> same_but_counts lg lg'
        \<and> changed_logger lid lg' (appended (target_file level lg (rl_world (st_loggers st))) line (rl_world (st_loggers st)))
            (st_loggers st) r')"

lemma write_line_ready:
  assumes r: "loggers_ready env r" and p: "reg_get lid (rl_list r) = Some a" and lg: "rl_map r lid = Some lg"
    and level: "level \<in> set walked_levels" and tc: "lg_typedConfigurations lg = Some tc"
  shows "\<exists>r' lg'. (if tc_toFile level tc then on_logger (Some a) (write_to_file imm level line) r else Some r) = Some r'
     \<and> same_but_counts lg lg' \<and> changed_logger lid lg' (appended (target_file level lg (rl_world r)) line (rl_world r)) r r'
     \<and> loggers_ready env r'"
proof (cases "tc_toFile level tc")
  case True
  let ?w = "rl_world r" and ?file = "target_file level lg (rl_world r)"
  have rlive: "registry_live r" and lgr: "logger_ready env lg" and live: "logger_live lg ?w" and builder: "lg_hasLogBuilder lg"
    using r lg by (auto simp: loggers_ready_def registry_ready_def registry_live_def)
  obtain lg' where lg': "write_to_file imm level line (lg, ?w) = Some (lg', appended ?file line ?w)" "counted lg'" "same_but_counts lg lg'"
    using write_to_file_ready [OF lgr live level tc True] .
  have "logger_live lg' (appended ?file line ?w)"
    using logger_live_mono [OF appended_live(1) live] lg'(3) by (auto simp: same_but_counts_def logger_live_def)
  moreover have "lg_id lg' = lg_id lg" "lg_hasLogBuilder lg'"
    using lg'(3) builder by (auto simp: same_but_counts_def)
  moreover have "world_ok (appended ?file line ?w)"
    using rlive by (intro appended_live(2)) (simp add: registry_live_def)
  ultimately have "\<exists>r'. on_logger (Some a) (write_to_file imm level line) r = Some r'
      \<and> changed_logger lid lg' (appended ?file line ?w) r r' \<and> loggers_ready env r'"
    by (intro on_logger_ready [where g = "write_to_file imm level line", OF r p lg lg'(1) same_but_counts_ready [OF lg'(3,2) lgr]]
        appended_live(1))
  then show ?thesis using True lg'(3) by auto
next
  case False
  then have "target_file level lg (rl_world r) = None" by (simp add: target_file_def tc)
  moreover have "changed_logger lid lg (rl_world r) r r"
    using lg by (auto simp: changed_logger_def)
  ultimately show ?thesis
    using False r same_but_counts_refl [of lg] by (auto simp: appended_def)
qed

lemma default_handle_ready:
  assumes r: "loggers_ready (app_log env) (st_loggers st)" and p: "reg_get lid (rl_list (st_loggers st)) = Some a"
    and lg: "rl_map (st_loggers st) lid = Some lg" and msg: "lm_logger msg = Some a"
    and level: "lm_level msg \<in> set walked_levels"
    and line: "builder_build (app_log env) (st_customFormatSpecifiers st) lg msg True = Some line"
  shows "\<exists>st'. default_handle env (msg, DA_NormalLog) st = Some st' \<and> line_written env (lm_level msg) line lid lg st st'
     \<and> loggers_ready (app_log env) (st_loggers st')"
proof -
  let ?l = "lm_level msg" and ?w = "rl_world (st_loggers st)"
  have ready: "registry_ready (app_log env) (st_loggers st)" and builder: "lg_hasLogBuilder lg" and lgr: "logger_ready (app_log env) lg"
    using r lg by (auto simp: loggers_ready_def registry_ready_def registry_live_def)
  obtain tc where tc: "lg_typedConfigurations lg = Some tc"
    using ready_typed [OF lgr] by blast
  have cell: "the_logger (Some a) st = Some lg"
    using rl_map_Some [OF ready p] lg by (auto simp: the_logger_def)
  obtain r' lg' where r': "(if tc_toFile ?l tc then on_logger (Some a) (write_to_file (st_hasFlag ImmediateFlush st) ?l line) (st_loggers st)
      else Some (st_loggers st)) = Some r'" "same_but_counts lg lg'"
    "changed_logger lid lg' (appended (target_file ?l lg ?w) line ?w) (st_loggers st) r'" "loggers_ready (app_log env) r'"
    using write_line_ready [OF r p lg level tc] by blast
  have "default_handle env (msg, DA_NormalLog) st
      = Some (st\<lparr>st_loggers := r', st_stdout := st_stdout st @ shown_line env ?l lg st line\<rparr>)"
    using r'(1)
    by (cases "tc_toFile ?l tc")
      (simp_all add: default_handle_def msg cell builder line dispatch_line_def tc shown_line_def Let_def st_hasFlag_def)
  then show ?thesis
    using r' by (auto simp: line_written_def)
qed

end
