(* ===== verification/ElLine.thy ===== *)
theory ElLine
  imports ElBuilder
begin

text \<open>
  The line of a default logger: from the default configuration through the parsed format, the typed
  configurations and the resolved logger name to the text that the default builder makes.
\<close>

section \<open>Levels with entries of their own\<close>

lemma tc_sets_own_further:
  assumes "ordered m" and "map_of m L_Global = Some g" and "distinct (map fst es)"
    and "\<forall>l\<in>fst ` set es. map_of m l = None"
  shows "map_of (tc_sets asg es m) level
    = (case map_of es level of Some v \<Rightarrow> if v = g then None else Some v | None \<Rightarrow> map_of m level)"
  using assms
proof (induction es arbitrary: m)
  case (Cons e es)
  obtain l v where e: "e = (l, v)" by (cases e)
  let ?m = "tc_setValue asg l v True m"
  have l: "map_of m l = None" "l \<notin> fst ` set es" using Cons.prems by (auto simp: e)
  note further = tc_setValue_further [OF Cons.prems(1,2) l(1), where asg = asg and v = v]
  have m: "map_of ?m k = (if k = l then if v = g then None else Some v else map_of m k)" for k
    using Cons.prems(1,2) l(1) by (auto simp: tc_setValue_def map_of_insert)
  have "\<forall>k\<in>fst ` set es. map_of ?m k = None"
    using l(2) Cons.prems(4) by (auto simp: m e)
  then have "map_of (tc_sets asg es ?m) level
      = (case map_of es level of Some v \<Rightarrow> if v = g then None else Some v | None \<Rightarrow> map_of ?m level)"
    using Cons.IH [OF further(2,3)] Cons.prems(3) by (simp add: e)
  moreover have "level = l \<Longrightarrow> map_of es level = None"
    using l(2) by (simp add: map_of_eq_None_iff)
  ultimately show ?case
    by (auto simp: tc_sets_def e m split: option.splits)
qed (simp add: tc_sets_def)

lemma tc_sets_own:
  assumes "distinct (map fst es)" and "starts_global es" and "map_of es L_Global = Some g"
    and "map_of es level = Some v" and "v \<noteq> g"
  shows "map_of (tc_sets asg es []) level = Some v"
proof (cases es)
  case (Cons e rest)
  have e: "e = (L_Global, g)" using assms(2,3) by (cases e) (simp add: starts_global_def Cons)
  let ?m = "tc_setValue asg L_Global g True []"
  note m = tc_setValue_first [where asg = asg and l = L_Global and v = g]
  have rest: "\<forall>k\<in>fst ` set rest. map_of ?m k = None"
    using assms(1) by (force simp: m(3) Cons e)
  have "level \<noteq> L_Global" using assms(3-5) by auto
  then have "map_of rest level = Some v"
    using assms(4) by (simp add: Cons e)
  then have "map_of (tc_sets asg rest ?m) level = Some v"
    using assms(1,5) by (subst tc_sets_own_further [OF m(2) _ _ rest, of g]) (simp_all add: m(3) Cons e)
  then show ?thesis by (simp add: Cons e tc_sets_def)
qed (use assms in simp)

lemma updateFormatSpec_level: "lf_level (updateFormatSpec user host f) = lf_level f"
  by (simp add: updateFormatSpec_def Let_def)

lemma updateDateFormat_level: "lf_level (snd (updateDateFormat i fc f)) = lf_level f"
  by (simp add: updateDateFormat_def Let_def split: prod.split)

lemma cond_flag_level: "lf_level (snd (cond_flag_loop spec flag pos fc f)) = lf_level f"
proof (induction spec flag pos fc f rule: cond_flag_loop.induct)
  case (1 spec flag pos fc f)
  then show ?case
    by (subst cond_flag_loop.simps) (auto simp: lf_addFlag_def split: option.splits)
qed

lemma mk_LogFormat_level: "mk_LogFormat user host level v = Some f \<Longrightarrow> lf_level f = level"
proof -
  assume f: "mk_LogFormat user host level v = Some f"
  have "lf_level (snd (fold (\<lambda>(sp, flag). conditionalAddFlag sp flag) sps s)) = lf_level (snd s)" for sps s
    by (induction sps arbitrary: s) (auto simp: conditionalAddFlag_def cond_flag_level split: prod.splits)
  from this [of format_specifiers "(v, empty_LogFormat\<lparr>lf_level := level, lf_userFormat := v, lf_flags := 0\<rparr>)"] f
  show ?thesis
    by (auto simp: mk_LogFormat_def parseFromFormat_def Let_def updateFormatSpec_level updateDateFormat_level lf_addFlag_def
        simp del: specifier_text.simps split: prod.splits option.splits bind_splits
        dest!: arg_cong [where f = "\<lambda>x. lf_level (snd x)"])
qed

text \<open>Each level with an entry of its own has the logger's name filled in once.\<close>

definition named :: "string \<Rightarrow> LogFormat \<Rightarrow> LogFormat" where
  "named lid f = f\<lparr>lf_format := replaceFirstWithEscape (lf_format f) (specifier_text Sp_Logger) lid\<rparr>"

lemma resolve_own:
  assumes "distinct ls" and "\<forall>l\<in>set ls. map_of (m_logFormatMap tc) l \<noteq> None"
    and "fold (resolve_level lid) ls (Some tc) = Some tc'"
  shows "map_of (m_logFormatMap tc') level
    = (if level \<in> set ls then map_option (named lid) (map_of (m_logFormatMap tc) level) else map_of (m_logFormatMap tc) level)"
  using assms
proof (induction ls arbitrary: tc)
  case (Cons l ls)
  obtain f where f: "map_of (m_logFormatMap tc) l = Some f" using Cons.prems(2) by auto
  define tc1 where "tc1 = tc\<lparr>m_logFormatMap := map (\<lambda>(k, g). if k = l then (k, named lid f) else (k, g)) (m_logFormatMap tc)\<rparr>"
  have 1: "resolve_level lid l (Some tc) = Some tc1"
    unfolding tc1_def named_def by (simp add: resolve_level_def f Let_def del: specifier_text.simps)
  have m: "map_of (m_logFormatMap tc1) k = (if k = l then Some (named lid f) else map_of (m_logFormatMap tc) k)" for k
    by (simp add: tc1_def reset_count f)
  have "\<forall>k\<in>set ls. map_of (m_logFormatMap tc1) k \<noteq> None"
    using Cons.prems(2) by (simp add: m)
  from Cons.IH [OF _ this, of] Cons.prems(1,3) 1 show ?case
    by (auto simp: m f)
qed simp

section \<open>The default logger\<close>

text \<open>The default of a level, as it stands in the configurations of a logger that is built from the defaults.\<close>

definition default_conf :: Configurations where
  "default_conf = setFromBase (OtherConf (setToDefault empty_Configurations)) empty_Configurations"

lemma default_conf_facts: "conf_ok default_conf" "all_global_first default_conf" "complete_conf env default_conf"
  by (simp_all add: default_conf_def setFromBase_ok setFromBase_first empty_ok defaults_ok defaults_first
      complete_copied defaults_complete)

lemma default_conf_value:
  "conf_value level t default_conf = conf_value level t (setToDefault empty_Configurations)" if "level \<noteq> L_Unknown"
proof -
  have "level = L_Global \<or> level \<in> set walked_levels" using that by (cases level) (simp_all add: walked_levels_def)
  moreover have "level \<in> set walked_levels \<Longrightarrow> conf_value level t (setToDefault empty_Configurations) = None
      \<Longrightarrow> conf_value L_Global t (setToDefault empty_Configurations) = None"
    by (auto simp: setToDefault_def Let_def set_conf_lookup setGlobally_value walked_levels_def split: if_splits)
  ultimately show ?thesis
    using setFromBase_value [OF defaults_ok defaults_first, of level t] unfolding default_conf_def
    by (auto split: option.splits)
qed

definition plain_levels :: "Level list" where
  "plain_levels = [L_Info, L_Warning, L_Error, L_Fatal]"

lemma default_unknown: "conf_value L_Unknown t (setToDefault empty_Configurations) = None"
proof -
  have "conf_value L_Unknown t empty_Configurations = None"
    by (simp add: conf_value_def conf_get_def empty_Configurations_def)
  then show ?thesis
    by (simp add: setToDefault_def Let_def set_conf_lookup setGlobally_value walked_levels_def)
qed

lemma default_values:
  "level \<in> set plain_levels \<Longrightarrow> conf_value level C_Format default_conf = Some format_default"
  "conf_value L_Global C_Format default_conf = Some format_default"
  "level \<noteq> L_Unknown \<Longrightarrow> conf_value level C_MillisecondsWidthType default_conf = Some ''3''"
  by (auto simp: default_conf_value setToDefault_def Let_def set_conf_lookup setGlobally_value plain_levels_def walked_levels_def)

lemma build_confs_width_value:
  "build_confs env confs tc = Some tc' \<Longrightarrow> \<forall>conf\<in>set confs. c_type conf = C_MillisecondsWidthType \<longrightarrow> c_value conf = v
   \<Longrightarrow> m_millisecondsWidthMap tc \<in> {[], [(L_Global, w)]}
   \<Longrightarrow> w = mk_MillisecondsWidth (sint (ucast (getULong v) :: 32 word))
   \<Longrightarrow> m_millisecondsWidthMap tc' \<in> {[], [(L_Global, w)]}"
proof (induction confs arbitrary: tc)
  case (Cons conf confs)
  obtain tc1 where tc1: "build_conf env conf tc = Some tc1" "build_confs env confs tc1 = Some tc'"
    using Cons.prems(1) by (auto split: bind_splits)
  have "m_millisecondsWidthMap tc1 \<in> {[], [(L_Global, w)]}"
    using tc1(1) Cons.prems(2-4)
    by (cases "c_type conf") (auto simp: build_conf_def Let_def tc_setValue_def split: bind_splits)
  with Cons.IH [OF tc1(2)] Cons.prems(2,4) show ?case by simp
qed simp

lemma width_three: "mk_MillisecondsWidth (sint (ucast (getULong ''3'') :: 32 word)) = mk_MillisecondsWidth 3"
  by (simp add: getULong_def trim_def ltrim_def rtrim_def is_c_space_def isDigit_def text_val_def)

text \<open>The typed configurations of a logger that is built from the defaults.\<close>

lemma default_typed:
  assumes "mk_TypedConfigurations env default_conf w = Some (tc, w')"
  shows "m_millisecondsWidthMap tc = [(L_Global, mk_MillisecondsWidth 3)]"
    and "level \<in> set walked_levels \<Longrightarrow> map_of (m_logFormatMap tc) level
       = mk_LogFormat (env_user env) (env_host env) level (the (conf_value level C_Format default_conf))"
    and "level \<in> set walked_levels \<Longrightarrow> map_of (m_logFormatMap tc) level \<noteq> None"
proof -
  obtain tc1 w1 where tc1: "build_confs env (cf_list default_conf) empty_typed = Some tc1"
    and "build_files env (cf_list default_conf) (tc1, w) = Some (tc, w1)"
    using assms by (auto simp: mk_TypedConfigurations_def build_def Let_def split: bind_splits prod.splits)
  then have same: "same_values tc1 tc"
    using build_files_frame [of env "cf_list default_conf" tc1 w tc w1] by simp
  note ok = default_conf_facts(1) and first = default_conf_facts(2)
  have in_list: "conf_value (c_level conf) (c_type conf) default_conf = Some (c_value conf)"
    if "conf \<in> set (cf_list default_conf)" for conf
    using entry_in_list [OF ok that] .
  show "m_millisecondsWidthMap tc = [(L_Global, mk_MillisecondsWidth 3)]"
  proof -
    have "c_value conf = ''3''" if "conf \<in> set (cf_list default_conf)" "c_type conf = C_MillisecondsWidthType" for conf
    proof -
      have val: "conf_value (c_level conf) C_MillisecondsWidthType default_conf = Some (c_value conf)"
        using in_list [OF that(1)] unfolding that(2) .
      have "conf_value L_Unknown C_MillisecondsWidthType default_conf = None"
        by (simp add: default_conf_def setFromBase_value defaults_ok defaults_first default_unknown walked_levels_def)
      with val have "c_level conf \<noteq> L_Unknown" by auto
      from default_values(3) [OF this] val show ?thesis by simp
    qed
    then have three: "\<forall>conf\<in>set (cf_list default_conf). c_type conf = C_MillisecondsWidthType \<longrightarrow> c_value conf = ''3''"
      by blast
    have "m_millisecondsWidthMap empty_typed \<in> {[], [(L_Global, mk_MillisecondsWidth 3)]}"
      by (simp add: empty_typed_def)
    from build_confs_width_value [OF tc1 three this width_three [symmetric]]
    have "m_millisecondsWidthMap tc1 \<in> {[], [(L_Global, mk_MillisecondsWidth 3)]}" .
    moreover have "map_of (m_millisecondsWidthMap tc1) L_Global \<noteq> None"
      using build_confs_width [OF tc1] complete_type [OF default_conf_facts(3), of C_MillisecondsWidthType]
      by (simp add: known_configs_list)
    ultimately have "m_millisecondsWidthMap tc1 = [(L_Global, mk_MillisecondsWidth 3)]" by force
    then show ?thesis using same by (simp only: same_values_def)
  qed
  assume level: "level \<in> set walked_levels"
  let ?parse = "\<lambda>c. the (mk_LogFormat (env_user env) (env_host env) (c_level c) (c_value c))"
  let ?es = "of_type C_Format ?parse (cf_list default_conf)"
  have parsed: "mk_LogFormat (env_user env) (env_host env) (c_level c) (c_value c) \<noteq> None"
    if "c \<in> set (cf_list default_conf)" "c_type c = C_Format" for c
    using build_confs_maps [OF tc1] that by blast
  have fmt: "m_logFormatMap tc = tc_sets assign_LogFormat ?es []"
    using build_confs_maps [OF tc1] same by (simp add: same_values_def empty_typed_def)
  have starts: "starts_global ?es"
    using first of_type_starts unfolding all_global_first_def global_first_def by blast
  have here: "\<exists>c. conf_get l C_Format default_conf = Some c \<and> c_level c = l \<and> c_type c = C_Format
      \<and> c_value c = the (conf_value l C_Format default_conf) \<and> c \<in> set (cf_list default_conf)"
    if "l = L_Global \<or> l \<in> set walked_levels" for l
  proof -
    have "conf_value l C_Format default_conf \<noteq> None"
      using that by (auto simp: default_conf_value setToDefault_def Let_def set_conf_lookup setGlobally_value walked_levels_def)
    then obtain c where c: "conf_get l C_Format default_conf = Some c" by (auto simp: conf_value_def)
    then have "c \<in> set (cf_list default_conf) \<and> c_level c = l \<and> c_type c = C_Format"
      by (auto simp: conf_get_def find_Some_iff conf_predicate_def)
    with c show ?thesis by (auto simp: conf_value_def)
  qed
  obtain c g where c: "conf_get level C_Format default_conf = Some c" "c_level c = level" "c_type c = C_Format"
      "c_value c = the (conf_value level C_Format default_conf)" "c \<in> set (cf_list default_conf)"
    and g: "conf_get L_Global C_Format default_conf = Some g" "c_level g = L_Global" "c_type g = C_Format"
      "g \<in> set (cf_list default_conf)"
    using here [of level] here [of L_Global] level by blast
  have "?parse c \<noteq> ?parse g"
  proof
    assume "?parse c = ?parse g"
    then have "level = L_Global"
      using mk_LogFormat_level [OF option.collapse [OF parsed [OF c(5,3)], symmetric]]
        mk_LogFormat_level [OF option.collapse [OF parsed [OF g(4,3)], symmetric]] c(2) g(2) by simp
    with level global_not_walked show False by simp
  qed
  then have "map_of (m_logFormatMap tc) level = Some (?parse c)"
    unfolding fmt
    by (intro tc_sets_own [where g = "?parse g"] of_type_distinct ok starts) (simp_all add: of_type_lookup c(1) g(1))
  then show "map_of (m_logFormatMap tc) level
       = mk_LogFormat (env_user env) (env_host env) level (the (conf_value level C_Format default_conf))"
    "map_of (m_logFormatMap tc) level \<noteq> None"
    using parsed [OF c(5,3)] c(2,4) by auto
qed

section \<open>Filling in\<close>

text \<open>A specifier behind text without percent signs is the one that is replaced.\<close>

lemma fill_here:
  assumes "CHR ''%'' \<notin> set u"
  shows "fill sp v (u @ specifier_text sp @ w) = u @ v @ w"
proof -
  obtain rest where sp: "specifier_text sp = CHR ''%'' # rest"
    by (cases sp) simp_all
  let ?s = "u @ specifier_text sp @ w"
  have "\<not> occ (specifier_text sp) ?s j" if "j < length u" for j
  proof
    assume "occ (specifier_text sp) ?s j"
    then have "take (Suc (length rest)) (drop j ?s) = CHR ''%'' # rest"
      by (simp add: occ_def sp)
    moreover have "drop j ?s = ?s ! j # drop (Suc j) ?s"
      using that by (intro Cons_nth_drop_Suc [symmetric]) simp
    ultimately have "?s ! j = CHR ''%''" by (metis list.inject take_Suc_Cons)
    then have "u ! j = CHR ''%''" using that by (simp add: nth_append)
    with assms that show False by (metis nth_mem)
  qed
  moreover have "occ (specifier_text sp) ?s (length u)" by (simp add: occ_def)
  ultimately have found: "str_find ?s (specifier_text sp) 0 = Some (length u)"
    by (simp add: str_find_occ)
  have plain: "\<not> (0 < length u \<and> ?s ! (length u - 1) = kFormatSpecifierChar)"
  proof
    assume "0 < length u \<and> ?s ! (length u - 1) = kFormatSpecifierChar"
    then have "last u = CHR ''%''" "u \<noteq> []"
      by (auto simp: nth_append last_conv_nth kFormatSpecifierChar_def)
    with assms show False by (metis last_in_set)
  qed
  have "fill sp v ?s = take (length u) ?s @ v @ drop (length u + length (specifier_text sp)) ?s"
    unfolding fill_def replaceFirstWithEscape_def replaceFirst_loop.simps [of _ _ 0 ?s] found option.case if_not_P [OF plain] ..
  then show ?thesis by simp
qed

text \<open>The default format, parsed for a level: the specifiers first, then the date, then the level.\<close>

definition bare_format :: "Level \<Rightarrow> string \<Rightarrow> enum_t \<Rightarrow> LogFormat" where
  "bare_format level date flags = \<lparr>lf_level = level, lf_userFormat = format_default, lf_format = [],
     lf_dateTimeFormat = date, lf_flags = flags\<rparr>"

lemma default_specifiers:
  "fold (\<lambda>(spec, flag). conditionalAddFlag spec flag) format_specifiers (format_default, bare_format level [] 0)
     = (format_default, bare_format level [] 8708)"
  by code_simp

lemma default_date:
  "str_find format_default (specifier_text Sp_DateTime) 0 = Some 0"
  "date_loop (specifier_text Sp_DateTime) format_default 0 = Some 0"
  "lf_addFlag F_DateTime (bare_format level [] 8708) = bare_format level [] 8710"
  "updateDateFormat 0 format_default (bare_format level [] 8710)
     = (format_default, bare_format level kDefaultDateTimeFormat 8710)"
  by code_simp+

lemma default_level:
  "level \<in> set plain_levels \<Longrightarrow> replaceFirstWithEscape (replaceFirstWithEscape format_default (specifier_text Sp_Level)
      (level_log_value level)) (specifier_text Sp_LevShort) (level_short_log_value level)
     = ''%datetime '' @ level_log_value level @ '' [%logger] %msg''"
proof -
  have "list_all (\<lambda>level. replaceFirstWithEscape (replaceFirstWithEscape format_default (specifier_text Sp_Level)
      (level_log_value level)) (specifier_text Sp_LevShort) (level_short_log_value level)
     = ''%datetime '' @ level_log_value level @ '' [%logger] %msg'') plain_levels"
    by code_simp
  then show "level \<in> set plain_levels \<Longrightarrow> ?thesis" by (simp add: list_all_iff del: specifier_text.simps)
qed

lemma default_format_parsed:
  assumes "level \<in> set plain_levels"
  shows "mk_LogFormat user host level format_default = Some \<lparr>lf_level = level, lf_userFormat = format_default,
     lf_format = ''%datetime '' @ level_log_value level @ '' [%logger] %msg'',
     lf_dateTimeFormat = kDefaultDateTimeFormat, lf_flags = 8710\<rparr>"
proof -
  have no: "\<not> hasFlag (format_int F_User) 8710" "\<not> hasFlag (format_int F_Host) 8710"
    by code_simp+
  have start: "empty_LogFormat\<lparr>lf_level := level, lf_userFormat := format_default, lf_flags := 0\<rparr> = bare_format level [] 0"
    by (simp add: empty_LogFormat_def bare_format_def)
  have "level \<in> {L_Debug, L_Info, L_Warning, L_Error, L_Fatal, L_Verbose, L_Trace}"
    using assms by (auto simp: plain_levels_def)
  then show ?thesis
    unfolding mk_LogFormat_def parseFromFormat_def start default_specifiers Let_def prod.case default_date
      option.case bind.bind_lunit updateFormatSpec_def
    using default_level [OF assms] no by (simp add: bare_format_def lf_hasFlag_def del: specifier_text.simps format_int.simps)
qed

section \<open>The line\<close>

text \<open>What a logger that is built from the defaults reads for a level.\<close>

lemma default_logger_typed:
  assumes "mk_Logger env lid (setToDefault empty_Configurations) w = Some (lg, w')"
  obtains tc where "lg_typedConfigurations lg = Some tc"
    and "\<And>level. tc_millisecondsWidth level tc = Some (mk_MillisecondsWidth 3)"
    and "\<And>level. level \<in> set walked_levels \<Longrightarrow> tc_logFormat level tc
       = map_option (named lid) (mk_LogFormat (env_user env) (env_host env) level (the (conf_value level C_Format default_conf)))"
proof -
  have "cf_list (setToDefault empty_Configurations) \<noteq> []"
    using complete_type [OF defaults_complete, of C_Format] by (auto simp: known_configs_list)
  then have new: "confs_differ empty_Configurations (OtherConf (setToDefault empty_Configurations))"
    by (simp add: confs_differ_def)
  obtain tc tc' w1 where tc: "mk_TypedConfigurations env default_conf w = Some (tc, w1)"
    "resolveLoggerFormatSpec lid tc = Some tc'" "lg_typedConfigurations lg = Some tc'"
    using assms new
    by (auto simp: mk_Logger_def configure_def initUnflushedCount_def default_conf_def Let_def split: bind_splits)
  note typed = default_typed [OF tc(1)]
  have resolved: "fold (resolve_level lid) walked_levels (Some tc) = Some tc'"
    using tc(2) by (simp add: resolveLoggerFormatSpec_def each_level_fold)
  have all: "\<forall>l\<in>set walked_levels. map_of (m_logFormatMap tc) l \<noteq> None"
    using typed(3) by blast
  have dist: "distinct walked_levels" by (simp add: walked_levels_def)
  have "m_millisecondsWidthMap tc' = m_millisecondsWidthMap tc"
    using resolve_levels [of walked_levels tc lid] all resolved
    by (fastforce simp: tc_logFormat_def unsafeGetConfigByRef_def split: option.splits)
  then have width: "tc_millisecondsWidth level tc' = Some (mk_MillisecondsWidth 3)" for level
    by (simp add: tc_millisecondsWidth_def unsafeGetConfigByRef_def typed(1))
  have fmt: "tc_logFormat level tc' = map_option (named lid)
      (mk_LogFormat (env_user env) (env_host env) level (the (conf_value level C_Format default_conf)))"
    if "level \<in> set walked_levels" for level
    using resolve_own [OF dist all resolved, of level] that typed(2,3) [OF that]
    by (auto simp: tc_logFormat_def unsafeGetConfigByRef_def)
  show thesis by (rule that [OF tc(3) width fmt])
qed

lemma named_default:
  "level \<in> set plain_levels \<Longrightarrow> replaceFirstWithEscape (''%datetime '' @ level_log_value level @ '' [%logger] %msg'')
     (specifier_text Sp_Logger) lid = ''%datetime '' @ level_log_value level @ '' ['' @ lid @ ''] %msg''"
proof -
  assume "level \<in> set plain_levels"
  let ?s = "''%datetime '' @ level_log_value level @ '' [%logger] %msg''" and ?i = "12 + length (level_log_value level)"
  have "list_all (\<lambda>level. str_find (''%datetime '' @ level_log_value level @ '' [%logger] %msg'') (specifier_text Sp_Logger) 0
      = Some (12 + length (level_log_value level))) plain_levels"
    by code_simp
  then have found: "str_find ?s (specifier_text Sp_Logger) 0 = Some ?i"
    using \<open>level \<in> set plain_levels\<close> by (simp only: list_all_iff)
  have plain: "\<not> (0 < ?i \<and> ?s ! (?i - 1) = kFormatSpecifierChar)"
    using \<open>level \<in> set plain_levels\<close> by (auto simp: plain_levels_def kFormatSpecifierChar_def)
  show ?thesis
    unfolding replaceFirstWithEscape_def replaceFirst_loop.simps [of _ _ 0 ?s] found option.case if_not_P [OF plain]
    using \<open>level \<in> set plain_levels\<close> by (auto simp: plain_levels_def)
qed

lemma default_line:
  assumes "mk_Logger env lid (setToDefault empty_Configurations) w = Some (lg, w')" and "isValidId lid"
    and "lm_level msg \<in> set plain_levels" and "NUL \<notin> set (lm_file msg)"
    and "getDateTime (env_localtime env) (env_now env) kDefaultDateTimeFormat (mk_MillisecondsWidth 3) = Some now"
    and "CHR ''%'' \<notin> set now"
  shows "builder_build env [] lg msg True
    = Some (now @ '' '' @ level_log_value (lm_level msg) @ '' ['' @ lid @ ''] '' @ lm_message msg @ [NEWLINE])"
proof -
  let ?l = "lm_level msg"
  obtain tc where tc: "lg_typedConfigurations lg = Some tc"
    "\<And>level. tc_millisecondsWidth level tc = Some (mk_MillisecondsWidth 3)"
    "\<And>level. level \<in> set walked_levels \<Longrightarrow> tc_logFormat level tc
       = map_option (named lid) (mk_LogFormat (env_user env) (env_host env) level (the (conf_value level C_Format default_conf)))"
    using default_logger_typed [OF assms(1)] by blast
  define f where "f = named lid \<lparr>lf_level = ?l, lf_userFormat = format_default,
     lf_format = ''%datetime '' @ level_log_value ?l @ '' [%logger] %msg'',
     lf_dateTimeFormat = kDefaultDateTimeFormat, lf_flags = 8710\<rparr>"
  have "?l \<in> set walked_levels" using assms(3) by (auto simp: plain_levels_def walked_levels_def)
  then have fmt: "tc_logFormat ?l tc = Some f"
    by (simp add: tc(3) default_values(1) assms(3) default_format_parsed f_def)
  have shape: "lf_format f = specifier_text Sp_DateTime @ '' '' @ level_log_value ?l @ '' ['' @ lid @ ''] %msg''"
    using named_default [OF assms(3), of lid] by (simp add: f_def named_def)
  have flags: "\<not> lf_hasFlag F_AppName f" "\<not> lf_hasFlag F_ThreadId f" "lf_hasFlag F_DateTime f" "\<not> lf_hasFlag F_Function f"
    "\<not> lf_hasFlag F_File f" "\<not> lf_hasFlag F_FileBase f" "\<not> lf_hasFlag F_Line f" "\<not> lf_hasFlag F_Location f"
    "\<not> lf_hasFlag F_VerboseLevel f" "lf_hasFlag F_LogMessage f"
    by (simp_all add: f_def named_def lf_hasFlag_def hasFlag_def bitwise_And_def)
  have date: "Option.bind (tc_millisecondsWidth ?l tc)
      (getDateTime (env_localtime env) (env_now env) (lf_dateTimeFormat f)) = Some now"
    using assms(5) by (simp add: tc(2) f_def named_def)
  have "CHR ''%'' \<notin> set lid"
    using assms(2) by (auto simp: isValidId_set kValidLoggerIdSymbols_def)
  moreover have "CHR ''%'' \<notin> set (level_log_value ?l)"
    using assms(3) by (auto simp: plain_levels_def)
  ultimately have before: "CHR ''%'' \<notin> set (now @ '' '' @ level_log_value ?l @ '' ['' @ lid @ ''] '')"
    using assms(6) by auto
  have "fill Sp_DateTime now (lf_format f) = now @ '' '' @ level_log_value ?l @ '' ['' @ lid @ ''] %msg''"
    using fill_here [of "[]" Sp_DateTime now "'' '' @ level_log_value ?l @ '' ['' @ lid @ ''] %msg''"]
    by (simp only: shape append_Nil) simp
  moreover have "fill Sp_Msg (lm_message msg) (now @ '' '' @ level_log_value ?l @ '' ['' @ lid @ ''] %msg'')
      = now @ '' '' @ level_log_value ?l @ '' ['' @ lid @ ''] '' @ lm_message msg"
    using fill_here [OF before, of Sp_Msg "lm_message msg" "[]"] by simp
  ultimately have "fill_parts f (line_parts lg msg now)
      = now @ '' '' @ level_log_value ?l @ '' ['' @ lid @ ''] '' @ lm_message msg"
    using assms(3) by (auto simp: fill_parts_def line_parts_def Let_def flags plain_levels_def)
  then show ?thesis
    using builder_line [OF tc(1) fmt assms(4) date, of "[]" True] by (simp add: fill_customs_def)
qed

text \<open>
  End to end, for the levels INFO, WARNING, ERROR and FATAL: a logger that is built from the default
  configuration writes a message as the date, the level, the logger's name in brackets, the message
  and a newline, whatever the message contains and wherever it was logged.
\<close>
theorem default_logger_line:
  assumes "mk_Logger env lid (setToDefault empty_Configurations) w = Some (lg, w')" and "isValidId lid"
    and "lm_level msg \<in> set plain_levels" and "NUL \<notin> set (lm_file msg)"
    and "getDateTime (env_localtime env) (env_now env) kDefaultDateTimeFormat (mk_MillisecondsWidth 3) = Some now"
    and "CHR ''%'' \<notin> set now"
  shows "builder_build env [] lg msg True
    = Some (now @ '' '' @ level_log_value (lm_level msg) @ '' ['' @ lid @ ''] '' @ lm_message msg @ [NEWLINE])"
  using assms by (rule default_line)

lemma default_logger_line_witness:
  "\<exists>lg w'. mk_Logger sample_env ''default'' (setToDefault empty_Configurations) sample_world = Some (lg, w')
     \<and> builder_build sample_env [] lg
          \<lparr>lm_level = L_Warning, lm_file = ''main.cpp'', lm_line = 7, lm_func = ''main'', lm_verboseLevel = 0,
            lm_logger = None, lm_message = ''100%''\<rparr> True
       = Some (''2016-02-29 13:04:05,000 WARN  [default] 100%'' @ [NEWLINE])"
proof -
  obtain lg w' where lg: "mk_Logger sample_env ''default'' (setToDefault empty_Configurations) sample_world = Some (lg, w')"
    using mk_Logger_ready [where w = sample_world and lid = "''default''", OF defaults_complete [of sample_env]] by blast
  have valid: "isValidId ''default''" by code_simp
  have now: "getDateTime (env_localtime sample_env) (env_now sample_env) kDefaultDateTimeFormat (mk_MillisecondsWidth 3)
      = Some ''2016-02-29 13:04:05,000''"
    by (subst getDateTime_eq [where tx = "''2016-02-29 13:04:05,000''"])
      (simp_all add: sample_env_def sample_tm_def kFormatSpecifierChar_def format_piece_def piece_text_def number_text_def
        number_text_code kYearBase_def kDefaultDateTimeFormat_def char_of_def bit_0 mk_MillisecondsWidth_def)
  have "builder_build sample_env [] lg \<lparr>lm_level = L_Warning, lm_file = ''main.cpp'', lm_line = 7, lm_func = ''main'',
      lm_verboseLevel = 0, lm_logger = None, lm_message = ''100%''\<rparr> True
      = Some (''2016-02-29 13:04:05,000'' @ '' '' @ level_log_value L_Warning @ '' ['' @ ''default'' @ ''] '' @ ''100%'' @ [NEWLINE])"
    using default_logger_line [OF lg valid, of "\<lparr>lm_level = L_Warning, lm_file = ''main.cpp'', lm_line = 7,
        lm_func = ''main'', lm_verboseLevel = 0, lm_logger = None, lm_message = ''100%''\<rparr>", OF _ _ now]
    by (simp add: plain_levels_def)
  with lg show ?thesis by auto
qed

end
