(* ===== verification/ElSetup.thy ===== *)
theory ElSetup
  imports ElStorage ElLine
begin

text \<open>
  A new storage and its configuration: the constructor of \<open>Storage\<close> and \<open>setApplicationArguments\<close>
  (\<open>easylogging.h\<close>, lines 3956 to 3998 and 4166 to 4178) leave every logger ready, and the dispatcher
  of such a storage writes a line exactly once.
\<close>

section \<open>Loggers that are configured in their repository\<close>

lemma rl_get_found: "rl_has lid r \<Longrightarrow> rl_get env lid force r = Some (reg_get lid (rl_list r), r)"
  by (cases "reg_get lid (rl_list r)") (auto simp: rl_get_def rl_has_def Let_def)

lemma rl_map_pointer:
  assumes "rl_map r lid = Some lg"
  obtains a where "reg_get lid (rl_list r) = Some a" "cells (rl_heap r) a = Some lg"
  using assms by (auto simp: rl_map_def reg_map_def split: option.splits)

lemma rl_map_has: "rl_map r lid = Some lg \<Longrightarrow> rl_has lid r"
  by (auto simp: rl_has_def elim: rl_map_pointer)

text \<open>A logger that is looked up and may be created: where it is, and what stays as it was.\<close>

lemma rl_get_forced:
  assumes r: "loggers_ready env r" and lid: "isValidId lid"
  obtains a lg r' where "rl_get env lid True r = Some (Some a, r')" "loggers_ready env r'"
    "reg_get lid (rl_list r') = Some a" "rl_map r' lid = Some lg"
    "\<And>other. other \<noteq> lid \<or> rl_has lid r \<Longrightarrow> rl_map r' other = rl_map r other"
    "rl_defaultConfigurations r' = rl_defaultConfigurations r"
proof -
  have ready: "registry_ready env r" using r by (simp add: loggers_ready_def)
  from rl_get_cases [OF this, of lid True] lid obtain a r' where
    get: "rl_get env lid True r = Some (Some a, r')" "Some a = reg_get lid (rl_list r')"
    "\<forall>other. other \<noteq> lid \<or> rl_has lid r \<longrightarrow> rl_map r' other = rl_map r other"
    "rl_defaultConfigurations r' = rl_defaultConfigurations r" by auto
  have r': "loggers_ready env r'" using rl_get_live [OF r get(1)] by blast
  obtain lg where "rl_map r' lid = Some lg"
    using rl_map_Some [of env r' lid a] r' get(2) by (auto simp: loggers_ready_def)
  then show thesis
    using get r' by (intro that [of a r' lg]) (simp_all del: not_None_eq)
qed

lemma on_logger_configure:
  assumes r: "loggers_ready env r" and p: "reg_get lid (rl_list r) = Some a" and lg: "rl_map r lid = Some lg"
    and c: "complete_conf env c" and base: "complete_conf env (taken_over base c)"
    and g: "\<And>w. g (lg, w) = configure env base (lg\<lparr>lg_configurations := c\<rparr>, w)"
  shows "\<exists>r' lg' w'. on_logger (Some a) g r = Some r' \<and> loggers_ready env r' \<and> changed_logger lid lg' w' r r'
     \<and> lg_configurations lg' = taken_over base c \<and> lg_stream lg' = lg_stream lg
     \<and> (\<forall>level. lg_enabled level lg' = Some (enabled_by (taken_over base c) level))"
proof -
  have lgr: "logger_ready env lg" and live: "world_ok (rl_world r)" and builder: "lg_hasLogBuilder lg"
    using r lg by (auto simp: loggers_ready_def registry_ready_def registry_live_def)
  then have "logger_ready env (lg\<lparr>lg_configurations := c\<rparr>)"
    using c by (simp add: logger_ready_def counted_def)
  with configure_ready [of "lg\<lparr>lg_configurations := c\<rparr>" env base "rl_world r"] base
  obtain lg' w' where lg': "configure env base (lg\<lparr>lg_configurations := c\<rparr>, rl_world r) = Some (lg', w')"
    "logger_ready env lg'" "lg_id lg' = lg_id lg" "lg_configurations lg' = taken_over base c"
    "lg_stream lg' = lg_stream lg" "lg_hasLogBuilder lg' = lg_hasLogBuilder lg"
    "\<forall>level. lg_enabled level lg' = Some (enabled_by (taken_over base c) level)"
    by fastforce
  have new: "g (lg, rl_world r) = Some (lg', w')" by (simp add: g lg'(1))
  have "\<exists>r'. on_logger (Some a) g r = Some r' \<and> changed_logger lid lg' w' r r' \<and> loggers_ready env r'"
    using configure_live [OF lg'(1) live] lg'(6) builder
    by (intro on_logger_ready [where g = g, OF r p lg new lg'(2,3)]) simp_all
  with lg'(4,5,7) show ?thesis by blast
qed

text \<open>Configuring all registered loggers.\<close>

lemma configure_all_ready:
  assumes "loggers_ready env r" and "\<And>k p. (k, p) \<in> set l \<Longrightarrow> map_of (rl_list r) k = Some p"
    and step: "\<And>r lid a lg. loggers_ready env r \<Longrightarrow> reg_get lid (rl_list r) = Some a \<Longrightarrow> rl_map r lid = Some lg
      \<Longrightarrow> \<exists>r' lg' w'. on_logger (Some a) g r = Some r' \<and> loggers_ready env r' \<and> changed_logger lid lg' w' r r' \<and> Q lg lg'"
    and "distinct (map fst l)"
  shows "\<exists>r'. configure_pointers g (map snd l) r = Some r' \<and> loggers_ready env r' \<and> rl_list r' = rl_list r
     \<and> (\<forall>lid\<in>fst ` set l. \<exists>lg lg'. rl_map r lid = Some lg \<and> rl_map r' lid = Some lg' \<and> Q lg lg')
     \<and> (\<forall>lid. lid \<notin> fst ` set l \<longrightarrow> rl_map r' lid = rl_map r lid)
     \<and> rl_defaultConfigurations r' = rl_defaultConfigurations r"
  using assms(1,2,4)
proof (induction l arbitrary: r)
  case (Cons e l)
  obtain k p where e: "e = (k, p)" by (cases e)
  have ok: "reg_ok (rl_list r, rl_heap r)" and ready: "registry_ready env r"
    using Cons.prems(1) by (auto simp: loggers_ready_def registry_ready_def)
  have k: "map_of (rl_list r) k = Some p" using Cons.prems(2) [of k p] by (simp add: e)
  then have "p \<in> snd ` set (rl_list r)" by (force dest: map_of_SomeD)
  then obtain a where a: "p = Some a" using ok by (cases p) (auto simp: reg_ok_def owns_def)
  have get: "reg_get k (rl_list r) = Some a" using k by (simp add: reg_get_Some a)
  obtain lg where lg: "rl_map r k = Some lg" using rl_map_Some [OF ready get] .
  obtain r1 lg1 w1 where r1: "on_logger p g r = Some r1" "loggers_ready env r1" "changed_logger k lg1 w1 r r1" "Q lg lg1"
    using step [OF Cons.prems(1) get lg] by (auto simp: a)
  have same: "rl_list r1 = rl_list r" and map: "rl_map r1 = (rl_map r)(k \<mapsto> lg1)"
    and def: "rl_defaultConfigurations r1 = rl_defaultConfigurations r"
    using r1(3) by (simp_all add: changed_logger_def)
  have "\<exists>r'. configure_pointers g (map snd l) r1 = Some r' \<and> loggers_ready env r' \<and> rl_list r' = rl_list r1
     \<and> (\<forall>lid\<in>fst ` set l. \<exists>lg lg'. rl_map r1 lid = Some lg \<and> rl_map r' lid = Some lg' \<and> Q lg lg')
     \<and> (\<forall>lid. lid \<notin> fst ` set l \<longrightarrow> rl_map r' lid = rl_map r1 lid)
     \<and> rl_defaultConfigurations r' = rl_defaultConfigurations r1"
    using Cons.prems(2,3) by (intro Cons.IH [OF r1(2)]) (simp_all add: same)
  then obtain r' where r': "configure_pointers g (map snd l) r1 = Some r'" "loggers_ready env r'" "rl_list r' = rl_list r1"
    "\<forall>lid\<in>fst ` set l. \<exists>lg lg'. rl_map r1 lid = Some lg \<and> rl_map r' lid = Some lg' \<and> Q lg lg'"
    "\<forall>lid. lid \<notin> fst ` set l \<longrightarrow> rl_map r' lid = rl_map r1 lid" "rl_defaultConfigurations r' = rl_defaultConfigurations r1"
    by blast
  have fresh: "k \<notin> fst ` set l" using Cons.prems(3) by (simp add: e)
  then have "rl_map r' k = Some lg1" using r'(5) by (simp add: map)
  moreover have "\<exists>lg lg'. rl_map r lid = Some lg \<and> rl_map r' lid = Some lg' \<and> Q lg lg'" if "lid \<in> fst ` set l" for lid
    using r'(4) that fresh by (auto simp: map split: if_splits)
  ultimately show ?case
    using r' r1 lg by (intro exI [of _ r']) (auto simp: e same map def)
qed simp

lemma on_all_ready:
  assumes r: "loggers_ready env r"
    and step: "\<And>r lid a lg. loggers_ready env r \<Longrightarrow> reg_get lid (rl_list r) = Some a \<Longrightarrow> rl_map r lid = Some lg
      \<Longrightarrow> \<exists>r' lg' w'. on_logger (Some a) g r = Some r' \<and> loggers_ready env r' \<and> changed_logger lid lg' w' r r' \<and> Q lg lg'"
  shows "\<exists>r'. on_all_loggers g r = Some r' \<and> loggers_ready env r' \<and> rl_list r' = rl_list r
     \<and> rel_fun (=) (rel_option Q) (rl_map r) (rl_map r') \<and> rl_defaultConfigurations r' = rl_defaultConfigurations r"
proof -
  have ok: "reg_ok (rl_list r, rl_heap r)" using r by (simp add: loggers_ready_def registry_ready_def)
  have dist: "distinct (map fst (rl_list r))"
    using ok by (simp add: reg_ok_def ordered_distinct)
  then have entry: "map_of (rl_list r) k = Some p" if "(k, p) \<in> set (rl_list r)" for k p
    using that by (rule map_of_is_SomeI)
  have "\<exists>r'. configure_pointers g (map snd (rl_list r)) r = Some r' \<and> loggers_ready env r' \<and> rl_list r' = rl_list r
     \<and> (\<forall>lid\<in>fst ` set (rl_list r). \<exists>lg lg'. rl_map r lid = Some lg \<and> rl_map r' lid = Some lg' \<and> Q lg lg')
     \<and> (\<forall>lid. lid \<notin> fst ` set (rl_list r) \<longrightarrow> rl_map r' lid = rl_map r lid)
     \<and> rl_defaultConfigurations r' = rl_defaultConfigurations r"
    by (rule configure_all_ready [OF r]) (erule entry, erule step, assumption+, rule dist)
  then obtain r' where r': "on_all_loggers g r = Some r'" "loggers_ready env r'" "rl_list r' = rl_list r"
    "\<And>lid. lid \<in> fst ` set (rl_list r) \<Longrightarrow> \<exists>lg lg'. rl_map r lid = Some lg \<and> rl_map r' lid = Some lg' \<and> Q lg lg'"
    "\<And>lid. lid \<notin> fst ` set (rl_list r) \<Longrightarrow> rl_map r' lid = rl_map r lid"
    "rl_defaultConfigurations r' = rl_defaultConfigurations r"
    unfolding on_all_loggers_def by blast
  have "rel_option Q (rl_map r lid) (rl_map r' lid)" for lid
  proof (cases "lid \<in> fst ` set (rl_list r)")
    case True
    then show ?thesis using r'(4) [of lid] by auto
  next
    case False
    then have "map_of (rl_list r) lid = None" by (simp add: map_of_eq_None_iff)
    then have "reg_get lid (rl_list r) = None" by (simp add: reg_get_def)
    then have "rl_map r lid = None" by (simp add: rl_map_def reg_map_def)
    then show ?thesis using r'(5) [OF False] by simp
  qed
  with r' show ?thesis by (auto simp: rel_fun_def)
qed

section \<open>The new storage\<close>

definition storage_ready :: "'f log_env \<Rightarrow> 'f Storage \<Rightarrow> bool" where
  "storage_ready env st \<longleftrightarrow> loggers_ready env (st_loggers st)
     \<and> rl_map (st_loggers st) kDefaultLoggerId \<noteq> None"

text \<open>The callbacks that the constructor installs, and no others.\<close>

definition default_callbacks :: "'f Storage \<Rightarrow> bool" where
  "default_callbacks st \<longleftrightarrow>
     st_logDispatchCallbacks st = [(''DefaultLogDispatchCallback'', DefaultLogDispatch, mk_Callback)]
     \<and> st_performanceTrackingCallbacks st
         = [(''DefaultPerformanceTrackingCallback'', DefaultPerformanceTracking, mk_Callback)]"

lemma new_loggers_ready: "world_ok w \<Longrightarrow> loggers_ready env (mk_RegisteredLoggers w)"
  by (simp add: loggers_ready_def new_registry_ready registry_live_def)
    (simp add: mk_RegisteredLoggers_def rl_map_def reg_map_def reg_get_def)

lemma performance_value: "value_ok env C_Format performance_format"
proof -
  have "performance_format = [] @ specifier_text Sp_DateTime @ '' %level %msg''"
    by (simp add: performance_format_def)
  then have "unescaped (specifier_text Sp_DateTime) performance_format"
    unfolding unescaped_def by blast
  then show ?thesis
    by (simp add: value_ok_def known_configs_list mk_LogFormat_None del: specifier_text.simps)
qed

lemma set_globally_step:
  assumes r: "loggers_ready env r" and p: "reg_get lid (rl_list r) = Some a" and lg: "rl_map r lid = Some lg"
    and v: "value_ok env t v"
  shows "\<exists>r' lg' w'. on_logger (Some a) (set_globally_and_reconfigure env t v) r = Some r' \<and> loggers_ready env r'
     \<and> changed_logger lid lg' w' r r' \<and> lg_stream lg' = lg_stream lg
     \<and> lg_configurations lg' = setGlobally t v False (lg_configurations lg)"
proof -
  let ?c = "setGlobally t v False (lg_configurations lg)"
  have "complete_conf env (lg_configurations lg)"
    using r lg by (auto simp: loggers_ready_def registry_ready_def logger_ready_def)
  then have c: "complete_conf env ?c" by (rule complete_globally [OF _ v])
  moreover have "taken_over ThisConf ?c = ?c" by (simp add: taken_over_def confs_differ_def)
  ultimately show ?thesis
    using on_logger_configure [OF r p lg c, of ThisConf "set_globally_and_reconfigure env t v"]
    by (simp add: set_globally_and_reconfigure_def reconfigure_def) blast
qed

lemma new_storage:
  assumes "world_ok w"
  shows "\<exists>st. mk_Storage env w = Some st \<and> storage_ready env st \<and> default_callbacks st
     \<and> dom (rl_map (st_loggers st)) = {kDefaultLoggerId, kPerformanceLoggerId}
     \<and> st_flags st = flag_int AllowVerboseIfModuleNotSpecified
     \<and> rl_defaultConfigurations (st_loggers st) = setToDefault empty_Configurations \<and> st_stdout st = []"
proof -
  let ?d = kDefaultLoggerId and ?p = kPerformanceLoggerId and ?r0 = "mk_RegisteredLoggers w"
  have valid: "isValidId ?d" "isValidId ?p" and differ: "?d \<noteq> ?p" by code_simp+
  obtain a lg r1 where 1: "rl_get env ?d True ?r0 = Some (Some a, r1)" "loggers_ready env r1" "rl_map r1 ?d = Some lg"
    "\<And>other. other \<noteq> ?d \<or> rl_has ?d ?r0 \<Longrightarrow> rl_map r1 other = rl_map ?r0 other"
    "rl_defaultConfigurations r1 = rl_defaultConfigurations ?r0"
    using rl_get_forced [OF new_loggers_ready [OF assms] valid(1)] by metis
  obtain b lg2 r2 where 2: "rl_get env ?p True r1 = Some (Some b, r2)" "loggers_ready env r2" "reg_get ?p (rl_list r2) = Some b"
    "rl_map r2 ?p = Some lg2" "\<And>other. other \<noteq> ?p \<or> rl_has ?p r1 \<Longrightarrow> rl_map r2 other = rl_map r1 other"
    "rl_defaultConfigurations r2 = rl_defaultConfigurations r1"
    using rl_get_forced [OF 1(2) valid(2)] by metis
  obtain r3 lg3 w3 where 3: "on_logger (Some b) (set_globally_and_reconfigure env C_Format performance_format) r2 = Some r3"
    "loggers_ready env r3" "changed_logger ?p lg3 w3 r2 r3"
    using set_globally_step [OF 2(2-4) performance_value] by blast
  have empty: "rl_map ?r0 other = None" for other
    by (simp add: mk_RegisteredLoggers_def rl_map_def reg_map_def reg_get_def)
  have map: "rl_map r3 = (\<lambda>other. if other = ?d then Some lg else if other = ?p then Some lg3 else None)"
  proof
    fix other
    show "rl_map r3 other = (if other = ?d then Some lg else if other = ?p then Some lg3 else None)"
      using 1(3) 1(4) [of other] 2(5) [of other] 3(3) differ empty [of other] by (auto simp: changed_logger_def)
  qed
  have "rl_defaultConfigurations r3 = setToDefault empty_Configurations"
    using 1(5) 2(6) 3(3) by (simp add: changed_logger_def mk_RegisteredLoggers_def)
  moreover have "addFlag (flag_int AllowVerboseIfModuleNotSpecified) 0 = flag_int AllowVerboseIfModuleNotSpecified"
    by code_simp
  moreover have "dom (rl_map r3) = {?d, ?p}" by (auto simp: map split: if_splits)
  ultimately show ?thesis
    using 3(2) differ
    by (simp add: mk_Storage_def 1(1) 2(1) 3(1) storage_ready_def default_callbacks_def st_addFlag_def
        installLogDispatchCallback_def installPerformanceTrackingCallback_def installCallback_def map)
qed

lemma mk_Storage_fields:
  "mk_Storage env w = Some st \<Longrightarrow> st_commandLineArgs st = \<lparr>m_argv = [], m_paramsWithValue = [], m_params = []\<rparr>"
  "mk_Storage env w = Some st \<Longrightarrow> st_customFormatSpecifiers st = []"
  "mk_Storage env w = Some st \<Longrightarrow> st_loggingLevel st = None"
  by (auto simp: mk_Storage_def st_addFlag_def installLogDispatchCallback_def installPerformanceTrackingCallback_def Let_def
      split: bind_splits prod.splits)

lemma sample_world_ok: "world_ok sample_world"
  by (simp add: world_ok_def all_live_def sample_world_def)

text \<open>
  In a world whose open streams are alive, the storage is constructed: the default and the
  performance logger are registered and ready, the default handlers are installed, and the only flag
  is \<open>AllowVerboseIfModuleNotSpecified\<close>.
\<close>
theorem mk_Storage_ready:
  assumes "world_ok w"
  shows "\<exists>st. mk_Storage env w = Some st \<and> storage_ready env st \<and> default_callbacks st
     \<and> dom (rl_map (st_loggers st)) = {kDefaultLoggerId, kPerformanceLoggerId}
     \<and> st_flags st = flag_int AllowVerboseIfModuleNotSpecified
     \<and> rl_defaultConfigurations (st_loggers st) = setToDefault empty_Configurations \<and> st_stdout st = []"
  using assms by (rule new_storage)

lemma mk_Storage_ready_witness:
  "\<exists>st. mk_Storage sample_env sample_world = Some st \<and> rl_map (st_loggers st) ''default'' \<noteq> None"
proof -
  from mk_Storage_ready [OF sample_world_ok, of sample_env] show ?thesis
    by (auto simp: storage_ready_def kDefaultLoggerId_def)
qed

section \<open>Arguments\<close>

text \<open>Setting one type for every level but the global one, and copying that into other configurations.\<close>

lemma set_globally_entries:
  assumes "conf \<in> set (cf_list (setGlobally t v False empty_Configurations))"
  shows "c_type conf = t \<and> c_value conf = v \<and> c_level conf \<in> set walked_levels"
proof -
  have "conf_value l t' (setGlobally t v False empty_Configurations)
      = (if t' = t \<and> l \<in> set walked_levels then Some v else None)" for l t'
    using global_not_walked by (simp add: setGlobally_def each_level_fold sets_value)
  with entry_in_list [OF setGlobally_ok [OF empty_ok] assms] show ?thesis
    by (auto split: if_splits)
qed

lemma copied_globally:
  "conf_value level t' (setFromBase (OtherConf (setGlobally t v False empty_Configurations)) c)
     = (if t' = t \<and> level \<in> set walked_levels then Some v else conf_value level t' c)"
proof -
  let ?b = "setGlobally t v False empty_Configurations"
  have fold: "\<forall>conf\<in>set l. c_type conf = t \<and> c_value conf = v \<and> c_level conf \<in> set walked_levels \<Longrightarrow>
      conf_value level t' (fold (\<lambda>conf. set_from_conf (Some conf)) l c)
        = (if t' = t \<and> level \<in> c_level ` set l then Some v else conf_value level t' c)" for l
    using global_not_walked by (induction l arbitrary: c) (auto simp: set_from_conf_def set_conf_lookup)
  have "level \<in> c_level ` set (cf_list ?b)" if "level \<in> set walked_levels"
  proof -
    have "conf_value level t ?b \<noteq> None"
      using that global_not_walked by (simp add: setGlobally_def each_level_fold sets_value)
    then show ?thesis by (auto simp: conf_value_def conf_get_def find_Some_iff conf_predicate_def)
  qed
  moreover have "c_level ` set (cf_list ?b) \<subseteq> set walked_levels"
    using set_globally_entries [of _ t v] by auto
  ultimately have "level \<in> c_level ` set (cf_list ?b) \<longleftrightarrow> level \<in> set walked_levels" by blast
  with fold [of "cf_list ?b"] set_globally_entries [of _ t v] show ?thesis
    by (simp add: setFromBase_def)
qed



section \<open>Dispatching\<close>

text \<open>
  With the default handler only, a message is appended to the file of its level, if the level goes to a
  file that is open, and to the terminal, if it goes there; no other file, stream or logger changes, and
  of the logger only the counts of unflushed lines.
\<close>

lemma default_dispatch_line:
  assumes st: "loggers_ready (app_log env) (st_loggers st)" "default_callbacks st" "\<not> st_hasFlag StrictLogFileSizeCheck st"
    and p: "reg_get lid (rl_list (st_loggers st)) = Some a" and lg: "rl_map (st_loggers st) lid = Some lg"
    and msg: "lm_logger msg = Some a" "lm_level msg \<in> set walked_levels"
    and line: "builder_build (app_log env) (st_customFormatSpecifiers st) lg msg True = Some line"
  shows "\<exists>st'. dispatcher_dispatch env True (msg, DA_NormalLog) st = Some st'
     \<and> line_written env (lm_level msg) line lid lg st st' \<and> loggers_ready (app_log env) (st_loggers st')"
proof -
  have "cells (rl_heap (st_loggers st)) a = Some lg"
    using lg p by (auto elim!: rl_map_pointer)
  moreover have "lg_typedConfigurations lg \<noteq> None"
    using st(1) lg by (auto simp: loggers_ready_def registry_ready_def logger_ready_def split: option.splits)
  ultimately have "dispatcher_dispatch env True (msg, DA_NormalLog) st = default_handle env (msg, DA_NormalLog) st"
    using st(2,3) msg(1)
    by (cases "default_handle env (msg, DA_NormalLog) st") (auto simp: dispatcher_dispatch_def the_logger_def default_callbacks_def handle_dispatch_def mk_Callback_def)
  with default_handle_ready [OF st(1) p lg msg line] show ?thesis by auto
qed

end
