(* ===== verification/ElWriter.thy ===== *)
theory ElWriter
  imports ElSetup
begin

text \<open>
  Log statements (\<open>easylogging.h\<close>, lines 4605 to 4664, 4912 to 4931 and 4949 to 5131): the message builder that
  puts values into the logger's stream, and the writer that looks up the loggers, dispatches when the
  statement ends and aborts on fatal ones. The macros around them are in \<open>ElMacros\<close>, the format strings of
  \<open>Logger::log\<close> in \<open>ElMessages\<close>.

  A statement may log further statements, for a logger that is missing or before an abort. These are an
  argument of the operations; the statement itself takes the number of statements that may be nested.
\<close>

section \<open>Values\<close>

text \<open>
  The values that can be logged. Numbers are printed in decimal; the text of floating point
  numbers, of pointers and of stream manipulators is given. A wide string is given by its narrow form.
\<close>

datatype log_value =
    V_text string
  | V_string string
  | V_wide "string option"
  | V_char char
  | V_bool bool
  | V_int int
  | V_other string
  | V_manipulator string
  | V_seq "log_value list"

definition int_text :: "int \<Rightarrow> string" where
  "int_text i = (if i < 0 then CHR ''-'' # decimal (nat (- i)) else decimal (nat i))"

text \<open>The stream of the logger behind a pointer.\<close>

definition change_stream :: "nat option \<Rightarrow> (string \<Rightarrow> string) \<Rightarrow> 'f Storage \<Rightarrow> 'f Storage option" where
  "change_stream p f st =
     do { r \<leftarrow> on_logger p (\<lambda>(lg, w). Some (lg\<lparr>lg_stream := f (lg_stream lg)\<rparr>, w)) (st_loggers st);
          Some (st\<lparr>st_loggers := r\<rparr>) }"

definition stream_add :: "nat option \<Rightarrow> string \<Rightarrow> 'f Storage \<Rightarrow> 'f Storage option" where
  "stream_add p t = change_stream p (\<lambda>s. s @ t)"

definition stream_clear :: "nat option \<Rightarrow> 'f Storage \<Rightarrow> 'f Storage option" where
  "stream_clear p = change_stream p (\<lambda>_. [])"

section \<open>Message builder\<close>

record MessageBuilder =
  mb_logger :: "nat option"
  mb_separator :: string

definition mb_initialize :: "nat option \<Rightarrow> 'f Storage \<Rightarrow> MessageBuilder" where
  "mb_initialize logger st =
     \<lparr>mb_logger = logger, mb_separator = (if st_hasFlag NewLineForContainer st then NEWLINE # ''    '' else '', '')\<rparr>"

definition simple_log :: "MessageBuilder \<Rightarrow> string \<Rightarrow> 'f Storage \<Rightarrow> 'f Storage option" where
  "simple_log b t st =
     do { st \<leftarrow> stream_add (mb_logger b) t st;
          if st_hasFlag AutoSpacing st then stream_add (mb_logger b) '' '' st else Some st }"

fun mb_write :: "MessageBuilder \<Rightarrow> log_value \<Rightarrow> 'f Storage \<Rightarrow> 'f Storage option"
  and write_elements :: "MessageBuilder \<Rightarrow> nat \<Rightarrow> nat \<Rightarrow> log_value list \<Rightarrow> 'f Storage \<Rightarrow> (log_value list \<times> 'f Storage) option"
where
  "mb_write b (V_text t) st = simple_log b (c_str t) st"
| "mb_write b (V_string t) st = simple_log b (c_str t) st"
| "mb_write b (V_wide t) st = (case t of
     None \<Rightarrow> stream_add (mb_logger b) kNullPointer st
   | Some t \<Rightarrow> simple_log b (c_str t) st)"
| "mb_write b (V_char c) st = simple_log b [c] st"
| "mb_write b (V_bool v) st = simple_log b (if v then ''1'' else ''0'') st"
| "mb_write b (V_int i) st = simple_log b (int_text i) st"
| "mb_write b (V_other t) st = simple_log b t st"
| "mb_write b (V_manipulator t) st = stream_add (mb_logger b) t st"
| "mb_write b (V_seq vs) st =
     do { st \<leftarrow> stream_add (mb_logger b) ''['' st;
          (rest, st) \<leftarrow> write_elements b 0 (length vs) vs st;
          st \<leftarrow> (if rest \<noteq> [] then stream_add (mb_logger b) ''...'' st else Some st);
          st \<leftarrow> stream_add (mb_logger b) '']'' st;
          if st_hasFlag AutoSpacing st then stream_add (mb_logger b) '' '' st else Some st }"
| "write_elements b i n [] st = Some ([], st)"
| "write_elements b i n (v # vs) st =
     (if i < kMaxLogPerContainer then
        do { st \<leftarrow> mb_write b v st;
             st \<leftarrow> stream_add (mb_logger b) (if i < n - 1 then mb_separator b else []) st;
             write_elements b (i + 1) n vs st }
      else Some (v # vs, st))"

fun mb_writes :: "MessageBuilder \<Rightarrow> log_value list \<Rightarrow> 'f Storage \<Rightarrow> 'f Storage option" where
  "mb_writes b [] st = Some st"
| "mb_writes b (v # vs) st = do { st \<leftarrow> mb_write b v st; mb_writes b vs st }"

section \<open>Writer\<close>

text \<open>The end of an operation: it returns, or the application is aborted.\<close>

datatype ('f, 'a) run = Returned 'a "'f Storage" | Aborted "'f Storage"

definition run_then :: "('f, 'a) run option \<Rightarrow> ('a \<Rightarrow> 'f Storage \<Rightarrow> ('f, 'b) run option) \<Rightarrow> ('f, 'b) run option" where
  "run_then m k = (case m of None \<Rightarrow> None | Some (Aborted st) \<Rightarrow> Some (Aborted st) | Some (Returned x st) \<Rightarrow> k x st)"

definition returning :: "'a \<Rightarrow> 'f Storage option \<Rightarrow> ('f, 'a) run option" where
  "returning x st = map_option (Returned x) st"

text \<open>A nested statement: its level, file, line, function and values; it goes to the default logger.\<close>

type_synonym 'f nested = "Level \<Rightarrow> string \<Rightarrow> 64 word \<Rightarrow> string \<Rightarrow> log_value list \<Rightarrow> 'f Storage \<Rightarrow> ('f, unit) run option"

record Writer =
  wr_level :: Level
  wr_file :: string
  wr_line :: "64 word"
  wr_func :: string
  wr_verboseLevel :: "32 word"
  wr_logger :: "nat option"
  wr_proceed :: bool
  wr_builder :: MessageBuilder
  wr_action :: DispatchAction
  wr_loggerIds :: "string list"

definition mk_Writer :: "Level \<Rightarrow> string \<Rightarrow> 64 word \<Rightarrow> string \<Rightarrow> DispatchAction \<Rightarrow> 32 word \<Rightarrow> Writer" where
  "mk_Writer level file line func action verboseLevel =
     \<lparr>wr_level = level, wr_file = file, wr_line = line, wr_func = func, wr_verboseLevel = verboseLevel, wr_logger = None,
       wr_proceed = False, wr_builder = \<lparr>mb_logger = None, mb_separator = []\<rparr>, wr_action = action, wr_loggerIds = []\<rparr>"

definition lookup_logger :: "'f app_env \<Rightarrow> string \<Rightarrow> bool \<Rightarrow> 'f Storage \<Rightarrow> (nat option \<times> 'f Storage) option" where
  "lookup_logger env lid force st =
     do { (p, r) \<leftarrow> rl_get (app_log env) lid force (st_loggers st); Some (p, st\<lparr>st_loggers := r\<rparr>) }"

definition writer_proceeds :: "Level \<Rightarrow> nat option \<Rightarrow> 'f Storage \<Rightarrow> bool option" where
  "writer_proceeds level p st =
     do { lg \<leftarrow> the_logger p st;
          if st_hasFlag HierarchicalLogging st \<and> level \<noteq> L_Verbose then
            do { least \<leftarrow> st_loggingLevel st; Some (level_int least \<le> level_int level) }
          else lg_enabled level lg }"

definition initializeLogger :: "'f app_env \<Rightarrow> 'f nested \<Rightarrow> string \<Rightarrow> bool \<Rightarrow> Writer \<Rightarrow> 'f Storage
    \<Rightarrow> ('f, Writer) run option" where
  "initializeLogger env nested loggerId lookup wt st =
     do { (p, st) \<leftarrow> (if lookup then lookup_logger env loggerId (st_hasFlag CreateLoggerAutomatically st) st
                        else Some (wr_logger wt, st));
          let wt = wt\<lparr>wr_logger := p\<rparr>;
          if p = None then
            do { st \<leftarrow> (if \<not> rl_has kDefaultLoggerId (st_loggers st)
                          then map_option snd (lookup_logger env kDefaultLoggerId True st) else Some st);
                 run_then (nested L_Debug (wr_file wt) (wr_line wt) (wr_func wt)
                             [V_text ''Logger ['', V_string loggerId, V_text ''] is not registered yet!''] st)
                   (\<lambda>_ st. Some (Returned (wt\<lparr>wr_proceed := False\<rparr>) st)) }
          else do { b \<leftarrow> writer_proceeds (wr_level wt) p st; Some (Returned (wt\<lparr>wr_proceed := b\<rparr>) st) } }"

text \<open>The loggers of a statement: a pointer, or the names.\<close>

datatype log_target = To_logger "nat option" | To_ids "string list"

definition construct :: "'f app_env \<Rightarrow> 'f nested \<Rightarrow> log_target \<Rightarrow> Writer \<Rightarrow> 'f Storage \<Rightarrow> ('f, Writer) run option" where
  "construct env nested target wt st =
     run_then
       (case target of
          To_logger p \<Rightarrow>
            do { lg \<leftarrow> the_logger p st; initializeLogger env nested (lg_id lg) False (wt\<lparr>wr_logger := p\<rparr>) st }
        | To_ids [] \<Rightarrow> None
        | To_ids (lid # lids) \<Rightarrow>
            (if st_hasFlag MultiLoggerSupport st
             then initializeLogger env nested lid True (wt\<lparr>wr_loggerIds := lid # lids\<rparr>) st
             else initializeLogger env nested lid True wt st))
       (\<lambda>wt st. Some (Returned (wt\<lparr>wr_builder := mb_initialize (wr_logger wt) st\<rparr>) st))"

definition writer_write :: "Writer \<Rightarrow> log_value list \<Rightarrow> 'f Storage \<Rightarrow> 'f Storage option" where
  "writer_write wt vs st = (if wr_proceed wt then mb_writes (wr_builder wt) vs st else Some st)"

definition triggerDispatch :: "'f app_env \<Rightarrow> 'f nested \<Rightarrow> Writer \<Rightarrow> 'f Storage \<Rightarrow> ('f, Writer) run option" where
  "triggerDispatch env nested wt st =
     do { st \<leftarrow> (if wr_proceed wt then
                    do { lg \<leftarrow> the_logger (wr_logger wt) st;
                         dispatcher_dispatch env (wr_proceed wt)
                           (mk_LogMessage (wr_level wt) (wr_file wt) (wr_line wt) (wr_func wt) (wr_verboseLevel wt)
                              (wr_logger wt) lg, wr_action wt) st }
                  else Some st);
          st \<leftarrow> (if wr_logger wt \<noteq> None then stream_clear (wr_logger wt) st else Some st);
          if wr_proceed wt \<and> wr_level wt = L_Fatal \<and> \<not> st_hasFlag DisableApplicationAbortOnFatalLog st then
            run_then (nested L_Warning (wr_file wt) (wr_line wt) (wr_func wt)
                        [V_text ''Aborting application. Reason: Fatal log at ['', V_text (wr_file wt), V_text '':'',
                         V_int (uint (wr_line wt)), V_text '']''] st)
              (\<lambda>_ st. Some (Aborted st))
          else Some (Returned (wt\<lparr>wr_proceed := False\<rparr>) st) }"

text \<open>The dispatch to several loggers: the names that are left, and the message of the first one that proceeded.\<close>

definition dispatch_one :: "'f app_env \<Rightarrow> 'f nested \<Rightarrow> string option \<Rightarrow> Writer \<Rightarrow> 'f Storage
    \<Rightarrow> ('f, string option \<times> Writer) run option" where
  "dispatch_one env nested dispatched wt st =
     (if wr_proceed wt then
        do { (dispatched, st) \<leftarrow> (case dispatched of
               Some logMessage \<Rightarrow> do { st \<leftarrow> stream_add (wr_logger wt) logMessage st; Some (dispatched, st) }
             | None \<Rightarrow> do { lg \<leftarrow> the_logger (wr_logger wt) st;
                            Some (Some (if 1 < length (wr_loggerIds wt) then lg_stream lg else []), st) });
             run_then (triggerDispatch env nested wt st) (\<lambda>wt st. Some (Returned (dispatched, wt) st)) }
      else if wr_logger wt \<noteq> None then returning (dispatched, wt) (stream_clear (wr_logger wt) st)
      else Some (Returned (dispatched, wt) st))"

fun dispatch_loggers :: "'f app_env \<Rightarrow> 'f nested \<Rightarrow> string list \<Rightarrow> string option \<Rightarrow> Writer \<Rightarrow> 'f Storage
    \<Rightarrow> ('f, unit) run option" where
  "dispatch_loggers env nested [] dispatched wt st =
     run_then (dispatch_one env nested dispatched wt st) (\<lambda>_ st. Some (Returned () st))"
| "dispatch_loggers env nested (lid # lids) dispatched wt st =
     run_then (dispatch_one env nested dispatched wt st) (\<lambda>(dispatched, wt) st.
       run_then (initializeLogger env nested lid True wt st) (\<lambda>wt st.
         dispatch_loggers env nested lids dispatched wt st))"

definition processDispatch :: "'f app_env \<Rightarrow> 'f nested \<Rightarrow> Writer \<Rightarrow> 'f Storage \<Rightarrow> ('f, unit) run option" where
  "processDispatch env nested wt st =
     (if st_hasFlag MultiLoggerSupport st then dispatch_loggers env nested (drop 1 (wr_loggerIds wt)) None wt st
      else if wr_proceed wt then run_then (triggerDispatch env nested wt st) (\<lambda>_ st. Some (Returned () st))
      else if wr_logger wt \<noteq> None then returning () (stream_clear (wr_logger wt) st)
      else Some (Returned () st))"

text \<open>What the destructor of \<open>PErrorWriter\<close> adds: the description and the number of the last system error.\<close>

definition perror_text :: "(int \<Rightarrow> string) \<Rightarrow> int \<Rightarrow> string" where
  "perror_text strerror err = '': '' @ strerror err @ '' ['' @ int_text err @ '']''"

definition perror_closing :: "(int \<Rightarrow> string) \<Rightarrow> int \<Rightarrow> Writer \<Rightarrow> 'f Storage \<Rightarrow> 'f Storage option" where
  "perror_closing strerror err wt st =
     (if wr_proceed wt then stream_add (wr_logger wt) (perror_text strerror err) st else Some st)"

text \<open>
  A whole statement: the writer is constructed, the values are written to it, and its destructor
  dispatches; the destructor of a derived writer runs before. The number bounds the nesting.
\<close>

definition statement_with :: "'f app_env \<Rightarrow> 'f nested \<Rightarrow> (Writer \<Rightarrow> 'f Storage \<Rightarrow> 'f Storage option) \<Rightarrow> Writer \<Rightarrow> log_target
    \<Rightarrow> log_value list \<Rightarrow> 'f Storage \<Rightarrow> ('f, unit) run option" where
  "statement_with env nested closing wt target vs st =
     run_then (construct env nested target wt st) (\<lambda>wt st.
       do { st \<leftarrow> writer_write wt vs st; st \<leftarrow> closing wt st; processDispatch env nested wt st })"

primrec nested_statement :: "'f app_env \<Rightarrow> nat \<Rightarrow> 'f nested" where
  "nested_statement env 0 = (\<lambda>level file line func vs st. None)"
| "nested_statement env (Suc n) = (\<lambda>level file line func vs st.
     statement_with env (nested_statement env n) (\<lambda>_. Some) (mk_Writer level file line func DA_NormalLog 0)
       (To_ids [kDefaultLoggerId]) vs st)"

definition statement :: "'f app_env \<Rightarrow> nat \<Rightarrow> Writer \<Rightarrow> log_target \<Rightarrow> log_value list \<Rightarrow> 'f Storage
    \<Rightarrow> ('f, unit) run option" where
  "statement env n = statement_with env (nested_statement env n) (\<lambda>_. Some)"

definition perror_statement :: "'f app_env \<Rightarrow> nat \<Rightarrow> (int \<Rightarrow> string) \<Rightarrow> int \<Rightarrow> Writer \<Rightarrow> log_target \<Rightarrow> log_value list
    \<Rightarrow> 'f Storage \<Rightarrow> ('f, unit) run option" where
  "perror_statement env n strerror err = statement_with env (nested_statement env n) (perror_closing strerror err)"

end
