(* ===== verification/ElStatement.thy ===== *)
theory ElStatement
  imports ElWriter
begin

text \<open>
  What log statements do: the text of the values, the line that a statement to one logger appends, the
  abort of fatal statements, statements to missing or disabled loggers and to several loggers.
\<close>

section \<open>The text of values\<close>

fun join :: "string \<Rightarrow> string list \<Rightarrow> string" where
  "join sep [] = []"
| "join sep [t] = t"
| "join sep (t # ts) = t @ sep @ join sep ts"

text \<open>
  A container is written in brackets; of a long one the first hundred elements are written, each with a
  separator behind it, and dots.
\<close>

fun value_text :: "bool \<Rightarrow> string \<Rightarrow> log_value \<Rightarrow> string" where
  "value_text auto sep (V_text t) = c_str t @ (if auto then '' '' else [])"
| "value_text auto sep (V_string t) = c_str t @ (if auto then '' '' else [])"
| "value_text auto sep (V_wide t) = (case t of None \<Rightarrow> kNullPointer | Some t \<Rightarrow> c_str t @ (if auto then '' '' else []))"
| "value_text auto sep (V_char c) = c # (if auto then '' '' else [])"
| "value_text auto sep (V_bool v) = (if v then ''1'' else ''0'') @ (if auto then '' '' else [])"
| "value_text auto sep (V_int i) = int_text i @ (if auto then '' '' else [])"
| "value_text auto sep (V_other t) = t @ (if auto then '' '' else [])"
| "value_text auto sep (V_manipulator t) = t"
| "value_text auto sep (V_seq vs) =
     (let ts = map (value_text auto sep) vs
      in ''['' @ (if length ts \<le> kMaxLogPerContainer then join sep ts
                  else concat (map (\<lambda>t. t @ sep) (take kMaxLogPerContainer ts)) @ ''...'') @ '']''
           @ (if auto then '' '' else []))"

definition values_text :: "bool \<Rightarrow> string \<Rightarrow> log_value list \<Rightarrow> string" where
  "values_text auto sep vs = concat (map (value_text auto sep) vs)"

lemma change_stream_flags [simp]: "change_stream p f st = Some st' \<Longrightarrow> st_flags st' = st_flags st"
  by (auto simp: change_stream_def split: bind_splits)

lemma stream_add_flags [simp]: "stream_add p t st = Some st' \<Longrightarrow> st_hasFlag flag st' = st_hasFlag flag st"
  by (simp add: stream_add_def st_hasFlag_def)

lemma the_logger_Some: "the_logger p st = Some lg \<longleftrightarrow> (\<exists>a. p = Some a \<and> cells (rl_heap (st_loggers st)) a = Some lg)"
  by (cases p) (simp_all add: the_logger_def)

lemma change_stream_eq:
  "change_stream p f st = (case the_logger p st of None \<Rightarrow> None | Some lg \<Rightarrow>
     Some (st\<lparr>st_loggers := (st_loggers st)\<lparr>rl_heap := (rl_heap (st_loggers st))\<lparr>cells :=
       (cells (rl_heap (st_loggers st)))(the p \<mapsto> lg\<lparr>lg_stream := f (lg_stream lg)\<rparr>)\<rparr>\<rparr>\<rparr>))"
  by (cases p) (auto simp: change_stream_def on_logger_def the_logger_def split: option.splits)

lemma change_stream_twice: "Option.bind (change_stream p f st) (change_stream p g) = change_stream p (\<lambda>s. g (f s)) st"
proof (cases "the_logger p st")
  case None
  then show ?thesis by (simp add: change_stream_eq)
next
  case (Some lg)
  then obtain a where a: "p = Some a" "cells (rl_heap (st_loggers st)) a = Some lg"
    by (auto simp: the_logger_Some)
  then show ?thesis
    by (simp add: change_stream_eq [of p f] change_stream_eq [of p "\<lambda>s. g (f s)"] Some)
      (simp add: change_stream_eq the_logger_def)
qed

lemma stream_add_twice [simp]: "Option.bind (stream_add p s st) (stream_add p t) = stream_add p (s @ t) st"
  by (simp add: stream_add_def change_stream_twice)

lemma stream_add_split: "stream_add p s st = Some st' \<Longrightarrow> stream_add p (s @ t) st = stream_add p t st'"
  by (simp flip: stream_add_twice)

lemma stream_add_None: "stream_add p t st = None \<longleftrightarrow> the_logger p st = None"
  by (auto simp: stream_add_def change_stream_eq split: option.splits)

lemma stream_add_stuck: "the_logger p st = None \<Longrightarrow> stream_add p t st = None"
  by (simp add: stream_add_None)

lemma stream_add_works:
  assumes "the_logger p st \<noteq> None"
  obtains st' where "stream_add p t st = Some st'"
  using assms stream_add_None [of p t st] by (cases "stream_add p t st") auto

lemma stream_add_nothing: "the_logger p st \<noteq> None \<Longrightarrow> stream_add p [] st = Some st"
  by (auto simp: stream_add_def change_stream_eq the_logger_Some fun_upd_idem the_logger_def [of "Some _"])

lemma stream_add_logger: "stream_add p t st = Some st' \<Longrightarrow> the_logger p st' \<noteq> None"
  by (auto simp: stream_add_def change_stream_eq the_logger_def split: option.splits bind_splits)

lemma stream_add_spaced:
  "Option.bind (stream_add p t st) (\<lambda>st. if st_hasFlag AutoSpacing st then stream_add p '' '' st else Some st)
     = stream_add p (t @ (if st_hasFlag AutoSpacing st then '' '' else [])) st"
proof (cases "stream_add p t st")
  case None
  then show ?thesis by (simp add: stream_add_None stream_add_stuck)
next
  case (Some st')
  then show ?thesis
    using stream_add_nothing [OF stream_add_logger [OF Some]] by (simp add: stream_add_split [OF Some])
qed

lemma simple_log_text:
  "simple_log b t st = stream_add (mb_logger b) (t @ (if st_hasFlag AutoSpacing st then '' '' else [])) st"
  unfolding simple_log_def by (rule stream_add_spaced)

fun element_texts :: "string \<Rightarrow> nat \<Rightarrow> nat \<Rightarrow> string list \<Rightarrow> string" where
  "element_texts sep i n [] = []"
| "element_texts sep i n (t # ts) = t @ (if i < n - 1 then sep else []) @ element_texts sep (i + 1) n ts"

lemma element_texts_join:
  "i + length ts = n \<Longrightarrow> element_texts sep i n ts = join sep ts"
  by (induction sep ts arbitrary: i rule: join.induct) auto

lemma element_texts_cut:
  "i + length ts < n \<Longrightarrow> element_texts sep i n ts = concat (map (\<lambda>t. t @ sep) ts)"
  by (induction ts arbitrary: i) auto

lemma seq_text:
  "value_text auto sep (V_seq vs) = ''['' @ element_texts sep 0 (length vs) (take kMaxLogPerContainer (map (value_text auto sep) vs))
     @ (if drop kMaxLogPerContainer vs \<noteq> [] then ''...'' else []) @ '']'' @ (if auto then '' '' else [])"
  by (auto simp: Let_def element_texts_join element_texts_cut)

lemma mb_write_text:
  "mb_write b v st = stream_add (mb_logger b) (value_text (st_hasFlag AutoSpacing st) (mb_separator b) v) st"
  "the_logger (mb_logger b) st \<noteq> None \<Longrightarrow> write_elements b i n vs st =
     map_option (\<lambda>st. (drop (kMaxLogPerContainer - i) vs, st))
       (stream_add (mb_logger b) (element_texts (mb_separator b) i n
          (take (kMaxLogPerContainer - i) (map (value_text (st_hasFlag AutoSpacing st) (mb_separator b)) vs))) st)"
proof (induction b v st and b i n vs st rule: mb_write_write_elements.induct)
  case (9 b vs st)
  let ?p = "mb_logger b" and ?auto = "st_hasFlag AutoSpacing st"
  let ?E = "element_texts (mb_separator b) 0 (length vs) (take kMaxLogPerContainer (map (value_text ?auto (mb_separator b)) vs))"
  let ?dots = "if drop kMaxLogPerContainer vs \<noteq> [] then ''...'' else []"
  show ?case
  proof (cases "stream_add ?p ''['' st")
    case None
    then show ?thesis by (simp add: stream_add_None stream_add_stuck)
  next
    case (Some st1)
    note logger = stream_add_logger [OF Some]
    obtain st2 where st2: "stream_add ?p ?E st1 = Some st2"
      using stream_add_works [OF logger] .
    have "write_elements b 0 (length vs) vs st1 = Some (drop kMaxLogPerContainer vs, st2)"
      using "9.IH" [OF Some logger] st2 Some by simp
    moreover obtain st3 where st3: "stream_add ?p ?dots st2 = Some st3"
      using stream_add_works [OF stream_add_logger [OF st2]] .
    moreover have "(if drop kMaxLogPerContainer vs \<noteq> [] then stream_add ?p ''...'' st2 else Some st2) = Some st3"
      using st3 stream_add_nothing [OF stream_add_logger [OF st2]] by (simp split: if_splits)
    ultimately show ?thesis
      using Some st2 st3
      by (simp only: mb_write.simps bind.bind_lunit prod.case seq_text stream_add_split [OF Some] stream_add_split [OF st2]
          stream_add_split [OF st3] stream_add_spaced stream_add_flags)
  qed
next
  case (11 b i n v vs st)
  let ?p = "mb_logger b" and ?auto = "st_hasFlag AutoSpacing st"
  let ?t = "value_text ?auto (mb_separator b)" and ?sep = "if i < n - 1 then mb_separator b else []"
  show ?case
  proof (cases "i < kMaxLogPerContainer")
    case True
    obtain st1 where st1: "stream_add ?p (?t v) st = Some st1"
      using stream_add_works [OF "11.prems"] .
    obtain st2 where st2: "stream_add ?p ?sep st1 = Some st2"
      using stream_add_works [OF stream_add_logger [OF st1]] .
    have v: "mb_write b v st = Some st1"
      using "11.IH"(1) [OF True] st1 by simp
    have vs: "write_elements b (i + 1) n vs st2 = map_option (\<lambda>st. (drop (kMaxLogPerContainer - (i + 1)) vs, st))
       (stream_add ?p (element_texts (mb_separator b) (i + 1) n (take (kMaxLogPerContainer - (i + 1)) (map ?t vs))) st2)"
      using "11.IH"(2) [OF True v st2 stream_add_logger [OF st2]] st1 st2 by simp
    have less: "kMaxLogPerContainer - i = Suc (kMaxLogPerContainer - (i + 1))" using True by simp
    show ?thesis
      by (simp only: write_elements.simps if_P [OF True] v st2 vs less bind.bind_lunit list.map take_Suc_Cons drop_Suc_Cons
          element_texts.simps stream_add_split [OF st1] stream_add_split [OF st2])
  next
    case False
    then show ?thesis using "11.prems" by (simp add: stream_add_nothing)
  qed
qed (simp_all add: simple_log_text stream_add_nothing split: option.splits)

lemma mb_writes_text:
  assumes "the_logger (mb_logger b) st \<noteq> None"
  shows "mb_writes b vs st = stream_add (mb_logger b) (values_text (st_hasFlag AutoSpacing st) (mb_separator b) vs) st"
  using assms
proof (induction vs arbitrary: st)
  case Nil
  then show ?case by (simp add: values_text_def stream_add_nothing)
next
  case (Cons v vs)
  obtain st' where st': "stream_add (mb_logger b) (value_text (st_hasFlag AutoSpacing st) (mb_separator b) v) st = Some st'"
    using stream_add_works [OF Cons.prems] .
  with Cons.IH [OF stream_add_logger [OF st']] show ?case
    by (simp add: mb_write_text values_text_def stream_add_split [OF st'])
qed

text \<open>
  C20. Writing a value appends its text to the logger's stream and nothing else: texts up to their first
  zero byte, numbers in decimal, containers of up to 100 elements as \<open>[a, b, c]\<close> and longer ones cut after
  the hundredth element, to any depth; with \<open>AutoSpacing\<close> a blank follows every part.
\<close>
theorem mb_write_exact:
  "mb_write b v st = stream_add (mb_logger b) (value_text (st_hasFlag AutoSpacing st) (mb_separator b) v) st"
  by (rule mb_write_text)

section \<open>One logger\<close>

text \<open>The stream of a registered logger.\<close>

lemma change_stream_ready:
  assumes r: "loggers_ready env (st_loggers st)" and p: "reg_get lid (rl_list (st_loggers st)) = Some a"
    and lg: "rl_map (st_loggers st) lid = Some lg"
  shows "\<exists>r'. change_stream (Some a) f st = Some (st\<lparr>st_loggers := r'\<rparr>) \<and> loggers_ready env r'
     \<and> changed_logger lid (lg\<lparr>lg_stream := f (lg_stream lg)\<rparr>) (rl_world (st_loggers st)) (st_loggers st) r'"
proof -
  let ?g = "\<lambda>(lg, w). Some (lg\<lparr>lg_stream := f (lg_stream lg)\<rparr>, w)"
  have lgr: "logger_ready env lg" "logger_live lg (rl_world (st_loggers st))" "lg_hasLogBuilder lg" "world_ok (rl_world (st_loggers st))"
    using r lg by (auto simp: loggers_ready_def registry_ready_def registry_live_def)
  have "\<exists>r'. on_logger (Some a) ?g (st_loggers st) = Some r'
      \<and> changed_logger lid (lg\<lparr>lg_stream := f (lg_stream lg)\<rparr>) (rl_world (st_loggers st)) (st_loggers st) r' \<and> loggers_ready env r'"
    by (rule on_logger_ready [where g = ?g, OF r p lg])
      (use lgr in \<open>auto simp: logger_ready_def counted_def logger_live_def\<close>)
  then show ?thesis by (auto simp: change_stream_def)
qed

lemma changed_logger_trans:
  "changed_logger lid lg w r r' \<Longrightarrow> changed_logger lid lg' w' r' r'' \<Longrightarrow> changed_logger lid lg' w' r r''"
  by (simp add: changed_logger_def)

text \<open>
  What a statement to a logger changes: a line is appended to the file of the level and to the terminal,
  of the logger the counts of unflushed lines change, and its stream is empty.
\<close>

definition logged :: "'f app_env \<Rightarrow> Level \<Rightarrow> string \<Rightarrow> string \<Rightarrow> Logger \<Rightarrow> 'f Storage \<Rightarrow> 'f Storage \<Rightarrow> bool" where
  "logged env level line lid lg st st' \<longleftrightarrow>
     (\<exists>r' lg'. st' = st\<lparr>st_loggers := r', st_stdout := st_stdout st @ shown_line env level lg st line\<rparr>
        \<and> same_but_counts (lg\<lparr>lg_stream := []\<rparr>) lg'
        \<and> changed_logger lid lg' (appended (target_file level lg (rl_world (st_loggers st))) line (rl_world (st_loggers st)))
            (st_loggers st) r')"

lemma written_ignores_stream:
  "target_file level (lg\<lparr>lg_stream := s\<rparr>) w = target_file level lg w"
  "shown_line env level (lg\<lparr>lg_stream := s\<rparr>) st line = shown_line env level lg st line"
  "shown_line env level lg (st\<lparr>st_loggers := r\<rparr>) line = shown_line env level lg st line"
  by (simp_all add: target_file_def shown_line_def st_hasFlag_def cong: option.case_cong)

lemma logged_after_stream:
  assumes r: "changed_logger lid (lg\<lparr>lg_stream := t\<rparr>) (rl_world (st_loggers st)) (st_loggers st) r"
    and "logged env level line lid (lg\<lparr>lg_stream := t\<rparr>) (st\<lparr>st_loggers := r\<rparr>) st'"
  shows "logged env level line lid lg st st'"
proof -
  have w: "rl_world r = rl_world (st_loggers st)" using r by (simp add: changed_logger_def)
  obtain r' lg' where "st' = st\<lparr>st_loggers := r', st_stdout := st_stdout st @ shown_line env level lg st line\<rparr>"
    and "same_but_counts (lg\<lparr>lg_stream := []\<rparr>) lg'"
    and "changed_logger lid lg' (appended (target_file level lg (rl_world (st_loggers st))) line (rl_world (st_loggers st))) r r'"
    using assms(2) unfolding logged_def written_ignores_stream by (auto simp: w)
  with changed_logger_trans [OF r] show ?thesis unfolding logged_def by blast
qed

text \<open>The line of a statement: what the builder makes of the text that stands in the stream.\<close>

definition statement_line :: "'f app_env \<Rightarrow> Writer \<Rightarrow> nat option \<Rightarrow> string \<Rightarrow> Logger \<Rightarrow> 'f Storage \<Rightarrow> string option" where
  "statement_line env w p t lg st =
     builder_build (app_log env) (st_customFormatSpecifiers st) lg
       (mk_LogMessage (wr_level w) (wr_file w) (wr_line w) (wr_func w) (wr_verboseLevel w) p (lg\<lparr>lg_stream := t\<rparr>)) True"

lemma builder_ignores_counts: "builder_build env specs (lg\<lparr>lg_unflushedCount := m\<rparr>) msg nl = builder_build env specs lg msg nl"
  by (cases lg) (simp only: builder_build_def Logger.select_convs Logger.update_convs)

lemma builder_ignores_stream: "builder_build env specs (lg\<lparr>lg_stream := s\<rparr>) msg nl = builder_build env specs lg msg nl"
  by (cases lg) (simp only: builder_build_def Logger.select_convs Logger.update_convs)

lemma same_but_counts_stream: "same_but_counts lg lg' \<Longrightarrow> same_but_counts (lg\<lparr>lg_stream := s\<rparr>) (lg'\<lparr>lg_stream := s\<rparr>)"
  by (cases lg) (auto simp: same_but_counts_def)

lemma registered_logger:
  assumes "loggers_ready env (st_loggers st)" and "reg_get lid (rl_list (st_loggers st)) = Some a"
    and "rl_map (st_loggers st) lid = Some lg"
  shows "the_logger (Some a) st = Some lg"
  using rl_map_Some [of env "st_loggers st" lid a] assms by (auto simp: the_logger_def loggers_ready_def)

lemma triggerDispatch_ready:
  assumes st: "loggers_ready (app_log env) (st_loggers st)" "default_callbacks st" "\<not> st_hasFlag StrictLogFileSizeCheck st"
    and p: "reg_get lid (rl_list (st_loggers st)) = Some a" and lg: "rl_map (st_loggers st) lid = Some lg"
    and w: "wr_logger w = Some a" "wr_proceed w" "wr_level w \<in> set walked_levels" "wr_action w = DA_NormalLog"
    and line: "statement_line env w (Some a) (lg_stream lg) lg st = Some line"
  shows "\<exists>st'. logged env (wr_level w) line lid lg st st' \<and> loggers_ready (app_log env) (st_loggers st')
     \<and> triggerDispatch env nested w st =
        (if wr_level w = L_Fatal \<and> \<not> st_hasFlag DisableApplicationAbortOnFatalLog st
         then run_then (nested L_Warning (wr_file w) (wr_line w) (wr_func w)
                  [V_text ''Aborting application. Reason: Fatal log at ['', V_text (wr_file w), V_text '':'',
                   V_int (uint (wr_line w)), V_text '']''] st') (\<lambda>_ st. Some (Aborted st))
         else Some (Returned (w\<lparr>wr_proceed := False\<rparr>) st'))"
proof -
  let ?msg = "mk_LogMessage (wr_level w) (wr_file w) (wr_line w) (wr_func w) (wr_verboseLevel w) (Some a) lg"
  have msg: "lm_logger ?msg = Some a" "lm_level ?msg = wr_level w" by (simp_all add: mk_LogMessage_def)
  have "builder_build (app_log env) (st_customFormatSpecifiers st) lg ?msg True = Some line"
    using line by (simp add: statement_line_def)
  then obtain st1 where st1: "dispatcher_dispatch env True (?msg, DA_NormalLog) st = Some st1"
    "line_written env (wr_level w) line lid lg st st1" "loggers_ready (app_log env) (st_loggers st1)"
    using default_dispatch_line [OF st p lg, of ?msg line] w(3) by (auto simp: msg)
  obtain r1 lg1 where r1: "st1 = st\<lparr>st_loggers := r1, st_stdout := st_stdout st @ shown_line env (wr_level w) lg st line\<rparr>"
    "same_but_counts lg lg1"
    "changed_logger lid lg1 (appended (target_file (wr_level w) lg (rl_world (st_loggers st))) line (rl_world (st_loggers st)))
        (st_loggers st) r1"
    using st1(2) unfolding line_written_def by blast
  have p1: "reg_get lid (rl_list (st_loggers st1)) = Some a" and lg1: "rl_map (st_loggers st1) lid = Some lg1"
    and w1: "rl_world (st_loggers st1) = appended (target_file (wr_level w) lg (rl_world (st_loggers st))) line (rl_world (st_loggers st))"
    using r1 p by (simp_all add: changed_logger_def)
  obtain r2 where r2: "change_stream (Some a) (\<lambda>_. []) st1 = Some (st1\<lparr>st_loggers := r2\<rparr>)" "loggers_ready (app_log env) r2"
    "changed_logger lid (lg1\<lparr>lg_stream := []\<rparr>) (rl_world (st_loggers st1)) (st_loggers st1) r2"
    using change_stream_ready [OF st1(3) p1 lg1, of "\<lambda>_. []"] by auto
  let ?st2 = "st1\<lparr>st_loggers := r2\<rparr>"
  have "same_but_counts (lg\<lparr>lg_stream := []\<rparr>) (lg1\<lparr>lg_stream := []\<rparr>)"
    using r1(2) by (rule same_but_counts_stream)
  then have "logged env (wr_level w) line lid lg st ?st2"
    using r1 r2(3) changed_logger_trans [OF r1(3)] unfolding logged_def w1
    by (intro exI [of _ r2] exI [of _ "lg1\<lparr>lg_stream := []\<rparr>"]) simp
  moreover have "st_hasFlag flag ?st2 = st_hasFlag flag st" for flag
    by (simp add: r1(1) st_hasFlag_def)
  ultimately show ?thesis
    using st1(1) r2(1,2) w registered_logger [OF st(1) p lg]
    by (intro exI [of _ ?st2]) (simp add: triggerDispatch_def stream_clear_def)
qed

text \<open>A statement to one registered logger.\<close>

lemma lookup_registered:
  assumes "rl_has lid (st_loggers st)"
  shows "lookup_logger env lid force st = Some (reg_get lid (rl_list (st_loggers st)), st)"
  by (simp add: lookup_logger_def rl_get_found [OF assms])

text \<open>The writer of a statement to one logger, when its values are written; \<open>ids\<close> is its list of names.\<close>

definition ready_writer :: "Writer \<Rightarrow> nat \<Rightarrow> string list \<Rightarrow> bool \<Rightarrow> 'f Storage \<Rightarrow> Writer" where
  "ready_writer w a ids b st =
     w\<lparr>wr_logger := Some a, wr_proceed := b, wr_builder := mb_initialize (Some a) st, wr_loggerIds := ids\<rparr>"

lemma ready_writer_fields [simp]:
  "wr_proceed (ready_writer w a ids b st) = b" "wr_logger (ready_writer w a ids b st) = Some a"
  "wr_level (ready_writer w a ids b st) = wr_level w"
  by (simp_all add: ready_writer_def)

lemma run_then_simps [simp]:
  "run_then None k = None" "run_then (Some (Returned x st)) k = k x st" "run_then (Some (Aborted st)) k = Some (Aborted st)"
  by (simp_all add: run_then_def)

lemma run_then_aborts [simp]: "run_then (run_then m (\<lambda>_ st. Some (Aborted st))) k = run_then m (\<lambda>_ st. Some (Aborted st))"
  by (auto simp: run_then_def split: option.splits run.splits)

text \<open>A statement to one logger, by its name or by a pointer.\<close>

definition one_target :: "string \<Rightarrow> nat \<Rightarrow> log_target \<Rightarrow> bool" where
  "one_target lid a target \<longleftrightarrow> target = To_ids [lid] \<or> target = To_logger (Some a)"

lemma construct_one:
  assumes p: "reg_get lid (rl_list (st_loggers st)) = Some a" and lg: "the_logger (Some a) st = Some lg"
    and target: "one_target lid a target" and b: "writer_proceeds (wr_level w) (Some a) st = Some b" and w: "wr_loggerIds w = []"
  obtains ids where "construct env nested target w st = Some (Returned (ready_writer w a ids b st) st)" "length ids \<le> 1"
proof (cases "target = To_logger (Some a)")
  case True
  then show thesis
    using lg b w by (intro that [of "[]"]) (simp_all add: construct_def initializeLogger_def run_then_def ready_writer_def)
next
  case False
  have "rl_has lid (st_loggers st)" using p by (simp add: rl_has_def)
  from lookup_registered [OF this, of env] show thesis
    using False target w
    by (intro that [of "if st_hasFlag MultiLoggerSupport st then [lid] else []"])
      (simp_all add: one_target_def construct_def initializeLogger_def p b run_then_def ready_writer_def)
qed

lemma dispatch_single:
  assumes "wr_proceed w" and "the_logger (wr_logger w) st \<noteq> None" and "length (wr_loggerIds w) \<le> 1"
  shows "processDispatch env nested w st = run_then (triggerDispatch env nested w st) (\<lambda>_ st. Some (Returned () st))"
  using assms
  by (cases "triggerDispatch env nested w st"; cases "the (triggerDispatch env nested w st)")
    (auto simp: processDispatch_def dispatch_one_def run_then_def)

lemma statement_proceeds:
  assumes st: "loggers_ready (app_log env) (st_loggers st)" "default_callbacks st" "\<not> st_hasFlag StrictLogFileSizeCheck st"
    and p: "reg_get lid (rl_list (st_loggers st)) = Some a" and lg: "rl_map (st_loggers st) lid = Some lg"
    and w: "wr_level w \<in> set walked_levels" "wr_action w = DA_NormalLog" "wr_loggerIds w = []"
    and target: "one_target lid a target" and b: "writer_proceeds (wr_level w) (Some a) st = Some True"
    and t: "t = lg_stream lg @ values_text (st_hasFlag AutoSpacing st) (mb_separator (mb_initialize (Some a) st)) vs"
    and line: "statement_line env w (Some a) t lg st = Some line"
  shows "\<exists>st'. logged env (wr_level w) line lid lg st st' \<and> loggers_ready (app_log env) (st_loggers st')
     \<and> statement_with env nested (\<lambda>_. Some) w target vs st =
        (if wr_level w = L_Fatal \<and> \<not> st_hasFlag DisableApplicationAbortOnFatalLog st
         then run_then (nested L_Warning (wr_file w) (wr_line w) (wr_func w)
                  [V_text ''Aborting application. Reason: Fatal log at ['', V_text (wr_file w), V_text '':'',
                   V_int (uint (wr_line w)), V_text '']''] st') (\<lambda>_ st. Some (Aborted st))
         else Some (Returned () st'))"
proof -
  have cell: "the_logger (Some a) st = Some lg" by (rule registered_logger [OF st(1) p lg])
  obtain ids where c: "construct env nested target w st = Some (Returned (ready_writer w a ids True st) st)" and ids: "length ids \<le> 1"
    using construct_one [OF p cell target b w(3)] .
  let ?w = "ready_writer w a ids True st"
  obtain r1 where r1: "mb_writes (wr_builder ?w) vs st = Some (st\<lparr>st_loggers := r1\<rparr>)" "loggers_ready (app_log env) r1"
    "changed_logger lid (lg\<lparr>lg_stream := t\<rparr>) (rl_world (st_loggers st)) (st_loggers st) r1"
    using change_stream_ready [OF st(1) p lg, of "\<lambda>s. s @ values_text (st_hasFlag AutoSpacing st) (mb_separator (mb_initialize (Some a) st)) vs"] cell
    by (auto simp: mb_writes_text stream_add_def t ready_writer_def mb_initialize_def)
  let ?st1 = "st\<lparr>st_loggers := r1\<rparr>" and ?lg1 = "lg\<lparr>lg_stream := t\<rparr>"
  have flags: "st_hasFlag flag ?st1 = st_hasFlag flag st" for flag by (simp add: st_hasFlag_def)
  have p1: "reg_get lid (rl_list (st_loggers ?st1)) = Some a" and lg1: "rl_map (st_loggers ?st1) lid = Some ?lg1"
    and w1: "rl_world r1 = rl_world (st_loggers st)"
    using r1(3) p by (simp_all add: changed_logger_def)
  have msg: "statement_line env ?w (Some a) (lg_stream ?lg1) ?lg1 ?st1 = Some line"
    using line by (simp add: statement_line_def builder_ignores_stream ready_writer_def)
  have default: "default_callbacks ?st1" using st(2) by (simp add: default_callbacks_def)
  obtain st' where st': "logged env (wr_level w) line lid ?lg1 ?st1 st'" "loggers_ready (app_log env) (st_loggers st')"
    and trigger: "triggerDispatch env nested ?w ?st1 =
        (if wr_level w = L_Fatal \<and> \<not> st_hasFlag DisableApplicationAbortOnFatalLog st
         then run_then (nested L_Warning (wr_file w) (wr_line w) (wr_func w)
                  [V_text ''Aborting application. Reason: Fatal log at ['', V_text (wr_file w), V_text '':'',
                   V_int (uint (wr_line w)), V_text '']''] st') (\<lambda>_ st. Some (Aborted st))
         else Some (Returned (?w\<lparr>wr_proceed := False\<rparr>) st'))"
    using triggerDispatch_ready [where w = ?w and env = env and nested = nested, OF _ default _ p1 lg1 _ _ _ _ msg] r1(2) st(3) w
    by (auto simp: flags ready_writer_def)
  have "logged env (wr_level w) line lid lg st st'"
    by (rule logged_after_stream [OF r1(3) st'(1)])
  moreover have "processDispatch env nested ?w ?st1 = run_then (triggerDispatch env nested ?w ?st1) (\<lambda>_ st. Some (Returned () st))"
    using registered_logger [OF _ p1 lg1, of "app_log env"] r1(2) ids by (intro dispatch_single) (simp_all add: ready_writer_def)
  ultimately show ?thesis
    using st'(2) r1(1) c
    by (intro exI [of _ st']) (simp add: statement_with_def writer_write_def trigger)
qed

end
