(* ===== verification/ElSound.thy ===== *)
theory ElSound
  imports ElStatement
begin

text \<open>
  Log statements never get stuck: in a storage that is ready to log, every statement returns or aborts
  with one nested statement at most, and leaves the storage ready to log.
\<close>

section \<open>Ready to log\<close>

text \<open>A logger whose dates fit into the buffer for them.\<close>

definition dated :: "'f log_env \<Rightarrow> Logger \<Rightarrow> bool" where
  "dated env lg \<longleftrightarrow> (\<forall>tc level f. lg_typedConfigurations lg = Some tc \<and> level \<in> set walked_levels
     \<and> tc_logFormat level tc = Some f \<and> lf_hasFlag F_DateTime f
     \<longrightarrow> Option.bind (tc_millisecondsWidth level tc) (getDateTime (env_localtime env) (env_now env) (lf_dateTimeFormat f)) \<noteq> None)"

definition log_ready :: "'f app_env \<Rightarrow> 'f Storage \<Rightarrow> bool" where
  "log_ready env st \<longleftrightarrow> storage_ready (app_log env) st \<and> default_callbacks st
     \<and> \<not> st_hasFlag StrictLogFileSizeCheck st \<and> \<not> st_hasFlag CreateLoggerAutomatically st
     \<and> (st_hasFlag HierarchicalLogging st \<longrightarrow> st_loggingLevel st \<noteq> None)
     \<and> (\<forall>lid lg. rl_map (st_loggers st) lid = Some lg \<longrightarrow> dated (app_log env) lg)"

lemma log_readyD:
  assumes "log_ready env st"
  shows "loggers_ready (app_log env) (st_loggers st)" "default_callbacks st" "\<not> st_hasFlag StrictLogFileSizeCheck st"
    "\<not> st_hasFlag CreateLoggerAutomatically st" "rl_map (st_loggers st) lid = Some lg \<Longrightarrow> dated (app_log env) lg"
  using assms by (simp_all add: log_ready_def storage_ready_def)

lemma log_ready_default:
  assumes "log_ready env st"
  obtains a lg where "reg_get kDefaultLoggerId (rl_list (st_loggers st)) = Some a" "rl_map (st_loggers st) kDefaultLoggerId = Some lg"
proof -
  obtain lg where lg: "rl_map (st_loggers st) kDefaultLoggerId = Some lg"
    using assms by (auto simp: log_ready_def storage_ready_def)
  from rl_map_pointer [OF this] lg that show thesis by metis
qed

lemma dated_same: "lg_typedConfigurations lg' = lg_typedConfigurations lg \<Longrightarrow> dated env lg' = dated env lg"
  by (simp add: dated_def)

text \<open>Changing one logger's counts and stream, and the world around it.\<close>

lemma log_ready_changed:
  assumes st: "log_ready env st" and lg: "rl_map (st_loggers st) lid = Some lg"
    and c: "changed_logger lid lg' w (st_loggers st) r" and same: "lg_typedConfigurations lg' = lg_typedConfigurations lg"
    and r: "loggers_ready (app_log env) r"
  shows "log_ready env (st\<lparr>st_loggers := r, st_stdout := t\<rparr>)"
proof -
  have "rl_map r = (rl_map (st_loggers st))(lid \<mapsto> lg')" using c by (simp add: changed_logger_def)
  moreover have "dated (app_log env) lg'"
    using log_readyD(5) [OF st lg] dated_same [OF same, of "app_log env"] by simp
  ultimately show ?thesis
    using st r by (auto simp: log_ready_def storage_ready_def default_callbacks_def st_hasFlag_def)
qed

lemma logged_ready:
  assumes st: "log_ready env st" and lg: "rl_map (st_loggers st) lid = Some lg"
    and l: "logged env level line lid lg st st'" and r: "loggers_ready (app_log env) (st_loggers st')"
  shows "log_ready env st'" "rl_list (st_loggers st') = rl_list (st_loggers st)"
proof -
  obtain r' lg' where st': "st' = st\<lparr>st_loggers := r', st_stdout := st_stdout st @ shown_line env level lg st line\<rparr>"
    and same: "same_but_counts (lg\<lparr>lg_stream := []\<rparr>) lg'"
    and c: "changed_logger lid lg' (appended (target_file level lg (rl_world (st_loggers st))) line (rl_world (st_loggers st)))
      (st_loggers st) r'"
    using l unfolding logged_def by blast
  have "lg_typedConfigurations lg' = lg_typedConfigurations lg" using same by (auto simp: same_but_counts_def)
  then show "log_ready env st'"
    using log_ready_changed [OF st lg c] r by (simp add: st')
  show "rl_list (st_loggers st') = rl_list (st_loggers st)"
    using c by (simp add: st' changed_logger_def)
qed

lemma line_exists:
  assumes st: "log_ready env st" and lg: "rl_map (st_loggers st) lid = Some lg"
    and w: "wr_level w \<in> set walked_levels" "NUL \<notin> set (wr_file w)"
  obtains line where "statement_line env w p t lg st = Some line"
proof -
  have "logger_ready (app_log env) lg" and dated: "dated (app_log env) lg"
    using log_readyD(1,5) [OF st] lg by (auto simp: loggers_ready_def registry_ready_def)
  then obtain tc where tc: "lg_typedConfigurations lg = Some tc" "typed_ready tc"
    using ready_typed by metis
  then obtain f where f: "tc_logFormat (wr_level w) tc = Some f"
    using w(1) by (auto simp: typed_ready_def list_all_iff)
  let ?date = "Option.bind (tc_millisecondsWidth (wr_level w) tc)
    (getDateTime (env_localtime (app_log env)) (env_now (app_log env)) (lf_dateTimeFormat f))"
  have "lf_hasFlag F_DateTime f \<Longrightarrow> ?date = Some (the ?date)"
    using dated tc(1) w(1) f by (auto simp: dated_def)
  moreover define msg where "msg = mk_LogMessage (wr_level w) (wr_file w) (wr_line w) (wr_func w) (wr_verboseLevel w) p (lg\<lparr>lg_stream := t\<rparr>)"
  then have "lm_level msg = wr_level w" "lm_file msg = wr_file w" by (simp_all add: mk_LogMessage_def)
  ultimately have "\<exists>line. builder_build (app_log env) (st_customFormatSpecifiers st) lg msg True = Some line"
    using builder_line [OF tc(1), of msg f "app_log env" "the ?date"] f w(2) by auto
  with that show thesis by (auto simp: statement_line_def msg_def)
qed

lemma proceeds_total:
  assumes st: "log_ready env st" and p: "reg_get lid (rl_list (st_loggers st)) = Some a"
  obtains b where "writer_proceeds level (Some a) st = Some b"
proof -
  have r: "loggers_ready (app_log env) (st_loggers st)" by (rule log_readyD [OF st])
  then obtain lg where lg: "rl_map (st_loggers st) lid = Some lg"
    using rl_map_Some [OF _ p, of "app_log env"] by (auto simp: loggers_ready_def)
  then have "logger_ready (app_log env) lg" using r by (simp add: loggers_ready_def registry_ready_def)
  then obtain tc where "lg_typedConfigurations lg = Some tc" using ready_typed by metis
  then have "lg_enabled level lg = Some (tc_enabled level tc)" by (simp add: lg_enabled_def)
  then have "writer_proceeds level (Some a) st \<noteq> None"
    using st registered_logger [OF r p lg] by (auto simp: writer_proceeds_def log_ready_def)
  with that show thesis by auto
qed

section \<open>Statements\<close>

text \<open>A statement whose logger does not proceed only empties the logger's stream.\<close>

definition emptied :: "string \<Rightarrow> Logger \<Rightarrow> 'f Storage \<Rightarrow> 'f Storage \<Rightarrow> bool" where
  "emptied lid lg st st' \<longleftrightarrow> (\<exists>r. st' = st\<lparr>st_loggers := r\<rparr>
     \<and> changed_logger lid (lg\<lparr>lg_stream := []\<rparr>) (rl_world (st_loggers st)) (st_loggers st) r)"

lemma clear_ready:
  assumes st: "log_ready env st" and p: "reg_get lid (rl_list (st_loggers st)) = Some a" and lg: "rl_map (st_loggers st) lid = Some lg"
  obtains st' where "stream_clear (Some a) st = Some st'" "emptied lid lg st st'" "log_ready env st'"
    "rl_list (st_loggers st') = rl_list (st_loggers st)"
proof -
  obtain r where r: "stream_clear (Some a) st = Some (st\<lparr>st_loggers := r\<rparr>)" "loggers_ready (app_log env) r"
    "changed_logger lid (lg\<lparr>lg_stream := []\<rparr>) (rl_world (st_loggers st)) (st_loggers st) r"
    using change_stream_ready [OF log_readyD(1) [OF st] p lg, of "\<lambda>_. []"] by (auto simp: stream_clear_def)
  have "log_ready env (st\<lparr>st_loggers := r\<rparr>)"
    using log_ready_changed [OF st lg r(3) _ r(2), of "st_stdout st"] by simp
  moreover have "rl_list r = rl_list (st_loggers st)" using r(3) by (simp add: changed_logger_def)
  ultimately show thesis using r that by (auto simp: emptied_def)
qed

lemma statement_skipped:
  assumes st: "log_ready env st" and p: "reg_get lid (rl_list (st_loggers st)) = Some a" and lg: "rl_map (st_loggers st) lid = Some lg"
    and b: "writer_proceeds (wr_level w) (Some a) st = Some False" and w: "wr_loggerIds w = []"
    and target: "one_target lid a target"
  shows "\<exists>st'. statement_with env nested (\<lambda>_. Some) w target vs st = Some (Returned () st') \<and> emptied lid lg st st'
     \<and> log_ready env st'"
proof -
  obtain st' where st': "stream_clear (Some a) st = Some st'" "emptied lid lg st st'" "log_ready env st'"
    using clear_ready [OF st p lg] .
  obtain ids where c: "construct env nested target w st = Some (Returned (ready_writer w a ids False st) st)" and ids: "length ids \<le> 1"
    using construct_one [OF p registered_logger [OF log_readyD(1) [OF st] p lg] target b w] .
  have "processDispatch env nested (ready_writer w a ids False st) st = Some (Returned () st')"
    using st'(1) ids by (simp add: processDispatch_def dispatch_one_def returning_def ready_writer_def)
  then show ?thesis
    using st' c by (auto simp: statement_with_def writer_write_def)
qed

text \<open>A statement to the default logger that is not fatal.\<close>

lemma nested_ready:
  assumes st: "log_ready env st" and w: "level \<in> set walked_levels" "level \<noteq> L_Fatal" "NUL \<notin> set file"
  shows "\<exists>st'. nested_statement env (Suc n) level file line func vs st = Some (Returned () st') \<and> log_ready env st'"
proof -
  let ?w = "mk_Writer level file line func DA_NormalLog 0"
  have fields: "wr_level ?w = level" "wr_file ?w = file" "wr_action ?w = DA_NormalLog" "wr_loggerIds ?w = []"
    by (simp_all add: mk_Writer_def)
  obtain a lg where p: "reg_get kDefaultLoggerId (rl_list (st_loggers st)) = Some a"
    and lg: "rl_map (st_loggers st) kDefaultLoggerId = Some lg"
    using log_ready_default [OF st] .
  obtain b where b: "writer_proceeds level (Some a) st = Some b" using proceeds_total [OF st p] .
  show ?thesis
  proof (cases b)
    case True
    define t where "t = lg_stream lg @ values_text (st_hasFlag AutoSpacing st) (mb_separator (mb_initialize (Some a) st)) vs"
    obtain out where "statement_line env ?w (Some a) t lg st = Some out"
      using line_exists [OF st lg, of ?w] w by (auto simp: fields)
    with statement_proceeds [OF log_readyD(1-3) [OF st] p lg, of ?w "To_ids [kDefaultLoggerId]" t vs out] b True w
    obtain st' where "logged env level out kDefaultLoggerId lg st st'" "loggers_ready (app_log env) (st_loggers st')"
      "nested_statement env (Suc n) level file line func vs st = Some (Returned () st')"
      by (auto simp: fields t_def one_target_def)
    with logged_ready(1) [OF st lg] show ?thesis by blast
  next
    case False
    with statement_skipped [OF st p lg, of ?w "To_ids [kDefaultLoggerId]"] b show ?thesis by (auto simp: fields one_target_def)
  qed
qed

text \<open>The logger of a writer is registered, or there is none and the writer does not proceed.\<close>

definition writer_ok :: "Writer \<Rightarrow> 'f Storage \<Rightarrow> bool" where
  "writer_ok w st \<longleftrightarrow> (case wr_logger w of None \<Rightarrow> \<not> wr_proceed w | Some a \<Rightarrow> \<exists>lid. reg_get lid (rl_list (st_loggers st)) = Some a)"

lemma initializeLogger_ready:
  assumes st: "log_ready env st" and name: "NUL \<notin> set (wr_file w)"
  shows "\<exists>p b st'. initializeLogger env (nested_statement env (Suc n)) lid True w st = Some (Returned (w\<lparr>wr_logger := p, wr_proceed := b\<rparr>) st')
     \<and> log_ready env st' \<and> writer_ok (w\<lparr>wr_logger := p, wr_proceed := b\<rparr>) st'"
proof (cases "reg_get lid (rl_list (st_loggers st))")
  case (Some a)
  then have "rl_has lid (st_loggers st)" by (simp add: rl_has_def)
  moreover obtain b where "writer_proceeds (wr_level w) (Some a) st = Some b" using proceeds_total [OF st Some] .
  ultimately have "initializeLogger env (nested_statement env (Suc n)) lid True w st
      = Some (Returned (w\<lparr>wr_logger := Some a, wr_proceed := b\<rparr>) st)"
    by (simp add: initializeLogger_def lookup_registered Some)
  moreover have "writer_ok (w\<lparr>wr_logger := Some a, wr_proceed := b\<rparr>) st" using Some by (auto simp: writer_ok_def)
  ultimately show ?thesis using st by blast
next
  case None
  have get: "lookup_logger env lid (st_hasFlag CreateLoggerAutomatically st) st = Some (None, st)"
    using None log_readyD(4) [OF st] by (simp add: lookup_logger_def rl_get_def)
  have has: "rl_has kDefaultLoggerId (st_loggers st)"
    using log_ready_default [OF st] by (metis option.distinct(1) rl_has_def)
  have "\<exists>st'. nested_statement env (Suc n) L_Debug (wr_file w) (wr_line w) (wr_func w)
      [V_text ''Logger ['', V_string lid, V_text ''] is not registered yet!''] st = Some (Returned () st') \<and> log_ready env st'"
    by (rule nested_ready [OF st _ _ name]) (simp_all add: walked_levels_def)
  then obtain st' where "nested_statement env (Suc n) L_Debug (wr_file w) (wr_line w) (wr_func w)
      [V_text ''Logger ['', V_string lid, V_text ''] is not registered yet!''] st = Some (Returned () st')" "log_ready env st'"
    by blast
  then show ?thesis
    by (intro exI [of _ None] exI [of _ False] exI [of _ st'])
      (simp add: initializeLogger_def get has writer_ok_def del: nested_statement.simps)
qed

lemma dispatch_one_ready:
  assumes st: "log_ready env st" and w: "wr_level w \<in> set walked_levels" "NUL \<notin> set (wr_file w)" "wr_action w = DA_NormalLog"
    and ok: "writer_ok w st"
  shows "\<exists>r. dispatch_one env (nested_statement env (Suc n)) d w st = Some r
     \<and> (case r of Returned (d', w') st' \<Rightarrow> log_ready env st' \<and> w' = w\<lparr>wr_proceed := False\<rparr>
        | Aborted st' \<Rightarrow> log_ready env st' \<and> wr_level w = L_Fatal)"
proof (cases "wr_logger w")
  case None
  then have "\<not> wr_proceed w" using ok by (simp add: writer_ok_def)
  moreover from this have "w\<lparr>wr_proceed := False\<rparr> = w" by simp
  ultimately show ?thesis using None st by (simp add: dispatch_one_def)
next
  case (Some a)
  then obtain lid where p: "reg_get lid (rl_list (st_loggers st)) = Some a" using ok by (auto simp: writer_ok_def)
  have r: "loggers_ready (app_log env) (st_loggers st)" by (rule log_readyD [OF st])
  obtain lg where lg: "rl_map (st_loggers st) lid = Some lg"
    using rl_map_Some [OF _ p, of "app_log env"] r by (auto simp: loggers_ready_def)
  show ?thesis
  proof (cases "wr_proceed w")
    case False
    moreover from this have "w\<lparr>wr_proceed := False\<rparr> = w" by simp
    ultimately show ?thesis
      using clear_ready [OF st p lg] Some by (fastforce simp: dispatch_one_def returning_def)
  next
    case True
    define t where "t = lg_stream lg @ (case d of None \<Rightarrow> [] | Some m \<Rightarrow> m)"
    define d' where "d' = (case d of None \<Rightarrow> if 1 < length (wr_loggerIds w) then lg_stream lg else [] | Some m \<Rightarrow> m)"
    obtain r1 where r1: "stream_add (Some a) (case d of None \<Rightarrow> [] | Some m \<Rightarrow> m) st = Some (st\<lparr>st_loggers := r1\<rparr>)"
      "loggers_ready (app_log env) r1"
      "changed_logger lid (lg\<lparr>lg_stream := t\<rparr>) (rl_world (st_loggers st)) (st_loggers st) r1"
      using change_stream_ready [OF r p lg] by (auto simp: stream_add_def t_def)
    let ?st1 = "st\<lparr>st_loggers := r1\<rparr>"
    have cell: "the_logger (Some a) st = Some lg" by (rule registered_logger [OF r p lg])
    have one: "dispatch_one env nested d w st
        = run_then (triggerDispatch env nested w ?st1) (\<lambda>w st. Some (Returned (Some d', w) st))" for nested
      using r1(1) True Some cell stream_add_nothing [of "Some a" st]
      by (cases d) (simp_all add: dispatch_one_def d'_def)
    have st1: "log_ready env ?st1"
      using log_ready_changed [OF st lg r1(3) _ r1(2), of "st_stdout st"] by simp
    have p1: "reg_get lid (rl_list (st_loggers ?st1)) = Some a" and lg1: "rl_map (st_loggers ?st1) lid = Some (lg\<lparr>lg_stream := t\<rparr>)"
      using r1(3) p by (simp_all add: changed_logger_def)
    obtain out where out: "statement_line env w (Some a) (lg_stream (lg\<lparr>lg_stream := t\<rparr>)) (lg\<lparr>lg_stream := t\<rparr>) ?st1 = Some out"
      using line_exists [OF st1 lg1 w(1,2)] by metis
    obtain st2 where st2: "logged env (wr_level w) out lid (lg\<lparr>lg_stream := t\<rparr>) ?st1 st2" "loggers_ready (app_log env) (st_loggers st2)"
      and trigger: "triggerDispatch env (nested_statement env (Suc n)) w ?st1 =
        (if wr_level w = L_Fatal \<and> \<not> st_hasFlag DisableApplicationAbortOnFatalLog ?st1
         then run_then (nested_statement env (Suc n) L_Warning (wr_file w) (wr_line w) (wr_func w)
                  [V_text ''Aborting application. Reason: Fatal log at ['', V_text (wr_file w), V_text '':'',
                   V_int (uint (wr_line w)), V_text '']''] st2) (\<lambda>_ st. Some (Aborted st))
         else Some (Returned (w\<lparr>wr_proceed := False\<rparr>) st2))"
      using triggerDispatch_ready [OF log_readyD(1-3) [OF st1] p1 lg1 Some True w(1,3) out] by metis
    have ready2: "log_ready env st2" by (rule logged_ready(1) [OF st1 lg1 st2])
    have "\<exists>st3. nested_statement env (Suc n) L_Warning (wr_file w) (wr_line w) (wr_func w)
        [V_text ''Aborting application. Reason: Fatal log at ['', V_text (wr_file w), V_text '':'',
         V_int (uint (wr_line w)), V_text '']''] st2 = Some (Returned () st3) \<and> log_ready env st3"
      by (rule nested_ready [OF ready2 _ _ w(2)]) (simp_all add: walked_levels_def)
    with ready2 show ?thesis
      by (auto simp: one trigger simp del: nested_statement.simps)
  qed
qed

lemma dispatch_loggers_ready:
  assumes "log_ready env st" and "wr_level w \<in> set walked_levels" "NUL \<notin> set (wr_file w)" "wr_action w = DA_NormalLog"
    and "writer_ok w st"
  shows "\<exists>r. dispatch_loggers env (nested_statement env (Suc n)) lids d w st = Some r
     \<and> (case r of Returned _ st' \<Rightarrow> log_ready env st' | Aborted st' \<Rightarrow> log_ready env st' \<and> wr_level w = L_Fatal)"
  using assms
proof (induction lids arbitrary: d w st)
  case Nil
  obtain r where r: "dispatch_one env (nested_statement env (Suc n)) d w st = Some r"
    "case r of Returned (d', w') st' \<Rightarrow> log_ready env st' \<and> w' = w\<lparr>wr_proceed := False\<rparr>
        | Aborted st' \<Rightarrow> log_ready env st' \<and> wr_level w = L_Fatal"
    using dispatch_one_ready [OF Nil] by blast
  then show ?case by (cases r) (auto simp del: nested_statement.simps)
next
  case (Cons lid lids)
  obtain r where r: "dispatch_one env (nested_statement env (Suc n)) d w st = Some r"
    "case r of Returned (d', w') st' \<Rightarrow> log_ready env st' \<and> w' = w\<lparr>wr_proceed := False\<rparr>
        | Aborted st' \<Rightarrow> log_ready env st' \<and> wr_level w = L_Fatal"
    using dispatch_one_ready [OF Cons.prems] by blast
  show ?case
  proof (cases r)
    case (Aborted st1)
    then show ?thesis using r by (simp del: nested_statement.simps)
  next
    case (Returned x st1)
    then obtain d1 where x: "x = (d1, w\<lparr>wr_proceed := False\<rparr>)" and st1: "log_ready env st1"
      using r(2) by (cases x) auto
    let ?w = "w\<lparr>wr_proceed := False\<rparr>"
    have name: "NUL \<notin> set (wr_file ?w)" using Cons.prems(3) by simp
    obtain p b st2 where i: "initializeLogger env (nested_statement env (Suc n)) lid True ?w st1
        = Some (Returned (?w\<lparr>wr_logger := p, wr_proceed := b\<rparr>) st2)"
      "log_ready env st2" "writer_ok (?w\<lparr>wr_logger := p, wr_proceed := b\<rparr>) st2"
      using initializeLogger_ready [OF st1 name, of n lid] by blast
    from Cons.IH [OF i(2) _ _ _ i(3), of d1] Cons.prems show ?thesis
      by (simp add: r(1) Returned x i(1) del: nested_statement.simps cong: run.case_cong)
  qed
qed

lemma processDispatch_loggers:
  assumes "wr_proceed w \<Longrightarrow> the_logger (wr_logger w) st \<noteq> None"
  shows "processDispatch env nested w st
     = dispatch_loggers env nested (if st_hasFlag MultiLoggerSupport st then drop 1 (wr_loggerIds w) else []) None w st"
  using assms
  by (cases "triggerDispatch env nested w st"; cases "the (triggerDispatch env nested w st)")
    (auto simp: processDispatch_def dispatch_one_def returning_def option.map_comp comp_def run_then_def split: option.splits)

text \<open>Writing the values, and dispatching, with a writer whose logger is registered.\<close>

lemma write_and_dispatch_ready:
  assumes st: "log_ready env st" and w: "wr_level w \<in> set walked_levels" "NUL \<notin> set (wr_file w)" "wr_action w = DA_NormalLog"
    and ok: "writer_ok w st" and b: "mb_logger (wr_builder w) = wr_logger w"
  shows "\<exists>st1 r. writer_write w vs st = Some st1 \<and> processDispatch env (nested_statement env (Suc n)) w st1 = Some r
     \<and> (case r of Returned _ st' \<Rightarrow> log_ready env st' | Aborted st' \<Rightarrow> log_ready env st' \<and> wr_level w = L_Fatal)"
proof -
  have "\<exists>st1. writer_write w vs st = Some st1 \<and> log_ready env st1 \<and> writer_ok w st1
      \<and> (wr_proceed w \<longrightarrow> the_logger (wr_logger w) st1 \<noteq> None)"
  proof (cases "wr_proceed w")
    case False
    then have "writer_write w vs st = Some st" by (simp add: writer_write_def)
    with False st ok show ?thesis by blast
  next
    case True
    then obtain a lid where a: "wr_logger w = Some a" and p: "reg_get lid (rl_list (st_loggers st)) = Some a"
      using ok by (auto simp: writer_ok_def split: option.splits)
    have r: "loggers_ready (app_log env) (st_loggers st)" by (rule log_readyD [OF st])
    obtain lg where lg: "rl_map (st_loggers st) lid = Some lg"
      using rl_map_Some [OF _ p, of "app_log env"] r by (auto simp: loggers_ready_def)
    let ?t = "values_text (st_hasFlag AutoSpacing st) (mb_separator (wr_builder w)) vs"
    obtain r1 where r1: "stream_add (Some a) ?t st = Some (st\<lparr>st_loggers := r1\<rparr>)" "loggers_ready (app_log env) r1"
      "changed_logger lid (lg\<lparr>lg_stream := lg_stream lg @ ?t\<rparr>) (rl_world (st_loggers st)) (st_loggers st) r1"
      using change_stream_ready [OF r p lg, of "\<lambda>s. s @ ?t"] by (auto simp: stream_add_def)
    have "log_ready env (st\<lparr>st_loggers := r1\<rparr>)"
      using log_ready_changed [OF st lg r1(3) _ r1(2), of "st_stdout st"] by simp
    moreover have "writer_ok w (st\<lparr>st_loggers := r1\<rparr>)" using p r1(3) a by (auto simp: writer_ok_def changed_logger_def)
    moreover have "writer_write w vs st = Some (st\<lparr>st_loggers := r1\<rparr>)"
      using True r1(1) a b registered_logger [OF r p lg] by (simp add: writer_write_def mb_writes_text)
    ultimately show ?thesis using stream_add_logger [OF r1(1)] unfolding a by blast
  qed
  then obtain st1 where st1: "writer_write w vs st = Some st1" "log_ready env st1" "writer_ok w st1"
    "wr_proceed w \<longrightarrow> the_logger (wr_logger w) st1 \<noteq> None" by blast
  have "processDispatch env nested w st1 = dispatch_loggers env nested
      (if st_hasFlag MultiLoggerSupport st1 then drop 1 (wr_loggerIds w) else []) None w st1" for nested
    using st1(4) by (intro processDispatch_loggers) blast
  with dispatch_loggers_ready [OF st1(2) w st1(3)] st1(1) show ?thesis by simp
qed

text \<open>
  C21. A statement never gets stuck: in a storage that is ready to log, a statement to any loggers,
  registered or not, with any values and under any combination of the flags for several loggers, the
  hierarchy, colours, spacing and flushing, returns or, on the level FATAL only, aborts; one nested statement is
  enough for both, and every logger stays ready to log.
\<close>
theorem statement_sound:
  assumes st: "log_ready env st" and lids: "lids \<noteq> []" and level: "level \<in> set walked_levels" and name: "NUL \<notin> set f"
  shows "\<exists>r. statement env (Suc n) (mk_Writer level f line func DA_NormalLog v) (To_ids lids) vs st = Some r
     \<and> (case r of Returned _ st' \<Rightarrow> log_ready env st' | Aborted st' \<Rightarrow> log_ready env st' \<and> level = L_Fatal)"
proof -
  obtain lid lids' where l: "lids = lid # lids'" using lids by (cases lids) auto
  define w where "w = (mk_Writer level f line func DA_NormalLog v)
    \<lparr>wr_loggerIds := if st_hasFlag MultiLoggerSupport st then lids else []\<rparr>"
  have w: "wr_level w = level" "wr_file w = f" "wr_action w = DA_NormalLog" by (simp_all add: w_def mk_Writer_def)
  have "NUL \<notin> set (wr_file w)" using name by (simp add: w)
  then obtain p b st1 where i: "initializeLogger env (nested_statement env (Suc n)) lid True w st
      = Some (Returned (w\<lparr>wr_logger := p, wr_proceed := b\<rparr>) st1)" "log_ready env st1"
    "writer_ok (w\<lparr>wr_logger := p, wr_proceed := b\<rparr>) st1"
    using initializeLogger_ready [OF st, of w n lid] by blast
  let ?w = "w\<lparr>wr_logger := p, wr_proceed := b, wr_builder := mb_initialize p st1\<rparr>"
  have c: "construct env (nested_statement env (Suc n)) (To_ids lids) (mk_Writer level f line func DA_NormalLog v) st
      = Some (Returned ?w st1)"
    using i(1) by (auto simp: construct_def l w_def mk_Writer_def simp del: nested_statement.simps)
  have w': "wr_level ?w \<in> set walked_levels" "NUL \<notin> set (wr_file ?w)" "wr_action ?w = DA_NormalLog"
    using level name by (simp_all add: w)
  have mb: "mb_logger (wr_builder ?w) = wr_logger ?w" by (simp add: mb_initialize_def)
  have ok: "writer_ok ?w st1" using i(3) by (simp add: writer_ok_def cong: option.case_cong)
  obtain st2 r where "writer_write ?w vs st1 = Some st2" "processDispatch env (nested_statement env (Suc n)) ?w st2 = Some r"
    "case r of Returned _ st' \<Rightarrow> log_ready env st' | Aborted st' \<Rightarrow> log_ready env st' \<and> level = L_Fatal"
    using write_and_dispatch_ready [OF i(2) w' ok _, of vs n] mb by (auto simp: w cong: run.case_cong simp del: nested_statement.simps)
  with c show ?thesis
    by (simp add: statement_def statement_with_def del: nested_statement.simps)
qed

end
