(* ===== verification/ElDates.thy ===== *)
theory ElDates
  imports ElSound
begin

text \<open>
  A new storage is ready to log when its dates fit: formats without braces ask for the default date, and the
  configurations that the constructor sets have no others.
\<close>

section \<open>Formats without braces\<close>

definition plain_date :: "LogFormat \<Rightarrow> bool" where
  "plain_date f \<longleftrightarrow> (lf_hasFlag F_DateTime f \<longrightarrow> lf_dateTimeFormat f = kDefaultDateTimeFormat)"

lemma cond_flag_chars: "set (fst (cond_flag_loop spec flag pos fc f)) \<subseteq> set fc"
proof (induction spec flag pos fc f rule: cond_flag_loop.induct)
  case (1 spec flag pos fc f)
  note eq = cond_flag_loop.simps [of spec flag pos fc f]
  show ?case
  proof (cases "str_find fc spec pos")
    case None
    then show ?thesis by (simp add: eq)
  next
    case (Some i)
    have "set (take (i - 1) fc @ drop i fc) \<subseteq> set fc"
      using set_take_subset [of "i - 1" fc] set_drop_subset [of i fc] by simp
    moreover have "0 < i \<and> fc ! (i - 1) = kFormatSpecifierChar \<Longrightarrow> lf_hasFlag flag f \<Longrightarrow>
        set (fst (cond_flag_loop spec flag (i + 2) (take (i - 1) fc @ drop i fc) f)) \<subseteq> set (take (i - 1) fc @ drop i fc)"
      by (rule "1.IH"(1) [OF Some])
    moreover note "1.IH"(2,3) [OF Some]
    ultimately show ?thesis unfolding eq Some option.case by (smt (verit) subset_trans)
  qed
qed

lemma specifiers_chars: "set (fst (fold (\<lambda>(sp, flag). conditionalAddFlag sp flag) sps s)) \<subseteq> set (fst s)"
proof (induction sps arbitrary: s)
  case (Cons e sps)
  have "set (fst (conditionalAddFlag (fst e) (snd e) s)) \<subseteq> set (fst s)"
    unfolding conditionalAddFlag_def by (rule cond_flag_chars)
  with Cons.IH [of "conditionalAddFlag (fst e) (snd e) s"] show ?case by (cases e) auto
qed simp

lemma updateFormatSpec_date:
  "lf_dateTimeFormat (updateFormatSpec user host f) = lf_dateTimeFormat f"
  by (simp add: updateFormatSpec_def Let_def)

lemma updateDateFormat_plain:
  assumes "CHR ''{'' \<notin> set fc" and "lf_hasFlag F_DateTime f"
  shows "updateDateFormat i fc f = (fc, f\<lparr>lf_dateTimeFormat := kDefaultDateTimeFormat\<rparr>)"
  using assms by (auto simp: updateDateFormat_def Let_def simp del: specifier_text.simps dest: nth_mem)

lemma mk_LogFormat_plain:
  assumes v: "CHR ''{'' \<notin> set v" and f: "mk_LogFormat user host level v = Some f"
  shows "plain_date f"
proof -
  let ?date = "specifier_text Sp_DateTime" and ?f0 = "empty_LogFormat\<lparr>lf_level := level, lf_userFormat := v\<rparr>"
  obtain fc f1 where fold: "fold (\<lambda>(sp, flag). conditionalAddFlag sp flag) format_specifiers (v, ?f0\<lparr>lf_flags := 0\<rparr>) = (fc, f1)"
    by (cases "fold (\<lambda>(sp, flag). conditionalAddFlag sp flag) format_specifiers (v, ?f0\<lparr>lf_flags := 0\<rparr>)")
  have fc: "CHR ''{'' \<notin> set fc"
    using specifiers_chars [of format_specifiers "(v, ?f0\<lparr>lf_flags := 0\<rparr>)"] v unfolding fold by auto
  have "distinct (map fst format_specifiers)" by (simp add: format_specifiers_def)
  then have same: "occurs ?date fc = occurs ?date v"
    using specifiers_effect [OF fold] by (simp add: format_specifiers_def del: specifier_text.simps)
  have flag: "lf_hasFlag F_DateTime f \<longleftrightarrow> unescaped ?date v" and whole: "occurs ?date v = unescaped ?date v"
    using parseFromFormat_cases [where user = user and host = host and userFormat = v and f = ?f0 and sp = Sp_DateTime] f
    by (simp_all add: mk_LogFormat_def specifier_flag_def del: specifier_text.simps)
  show ?thesis
  proof (cases "str_find fc ?date 0")
    case None
    then have "\<not> occurs ?date fc"
      by (auto simp: str_find_occ occurs_def occ_split simp del: specifier_text.simps)
    then show ?thesis using flag whole same by (simp add: plain_date_def)
  next
    case (Some i)
    have added: "lf_hasFlag F_DateTime (lf_addFlag F_DateTime f1)"
      by (simp add: lf_hasFlag_def lf_addFlag_def format_flag_added del: format_int.simps)
    have "lf_dateTimeFormat f = kDefaultDateTimeFormat"
      using f Some updateDateFormat_plain [OF fc added]
      by (auto simp: mk_LogFormat_def parseFromFormat_def fold updateFormatSpec_date simp del: specifier_text.simps split: bind_splits)
    then show ?thesis by (simp add: plain_date_def)
  qed
qed

section \<open>Configurations with default dates\<close>

definition plain_conf :: "Configurations \<Rightarrow> bool" where
  "plain_conf c \<longleftrightarrow> list_all (\<lambda>conf. (c_type conf = C_Format \<longrightarrow> CHR ''{'' \<notin> set (c_value conf))
     \<and> (c_type conf = C_MillisecondsWidthType \<longrightarrow> c_value conf = ''3'')) (cf_list c)"

lemma map_insert_all: "P v \<Longrightarrow> \<forall>x\<in>snd ` set m. P x \<Longrightarrow> \<forall>x\<in>snd ` set (map_insert k v m). P x"
proof (induction m)
  case (Cons e m)
  then show ?case by (cases e) auto
qed simp

lemma tc_setValue_all:
  assumes "P v" and "\<forall>x\<in>snd ` set m. P x" and "\<And>old. P (asg old v)"
  shows "\<forall>x\<in>snd ` set (tc_setValue asg l v g m). P x"
proof -
  have "\<forall>x\<in>snd ` set (map (\<lambda>(k, old). if k = l then (k, asg old v) else (k, old)) m). P x"
    using assms by auto
  with map_insert_all [OF assms(1,2)] assms(2) show ?thesis
    by (cases "m = [] \<and> g"; cases "map_of m L_Global = Some v"; cases "map_of m l = None") (simp_all only: tc_setValue_def if_True if_False simp_thms)
qed

lemma tc_sets_all:
  assumes "\<And>old v. P v \<Longrightarrow> P (asg old v)"
  shows "\<forall>v\<in>snd ` set es. P v \<Longrightarrow> \<forall>v\<in>snd ` set m. P v \<Longrightarrow> \<forall>v\<in>snd ` set (tc_sets asg es m). P v"
proof (induction es arbitrary: m)
  case (Cons e es)
  obtain l v where e: "e = (l, v)" by (cases e)
  have "P v" using Cons.prems(1) by (simp add: e)
  then have "\<forall>v\<in>snd ` set (tc_setValue asg l v True m). P v"
    using Cons.prems(2) assms by (intro tc_setValue_all) auto
  with Cons.IH Cons.prems(1) show ?case by (simp add: tc_sets_def e)
qed (simp add: tc_sets_def)

lemma plain_typed:
  assumes tc: "mk_TypedConfigurations env c w = Some (tc, w')" and c: "plain_conf c"
  shows "\<forall>f\<in>snd ` set (m_logFormatMap tc). plain_date f"
    and "m_millisecondsWidthMap tc \<in> {[], [(L_Global, mk_MillisecondsWidth 3)]}"
proof -
  obtain tc1 w1 where tc1: "build_confs env (cf_list c) empty_typed = Some tc1"
    and "build_files env (cf_list c) (tc1, w) = Some (tc, w1)"
    using tc by (auto simp: mk_TypedConfigurations_def build_def Let_def split: bind_splits prod.splits)
  then have same: "same_values tc1 tc"
    using build_files_frame [of env "cf_list c" tc1 w tc w1] by simp
  let ?parse = "\<lambda>conf. the (mk_LogFormat (env_user env) (env_host env) (c_level conf) (c_value conf))"
  have "plain_date (?parse conf)" if "conf \<in> set (cf_list c)" "c_type conf = C_Format" for conf
  proof -
    have "mk_LogFormat (env_user env) (env_host env) (c_level conf) (c_value conf) \<noteq> None"
      using build_confs_maps [OF tc1] that by simp
    then obtain f where "mk_LogFormat (env_user env) (env_host env) (c_level conf) (c_value conf) = Some f" by auto
    moreover have "CHR ''{'' \<notin> set (c_value conf)" using c that by (auto simp: plain_conf_def list_all_iff)
    ultimately show ?thesis using mk_LogFormat_plain by fastforce
  qed
  then have es: "\<forall>f\<in>snd ` set (of_type C_Format ?parse (cf_list c)). plain_date f"
    by (auto simp: of_type_def)
  have "m_logFormatMap tc = tc_sets assign_LogFormat (of_type C_Format ?parse (cf_list c)) []"
    using build_confs_maps [OF tc1] same by (simp add: same_values_def empty_typed_def)
  moreover have "\<forall>f\<in>snd ` set (tc_sets assign_LogFormat (of_type C_Format ?parse (cf_list c)) []). plain_date f"
    by (rule tc_sets_all [OF _ es]) (simp_all add: plain_date_def assign_LogFormat_def lf_hasFlag_def)
  ultimately show "\<forall>f\<in>snd ` set (m_logFormatMap tc). plain_date f" by simp
  have "m_millisecondsWidthMap empty_typed \<in> {[], [(L_Global, mk_MillisecondsWidth 3)]}" by (simp add: empty_typed_def)
  moreover have "\<forall>conf\<in>set (cf_list c). c_type conf = C_MillisecondsWidthType \<longrightarrow> c_value conf = ''3''"
    using c by (auto simp: plain_conf_def list_all_iff)
  ultimately have "m_millisecondsWidthMap tc1 \<in> {[], [(L_Global, mk_MillisecondsWidth 3)]}"
    using build_confs_width_value [OF tc1 _ _ width_three [symmetric]] by blast
  then show "m_millisecondsWidthMap tc \<in> {[], [(L_Global, mk_MillisecondsWidth 3)]}"
    using same by (simp only: same_values_def)
qed

lemma resolve_plain:
  "fold (resolve_level lid) ls (Some tc) = Some tc' \<Longrightarrow> \<forall>f\<in>snd ` set (m_logFormatMap tc). plain_date f
   \<Longrightarrow> (\<forall>f\<in>snd ` set (m_logFormatMap tc'). plain_date f) \<and> m_millisecondsWidthMap tc' = m_millisecondsWidthMap tc"
proof (induction ls arbitrary: tc)
  case (Cons l ls)
  have none: "fold (resolve_level lid) ls None = None"
    by (induction ls) (simp_all add: resolve_level_def)
  then obtain tc1 where 1: "resolve_level lid l (Some tc) = Some tc1"
    using Cons.prems by (cases "resolve_level lid l (Some tc)") simp_all
  have named: "plain_date (f\<lparr>lf_format := x\<rparr>) = plain_date f" for f x
    by (simp add: plain_date_def lf_hasFlag_def)
  have "(\<forall>f\<in>snd ` set (m_logFormatMap tc1). plain_date f) \<and> m_millisecondsWidthMap tc1 = m_millisecondsWidthMap tc"
  proof -
    define key where "key = (if map_of (m_logFormatMap tc) l = None then L_Global else l)"
    obtain f where f: "map_of (m_logFormatMap tc) key = Some f"
      and tc1: "tc1 = tc\<lparr>m_logFormatMap := map (\<lambda>(l, g). if l = key then (l, named lid f) else (l, g)) (m_logFormatMap tc)\<rparr>"
      using 1 unfolding resolve_level_def Let_def named_def key_def by (auto simp del: specifier_text.simps split: bind_splits)
    have "f \<in> snd ` set (m_logFormatMap tc)" using map_of_SomeD [OF f] by force
    then have "plain_date (named lid f)" using Cons.prems(2) by (auto simp: named_def named)
    then show ?thesis using Cons.prems(2) by (auto simp: tc1)
  qed
  with Cons.IH [of tc1] Cons.prems(1) 1 show ?case by simp
qed simp

text \<open>Configuring a logger with such configurations, when the default date fits.\<close>

lemma configure_dated:
  assumes cfg: "configure env base (lg, w) = Some (lg', w')" and c: "plain_conf (lg_configurations lg')"
    and now: "getDateTime (env_localtime env) (env_now env) kDefaultDateTimeFormat (mk_MillisecondsWidth 3) \<noteq> None"
    and ready: "logger_ready env lg'"
  shows "dated env lg'"
proof -
  obtain tc tc' lid where tc: "mk_TypedConfigurations env (lg_configurations lg') w = Some (tc, w')"
    and tc': "resolveLoggerFormatSpec lid tc = Some tc'" "lg_typedConfigurations lg' = Some tc'"
    using cfg by (auto simp: configure_def Let_def split: bind_splits if_splits)
  note plain = plain_typed [OF tc c]
  have "fold (resolve_level lid) walked_levels (Some tc) = Some tc'"
    using tc'(1) by (simp add: resolveLoggerFormatSpec_def each_level_fold)
  then have formats: "\<forall>f\<in>snd ` set (m_logFormatMap tc'). plain_date f" and width: "m_millisecondsWidthMap tc' = m_millisecondsWidthMap tc"
    using resolve_plain plain(1) by blast+
  have "map_of (m_millisecondsWidthMap tc') L_Global \<noteq> None"
    using ready tc'(2) by (simp add: logger_ready_def typed_ready_def)
  then have "m_millisecondsWidthMap tc' = [(L_Global, mk_MillisecondsWidth 3)]"
    using plain(2) width by auto
  then have "tc_millisecondsWidth level tc' = Some (mk_MillisecondsWidth 3)" for level
    by (simp add: tc_millisecondsWidth_def unsafeGetConfigByRef_def)
  moreover have "plain_date f" if "tc_logFormat level tc' = Some f" for level f
    using that formats
    by (force simp: tc_logFormat_def unsafeGetConfigByRef_def dest: map_of_SomeD split: option.splits)
  ultimately show ?thesis
    using now tc'(2) by (auto simp: dated_def plain_date_def)
qed

section \<open>The new storage\<close>

lemma plain_confI:
  assumes "conf_ok c" and "\<And>level v. conf_value level C_Format c = Some v \<Longrightarrow> CHR ''{'' \<notin> set v"
    and "\<And>level v. conf_value level C_MillisecondsWidthType c = Some v \<Longrightarrow> v = ''3''"
  shows "plain_conf c"
  unfolding plain_conf_def list_all_iff
proof (intro ballI conjI impI)
  fix conf assume conf: "conf \<in> set (cf_list c)"
  note v = entry_in_list [OF assms(1) conf]
  show "CHR ''{'' \<notin> set (c_value conf)" if "c_type conf = C_Format"
    using assms(2) v unfolding that by blast
  show "c_value conf = ''3''" if "c_type conf = C_MillisecondsWidthType"
    using assms(3) v unfolding that by blast
qed

lemma plain_confD:
  assumes "plain_conf c"
  shows "conf_value level C_Format c = Some v \<Longrightarrow> CHR ''{'' \<notin> set v"
    and "conf_value level C_MillisecondsWidthType c = Some v \<Longrightarrow> v = ''3''"
proof -
  have entry: "\<exists>conf\<in>set (cf_list c). c_type conf = t \<and> c_value conf = v" if "conf_value level t c = Some v" for t
    using that by (auto simp: conf_value_def conf_get_def find_Some_iff conf_predicate_def)
  show "CHR ''{'' \<notin> set v" if "conf_value level C_Format c = Some v"
    using entry [OF that] assms by (auto simp: plain_conf_def list_all_iff)
  show "v = ''3''" if "conf_value level C_MillisecondsWidthType c = Some v"
    using entry [OF that] assms by (auto simp: plain_conf_def list_all_iff)
qed

lemma plain_copied:
  assumes "plain_conf b" and "conf_ok b" and "all_global_first b"
  shows "plain_conf (setFromBase (OtherConf b) empty_Configurations)"
  by (rule plain_confI)
    (auto simp: setFromBase_ok empty_ok setFromBase_value [OF assms(2,3)] split: option.splits if_splits
      dest: plain_confD [OF assms(1)])

lemma plain_globally:
  assumes "plain_conf c" and "conf_ok c" and "t = C_Format \<Longrightarrow> CHR ''{'' \<notin> set v" and "t \<noteq> C_MillisecondsWidthType"
  shows "plain_conf (setGlobally t v False c)"
proof (rule plain_confI)
  have val: "conf_value level t' (setGlobally t v False c)
      = (if t' = t \<and> level \<in> set walked_levels then Some v else conf_value level t' c)" for level t'
    using global_not_walked by (simp add: setGlobally_def each_level_fold sets_value)
  show "CHR ''{'' \<notin> set x" if "conf_value level C_Format (setGlobally t v False c) = Some x" for level x
    using that assms(3) plain_confD(1) [OF assms(1)] by (auto simp: val split: if_splits)
  show "x = ''3''" if "conf_value level C_MillisecondsWidthType (setGlobally t v False c) = Some x" for level x
    using that assms(4) plain_confD(2) [OF assms(1)] by (auto simp: val split: if_splits)
qed (simp add: setGlobally_ok assms)

lemma plain_defaults: "plain_conf (setToDefault empty_Configurations)"
proof (rule plain_confI)
  have "CHR ''{'' \<notin> set format_default" "CHR ''{'' \<notin> set format_debug" "CHR ''{'' \<notin> set format_verbose"
    "CHR ''{'' \<notin> set format_trace" by code_simp+
  then show "CHR ''{'' \<notin> set v" if "conf_value level C_Format (setToDefault empty_Configurations) = Some v" for level v
    using that by (auto simp: setToDefault_def Let_def set_conf_lookup setGlobally_value split: if_splits)
  show "v = ''3''" if "conf_value level C_MillisecondsWidthType (setToDefault empty_Configurations) = Some v" for level v
    using that by (auto simp: setToDefault_def Let_def set_conf_lookup setGlobally_value split: if_splits)
qed (rule defaults_ok)

definition default_date_fits :: "'f log_env \<Rightarrow> bool" where
  "default_date_fits env \<longleftrightarrow> getDateTime (env_localtime env) (env_now env) kDefaultDateTimeFormat (mk_MillisecondsWidth 3) \<noteq> None"

definition registry_dated :: "'f log_env \<Rightarrow> 'f loggers \<Rightarrow> bool" where
  "registry_dated env r \<longleftrightarrow> (\<forall>lid lg. rl_map r lid = Some lg \<longrightarrow> dated env lg \<and> plain_conf (lg_configurations lg))"

lemma mk_Logger_dated:
  assumes now: "default_date_fits env" and b: "complete_conf env b" "plain_conf b"
    and lg: "mk_Logger env lid b w = Some (lg, w')"
  shows "dated env lg \<and> plain_conf (lg_configurations lg)"
proof -
  have ready: "logger_ready env lg" and conf: "lg_configurations lg = setFromBase (OtherConf b) empty_Configurations"
    using mk_Logger_ready [OF b(1), of lid w] lg by auto
  have "conf_ok b" "all_global_first b" using b(1) by (simp_all add: complete_conf_def)
  then have plain: "plain_conf (lg_configurations lg)"
    using plain_copied b(2) by (simp add: conf)
  with configure_dated [OF _ plain _ ready] lg now show ?thesis
    by (auto simp: mk_Logger_def default_date_fits_def)
qed

lemma rl_get_dated:
  assumes r: "loggers_ready env r" "registry_dated env r" and now: "default_date_fits env"
    and b: "plain_conf (rl_defaultConfigurations r)" and get: "rl_get env lid force r = Some (p, r')"
  shows "registry_dated env r'"
proof (cases "reg_get lid (rl_list r) = None \<and> force \<and> isValidId lid")
  case False
  then have "r' = r" using get by (auto simp: rl_get_def Let_def split: if_splits)
  then show ?thesis using r by simp
next
  case True
  have ok: "reg_ok (rl_list r, rl_heap r)" and c: "complete_conf env (rl_defaultConfigurations r)"
    using r(1) by (simp_all add: loggers_ready_def registry_ready_def)
  obtain lg w where mk: "mk_Logger env lid (rl_defaultConfigurations r) (rl_world r) = Some (lg, w)"
    and map: "rl_map r' = (rl_map r)(lid \<mapsto> lg\<lparr>lg_hasLogBuilder := True\<rparr>)"
    using rl_get_new [OF ok get True] .
  have "dated env (lg\<lparr>lg_hasLogBuilder := True\<rparr>) \<and> plain_conf (lg_configurations lg)"
    using mk_Logger_dated [OF now c b mk] dated_same [of "lg\<lparr>lg_hasLogBuilder := True\<rparr>" lg env] by simp
  then show ?thesis using r(2) by (auto simp: registry_dated_def map)
qed

lemma set_globally_dated:
  assumes r: "loggers_ready env r" "registry_dated env r" and now: "default_date_fits env"
    and p: "reg_get lid (rl_list r) = Some a" and lg: "rl_map r lid = Some lg"
    and v: "value_ok env t v" "t = C_Format \<Longrightarrow> CHR ''{'' \<notin> set v" "t \<noteq> C_MillisecondsWidthType"
    and step: "on_logger (Some a) (set_globally_and_reconfigure env t v) r = Some r'"
  shows "registry_dated env r'"
proof -
  let ?c = "setGlobally t v False (lg_configurations lg)" and ?lg = "lg\<lparr>lg_configurations := setGlobally t v False (lg_configurations lg)\<rparr>"
  have ready: "registry_ready env r" and ok: "reg_ok (rl_list r, rl_heap r)"
    using r(1) by (simp_all add: loggers_ready_def registry_ready_def)
  have cell: "cells (rl_heap r) a = Some lg" using rl_map_Some [OF ready p] lg by auto
  have lgr: "logger_ready env lg" using ready lg by (simp add: registry_ready_def)
  then have c: "complete_conf env (lg_configurations lg)" by (simp add: logger_ready_def)
  have "logger_ready env ?lg"
    using lgr complete_globally [OF c v(1), of False] by (simp add: logger_ready_def counted_def)
  then obtain lg' w' where lg': "reconfigure env (?lg, rl_world r) = Some (lg', w')" "logger_ready env lg'" "lg_configurations lg' = ?c"
    using reconfigure_ready [of env ?lg "rl_world r"] by auto
  have r': "r' = r\<lparr>rl_heap := (rl_heap r)\<lparr>cells := (cells (rl_heap r))(a \<mapsto> lg')\<rparr>, rl_world := w'\<rparr>"
    using step by (auto simp: on_logger_def cell set_globally_and_reconfigure_def lg'(1))
  have map: "rl_map r' = (rl_map r)(lid \<mapsto> lg')"
    using reg_update(2) [OF ok p cell] by (simp add: r' rl_map_def)
  have "plain_conf (lg_configurations lg)" using r(2) lg by (simp add: registry_dated_def)
  then have plain: "plain_conf (lg_configurations lg')"
    unfolding lg'(3) using c v(2,3) by (intro plain_globally) (simp_all add: complete_conf_def)
  have "dated env lg'"
    using configure_dated [OF _ plain _ lg'(2)] lg'(1) now by (auto simp: reconfigure_def default_date_fits_def)
  with plain r(2) show ?thesis by (auto simp: registry_dated_def map)
qed

lemma new_storage_dated:
  assumes w: "world_ok w" and now: "default_date_fits env" and st: "mk_Storage env w = Some st"
  shows "registry_dated env (st_loggers st)"
proof -
  let ?r0 = "mk_RegisteredLoggers w"
  obtain p r1 q r2 r3 where 1: "rl_get env kDefaultLoggerId True ?r0 = Some (p, r1)"
    and 2: "rl_get env kPerformanceLoggerId True r1 = Some (q, r2)"
    and 3: "on_logger q (set_globally_and_reconfigure env C_Format performance_format) r2 = Some r3"
    and r3: "st_loggers st = r3"
    using st by (auto simp: mk_Storage_def Let_def st_addFlag_def installLogDispatchCallback_def
        installPerformanceTrackingCallback_def split: bind_splits prod.splits)
  have empty: "registry_dated env ?r0"
    by (simp add: registry_dated_def mk_RegisteredLoggers_def rl_map_def reg_map_def reg_get_def)
  have def0: "rl_defaultConfigurations ?r0 = setToDefault empty_Configurations" by (simp add: mk_RegisteredLoggers_def)
  have r1: "loggers_ready env r1" using rl_get_live [OF new_loggers_ready [OF w] 1] by blast
  have d1: "registry_dated env r1"
    by (rule rl_get_dated [OF new_loggers_ready [OF w] empty now _ 1]) (simp add: def0 plain_defaults)
  have def1: "rl_defaultConfigurations r1 = setToDefault empty_Configurations"
    using rl_get_cases [of env ?r0 kDefaultLoggerId True] 1 by (simp add: new_registry_ready def0)
  have r2: "loggers_ready env r2" using rl_get_live [OF r1 2] by blast
  have d2: "registry_dated env r2" by (rule rl_get_dated [OF r1 d1 now _ 2]) (simp add: def1 plain_defaults)
  have "registry_ready env r1" using r1 by (simp add: loggers_ready_def)
  from rl_get_cases [OF this, of kPerformanceLoggerId True] 2
  have q: "q = reg_get kPerformanceLoggerId (rl_list r2)" by auto
  obtain a where a: "q = Some a" using 3 by (cases q) (simp_all add: on_logger_def)
  obtain lg where lg: "rl_map r2 kPerformanceLoggerId = Some lg"
    using rl_map_Some [of env r2 kPerformanceLoggerId a] r2 q a by (auto simp: loggers_ready_def)
  have q': "reg_get kPerformanceLoggerId (rl_list r2) = Some a" using q by (simp add: a)
  have "CHR ''{'' \<notin> set performance_format" by code_simp
  then show ?thesis
    unfolding r3 using set_globally_dated [OF r2 d2 now q' lg performance_value _ _ 3 [unfolded a]] by simp
qed

lemma new_log_ready:
  assumes "world_ok w" and "default_date_fits (app_log env)"
  shows "\<exists>st. mk_Storage (app_log env) w = Some st \<and> log_ready env st"
proof -
  obtain st where st: "mk_Storage (app_log env) w = Some st" "storage_ready (app_log env) st" "default_callbacks st"
    "st_flags st = flag_int AllowVerboseIfModuleNotSpecified"
    using new_storage [OF assms(1)] by blast
  have "\<not> hasFlag (flag_int StrictLogFileSizeCheck) (flag_int AllowVerboseIfModuleNotSpecified)"
    "\<not> hasFlag (flag_int CreateLoggerAutomatically) (flag_int AllowVerboseIfModuleNotSpecified)"
    "\<not> hasFlag (flag_int HierarchicalLogging) (flag_int AllowVerboseIfModuleNotSpecified)"
    by code_simp+
  then show ?thesis
    using st new_storage_dated [OF assms st(1)] by (simp add: log_ready_def st_hasFlag_def registry_dated_def del: flag_int.simps)
qed

text \<open>
  C22. In a world whose open streams are alive, and at a time whose default notation fits into the date
  buffer, the storage that the library constructs is ready to log, so that no log statement on it, and on
  every storage that such statements leave behind, can get stuck.
\<close>
theorem new_storage_log_ready:
  assumes "world_ok w" and "default_date_fits (app_log env)"
  shows "\<exists>st. mk_Storage (app_log env) w = Some st \<and> log_ready env st"
  using assms by (rule new_log_ready)

end
