(* ===== verification/ElFresh.thy ===== *)
theory ElFresh
  imports ElDates
begin

text \<open>
  The log file of a new storage: in a world where no log file was opened yet, and the default one can
  be, every level of the default logger goes to the default file and to the terminal.
\<close>

section \<open>One open file\<close>

definition file_text :: "'f log_world \<Rightarrow> string \<Rightarrow> string" where
  "file_text w f = (case contents (w_files w) f of None \<Rightarrow> [] | Some c \<Rightarrow> c)"

text \<open>At most the default file is open, and its text is as given.\<close>

definition only_default :: "string \<Rightarrow> 'f log_world \<Rightarrow> bool" where
  "only_default old w \<longleftrightarrow> can_open (w_files w) kDefaultLogFile \<and> file_text w kDefaultLogFile = old
     \<and> (w_reference w = [] \<or> (\<exists>a. w_reference w = [(kDefaultLogFile, Some a)] \<and> cells (w_streams w) a = Some (Some kDefaultLogFile)))"

definition on_default :: "'f log_world \<Rightarrow> TypedConfigurations \<Rightarrow> bool" where
  "on_default w tc \<longleftrightarrow> (\<forall>p\<in>snd ` set (m_fileStreamMap tc). w_reference w = [(kDefaultLogFile, p)])"

lemma create_stream_default:
  assumes w: "only_default old w" "on_default w tc" and c: "create_stream kDefaultLogFile level (tc, w) = Some (tc', w')"
  shows "only_default old w' \<and> on_default w' tc' \<and> m_toFileMap tc' = m_toFileMap tc
     \<and> (w_reference w \<noteq> [] \<longrightarrow> w_reference w' = w_reference w)"
proof (cases "w_reference w = []")
  case True
  then have none: "m_fileStreamMap tc = []" using w(2) by (cases "m_fileStreamMap tc") (auto simp: on_default_def)
  have "can_open (w_files w) kDefaultLogFile" using w(1) by (simp add: only_default_def)
  with c True none w(1) show ?thesis
    by (auto simp: create_stream_def open_stream_def newFileStream_def new_obj_def only_default_def on_default_def file_text_def
        split: bind_splits option.splits)
next
  case False
  then obtain a where a: "w_reference w = [(kDefaultLogFile, Some a)]" using w(1) by (auto simp: only_default_def)
  have w': "w' = w" and tc': "m_fileStreamMap tc' = map_insert level (Some a) (m_fileStreamMap tc)" "m_toFileMap tc' = m_toFileMap tc"
    using c by (auto simp: create_stream_def a)
  have "\<forall>p\<in>snd ` set (map_insert level (Some a) (m_fileStreamMap tc)). w_reference w = [(kDefaultLogFile, p)]"
    using w(2) a by (intro map_insert_all) (simp_all add: on_default_def)
  with w w' tc' show ?thesis by (simp add: on_default_def)
qed

lemma insertFile_default:
  assumes w: "only_default old w" "on_default w tc" and c: "insertFile env level kDefaultLogFile (tc, w) = Some (tc', w')"
  shows "only_default old w' \<and> on_default w' tc' \<and> m_toFileMap tc' = m_toFileMap tc
     \<and> (w_reference w \<noteq> [] \<longrightarrow> w_reference w' = w_reference w)"
proof -
  have "str_find kDefaultLogFile (specifier_text Sp_DateTime) 0 = None" by code_simp
  then have name: "resolveFilename env kDefaultLogFile = Some kDefaultLogFile" by (simp add: resolveFilename_def)
  obtain w1 k where "create_stream kDefaultLogFile k (tc, w1) = Some (tc', w')" and w1: "w1 = w \<or> (\<exists>d. w1 = w\<lparr>w_dirs := d\<rparr>)"
    using c by (auto simp: insertFile_def name Let_def split: if_splits)
  moreover have "only_default old w1" "on_default w1 tc" "w_reference w1 = w_reference w"
    using w w1 by (auto simp: only_default_def on_default_def file_text_def)
  ultimately show ?thesis using create_stream_default by metis
qed

lemma build_files_default:
  "only_default old w \<Longrightarrow> on_default w tc \<Longrightarrow> \<forall>conf\<in>set confs. c_type conf = C_Filename \<longrightarrow> c_value conf = kDefaultLogFile
   \<Longrightarrow> build_files env confs (tc, w) = Some (tc', w')
   \<Longrightarrow> only_default old w' \<and> on_default w' tc' \<and> m_toFileMap tc' = m_toFileMap tc
     \<and> (w_reference w \<noteq> [] \<longrightarrow> w_reference w' = w_reference w)"
proof (induction confs arbitrary: tc w)
  case (Cons conf confs)
  show ?case
  proof (cases "c_type conf = C_Filename")
    case True
    then obtain tc1 w1 where 1: "insertFile env (c_level conf) kDefaultLogFile (tc, w) = Some (tc1, w1)"
      and rest: "build_files env confs (tc1, w1) = Some (tc', w')"
      using Cons.prems(3,4) by (auto split: bind_splits)
    from insertFile_default [OF Cons.prems(1,2) 1] Cons.IH [OF _ _ _ rest] Cons.prems(3) show ?thesis by auto
  next
    case False
    with Cons show ?thesis by simp
  qed
qed simp

lemma rolling_off:
  "\<forall>conf\<in>set confs. tc_maxLogFileSize (c_level conf) tc = 0 \<Longrightarrow> build_rolling confs tc w = Some w' \<Longrightarrow> w' = w"
proof (induction confs)
  case (Cons conf confs)
  obtain b w1 where 1: "unsafeValidateFileRolling (c_level conf) defaultPreRollOutCallback (tc, w) = Some (b, w1)"
    and rest: "build_rolling confs tc w1 = Some w'"
    using Cons.prems(2) by (auto split: bind_splits)
  have "unsafeGetConfigByVal 0 (c_level conf) (m_maxLogFileSizeMap tc) = 0"
    using Cons.prems(1) by (simp add: tc_maxLogFileSize_def)
  then have "w1 = w"
    using 1 by (auto simp: unsafeValidateFileRolling_def Let_def split: option.splits bind_splits)
  then have same: "build_rolling confs tc w = Some w'" using rest by simp
  have "\<forall>conf\<in>set confs. tc_maxLogFileSize (c_level conf) tc = 0" using Cons.prems(1) by simp
  then show ?case by (rule Cons.IH [OF _ same])
qed simp

section \<open>Configurations that ask for it\<close>

definition default_files :: "Configurations \<Rightarrow> bool" where
  "default_files c \<longleftrightarrow> (\<forall>level v. (conf_value level C_Filename c = Some v \<longrightarrow> v = kDefaultLogFile)
     \<and> (conf_value level C_MaxLogFileSize c = Some v \<longrightarrow> v = ''0'')
     \<and> (conf_value level C_ToFile c = Some v \<longrightarrow> v = ''true'')
     \<and> (conf_value level C_ToStandardOutput c = Some v \<longrightarrow> v = ''true''))"

lemma build_confs_toFile:
  "build_confs env confs tc = Some tc' \<Longrightarrow> \<forall>conf\<in>set confs. c_type conf = C_ToFile \<longrightarrow> c_value conf = ''true''
   \<Longrightarrow> m_toFileMap tc \<in> {[], [(L_Global, True)]}
   \<Longrightarrow> m_toFileMap tc' \<in> {[], [(L_Global, True)]}
     \<and> (m_toFileMap tc \<noteq> [] \<or> list_ex (\<lambda>conf. c_type conf = C_ToFile) confs \<longrightarrow> m_toFileMap tc' \<noteq> [])"
proof (induction confs arbitrary: tc)
  case (Cons conf confs)
  obtain tc1 where tc1: "build_conf env conf tc = Some tc1" "build_confs env confs tc1 = Some tc'"
    using Cons.prems(1) by (auto split: bind_splits)
  have true: "getBool ''true''" by (simp add: getBool_def trim_def ltrim_def rtrim_def is_c_space_def)
  have "m_toFileMap tc1 = (if c_type conf = C_ToFile
      then tc_setValue overwrite (c_level conf) (getBool (c_value conf)) True (m_toFileMap tc) else m_toFileMap tc)"
    using tc1(1) by (cases "c_type conf") (auto simp: build_conf_def Let_def split: bind_splits)
  then have "m_toFileMap tc1 \<in> {[], [(L_Global, True)]}"
    "m_toFileMap tc1 \<noteq> [] \<longleftrightarrow> m_toFileMap tc \<noteq> [] \<or> c_type conf = C_ToFile"
    using Cons.prems(2,3) true by (auto simp: tc_setValue_def)
  with Cons.IH [OF tc1(2)] Cons.prems(2) show ?case by auto
qed simp

lemma mk_TypedConfigurations_default:
  assumes tc: "mk_TypedConfigurations env c w = Some (tc, w')" and w: "only_default old w"
    and c: "default_files c" "complete_conf env c"
  shows "only_default old w' \<and> (w_reference w \<noteq> [] \<longrightarrow> w_reference w' = w_reference w) \<and> on_default w' tc
     \<and> (\<forall>level. tc_toFile level tc) \<and> (\<forall>level. tc_toStandardOutput level tc)"
proof -
  have ok: "conf_ok c" "\<forall>t. global_first t c"
    using c(2) by (simp_all add: complete_conf_def all_global_first_def)
  obtain tc1 w1 where tc1: "build_confs env (cf_list c) empty_typed = Some tc1"
    and files: "build_files env (cf_list c) (tc1, w) = Some (tc, w1)"
    and rolling: "build_rolling (filter (\<lambda>conf. c_type conf = C_MaxLogFileSize) (cf_list c)) tc w1 = Some w'"
    using tc by (auto simp: mk_TypedConfigurations_def build_def Let_def split: bind_splits prod.splits)
  have vals: "(c_type conf = C_Filename \<longrightarrow> c_value conf = kDefaultLogFile) \<and> (c_type conf = C_ToFile \<longrightarrow> c_value conf = ''true'')"
    if "conf \<in> set (cf_list c)" for conf
    using entry_in_list [OF ok(1) that] c(1) unfolding default_files_def by metis
  have global: "\<exists>conf. configured t level c = Some conf \<and> c_type conf = t
      \<and> (\<exists>l. conf_value l t c = Some (c_value conf))" if "t \<in> set known_configs" for t level
  proof -
    have "conf_value L_Global t c \<noteq> None" using c(2) that by (auto simp: complete_conf_def list_all_iff)
    then obtain conf where conf: "configured t level c = Some conf" "conf_get level t c = Some conf \<or> conf_get L_Global t c = Some conf"
      by (cases "conf_get level t c") (auto simp: configured_def conf_value_def)
    then have "c_type conf = t" "\<exists>l. conf_value l t c = Some (c_value conf)"
      by (auto simp: conf_get_def conf_value_def find_Some_iff conf_predicate_def)
    with conf(1) show ?thesis by blast
  qed
  have size: "tc_maxLogFileSize level tc = 0" for level
  proof -
    obtain conf where "configured C_MaxLogFileSize level c = Some conf" "c_value conf = ''0''"
      using global [of C_MaxLogFileSize level] c(1) unfolding default_files_def by (auto simp: known_configs_list)
    moreover have "getULong ''0'' = 0"
      by (simp add: getULong_def trim_def ltrim_def rtrim_def is_c_space_def isDigit_def text_val_def)
    ultimately show ?thesis using typed_values [OF tc ok, of level] by simp
  qed
  have out: "tc_toStandardOutput level tc" for level
  proof -
    obtain conf where "configured C_ToStandardOutput level c = Some conf" "c_value conf = ''true''"
      using global [of C_ToStandardOutput level] c(1) unfolding default_files_def by (auto simp: known_configs_list)
    moreover have "getBool ''true''" by (simp add: getBool_def trim_def ltrim_def rtrim_def is_c_space_def)
    ultimately show ?thesis using typed_values [OF tc ok, of level] by simp
  qed
  have "m_fileStreamMap tc1 = []" using build_confs_streams [OF tc1] by (simp add: empty_typed_def)
  then have "on_default w tc1" by (simp add: on_default_def)
  then have 1: "only_default old w1" "on_default w1 tc" "m_toFileMap tc = m_toFileMap tc1"
    "w_reference w \<noteq> [] \<longrightarrow> w_reference w1 = w_reference w"
    using build_files_default [OF w _ _ files] vals by blast+
  have "w' = w1" by (rule rolling_off [OF _ rolling]) (simp add: size)
  moreover have "m_toFileMap tc1 = [(L_Global, True)]"
    using build_confs_toFile [OF tc1] vals complete_type [OF c(2), of C_ToFile] by (auto simp: empty_typed_def known_configs_list)
  then have "tc_toFile level tc" for level
    by (simp add: tc_toFile_def unsafeGetConfigByVal_def 1(3))
  ultimately show ?thesis using 1 out by simp
qed

lemma resolve_other:
  "fold (resolve_level lid) ls (Some tc) = Some tc' \<Longrightarrow> m_fileStreamMap tc' = m_fileStreamMap tc
     \<and> m_toFileMap tc' = m_toFileMap tc \<and> m_toStandardOutputMap tc' = m_toStandardOutputMap tc"
proof (induction ls arbitrary: tc)
  case (Cons l ls)
  have none: "fold (resolve_level lid) ls None = None"
    by (induction ls) (simp_all add: resolve_level_def)
  then obtain tc1 where 1: "resolve_level lid l (Some tc) = Some tc1"
    using Cons.prems by (cases "resolve_level lid l (Some tc)") simp_all
  then have "m_fileStreamMap tc1 = m_fileStreamMap tc \<and> m_toFileMap tc1 = m_toFileMap tc
      \<and> m_toStandardOutputMap tc1 = m_toStandardOutputMap tc"
    by (auto simp: resolve_level_def Let_def split: bind_splits)
  with Cons.IH [of tc1] Cons.prems 1 show ?case by simp
qed simp

text \<open>A logger all of whose levels go to the default file and to the terminal.\<close>

definition to_default :: "'f log_world \<Rightarrow> Logger \<Rightarrow> bool" where
  "to_default w lg \<longleftrightarrow> (\<exists>tc. lg_typedConfigurations lg = Some tc \<and> on_default w tc
     \<and> (\<forall>level. tc_toFile level tc) \<and> (\<forall>level. tc_toStandardOutput level tc))"

lemma configure_default:
  assumes cfg: "configure env base (lg, w) = Some (lg', w')" and w: "only_default old w"
    and c: "default_files (lg_configurations lg')" "complete_conf env (lg_configurations lg')"
  shows "only_default old w' \<and> (w_reference w \<noteq> [] \<longrightarrow> w_reference w' = w_reference w) \<and> to_default w' lg'"
proof -
  obtain tc tc' lid where tc: "mk_TypedConfigurations env (lg_configurations lg') w = Some (tc, w')"
    and tc': "resolveLoggerFormatSpec lid tc = Some tc'" "lg_typedConfigurations lg' = Some tc'"
    using cfg by (auto simp: configure_def Let_def split: bind_splits if_splits)
  have "fold (resolve_level lid) walked_levels (Some tc) = Some tc'"
    using tc'(1) by (simp add: resolveLoggerFormatSpec_def each_level_fold)
  from resolve_other [OF this] mk_TypedConfigurations_default [OF tc w c] tc'(2) show ?thesis
    by (simp add: to_default_def on_default_def tc_toFile_def tc_toStandardOutput_def)
qed

section \<open>The default logger\<close>

lemma default_conf_files: "default_files default_conf"
proof -
  have "(conf_value level C_Filename (setToDefault empty_Configurations) = Some v \<longrightarrow> v = kDefaultLogFile)
     \<and> (conf_value level C_MaxLogFileSize (setToDefault empty_Configurations) = Some v \<longrightarrow> v = ''0'')
     \<and> (conf_value level C_ToFile (setToDefault empty_Configurations) = Some v \<longrightarrow> v = ''true'')
     \<and> (conf_value level C_ToStandardOutput (setToDefault empty_Configurations) = Some v \<longrightarrow> v = ''true'')" for level v
    by (simp add: setToDefault_def Let_def set_conf_lookup setGlobally_value)
  moreover have "conf_value L_Unknown t default_conf = None" for t
    by (simp add: default_conf_def setFromBase_value defaults_ok defaults_first default_unknown walked_levels_def)
  ultimately show ?thesis
    by (auto simp: default_files_def) (metis default_conf_value option.distinct(1))+
qed

lemma globally_files: "t = C_Format \<Longrightarrow> default_files (setGlobally t v False c) = default_files c"
proof -
  have "conf_value level t' (setGlobally t v False c)
      = (if t' = t \<and> level \<in> set walked_levels then Some v else conf_value level t' c)" for level t'
    using global_not_walked by (simp add: setGlobally_def each_level_fold sets_value)
  then show "t = C_Format \<Longrightarrow> ?thesis" by (simp add: default_files_def)
qed

lemma mk_Logger_default:
  assumes lg: "mk_Logger env lid (setToDefault empty_Configurations) w = Some (lg, w')" and w: "only_default old w"
  shows "only_default old w' \<and> (w_reference w \<noteq> [] \<longrightarrow> w_reference w' = w_reference w) \<and> w_reference w' \<noteq> []
     \<and> to_default w' lg \<and> logger_ready env lg \<and> lg_configurations lg = default_conf"
proof -
  have ready: "logger_ready env lg" and conf: "lg_configurations lg = default_conf"
    using mk_Logger_ready [OF defaults_complete [of env], of lid w] lg by (auto simp: default_conf_def)
  have default: "only_default old w' \<and> (w_reference w \<noteq> [] \<longrightarrow> w_reference w' = w_reference w) \<and> to_default w' lg"
    using lg configure_default [OF _ w] default_conf_files default_conf_facts(3)
    unfolding mk_Logger_def by (metis conf)
  then obtain tc where tc: "lg_typedConfigurations lg = Some tc" "on_default w' tc" by (auto simp: to_default_def)
  then have "m_fileStreamMap tc \<noteq> []" using ready by (auto simp: logger_ready_def typed_ready_def files_global_def)
  then have "w_reference w' \<noteq> []" using tc(2) by (cases "m_fileStreamMap tc") (auto simp: on_default_def)
  with default ready conf show ?thesis by simp
qed

lemma to_default_same: "w_reference w' = w_reference w \<Longrightarrow> to_default w' lg = to_default w lg"
  by (simp add: to_default_def on_default_def)

lemma new_storage_default:
  assumes w: "world_ok w" "w_reference w = []" "can_open (w_files w) kDefaultLogFile"
    and st: "mk_Storage env w = Some st"
  shows "\<exists>lg w'. mk_Logger env kDefaultLoggerId (setToDefault empty_Configurations) w = Some (lg, w')
     \<and> rl_map (st_loggers st) kDefaultLoggerId = Some (lg\<lparr>lg_hasLogBuilder := True\<rparr>)
     \<and> only_default (file_text w kDefaultLogFile) (rl_world (st_loggers st)) \<and> to_default (rl_world (st_loggers st)) lg"
proof -
  let ?r0 = "mk_RegisteredLoggers w" and ?d = kDefaultLoggerId and ?q = kPerformanceLoggerId
    and ?old = "file_text w kDefaultLogFile"
  obtain p r1 q r2 r3 where 1: "rl_get env ?d True ?r0 = Some (p, r1)" and 2: "rl_get env ?q True r1 = Some (q, r2)"
    and 3: "on_logger q (set_globally_and_reconfigure env C_Format performance_format) r2 = Some r3"
    and r3: "st_loggers st = r3"
    using st by (auto simp: mk_Storage_def Let_def st_addFlag_def installLogDispatchCallback_def
        installPerformanceTrackingCallback_def split: bind_splits prod.splits)
  have valid: "isValidId ?d" "isValidId ?q" and differ: "?d \<noteq> ?q" by code_simp+
  have r0: "reg_ok (rl_list ?r0, rl_heap ?r0)" "rl_defaultConfigurations ?r0 = setToDefault empty_Configurations" "rl_world ?r0 = w"
    "\<And>lid. reg_get lid (rl_list ?r0) = None" "\<And>lid. rl_map ?r0 lid = None"
    using new_registry_ready [of env w] by (auto simp: registry_ready_def mk_RegisteredLoggers_def rl_map_def reg_map_def reg_get_def)
  obtain lg where lg: "mk_Logger env ?d (setToDefault empty_Configurations) w = Some (lg, rl_world r1)"
    and map1: "rl_map r1 = (rl_map ?r0)(?d \<mapsto> lg\<lparr>lg_hasLogBuilder := True\<rparr>)"
    using rl_get_new [OF r0(1) 1] r0 valid by metis
  have start: "only_default ?old w" using w by (simp add: only_default_def)
  note first = mk_Logger_default [OF lg start]
  have live1: "loggers_ready env r1" using rl_get_live [OF new_loggers_ready [OF w(1)] 1] by blast
  have def1: "rl_defaultConfigurations r1 = setToDefault empty_Configurations"
    using rl_get_cases [of env ?r0 ?d True] 1 by (simp add: new_registry_ready r0(2))
  have reg1: "reg_ok (rl_list r1, rl_heap r1)" "registry_ready env r1" using live1 by (simp_all add: loggers_ready_def registry_ready_def)
  have "rl_map r1 ?q = None" using differ r0(5) [of ?q] by (simp add: map1)
  then have none: "reg_get ?q (rl_list r1) = None"
    using rl_map_Some [OF reg1(2)] by (metis option.distinct(1) not_None_eq)
  obtain lq where lq: "mk_Logger env ?q (setToDefault empty_Configurations) (rl_world r1) = Some (lq, rl_world r2)"
    and map2: "rl_map r2 = (rl_map r1)(?q \<mapsto> lq\<lparr>lg_hasLogBuilder := True\<rparr>)"
    using rl_get_new [OF reg1(1) 2] none valid def1 by metis
  note second = mk_Logger_default [OF lq conjunct1 [OF first]]
  have live2: "loggers_ready env r2" using rl_get_live [OF live1 2] by blast
  have q: "q = reg_get ?q (rl_list r2)" using rl_get_cases [OF reg1(2), of ?q True] 2 by auto
  obtain a where a: "q = Some a" using 3 by (cases q) (simp_all add: on_logger_def)
  let ?lq = "lq\<lparr>lg_hasLogBuilder := True, lg_configurations := setGlobally C_Format performance_format False default_conf\<rparr>"
  have reg2: "reg_ok (rl_list r2, rl_heap r2)" "registry_ready env r2" using live2 by (simp_all add: loggers_ready_def registry_ready_def)
  have cell: "cells (rl_heap r2) a = Some (lq\<lparr>lg_hasLogBuilder := True\<rparr>)"
    using rl_map_Some [OF reg2(2), of ?q a] q a by (auto simp: map2)
  have conf: "complete_conf env (setGlobally C_Format performance_format False default_conf)"
    by (rule complete_globally [OF default_conf_facts(3) performance_value])
  then have "logger_ready env ?lq" using second by (simp add: logger_ready_def counted_def)
  then obtain l3 w3 where l3: "reconfigure env (?lq, rl_world r2) = Some (l3, w3)"
    "lg_configurations l3 = setGlobally C_Format performance_format False default_conf"
    using reconfigure_ready [of env ?lq "rl_world r2"] by auto
  then have r3': "r3 = r2\<lparr>rl_heap := (rl_heap r2)\<lparr>cells := (cells (rl_heap r2))(a \<mapsto> l3)\<rparr>, rl_world := w3\<rparr>"
    using 3 second by (auto simp: on_logger_def a cell set_globally_and_reconfigure_def)
  have third: "only_default ?old w3 \<and> w_reference w3 = w_reference (rl_world r2)"
    using configure_default [OF l3(1) [unfolded reconfigure_def] conjunct1 [OF second]] conf second
    by (simp add: l3(2) globally_files default_conf_files)
  have "q = reg_get ?q (rl_list r2)" by (rule q)
  then have map3: "rl_map r3 = (rl_map r2)(?q \<mapsto> l3)"
    using reg_update(2) [OF reg2(1) _ cell] a by (simp add: r3' rl_map_def)
  have "to_default w3 lg"
    using first second third to_default_same [of w3 "rl_world r1" lg] by simp
  then show ?thesis
    using lg third differ by (intro exI [of _ lg] exI [of _ "rl_world r1"]) (simp add: r3 map3 map2 map1, simp add: r3')
qed

end
