(* ===== verification/ElLog.thy ===== *)
theory ElLog
  imports ElFresh
begin

text \<open>
  Log statements from end to end: what one statement does to a storage that is ready to log, statements
  to missing loggers, fatal statements, statements to several loggers, and the first message
  of a program.
\<close>

section \<open>One statement\<close>

lemma mk_Writer_fields [simp]:
  "wr_level (mk_Writer level f line func act v) = level" "wr_file (mk_Writer level f line func act v) = f"
  "wr_action (mk_Writer level f line func act v) = act" "wr_loggerIds (mk_Writer level f line func act v) = []"
  "wr_line (mk_Writer level f line func act v) = line" "wr_func (mk_Writer level f line func act v) = func"
  by (simp_all add: mk_Writer_def)

text \<open>The text of a statement, behind what is left over in the logger's stream.\<close>

definition stream_text :: "Logger \<Rightarrow> log_value list \<Rightarrow> 'f Storage \<Rightarrow> string" where
  "stream_text lg vs st = lg_stream lg @ values_text (st_hasFlag AutoSpacing st)
     (if st_hasFlag NewLineForContainer st then NEWLINE # ''    '' else '', '') vs"

lemma target_ready:
  assumes st: "log_ready env st" and p: "reg_get lid (rl_list (st_loggers st)) = Some a" and lg: "rl_map (st_loggers st) lid = Some lg"
    and level: "level \<in> set walked_levels" and name: "NUL \<notin> set f"
    and target: "one_target lid a target" and b: "writer_proceeds level (Some a) st = Some True"
  shows "\<exists>out st'. statement_line env (mk_Writer level f line func DA_NormalLog v) (Some a) (stream_text lg vs st) lg st = Some out
     \<and> logged env level out lid lg st st' \<and> log_ready env st'
     \<and> statement env n (mk_Writer level f line func DA_NormalLog v) target vs st =
        (if level = L_Fatal \<and> \<not> st_hasFlag DisableApplicationAbortOnFatalLog st
         then run_then (nested_statement env n L_Warning f line func
                  [V_text ''Aborting application. Reason: Fatal log at ['', V_text f, V_text '':'',
                   V_int (uint line), V_text '']''] st') (\<lambda>_ st. Some (Aborted st))
         else Some (Returned () st'))"
proof -
  let ?w = "mk_Writer level f line func DA_NormalLog v"
  obtain out where out: "statement_line env ?w (Some a) (stream_text lg vs st) lg st = Some out"
    using line_exists [OF st lg, of ?w "Some a" "stream_text lg vs st"] level name by auto
  have t: "stream_text lg vs st
      = lg_stream lg @ values_text (st_hasFlag AutoSpacing st) (mb_separator (mb_initialize (Some a) st)) vs"
    by (simp add: stream_text_def mb_initialize_def)
  obtain st' where "logged env level out lid lg st st'" "loggers_ready (app_log env) (st_loggers st')"
    "statement env n ?w target vs st =
        (if level = L_Fatal \<and> \<not> st_hasFlag DisableApplicationAbortOnFatalLog st
         then run_then (nested_statement env n L_Warning f line func
                  [V_text ''Aborting application. Reason: Fatal log at ['', V_text f, V_text '':'',
                   V_int (uint line), V_text '']''] st') (\<lambda>_ st. Some (Aborted st))
         else Some (Returned () st'))"
    using statement_proceeds [OF log_readyD(1-3) [OF st] p lg _ _ _ target _ t out, where nested = "nested_statement env n"] level b
    by (auto simp: statement_def)
  with logged_ready(1) [OF st lg] out show ?thesis by blast
qed

lemma statement_ready:
  assumes st: "log_ready env st" and p: "reg_get lid (rl_list (st_loggers st)) = Some a" and lg: "rl_map (st_loggers st) lid = Some lg"
    and level: "level \<in> set walked_levels" and name: "NUL \<notin> set f"
    and b: "writer_proceeds level (Some a) st = Some True"
  shows "\<exists>out st'. statement_line env (mk_Writer level f line func DA_NormalLog v) (Some a) (stream_text lg vs st) lg st = Some out
     \<and> logged env level out lid lg st st' \<and> log_ready env st'
     \<and> statement env n (mk_Writer level f line func DA_NormalLog v) (To_ids [lid]) vs st =
        (if level = L_Fatal \<and> \<not> st_hasFlag DisableApplicationAbortOnFatalLog st
         then run_then (nested_statement env n L_Warning f line func
                  [V_text ''Aborting application. Reason: Fatal log at ['', V_text f, V_text '':'',
                   V_int (uint line), V_text '']''] st') (\<lambda>_ st. Some (Aborted st))
         else Some (Returned () st'))"
  using target_ready [OF assms(1-5) _ b, of "To_ids [lid]"] by (simp add: one_target_def)

text \<open>
  C23. A statement to one registered and enabled logger, below FATAL, returns; it appends exactly one line to the
  level's file and to the terminal, the one that the builder makes of the text of its values, and
  changes nothing else but that logger's counts and its stream, which is empty afterwards.
\<close>
theorem statement_exact:
  assumes "log_ready env st" and "reg_get lid (rl_list (st_loggers st)) = Some a" and "rl_map (st_loggers st) lid = Some lg"
    and "level \<in> set walked_levels" and "NUL \<notin> set f" and "writer_proceeds level (Some a) st = Some True" and "level \<noteq> L_Fatal"
  shows "\<exists>out st'. statement env n (mk_Writer level f line func DA_NormalLog v) (To_ids [lid]) vs st = Some (Returned () st')
     \<and> statement_line env (mk_Writer level f line func DA_NormalLog v) (Some a) (stream_text lg vs st) lg st = Some out
     \<and> logged env level out lid lg st st' \<and> log_ready env st'"
  using statement_ready [OF assms(1-6), of line func v vs n] assms(7) by auto

lemma fatal_statement:
  assumes st: "log_ready env st" "reg_get lid (rl_list (st_loggers st)) = Some a" "rl_map (st_loggers st) lid = Some lg"
    and f: "NUL \<notin> set f" and on: "writer_proceeds L_Fatal (Some a) st = Some True" "\<not> st_hasFlag DisableApplicationAbortOnFatalLog st"
  shows "\<exists>out st1 st2. statement env (Suc n) (mk_Writer L_Fatal f line func DA_NormalLog v) (To_ids [lid]) vs st = Some (Aborted st2)
     \<and> statement_line env (mk_Writer L_Fatal f line func DA_NormalLog v) (Some a) (stream_text lg vs st) lg st = Some out
     \<and> logged env L_Fatal out lid lg st st1
     \<and> nested_statement env (Suc n) L_Warning f line func
         [V_text ''Aborting application. Reason: Fatal log at ['', V_text f, V_text '':'', V_int (uint line), V_text '']''] st1
       = Some (Returned () st2)"
proof -
  have fatal: "L_Fatal \<in> set walked_levels" by (simp add: walked_levels_def)
  from statement_ready [OF st fatal f on(1), of line func v vs "Suc n"] obtain out st1 where
    1: "statement_line env (mk_Writer L_Fatal f line func DA_NormalLog v) (Some a) (stream_text lg vs st) lg st = Some out"
    "logged env L_Fatal out lid lg st st1" "log_ready env st1"
    "statement env (Suc n) (mk_Writer L_Fatal f line func DA_NormalLog v) (To_ids [lid]) vs st =
       run_then (nested_statement env (Suc n) L_Warning f line func
         [V_text ''Aborting application. Reason: Fatal log at ['', V_text f, V_text '':'', V_int (uint line), V_text '']''] st1)
         (\<lambda>_ st. Some (Aborted st))"
    using on(2) by (auto simp del: nested_statement.simps)
  obtain st2 where 2: "nested_statement env (Suc n) L_Warning f line func
         [V_text ''Aborting application. Reason: Fatal log at ['', V_text f, V_text '':'', V_int (uint line), V_text '']''] st1
       = Some (Returned () st2)"
    using nested_ready [OF 1(3) _ _ f, of L_Warning n] by (metis Level.distinct walked_levels_def list.set_intros)
  have "statement env (Suc n) (mk_Writer L_Fatal f line func DA_NormalLog v) (To_ids [lid]) vs st = Some (Aborted st2)"
    unfolding 1(4) 2 by simp
  with 1(1,2) 2 show ?thesis by blast
qed

text \<open>
  C24. A fatal statement to an enabled logger first logs its line and then, through the default logger, the
  warning that the application is aborted, and aborts; it never returns, unless aborting is disabled.
\<close>
theorem fatal_aborts:
  assumes st: "log_ready env st" "reg_get lid (rl_list (st_loggers st)) = Some a" "rl_map (st_loggers st) lid = Some lg"
    and f: "NUL \<notin> set f" and on: "writer_proceeds L_Fatal (Some a) st = Some True" "\<not> st_hasFlag DisableApplicationAbortOnFatalLog st"
  shows "\<exists>out st1 st2. statement env (Suc n) (mk_Writer L_Fatal f line func DA_NormalLog v) (To_ids [lid]) vs st = Some (Aborted st2)
     \<and> statement_line env (mk_Writer L_Fatal f line func DA_NormalLog v) (Some a) (stream_text lg vs st) lg st = Some out
     \<and> logged env L_Fatal out lid lg st st1
     \<and> nested_statement env (Suc n) L_Warning f line func
         [V_text ''Aborting application. Reason: Fatal log at ['', V_text f, V_text '':'', V_int (uint line), V_text '']''] st1
       = Some (Returned () st2)"
  using assms by (rule fatal_statement)

text \<open>
  A statement to a logger that is not registered writes nothing of its own: it is the statement, on the
  level DEBUG and to the default logger, that the logger is not registered yet.
\<close>
theorem unregistered_logger:
  assumes st: "log_ready env st" and lid: "\<not> rl_has lid (st_loggers st)" and f: "NUL \<notin> set f"
  shows "statement env (Suc n) (mk_Writer level f line func DA_NormalLog v) (To_ids [lid]) vs st
     = statement env n (mk_Writer L_Debug f line func DA_NormalLog 0) (To_ids [kDefaultLoggerId])
         [V_text ''Logger ['', V_string lid, V_text ''] is not registered yet!''] st"
proof -
  let ?nested = "nested_statement env (Suc n)" and ?w = "mk_Writer level f line func DA_NormalLog v"
  let ?vs = "[V_text ''Logger ['', V_string lid, V_text ''] is not registered yet!'']"
  have none: "reg_get lid (rl_list (st_loggers st)) = None" using lid by (simp add: rl_has_def)
  have get: "lookup_logger env lid (st_hasFlag CreateLoggerAutomatically st) st = Some (None, st)"
    using none log_readyD(4) [OF st] by (simp add: lookup_logger_def rl_get_def)
  have has: "rl_has kDefaultLoggerId (st_loggers st)"
    using log_ready_default [OF st] by (metis option.distinct(1) rl_has_def)
  obtain st' where nested: "?nested L_Debug f line func ?vs st = Some (Returned () st')"
    using nested_ready [OF st _ _ f, of L_Debug n] by (metis Level.distinct walked_levels_def list.set_intros)
  define w' where "w' = ?w\<lparr>wr_loggerIds := if st_hasFlag MultiLoggerSupport st then [lid] else [], wr_logger := None,
      wr_proceed := False, wr_builder := mb_initialize None st'\<rparr>"
  have "construct env ?nested (To_ids [lid]) ?w st = Some (Returned w' st')"
    using nested by (simp add: construct_def initializeLogger_def get has w'_def mk_Writer_def del: nested_statement.simps)
  moreover have "processDispatch env ?nested w' st' = Some (Returned () st')"
    by (simp add: processDispatch_def dispatch_one_def w'_def)
  ultimately have "statement env (Suc n) ?w (To_ids [lid]) vs st = Some (Returned () st')"
    by (simp add: statement_def statement_with_def writer_write_def w'_def del: nested_statement.simps)
  with nested show ?thesis by (simp add: statement_def)
qed

section \<open>Several loggers\<close>

text \<open>
  C25. A statement to two loggers whose first is disabled for its level loses its values: the second logger,
  although enabled, logs a line with an empty message, whatever the values were.
\<close>
theorem later_logger_empty:
  assumes st: "log_ready env st" "st_hasFlag MultiLoggerSupport st"
    and first: "reg_get l1 (rl_list (st_loggers st)) = Some a" "rl_map (st_loggers st) l1 = Some lg1" "writer_proceeds level (Some a) st = Some False"
    and second: "reg_get l2 (rl_list (st_loggers st)) = Some b" "rl_map (st_loggers st) l2 = Some lg2" "writer_proceeds level (Some b) st = Some True"
    and lg2: "lg_stream lg2 = []" "l1 \<noteq> l2" and w: "level \<in> set walked_levels" "level \<noteq> L_Fatal" "NUL \<notin> set f"
  shows "\<exists>out st1 st2. statement env n (mk_Writer level f line func DA_NormalLog v) (To_ids [l1, l2]) vs st = Some (Returned () st2)
     \<and> emptied l1 lg1 st st1 \<and> logged env level out l2 lg2 st1 st2
     \<and> statement_line env (mk_Writer level f line func DA_NormalLog v) (Some b) [] lg2 st1 = Some out"
proof -
  let ?nested = "nested_statement env n" and ?w = "mk_Writer level f line func DA_NormalLog v"
  obtain st1 where st1: "stream_clear (Some a) st = Some st1" "emptied l1 lg1 st st1" "log_ready env st1"
    "rl_list (st_loggers st1) = rl_list (st_loggers st)"
    using clear_ready [OF st(1) first(1,2)] .
  have map: "rl_map (st_loggers st1) l2 = Some lg2" and flags: "st_hasFlag flag st1 = st_hasFlag flag st"
    and least: "st_loggingLevel st1 = st_loggingLevel st" for flag
    using st1(2) second(2) lg2(2) by (auto simp: emptied_def changed_logger_def st_hasFlag_def)
  have p: "reg_get l2 (rl_list (st_loggers st1)) = Some b" using second(1) st1(4) by simp
  have cells: "the_logger (Some b) st1 = Some lg2" "the_logger (Some b) st = Some lg2"
    using registered_logger [OF log_readyD(1) [OF st1(3)] p map] registered_logger [OF log_readyD(1) [OF st(1)] second(1,2)] by auto
  then have on: "writer_proceeds level (Some b) st1 = Some True"
    using second(3) by (simp only: writer_proceeds_def flags least cells bind.bind_lunit)
  define w1 where "w1 = ?w\<lparr>wr_loggerIds := [l1, l2], wr_logger := Some a, wr_proceed := False, wr_builder := mb_initialize (Some a) st\<rparr>"
  have "rl_has l1 (st_loggers st)" "rl_has l2 (st_loggers st1)" using first(1) p by (simp_all add: rl_has_def)
  note found = this [THEN lookup_registered]
  have "construct env ?nested (To_ids [l1, l2]) ?w st = Some (Returned w1 st)"
    using first st(2) by (simp add: construct_def initializeLogger_def found w1_def)
  moreover define w2 where "w2 = w1\<lparr>wr_logger := Some b, wr_proceed := True\<rparr>"
  have 2: "initializeLogger env ?nested l2 True w1 st1 = Some (Returned w2 st1)"
    using on p by (simp add: initializeLogger_def found w1_def w2_def)
  have w2: "wr_logger w2 = Some b" "wr_proceed w2" "wr_level w2 \<in> set walked_levels" "wr_action w2 = DA_NormalLog"
    using w by (simp_all add: w1_def w2_def)
  have "NUL \<notin> set (wr_file w2)" using w(3) by (simp add: w1_def w2_def)
  then obtain out where out: "statement_line env w2 (Some b) (lg_stream lg2) lg2 st1 = Some out"
    using line_exists [OF st1(3) map w2(3)] by metis
  obtain st2 where st2: "logged env (wr_level w2) out l2 lg2 st1 st2"
    "triggerDispatch env ?nested w2 st1 = Some (Returned (w2\<lparr>wr_proceed := False\<rparr>) st2)"
    using triggerDispatch_ready [OF log_readyD(1-3) [OF st1(3)] p map w2 out, of ?nested] w(2)
    by (auto simp: w1_def w2_def)
  have "processDispatch env ?nested w1 st = Some (Returned () st2)"
    using st(2) st1(1) 2 w2(1,2) cells st2(2)
    by (simp add: processDispatch_def dispatch_one_def returning_def w1_def [symmetric])
      (simp add: w1_def dispatch_one_def returning_def)
  ultimately have "statement env n ?w (To_ids [l1, l2]) vs st = Some (Returned () st2)"
    by (simp add: statement_def statement_with_def writer_write_def w1_def)
  moreover have "statement_line env ?w (Some b) [] lg2 st1 = Some out"
    using out by (simp add: statement_line_def w1_def w2_def lg2(1))
  ultimately show ?thesis using st1(2) st2(1) by (auto simp: w1_def w2_def)
qed

section \<open>The first message\<close>

text \<open>A level that goes to the default file and to the terminal.\<close>

lemma to_default_target:
  assumes lg: "to_default (rl_world (st_loggers st)) lg" and w: "only_default old (rl_world (st_loggers st))"
    and color: "\<not> st_hasFlag ColoredTerminalOutput st" and r: "logger_ready env lg"
  shows "target_file level lg (rl_world (st_loggers st)) = Some kDefaultLogFile" "shown_line app level lg st line = line"
proof -
  obtain tc where tc: "lg_typedConfigurations lg = Some tc" "on_default (rl_world (st_loggers st)) tc" "tc_toFile level tc"
    "tc_toStandardOutput level tc"
    using lg by (auto simp: to_default_def)
  have "files_global tc" using r tc(1) by (simp add: logger_ready_def typed_ready_def)
  then obtain p where p: "tc_fileStream level tc = Some p" "p \<in> snd ` set (m_fileStreamMap tc)"
    by (cases "map_of (m_fileStreamMap tc) level")
      (force simp: tc_fileStream_def unsafeGetConfigByRef_def files_global_def dest: map_of_SomeD)+
  then have "w_reference (rl_world (st_loggers st)) = [(kDefaultLogFile, p)]"
    using tc(2) unfolding on_default_def by blast
  then show "target_file level lg (rl_world (st_loggers st)) = Some kDefaultLogFile"
    using w p(1) tc(1,3) by (auto simp: target_file_def only_default_def stream_file_def deref_def)
  show "shown_line app level lg st line = line" using tc color by (simp add: shown_line_def)
qed

lemma builder_ignores_builder: "builder_build env specs (lg\<lparr>lg_hasLogBuilder := b\<rparr>) msg nl = builder_build env specs lg msg nl"
  by (cases lg) (simp only: builder_build_def Logger.select_convs Logger.update_convs)

lemma new_default_logger:
  assumes lg: "mk_Logger env lid (setToDefault empty_Configurations) w = Some (lg, w')"
  shows "lg_stream lg = [] \<and> (\<forall>level. level \<noteq> L_Unknown \<longrightarrow> lg_enabled level lg = Some True)"
proof -
  let ?b = "setToDefault empty_Configurations"
  define lg0 where "lg0 = initUnflushedCount \<lparr>lg_id = lid, lg_typedConfigurations = None, lg_stream = [],
      lg_parentApplicationName = [], lg_isConfigured = False, lg_configurations = empty_Configurations,
      lg_unflushedCount = [], lg_hasLogBuilder = False\<rparr>"
  have lg0: "lg_typedConfigurations lg0 = None" "lg_configurations lg0 = empty_Configurations"
    by (simp_all add: lg0_def initUnflushedCount_def)
  have "cf_list ?b \<noteq> []"
    using complete_type [OF defaults_complete, of C_Format] by (auto simp: known_configs_list)
  then have taken: "taken_over (OtherConf ?b) (lg_configurations lg0) = default_conf"
    by (simp add: lg0(2) taken_over_def confs_differ_def default_conf_def)
  have "\<forall>level. lg_enabled level lg = Some (enabled_by default_conf level)"
    using configure_ready [of lg0 env "OtherConf ?b" w] lg lg0(1) default_conf_facts(3)
    unfolding taken by (auto simp: mk_Logger_def lg0_def)
  moreover have "enabled_by default_conf level" if "level \<noteq> L_Unknown" for level
  proof -
    have "conf_value level C_Enabled default_conf = Some ''true''"
      using that by (simp add: default_conf_value setToDefault_def Let_def set_conf_lookup setGlobally_value)
    moreover have "getBool ''true''" by (simp add: getBool_def trim_def ltrim_def rtrim_def is_c_space_def)
    ultimately show ?thesis by (auto simp: enabled_by_def configured_def conf_value_def)
  qed
  ultimately show ?thesis
    using mk_Logger_ready [OF defaults_complete [of env], of lid w] lg by auto
qed

text \<open>The default logger of a new storage, when no log file is open yet.\<close>

lemma new_storage_first:
  assumes w: "world_ok w" "w_reference w = []" "can_open (w_files w) kDefaultLogFile" and fits: "default_date_fits (app_log env)"
  obtains st a lg w' where "mk_Storage (app_log env) w = Some st" "log_ready env st" "st_stdout st = []"
    "\<not> st_hasFlag ColoredTerminalOutput st" "\<not> st_hasFlag AutoSpacing st" "\<not> st_hasFlag HierarchicalLogging st"
    "mk_Logger (app_log env) kDefaultLoggerId (setToDefault empty_Configurations) w = Some (lg, w')"
    "reg_get kDefaultLoggerId (rl_list (st_loggers st)) = Some a" "rl_map (st_loggers st) kDefaultLoggerId = Some (lg\<lparr>lg_hasLogBuilder := True\<rparr>)"
    "only_default (file_text w kDefaultLogFile) (rl_world (st_loggers st))" "to_default (rl_world (st_loggers st)) (lg\<lparr>lg_hasLogBuilder := True\<rparr>)"
proof -
  obtain st where st: "mk_Storage (app_log env) w = Some st" "log_ready env st"
    using new_log_ready [OF w(1) fits] by blast
  obtain st0 where "mk_Storage (app_log env) w = Some st0" "st_stdout st0 = []"
    "st_flags st0 = flag_int AllowVerboseIfModuleNotSpecified"
    using new_storage [OF w(1), of "app_log env"] by blast
  then have fresh: "st_stdout st = []" "st_flags st = flag_int AllowVerboseIfModuleNotSpecified" using st(1) by auto
  have flags: "\<not> st_hasFlag ColoredTerminalOutput st" "\<not> st_hasFlag AutoSpacing st" "\<not> st_hasFlag HierarchicalLogging st"
    unfolding st_hasFlag_def fresh(2) by code_simp+
  obtain lg w' where lg: "mk_Logger (app_log env) kDefaultLoggerId (setToDefault empty_Configurations) w = Some (lg, w')"
    and map: "rl_map (st_loggers st) kDefaultLoggerId = Some (lg\<lparr>lg_hasLogBuilder := True\<rparr>)"
    and world: "only_default (file_text w kDefaultLogFile) (rl_world (st_loggers st))" "to_default (rl_world (st_loggers st)) lg"
    using new_storage_default [OF w st(1)] by blast
  obtain a where p: "reg_get kDefaultLoggerId (rl_list (st_loggers st)) = Some a" using rl_map_pointer [OF map] .
  have "to_default (rl_world (st_loggers st)) (lg\<lparr>lg_hasLogBuilder := True\<rparr>)" using world(2) by (simp add: to_default_def)
  with that [OF st fresh(1) flags lg p map world(1)] show ?thesis .
qed

text \<open>
  C26. From the construction of the library to the file: in a world in which no log file is open yet and the
  default one can be, the first message on INFO, WARNING or ERROR is appended to \<open>logs/myeasylog.log\<close> and to the
  terminal as the date, the level, the name of the default logger, the text and a newline.
\<close>
theorem first_message:
  assumes w: "world_ok w" "w_reference w = []" "can_open (w_files w) kDefaultLogFile"
    and now: "getDateTime (env_localtime (app_log env)) (env_now (app_log env)) kDefaultDateTimeFormat (mk_MillisecondsWidth 3) = Some now"
      "CHR ''%'' \<notin> set now"
    and level: "level \<in> {L_Info, L_Warning, L_Error}" and f: "NUL \<notin> set f"
    and out: "out = now @ '' '' @ level_log_value level @ '' [default] '' @ c_str t @ [NEWLINE]"
  shows "\<exists>st st'. mk_Storage (app_log env) w = Some st
     \<and> statement env n (mk_Writer level f line func DA_NormalLog v) (To_ids [''default'']) [V_text t] st = Some (Returned () st')
     \<and> st_stdout st' = out \<and> file_text (rl_world (st_loggers st')) kDefaultLogFile = file_text w kDefaultLogFile @ out
     \<and> log_ready env st'"
proof -
  have fits: "default_date_fits (app_log env)" using now(1) by (simp add: default_date_fits_def)
  obtain st a lg w' where st: "mk_Storage (app_log env) w = Some st" "log_ready env st" "st_stdout st = []"
    and flags: "\<not> st_hasFlag ColoredTerminalOutput st" "\<not> st_hasFlag AutoSpacing st" "\<not> st_hasFlag HierarchicalLogging st"
    and lg: "mk_Logger (app_log env) kDefaultLoggerId (setToDefault empty_Configurations) w = Some (lg, w')"
    and p: "reg_get kDefaultLoggerId (rl_list (st_loggers st)) = Some a"
    and map: "rl_map (st_loggers st) kDefaultLoggerId = Some (lg\<lparr>lg_hasLogBuilder := True\<rparr>)"
    and world: "only_default (file_text w kDefaultLogFile) (rl_world (st_loggers st))"
      "to_default (rl_world (st_loggers st)) (lg\<lparr>lg_hasLogBuilder := True\<rparr>)"
    using new_storage_first [OF w fits] .
  let ?lg = "lg\<lparr>lg_hasLogBuilder := True\<rparr>" and ?w = "mk_Writer level f line func DA_NormalLog v"
  have ready: "logger_ready (app_log env) ?lg" and loggers: "loggers_ready (app_log env) (st_loggers st)"
    using log_readyD(1) [OF st(2)] map by (simp_all add: loggers_ready_def registry_ready_def)
  have "writer_proceeds level (Some a) st = Some True"
    using new_default_logger [OF lg] level flags(3) registered_logger [OF loggers p map] by (auto simp: writer_proceeds_def lg_enabled_def)
  moreover have "level \<in> set walked_levels" "level \<noteq> L_Fatal" "level \<in> set plain_levels"
    using level by (auto simp: walked_levels_def plain_levels_def)
  ultimately obtain line' st' where st': "statement env n ?w (To_ids [kDefaultLoggerId]) [V_text t] st = Some (Returned () st')"
    and line': "statement_line env ?w (Some a) (stream_text ?lg [V_text t] st) ?lg st = Some line'"
    and logged: "logged env level line' kDefaultLoggerId ?lg st st'" and st'_ready: "log_ready env st'"
    using statement_ready [OF st(2) p map _ f, of level line func v "[V_text t]" n] by auto
  have "stream_text ?lg [V_text t] st = c_str t"
    using new_default_logger [OF lg] flags(2) by (simp add: stream_text_def values_text_def)
  moreover have "st_customFormatSpecifiers st = []" by (rule mk_Storage_fields(2) [OF st(1)])
  moreover have "isValidId kDefaultLoggerId" by code_simp
  ultimately have "line' = out"
    using line' default_line [OF lg _ _ _ now, of "mk_LogMessage level f line func (wr_verboseLevel ?w) (Some a) (?lg\<lparr>lg_stream := c_str t\<rparr>)"]
      \<open>level \<in> set plain_levels\<close> f
    by (simp add: statement_line_def builder_ignores_builder mk_LogMessage_def out kDefaultLoggerId_def)
  moreover note target = to_default_target [OF world(2,1) flags(1) ready]
  ultimately have "st_stdout st' = out" "rl_world (st_loggers st') = appended (Some kDefaultLogFile) out (rl_world (st_loggers st))"
    using logged st(3) unfolding logged_def target by (auto simp: changed_logger_def)
  moreover have "file_text (appended (Some kDefaultLogFile) out (rl_world (st_loggers st))) kDefaultLogFile
      = file_text w kDefaultLogFile @ out"
    using world(1) by (simp add: file_text_def appended_def only_default_def split: option.splits)
  ultimately show ?thesis
    using st(1) st' st'_ready by (auto simp: kDefaultLoggerId_def)
qed

section \<open>Samples\<close>

definition sample_app :: "unit app_env" where
  "sample_app = \<lparr>app_log = sample_env, app_supportsColor = False, app_userDispatch = (\<lambda>_ _ st. Some st)\<rparr>"

lemma sample_now:
  "getDateTime (env_localtime (app_log sample_app)) (env_now (app_log sample_app)) kDefaultDateTimeFormat (mk_MillisecondsWidth 3)
     = Some ''2016-02-29 13:04:05,000''"
  by (subst getDateTime_eq [where tx = "''2016-02-29 13:04:05,000''"])
    (simp_all add: sample_app_def sample_env_def sample_tm_def kFormatSpecifierChar_def format_piece_def piece_text_def number_text_def
      number_text_code kYearBase_def kDefaultDateTimeFormat_def char_of_def bit_0 mk_MillisecondsWidth_def)

lemma sample_fits: "default_date_fits (app_log sample_app)"
  by (simp add: default_date_fits_def sample_now)

lemma sample_world_facts: "w_reference sample_world = []" "can_open (w_files sample_world) kDefaultLogFile"
  by (simp_all add: sample_world_def)

text \<open>The storage of the sample world, and its two loggers.\<close>

lemma sample_storage:
  obtains st a lg b lg2 where "mk_Storage (app_log sample_app) sample_world = Some st" "log_ready sample_app st"
    "registry_dated (app_log sample_app) (st_loggers st)" "st_flags st = flag_int AllowVerboseIfModuleNotSpecified"
    "reg_get kDefaultLoggerId (rl_list (st_loggers st)) = Some a" "rl_map (st_loggers st) kDefaultLoggerId = Some lg"
    "lg_stream lg = []" "\<And>level. level \<noteq> L_Unknown \<Longrightarrow> lg_enabled level lg = Some True"
    "\<And>level. level \<noteq> L_Unknown \<Longrightarrow> writer_proceeds level (Some a) st = Some True"
    "reg_get kPerformanceLoggerId (rl_list (st_loggers st)) = Some b" "rl_map (st_loggers st) kPerformanceLoggerId = Some lg2"
    "dom (rl_map (st_loggers st)) = {kDefaultLoggerId, kPerformanceLoggerId}"
proof -
  obtain st where st: "mk_Storage (app_log sample_app) sample_world = Some st" "log_ready sample_app st"
    using new_log_ready [OF sample_world_ok sample_fits] by blast
  have more: "st_flags st = flag_int AllowVerboseIfModuleNotSpecified"
    "dom (rl_map (st_loggers st)) = {kDefaultLoggerId, kPerformanceLoggerId}"
    using new_storage [OF sample_world_ok, of "app_log sample_app"] st(1) by auto
  obtain l w' where l: "mk_Logger (app_log sample_app) kDefaultLoggerId (setToDefault empty_Configurations) sample_world = Some (l, w')"
    and map: "rl_map (st_loggers st) kDefaultLoggerId = Some (l\<lparr>lg_hasLogBuilder := True\<rparr>)"
    using new_storage_default [OF sample_world_ok sample_world_facts st(1)] by blast
  obtain a where a: "reg_get kDefaultLoggerId (rl_list (st_loggers st)) = Some a" using rl_map_pointer [OF map] .
  have "kPerformanceLoggerId \<in> dom (rl_map (st_loggers st))" using more(2) by simp
  then obtain lg2 where lg2: "rl_map (st_loggers st) kPerformanceLoggerId = Some lg2" by auto
  obtain b where b: "reg_get kPerformanceLoggerId (rl_list (st_loggers st)) = Some b" using rl_map_pointer [OF lg2] .
  have on: "level \<noteq> L_Unknown \<Longrightarrow> lg_enabled level (l\<lparr>lg_hasLogBuilder := True\<rparr>) = Some True" for level
    using new_default_logger [OF l] by (simp add: lg_enabled_def)
  moreover have "\<not> st_hasFlag HierarchicalLogging st" unfolding st_hasFlag_def more(1) by code_simp
  ultimately have "level \<noteq> L_Unknown \<Longrightarrow> writer_proceeds level (Some a) st = Some True" for level
    using registered_logger [OF log_readyD(1) [OF st(2)] a map] by (simp add: writer_proceeds_def)
  moreover have "lg_stream (l\<lparr>lg_hasLogBuilder := True\<rparr>) = []" using new_default_logger [OF l] by simp
  ultimately show thesis
    using that st new_storage_dated [OF sample_world_ok sample_fits st(1)] more a map lg2 b on by blast
qed

lemma new_storage_log_ready_witness:
  "\<exists>st. mk_Storage (app_log sample_app) sample_world = Some st \<and> log_ready sample_app st"
  using new_storage_log_ready [OF sample_world_ok sample_fits] .

lemma first_message_witness:
  "\<exists>st st'. mk_Storage (app_log sample_app) sample_world = Some st
     \<and> statement sample_app 1 (mk_Writer L_Info ''vmEntry.cpp'' 32 ''init'' DA_NormalLog 0) (To_ids [''default''])
         [V_text ''Agent loaded''] st = Some (Returned () st')
     \<and> file_text (rl_world (st_loggers st')) ''logs/myeasylog.log'' = ''2016-02-29 13:04:05,000 INFO  [default] Agent loaded'' @ [NEWLINE]"
proof -
  have plain: "CHR ''%'' \<notin> set ''2016-02-29 13:04:05,000''" and name: "NUL \<notin> set ''vmEntry.cpp''" by code_simp+
  have out: "''2016-02-29 13:04:05,000 INFO  [default] Agent loaded'' @ [NEWLINE]
      = ''2016-02-29 13:04:05,000'' @ '' '' @ level_log_value L_Info @ '' [default] '' @ c_str ''Agent loaded'' @ [NEWLINE]"
    by code_simp
  have level: "L_Info \<in> {L_Info, L_Warning, L_Error}" by simp
  have "file_text sample_world kDefaultLogFile = []" by (simp add: file_text_def sample_world_def)
  then show ?thesis
    using first_message [OF sample_world_ok sample_world_facts sample_now plain level name out, of 1 32 "''init''" 0]
    by (auto simp: kDefaultLogFile_def)
qed

lemma statement_exact_witness:
  "\<exists>st st' a lg out. log_ready sample_app st
     \<and> statement sample_app 1 (mk_Writer L_Error ''profiler.cpp'' 213 ''report'' DA_NormalLog 0) (To_ids [kDefaultLoggerId])
         [V_text ''code '', V_int 7] st = Some (Returned () st')
     \<and> logged sample_app L_Error out kDefaultLoggerId lg st st'
     \<and> statement_line sample_app (mk_Writer L_Error ''profiler.cpp'' 213 ''report'' DA_NormalLog 0) (Some a)
         (stream_text lg [V_text ''code '', V_int 7] st) lg st = Some out"
proof (rule sample_storage)
  fix st a lg
  assume st: "log_ready sample_app st" "reg_get kDefaultLoggerId (rl_list (st_loggers st)) = Some a"
    "rl_map (st_loggers st) kDefaultLoggerId = Some lg"
    and on: "\<And>level. level \<noteq> L_Unknown \<Longrightarrow> writer_proceeds level (Some a) st = Some True"
  have "L_Error \<in> set walked_levels" "NUL \<notin> set ''profiler.cpp''" "L_Error \<noteq> L_Fatal" by code_simp+
  from statement_exact [OF st this(1,2) on [of L_Error] this(3), of 1 213 "''report''" 0 "[V_text ''code '', V_int 7]"] st(1)
  show ?thesis by blast
qed

lemma statement_sound_witness:
  "\<exists>st r. log_ready sample_app st \<and> statement sample_app 1 (mk_Writer L_Fatal ''a.cpp'' 1 ''f'' DA_NormalLog 0)
     (To_ids [''unknown'', ''default'']) [V_seq [V_int 1, V_bool True]] st = Some r"
proof (rule sample_storage)
  fix st assume st: "log_ready sample_app st"
  have "[''unknown'', ''default''] \<noteq> []" "L_Fatal \<in> set walked_levels" "NUL \<notin> set ''a.cpp''" by code_simp+
  from statement_sound [OF st this, of 0 1 "''f''" 0 "[V_seq [V_int 1, V_bool True]]"] st show ?thesis by auto
qed

lemma fatal_aborts_witness:
  "\<exists>st st'. log_ready sample_app st \<and> statement sample_app 1 (mk_Writer L_Fatal ''a.cpp'' 1 ''f'' DA_NormalLog 0)
     (To_ids [kDefaultLoggerId]) [V_text ''x''] st = Some (Aborted st')"
proof (rule sample_storage)
  fix st a lg
  assume st: "log_ready sample_app st" "reg_get kDefaultLoggerId (rl_list (st_loggers st)) = Some a"
    "rl_map (st_loggers st) kDefaultLoggerId = Some lg" and flags: "st_flags st = flag_int AllowVerboseIfModuleNotSpecified"
    and on: "\<And>level. level \<noteq> L_Unknown \<Longrightarrow> writer_proceeds level (Some a) st = Some True"
  have f: "NUL \<notin> set ''a.cpp''" by code_simp
  have abort: "\<not> st_hasFlag DisableApplicationAbortOnFatalLog st" unfolding st_hasFlag_def flags by code_simp
  have "writer_proceeds L_Fatal (Some a) st = Some True" by (rule on) simp
  from fatal_aborts [OF st f this abort, of 0 1 "''f''" 0 "[V_text ''x'']"] st(1) show ?thesis by auto
qed

lemma unregistered_logger_witness:
  "\<exists>st. log_ready sample_app st \<and> statement sample_app 1 (mk_Writer L_Error ''a.cpp'' 1 ''f'' DA_NormalLog 0) (To_ids [''other'']) [V_text ''x''] st
     = statement sample_app 0 (mk_Writer L_Debug ''a.cpp'' 1 ''f'' DA_NormalLog 0) (To_ids [kDefaultLoggerId])
         [V_text ''Logger ['', V_string ''other'', V_text ''] is not registered yet!''] st"
proof (rule sample_storage)
  fix st assume st: "log_ready sample_app st" and "dom (rl_map (st_loggers st)) = {kDefaultLoggerId, kPerformanceLoggerId}"
  moreover have "registry_ready (app_log sample_app) (st_loggers st)" using log_readyD(1) [OF st] by (simp add: loggers_ready_def)
  moreover have "''other'' \<notin> {kDefaultLoggerId, kPerformanceLoggerId}" by code_simp
  ultimately have "\<not> rl_has ''other'' (st_loggers st)" by (auto simp: rl_has_map)
  moreover have "NUL \<notin> set ''a.cpp''" by code_simp
  ultimately show ?thesis
    using unregistered_logger [OF st, of "''other''" "''a.cpp''" 0 L_Error 1 "''f''" 0 "[V_text ''x'']"] st by auto
qed

text \<open>The same storage with the performance logger disabled and support for several loggers.\<close>

lemma sample_multi:
  obtains st a lg b lg2 where "log_ready sample_app st" "st_hasFlag MultiLoggerSupport st"
    "reg_get kPerformanceLoggerId (rl_list (st_loggers st)) = Some b" "rl_map (st_loggers st) kPerformanceLoggerId = Some lg2"
    "writer_proceeds L_Info (Some b) st = Some False"
    "reg_get kDefaultLoggerId (rl_list (st_loggers st)) = Some a" "rl_map (st_loggers st) kDefaultLoggerId = Some lg"
    "writer_proceeds L_Info (Some a) st = Some True" "lg_stream lg = []"
proof (rule sample_storage)
  fix st a lg b lg2
  let ?env = "app_log sample_app" and ?d = kDefaultLoggerId and ?q = kPerformanceLoggerId
  assume st: "log_ready sample_app st" and dated: "registry_dated ?env (st_loggers st)"
    and flags: "st_flags st = flag_int AllowVerboseIfModuleNotSpecified"
    and d: "reg_get ?d (rl_list (st_loggers st)) = Some a" "rl_map (st_loggers st) ?d = Some lg" "lg_stream lg = []"
    and on: "\<And>level. level \<noteq> L_Unknown \<Longrightarrow> lg_enabled level lg = Some True"
    and q: "reg_get ?q (rl_list (st_loggers st)) = Some b" "rl_map (st_loggers st) ?q = Some lg2"
  have loggers: "loggers_ready ?env (st_loggers st)" by (rule log_readyD [OF st])
  have "value_ok ?env C_Enabled ''false''" by (simp add: value_ok_def known_configs_list)
  note ok = this
  let ?c = "setGlobally C_Enabled ''false'' False (lg_configurations lg2)"
  have "complete_conf ?env (lg_configurations lg2)"
    using loggers q(2) by (simp add: loggers_ready_def registry_ready_def logger_ready_def)
  then have c: "complete_conf ?env ?c" by (rule complete_globally [OF _ ok])
  have this_conf: "taken_over ThisConf ?c = ?c" by (simp add: taken_over_def confs_differ_def)
  have step: "set_globally_and_reconfigure ?env C_Enabled ''false'' (lg2, w) = configure ?env ThisConf (lg2\<lparr>lg_configurations := ?c\<rparr>, w)" for w
    by (simp add: set_globally_and_reconfigure_def reconfigure_def)
  obtain r lg3 w where r: "on_logger (Some b) (set_globally_and_reconfigure ?env C_Enabled ''false'') (st_loggers st) = Some r"
    "loggers_ready ?env r" "changed_logger ?q lg3 w (st_loggers st) r"
    "\<forall>level. lg_enabled level lg3 = Some (enabled_by ?c level)"
    using on_logger_configure [OF loggers q c, of ThisConf, OF _ step] c unfolding this_conf by blast
  have dated': "registry_dated ?env r"
    by (rule set_globally_dated [OF loggers dated sample_fits q ok _ _ r(1)]) simp_all
  define st2 where "st2 = st\<lparr>st_loggers := r, st_flags := addFlag (flag_int MultiLoggerSupport) (st_flags st)\<rparr>"
  have differ: "?d \<noteq> ?q" by code_simp
  have map: "rl_map r = (rl_map (st_loggers st))(?q \<mapsto> lg3)" "rl_list r = rl_list (st_loggers st)"
    using r(3) by (simp_all add: changed_logger_def)
  have flags_eq: "st_flags st2 = addFlag (flag_int MultiLoggerSupport) (flag_int AllowVerboseIfModuleNotSpecified)"
    unfolding st2_def using flags by (simp del: flag_int.simps)
  have flags2: "st_hasFlag MultiLoggerSupport st2" "\<not> st_hasFlag HierarchicalLogging st2" "\<not> st_hasFlag StrictLogFileSizeCheck st2"
    "\<not> st_hasFlag CreateLoggerAutomatically st2"
    unfolding st_hasFlag_def flags_eq by code_simp+
  have ready: "log_ready sample_app st2"
    using st r(2) dated' flags2 d(2) differ map
    by (auto simp: log_ready_def storage_ready_def default_callbacks_def st2_def registry_dated_def)
  have q2: "reg_get ?q (rl_list (st_loggers st2)) = Some b" "rl_map (st_loggers st2) ?q = Some lg3"
    and d2: "reg_get ?d (rl_list (st_loggers st2)) = Some a" "rl_map (st_loggers st2) ?d = Some lg"
    using q d differ by (simp_all add: st2_def map)
  have "\<not> enabled_by ?c L_Info"
  proof -
    have "conf_value L_Info C_Enabled ?c = Some ''false''"
      by (simp add: setGlobally_def each_level_fold walked_levels_def set_conf_lookup)
    moreover have "\<not> getBool ''false''" by (simp add: getBool_def trim_def ltrim_def rtrim_def is_c_space_def)
    ultimately show ?thesis by (auto simp: enabled_by_def configured_def conf_value_def)
  qed
  then have "writer_proceeds L_Info (Some b) st2 = Some False"
    using r(4) flags2(2) registered_logger [OF log_readyD(1) [OF ready] q2] by (simp add: writer_proceeds_def)
  moreover have "writer_proceeds L_Info (Some a) st2 = Some True"
    using on flags2(2) registered_logger [OF log_readyD(1) [OF ready] d2] by (simp add: writer_proceeds_def)
  ultimately show thesis using that ready flags2(1) q2 d2 d(3) by blast
qed

lemma later_logger_empty_witness:
  "\<exists>st st1 st2 a lg out. log_ready sample_app st
     \<and> statement sample_app 1 (mk_Writer L_Info ''a.cpp'' 1 ''f'' DA_NormalLog 0) (To_ids [kPerformanceLoggerId, kDefaultLoggerId])
         [V_text ''lost''] st = Some (Returned () st2)
     \<and> logged sample_app L_Info out kDefaultLoggerId lg st1 st2
     \<and> statement_line sample_app (mk_Writer L_Info ''a.cpp'' 1 ''f'' DA_NormalLog 0) (Some a) [] lg st1 = Some out"
proof (rule sample_multi)
  fix st a lg b lg2
  assume st: "log_ready sample_app st" "st_hasFlag MultiLoggerSupport st"
    and q: "reg_get kPerformanceLoggerId (rl_list (st_loggers st)) = Some b" "rl_map (st_loggers st) kPerformanceLoggerId = Some lg2"
    "writer_proceeds L_Info (Some b) st = Some False"
    and d: "reg_get kDefaultLoggerId (rl_list (st_loggers st)) = Some a" "rl_map (st_loggers st) kDefaultLoggerId = Some lg"
    "writer_proceeds L_Info (Some a) st = Some True" and empty: "lg_stream lg = []"
  have "kPerformanceLoggerId \<noteq> kDefaultLoggerId" "L_Info \<in> set walked_levels" "L_Info \<noteq> L_Fatal" "NUL \<notin> set ''a.cpp''"
    by code_simp+
  from later_logger_empty [OF st q d empty this, of 1 1 "''f''" 0 "[V_text ''lost'']"] st(1) show ?thesis by blast
qed

end
