(* ===== verification/ElMacros.thy ===== *)
theory ElMacros
  imports ElWriter
begin

text \<open>
  The macros that programs log with (\<open>easylogging.h\<close>, lines 277 to 313, 5249 to 5274, 6031 to 6032 and 6113
  to 6535): plain, conditional and occasional statements for each level, verbose statements, statements
  that add the last system error, and statements of debug builds only.

  A macro is a function of the options of the build, of the place where it is expanded, and of the
  values that are written to it. The macros of the levels, which differ in their level only, are one
  function of the level. A null writer drops the values.
\<close>

section \<open>Build and place\<close>

record log_build =
  lb_disableLogs :: bool
  lb_disabled :: "Level list"
  lb_debug :: bool
  lb_ndebug :: bool
  lb_defaultLogger :: "string option"

definition level_compiled :: "log_build \<Rightarrow> Level \<Rightarrow> bool" where
  "level_compiled b level \<longleftrightarrow> level \<notin> set (lb_disabled b) \<and> \<not> lb_disableLogs b
     \<and> (level = L_Debug \<longrightarrow> lb_debug b \<or> \<not> lb_ndebug b)"

text \<open>\<open>ELPP_DEBUG_LOG\<close>, and the default logger of a source file.\<close>

definition debug_build :: "log_build \<Rightarrow> bool" where
  "debug_build b = level_compiled b L_Debug"

definition curr_file_logger :: "log_build \<Rightarrow> string" where
  "curr_file_logger b = (case lb_defaultLogger b of Some lid \<Rightarrow> lid | None \<Rightarrow> kDefaultLoggerId)"

text \<open>Where a macro is expanded.\<close>

record log_site =
  site_file :: string
  site_line :: "64 word"
  site_func :: string

text \<open>The environment of the macros; the last component bounds the nesting of statements.\<close>

record 'f macro_env =
  me_app :: "'f app_env"
  me_build :: log_build
  me_strerror :: "int \<Rightarrow> string"
  me_nesting :: nat

text \<open>The class of the writer; one for system errors comes with the error that is set when it is destroyed.\<close>

datatype writer_class = Plain_writer | PError_writer int

type_synonym 'f condition = "'f Storage \<Rightarrow> (bool \<times> 'f Storage) option"

text \<open>A statement that a macro stands for, as a function of the values that are written to it.\<close>

type_synonym 'f log_statement = "log_value list \<Rightarrow> 'f Storage \<Rightarrow> ('f, unit) run option"

definition null_writer :: "'f log_statement" where
  "null_writer vs st = Some (Returned () st)"

text \<open>The number of arguments, as the expansion of \<open>el_getVALength\<close> finds it.\<close>

definition el_resolveVALength :: "string list \<Rightarrow> string" where
  "el_resolveVALength tokens = tokens ! 11"

definition el_getVALength :: "string list \<Rightarrow> string" where
  "el_getVALength tokens = el_resolveVALength
     (''0'' # tokens @ [''10'', ''9'', ''8'', ''7'', ''6'', ''5'', ''4'', ''3'', ''2'', ''1'', ''0''])"

section \<open>Statements\<close>

definition run_writer :: "'f macro_env \<Rightarrow> writer_class \<Rightarrow> Writer \<Rightarrow> string list \<Rightarrow> 'f log_statement" where
  "run_writer me writer wt lids = (case writer of
     Plain_writer \<Rightarrow> statement (me_app me) (me_nesting me) wt (To_ids lids)
   | PError_writer err \<Rightarrow> perror_statement (me_app me) (me_nesting me) (me_strerror me) err wt (To_ids lids))"

definition write_log :: "'f macro_env \<Rightarrow> log_site \<Rightarrow> writer_class \<Rightarrow> Level \<Rightarrow> DispatchAction \<Rightarrow> string list \<Rightarrow> 'f log_statement" where
  "write_log me site writer level action lids =
     run_writer me writer (mk_Writer level (site_file site) (site_line site) (site_func site) action 0) lids"

definition write_log_if :: "'f macro_env \<Rightarrow> log_site \<Rightarrow> writer_class \<Rightarrow> 'f condition \<Rightarrow> Level \<Rightarrow> DispatchAction \<Rightarrow> string list
    \<Rightarrow> 'f log_statement" where
  "write_log_if me site writer cond level action lids vs st =
     do { (b, st) \<leftarrow> cond st;
          if b then write_log me site writer level action lids vs st else Some (Returned () st) }"

definition write_log_every_n :: "'f macro_env \<Rightarrow> log_site \<Rightarrow> writer_class \<Rightarrow> 64 word \<Rightarrow> Level \<Rightarrow> DispatchAction \<Rightarrow> string list
    \<Rightarrow> 'f log_statement" where
  "write_log_every_n me site writer occasion level action lids vs st =
     do { (b, st) \<leftarrow> validateEveryNCounter (site_file site) (site_line site) occasion st;
          if b then write_log me site writer level action lids vs st else Some (Returned () st) }"

definition write_log_after_n :: "'f macro_env \<Rightarrow> log_site \<Rightarrow> writer_class \<Rightarrow> 64 word \<Rightarrow> Level \<Rightarrow> DispatchAction \<Rightarrow> string list
    \<Rightarrow> 'f log_statement" where
  "write_log_after_n me site writer n level action lids vs st =
     do { (b, st) \<leftarrow> validateAfterNCounter (site_file site) (site_line site) n st;
          if b then write_log me site writer level action lids vs st else Some (Returned () st) }"

definition write_log_n_times :: "'f macro_env \<Rightarrow> log_site \<Rightarrow> writer_class \<Rightarrow> 64 word \<Rightarrow> Level \<Rightarrow> DispatchAction \<Rightarrow> string list
    \<Rightarrow> 'f log_statement" where
  "write_log_n_times me site writer n level action lids vs st =
     do { (b, st) \<leftarrow> validateNTimesCounter (site_file site) (site_line site) n st;
          if b then write_log me site writer level action lids vs st else Some (Returned () st) }"

section \<open>Levels\<close>

text \<open>\<open>CINFO\<close>, \<open>CWARNING\<close>, \<open>CDEBUG\<close>, \<open>CERROR\<close>, \<open>CFATAL\<close> and \<open>CTRACE\<close>, and their variants.\<close>

definition C_level :: "'f macro_env \<Rightarrow> log_site \<Rightarrow> Level \<Rightarrow> writer_class \<Rightarrow> DispatchAction \<Rightarrow> string list \<Rightarrow> 'f log_statement" where
  "C_level me site level writer action lids =
     (if level_compiled (me_build me) level then write_log me site writer level action lids else null_writer)"

definition C_level_if :: "'f macro_env \<Rightarrow> log_site \<Rightarrow> Level \<Rightarrow> writer_class \<Rightarrow> 'f condition \<Rightarrow> DispatchAction \<Rightarrow> string list
    \<Rightarrow> 'f log_statement" where
  "C_level_if me site level writer cond action lids =
     (if level_compiled (me_build me) level then write_log_if me site writer cond level action lids else null_writer)"

definition C_level_every_n :: "'f macro_env \<Rightarrow> log_site \<Rightarrow> Level \<Rightarrow> writer_class \<Rightarrow> 64 word \<Rightarrow> DispatchAction \<Rightarrow> string list
    \<Rightarrow> 'f log_statement" where
  "C_level_every_n me site level writer occasion action lids =
     (if level_compiled (me_build me) level then write_log_every_n me site writer occasion level action lids else null_writer)"

definition C_level_after_n :: "'f macro_env \<Rightarrow> log_site \<Rightarrow> Level \<Rightarrow> writer_class \<Rightarrow> 64 word \<Rightarrow> DispatchAction \<Rightarrow> string list
    \<Rightarrow> 'f log_statement" where
  "C_level_after_n me site level writer n action lids =
     (if level_compiled (me_build me) level then write_log_after_n me site writer n level action lids else null_writer)"

definition C_level_n_times :: "'f macro_env \<Rightarrow> log_site \<Rightarrow> Level \<Rightarrow> writer_class \<Rightarrow> 64 word \<Rightarrow> DispatchAction \<Rightarrow> string list
    \<Rightarrow> 'f log_statement" where
  "C_level_n_times me site level writer n action lids =
     (if level_compiled (me_build me) level then write_log_n_times me site writer n level action lids else null_writer)"

text \<open>Verbose statements: the condition is looked at only where the verbose level is on.\<close>

definition vlog_is_on :: "32 word \<Rightarrow> log_site \<Rightarrow> 'f Storage \<Rightarrow> bool" where
  "vlog_is_on vlevel site st = allowed (st_flags st) (sint vlevel) (Some (site_file site)) (st_vRegistry st)"

definition C_verbose :: "'f macro_env \<Rightarrow> log_site \<Rightarrow> writer_class \<Rightarrow> 32 word \<Rightarrow> DispatchAction \<Rightarrow> string list \<Rightarrow> 'f log_statement" where
  "C_verbose me site writer vlevel action lids vs st =
     (if level_compiled (me_build me) L_Verbose then
        (if vlog_is_on vlevel site st
         then run_writer me writer (mk_Writer L_Verbose (site_file site) (site_line site) (site_func site) action vlevel) lids vs st
         else Some (Returned () st))
      else null_writer vs st)"

definition C_verbose_if :: "'f macro_env \<Rightarrow> log_site \<Rightarrow> writer_class \<Rightarrow> 'f condition \<Rightarrow> 32 word \<Rightarrow> DispatchAction \<Rightarrow> string list
    \<Rightarrow> 'f log_statement" where
  "C_verbose_if me site writer cond vlevel action lids vs st =
     (if level_compiled (me_build me) L_Verbose then
        do { (b, st) \<leftarrow> (if vlog_is_on vlevel site st then cond st else Some (False, st));
             if b
             then run_writer me writer (mk_Writer L_Verbose (site_file site) (site_line site) (site_func site) action vlevel) lids vs st
             else Some (Returned () st) }
      else null_writer vs st)"

definition C_verbose_every_n :: "'f macro_env \<Rightarrow> log_site \<Rightarrow> writer_class \<Rightarrow> 64 word \<Rightarrow> 32 word \<Rightarrow> DispatchAction \<Rightarrow> string list
    \<Rightarrow> 'f log_statement" where
  "C_verbose_every_n me site writer occasion =
     C_verbose_if me site writer (validateEveryNCounter (site_file site) (site_line site) occasion)"

definition C_verbose_after_n :: "'f macro_env \<Rightarrow> log_site \<Rightarrow> writer_class \<Rightarrow> 64 word \<Rightarrow> 32 word \<Rightarrow> DispatchAction \<Rightarrow> string list
    \<Rightarrow> 'f log_statement" where
  "C_verbose_after_n me site writer n =
     C_verbose_if me site writer (validateAfterNCounter (site_file site) (site_line site) n)"

definition C_verbose_n_times :: "'f macro_env \<Rightarrow> log_site \<Rightarrow> writer_class \<Rightarrow> 64 word \<Rightarrow> 32 word \<Rightarrow> DispatchAction \<Rightarrow> string list
    \<Rightarrow> 'f log_statement" where
  "C_verbose_n_times me site writer n =
     C_verbose_if me site writer (validateNTimesCounter (site_file site) (site_line site) n)"

section \<open>Custom loggers and the default logger\<close>

definition CLOG :: "'f macro_env \<Rightarrow> log_site \<Rightarrow> Level \<Rightarrow> string list \<Rightarrow> 'f log_statement" where
  "CLOG me site level = C_level me site level Plain_writer DA_NormalLog"

definition CVLOG :: "'f macro_env \<Rightarrow> log_site \<Rightarrow> 32 word \<Rightarrow> string list \<Rightarrow> 'f log_statement" where
  "CVLOG me site vlevel = C_verbose me site Plain_writer vlevel DA_NormalLog"

definition CLOG_IF :: "'f macro_env \<Rightarrow> log_site \<Rightarrow> 'f condition \<Rightarrow> Level \<Rightarrow> string list \<Rightarrow> 'f log_statement" where
  "CLOG_IF me site cond level = C_level_if me site level Plain_writer cond DA_NormalLog"

definition CVLOG_IF :: "'f macro_env \<Rightarrow> log_site \<Rightarrow> 'f condition \<Rightarrow> 32 word \<Rightarrow> string list \<Rightarrow> 'f log_statement" where
  "CVLOG_IF me site cond vlevel = C_verbose_if me site Plain_writer cond vlevel DA_NormalLog"

definition CLOG_EVERY_N :: "'f macro_env \<Rightarrow> log_site \<Rightarrow> 64 word \<Rightarrow> Level \<Rightarrow> string list \<Rightarrow> 'f log_statement" where
  "CLOG_EVERY_N me site n level = C_level_every_n me site level Plain_writer n DA_NormalLog"

definition CVLOG_EVERY_N :: "'f macro_env \<Rightarrow> log_site \<Rightarrow> 64 word \<Rightarrow> 32 word \<Rightarrow> string list \<Rightarrow> 'f log_statement" where
  "CVLOG_EVERY_N me site n vlevel = C_verbose_every_n me site Plain_writer n vlevel DA_NormalLog"

definition CLOG_AFTER_N :: "'f macro_env \<Rightarrow> log_site \<Rightarrow> 64 word \<Rightarrow> Level \<Rightarrow> string list \<Rightarrow> 'f log_statement" where
  "CLOG_AFTER_N me site n level = C_level_after_n me site level Plain_writer n DA_NormalLog"

definition CVLOG_AFTER_N :: "'f macro_env \<Rightarrow> log_site \<Rightarrow> 64 word \<Rightarrow> 32 word \<Rightarrow> string list \<Rightarrow> 'f log_statement" where
  "CVLOG_AFTER_N me site n vlevel = C_verbose_after_n me site Plain_writer n vlevel DA_NormalLog"

definition CLOG_N_TIMES :: "'f macro_env \<Rightarrow> log_site \<Rightarrow> 64 word \<Rightarrow> Level \<Rightarrow> string list \<Rightarrow> 'f log_statement" where
  "CLOG_N_TIMES me site n level = C_level_n_times me site level Plain_writer n DA_NormalLog"

definition CVLOG_N_TIMES :: "'f macro_env \<Rightarrow> log_site \<Rightarrow> 64 word \<Rightarrow> 32 word \<Rightarrow> string list \<Rightarrow> 'f log_statement" where
  "CVLOG_N_TIMES me site n vlevel = C_verbose_n_times me site Plain_writer n vlevel DA_NormalLog"

text \<open>The same for the default logger of the source file.\<close>

definition LOG :: "'f macro_env \<Rightarrow> log_site \<Rightarrow> Level \<Rightarrow> 'f log_statement" where
  "LOG me site level = CLOG me site level [curr_file_logger (me_build me)]"

definition ELPP_TRACE :: "'f macro_env \<Rightarrow> log_site \<Rightarrow> 'f log_statement" where
  "ELPP_TRACE me site = CLOG me site L_Trace [curr_file_logger (me_build me)]"

definition VLOG :: "'f macro_env \<Rightarrow> log_site \<Rightarrow> 32 word \<Rightarrow> 'f log_statement" where
  "VLOG me site vlevel = CVLOG me site vlevel [curr_file_logger (me_build me)]"

definition LOG_IF :: "'f macro_env \<Rightarrow> log_site \<Rightarrow> 'f condition \<Rightarrow> Level \<Rightarrow> 'f log_statement" where
  "LOG_IF me site cond level = CLOG_IF me site cond level [curr_file_logger (me_build me)]"

definition VLOG_IF :: "'f macro_env \<Rightarrow> log_site \<Rightarrow> 'f condition \<Rightarrow> 32 word \<Rightarrow> 'f log_statement" where
  "VLOG_IF me site cond vlevel = CVLOG_IF me site cond vlevel [curr_file_logger (me_build me)]"

definition LOG_EVERY_N :: "'f macro_env \<Rightarrow> log_site \<Rightarrow> 64 word \<Rightarrow> Level \<Rightarrow> 'f log_statement" where
  "LOG_EVERY_N me site n level = CLOG_EVERY_N me site n level [curr_file_logger (me_build me)]"

definition VLOG_EVERY_N :: "'f macro_env \<Rightarrow> log_site \<Rightarrow> 64 word \<Rightarrow> 32 word \<Rightarrow> 'f log_statement" where
  "VLOG_EVERY_N me site n vlevel = CVLOG_EVERY_N me site n vlevel [curr_file_logger (me_build me)]"

definition LOG_AFTER_N :: "'f macro_env \<Rightarrow> log_site \<Rightarrow> 64 word \<Rightarrow> Level \<Rightarrow> 'f log_statement" where
  "LOG_AFTER_N me site n level = CLOG_AFTER_N me site n level [curr_file_logger (me_build me)]"

definition VLOG_AFTER_N :: "'f macro_env \<Rightarrow> log_site \<Rightarrow> 64 word \<Rightarrow> 32 word \<Rightarrow> 'f log_statement" where
  "VLOG_AFTER_N me site n vlevel = CVLOG_AFTER_N me site n vlevel [curr_file_logger (me_build me)]"

definition LOG_N_TIMES :: "'f macro_env \<Rightarrow> log_site \<Rightarrow> 64 word \<Rightarrow> Level \<Rightarrow> 'f log_statement" where
  "LOG_N_TIMES me site n level = CLOG_N_TIMES me site n level [curr_file_logger (me_build me)]"

definition VLOG_N_TIMES :: "'f macro_env \<Rightarrow> log_site \<Rightarrow> 64 word \<Rightarrow> 32 word \<Rightarrow> 'f log_statement" where
  "VLOG_N_TIMES me site n vlevel = CVLOG_N_TIMES me site n vlevel [curr_file_logger (me_build me)]"

section \<open>System errors and the system log\<close>

text \<open>The error is the one that is set when the statement ends.\<close>

definition CPLOG :: "'f macro_env \<Rightarrow> log_site \<Rightarrow> int \<Rightarrow> Level \<Rightarrow> string list \<Rightarrow> 'f log_statement" where
  "CPLOG me site err level = C_level me site level (PError_writer err) DA_NormalLog"

definition CPLOG_IF :: "'f macro_env \<Rightarrow> log_site \<Rightarrow> int \<Rightarrow> 'f condition \<Rightarrow> Level \<Rightarrow> string list \<Rightarrow> 'f log_statement" where
  "CPLOG_IF me site err cond level = C_level_if me site level (PError_writer err) cond DA_NormalLog"

definition debug_only :: "'f macro_env \<Rightarrow> 'f log_statement \<Rightarrow> 'f log_statement" where
  "debug_only me s vs st = (if debug_build (me_build me) then s vs st else Some (Returned () st))"

definition DCPLOG :: "'f macro_env \<Rightarrow> log_site \<Rightarrow> int \<Rightarrow> Level \<Rightarrow> string list \<Rightarrow> 'f log_statement" where
  "DCPLOG me site err level lids = debug_only me (C_level me site level (PError_writer err) DA_NormalLog lids)"

definition DCPLOG_IF :: "'f macro_env \<Rightarrow> log_site \<Rightarrow> int \<Rightarrow> 'f condition \<Rightarrow> Level \<Rightarrow> string list \<Rightarrow> 'f log_statement" where
  "DCPLOG_IF me site err cond level = C_level_if me site level (PError_writer err)
     (\<lambda>st. if debug_build (me_build me) then cond st else Some (False, st)) DA_NormalLog"

definition PLOG :: "'f macro_env \<Rightarrow> log_site \<Rightarrow> int \<Rightarrow> Level \<Rightarrow> 'f log_statement" where
  "PLOG me site err level = CPLOG me site err level [curr_file_logger (me_build me)]"

definition PLOG_IF :: "'f macro_env \<Rightarrow> log_site \<Rightarrow> int \<Rightarrow> 'f condition \<Rightarrow> Level \<Rightarrow> 'f log_statement" where
  "PLOG_IF me site err cond level = CPLOG_IF me site err cond level [curr_file_logger (me_build me)]"

definition DPLOG :: "'f macro_env \<Rightarrow> log_site \<Rightarrow> int \<Rightarrow> Level \<Rightarrow> 'f log_statement" where
  "DPLOG me site err level = DCPLOG me site err level [curr_file_logger (me_build me)]"

definition DPLOG_IF :: "'f macro_env \<Rightarrow> log_site \<Rightarrow> int \<Rightarrow> 'f condition \<Rightarrow> Level \<Rightarrow> 'f log_statement" where
  "DPLOG_IF me site err cond level = DCPLOG_IF me site err cond level [curr_file_logger (me_build me)]"

text \<open>All macros for the system log, which is compiled out.\<close>

definition CSYSLOG :: "'f log_statement" where
  "CSYSLOG = null_writer"

section \<open>Debug builds\<close>

definition DCLOG :: "'f macro_env \<Rightarrow> log_site \<Rightarrow> Level \<Rightarrow> string list \<Rightarrow> 'f log_statement" where
  "DCLOG me site level lids = debug_only me (CLOG me site level lids)"

definition DCVLOG :: "'f macro_env \<Rightarrow> log_site \<Rightarrow> 32 word \<Rightarrow> string list \<Rightarrow> 'f log_statement" where
  "DCVLOG me site vlevel lids = debug_only me (CVLOG me site vlevel lids)"

definition DCLOG_IF :: "'f macro_env \<Rightarrow> log_site \<Rightarrow> 'f condition \<Rightarrow> Level \<Rightarrow> string list \<Rightarrow> 'f log_statement" where
  "DCLOG_IF me site cond level lids = debug_only me (CLOG_IF me site cond level lids)"

definition DCVLOG_IF :: "'f macro_env \<Rightarrow> log_site \<Rightarrow> 'f condition \<Rightarrow> 32 word \<Rightarrow> string list \<Rightarrow> 'f log_statement" where
  "DCVLOG_IF me site cond vlevel lids = debug_only me (CVLOG_IF me site cond vlevel lids)"

definition DCLOG_EVERY_N :: "'f macro_env \<Rightarrow> log_site \<Rightarrow> 64 word \<Rightarrow> Level \<Rightarrow> string list \<Rightarrow> 'f log_statement" where
  "DCLOG_EVERY_N me site n level lids = debug_only me (CLOG_EVERY_N me site n level lids)"

definition DCVLOG_EVERY_N :: "'f macro_env \<Rightarrow> log_site \<Rightarrow> 64 word \<Rightarrow> 32 word \<Rightarrow> string list \<Rightarrow> 'f log_statement" where
  "DCVLOG_EVERY_N me site n vlevel lids = debug_only me (CVLOG_EVERY_N me site n vlevel lids)"

definition DCLOG_AFTER_N :: "'f macro_env \<Rightarrow> log_site \<Rightarrow> 64 word \<Rightarrow> Level \<Rightarrow> string list \<Rightarrow> 'f log_statement" where
  "DCLOG_AFTER_N me site n level lids = debug_only me (CLOG_AFTER_N me site n level lids)"

definition DCVLOG_AFTER_N :: "'f macro_env \<Rightarrow> log_site \<Rightarrow> 64 word \<Rightarrow> 32 word \<Rightarrow> string list \<Rightarrow> 'f log_statement" where
  "DCVLOG_AFTER_N me site n vlevel lids = debug_only me (CVLOG_AFTER_N me site n vlevel lids)"

definition DCLOG_N_TIMES :: "'f macro_env \<Rightarrow> log_site \<Rightarrow> 64 word \<Rightarrow> Level \<Rightarrow> string list \<Rightarrow> 'f log_statement" where
  "DCLOG_N_TIMES me site n level lids = debug_only me (CLOG_N_TIMES me site n level lids)"

definition DCVLOG_N_TIMES :: "'f macro_env \<Rightarrow> log_site \<Rightarrow> 64 word \<Rightarrow> 32 word \<Rightarrow> string list \<Rightarrow> 'f log_statement" where
  "DCVLOG_N_TIMES me site n vlevel lids = debug_only me (CVLOG_N_TIMES me site n vlevel lids)"

definition DLOG :: "'f macro_env \<Rightarrow> log_site \<Rightarrow> Level \<Rightarrow> 'f log_statement" where
  "DLOG me site level = DCLOG me site level [curr_file_logger (me_build me)]"

definition DVLOG :: "'f macro_env \<Rightarrow> log_site \<Rightarrow> 32 word \<Rightarrow> 'f log_statement" where
  "DVLOG me site vlevel = DCVLOG me site vlevel [curr_file_logger (me_build me)]"

definition DLOG_IF :: "'f macro_env \<Rightarrow> log_site \<Rightarrow> 'f condition \<Rightarrow> Level \<Rightarrow> 'f log_statement" where
  "DLOG_IF me site cond level = DCLOG_IF me site cond level [curr_file_logger (me_build me)]"

definition DVLOG_IF :: "'f macro_env \<Rightarrow> log_site \<Rightarrow> 'f condition \<Rightarrow> 32 word \<Rightarrow> 'f log_statement" where
  "DVLOG_IF me site cond vlevel = DCVLOG_IF me site cond vlevel [curr_file_logger (me_build me)]"

definition DLOG_EVERY_N :: "'f macro_env \<Rightarrow> log_site \<Rightarrow> 64 word \<Rightarrow> Level \<Rightarrow> 'f log_statement" where
  "DLOG_EVERY_N me site n level = DCLOG_EVERY_N me site n level [curr_file_logger (me_build me)]"

definition DVLOG_EVERY_N :: "'f macro_env \<Rightarrow> log_site \<Rightarrow> 64 word \<Rightarrow> 32 word \<Rightarrow> 'f log_statement" where
  "DVLOG_EVERY_N me site n vlevel = DCVLOG_EVERY_N me site n vlevel [curr_file_logger (me_build me)]"

definition DLOG_AFTER_N :: "'f macro_env \<Rightarrow> log_site \<Rightarrow> 64 word \<Rightarrow> Level \<Rightarrow> 'f log_statement" where
  "DLOG_AFTER_N me site n level = DCLOG_AFTER_N me site n level [curr_file_logger (me_build me)]"

definition DVLOG_AFTER_N :: "'f macro_env \<Rightarrow> log_site \<Rightarrow> 64 word \<Rightarrow> 32 word \<Rightarrow> 'f log_statement" where
  "DVLOG_AFTER_N me site n vlevel = DCVLOG_AFTER_N me site n vlevel [curr_file_logger (me_build me)]"

definition DLOG_N_TIMES :: "'f macro_env \<Rightarrow> log_site \<Rightarrow> 64 word \<Rightarrow> Level \<Rightarrow> 'f log_statement" where
  "DLOG_N_TIMES me site n level = DCLOG_N_TIMES me site n level [curr_file_logger (me_build me)]"

definition DVLOG_N_TIMES :: "'f macro_env \<Rightarrow> log_site \<Rightarrow> 64 word \<Rightarrow> 32 word \<Rightarrow> 'f log_statement" where
  "DVLOG_N_TIMES me site n vlevel = DCVLOG_N_TIMES me site n vlevel [curr_file_logger (me_build me)]"

end
