(* ===== verification/ElMessages.thy ===== *)
theory ElMessages
  imports ElLog ElMacros
begin

text \<open>
  Logging through a logger with a format string (\<open>easylogging.h\<close>, lines 5130 to 5248): the loop over the
  format, in which \<open>%v\<close> stands for the next value and \<open>%%\<close> for a percent sign, and the operations for each
  level. The name under which the compiler knows the header is a parameter.
\<close>

section \<open>The loop over the format\<close>

definition kFormatSpecifierCharValue :: char where
  "kFormatSpecifierCharValue = CHR ''v''"

definition log_value_only :: "'f app_env \<Rightarrow> nat \<Rightarrow> string \<Rightarrow> nat option \<Rightarrow> Level \<Rightarrow> 32 word \<Rightarrow> log_value \<Rightarrow> 'f Storage
    \<Rightarrow> ('f, unit) run option" where
  "log_value_only env n header this level vlevel log st =
     (if level = L_Verbose then
        (if allowed (st_flags st) (sint vlevel) (Some header) (st_vRegistry st)
         then statement env n (mk_Writer L_Verbose ''FILE'' 0 ''FUNCTION'' DA_NormalLog vlevel) (To_logger this) [log] st
         else returning () (stream_clear this st))
      else statement env n (mk_Writer level ''FILE'' 0 ''FUNCTION'' DA_NormalLog 0) (To_logger this) [log] st)"

text \<open>The rest of the format, the value that is next and the values behind it.\<close>

function log_format :: "'f app_env \<Rightarrow> nat \<Rightarrow> string \<Rightarrow> nat option \<Rightarrow> Level \<Rightarrow> 32 word \<Rightarrow> MessageBuilder \<Rightarrow> string \<Rightarrow> log_value
    \<Rightarrow> log_value list \<Rightarrow> 'f Storage \<Rightarrow> ('f, unit) run option" where
  "log_format env n header this level vlevel b [] v args st = Some (Returned () st)"
| "log_format env n header this level vlevel b (c # s) v args st =
     (if c = kFormatSpecifierChar \<and> s \<noteq> [] \<and> hd s = kFormatSpecifierChar then
        do { st \<leftarrow> mb_write b (V_char (hd s)) st;
             log_format env n header this level vlevel b (tl s) v args st }
      else if c = kFormatSpecifierChar \<and> s \<noteq> [] \<and> hd s = kFormatSpecifierCharValue then
        do { st \<leftarrow> mb_write b v st;
             case args of
               [] \<Rightarrow> log_value_only env n header this level vlevel (V_text (tl s)) st
             | v' # args' \<Rightarrow> log_format env n header this level vlevel (mb_initialize this st) (tl s) v' args' st }
      else
        do { st \<leftarrow> mb_write b (V_char c) st;
             log_format env n header this level vlevel b s v args st })"
  by pat_completeness auto

termination
  by (relation "measures [\<lambda>(env, n, header, this, level, vlevel, b, s, v, args, st). length args,
      \<lambda>(env, n, header, this, level, vlevel, b, s, v, args, st). length s]") (auto simp: neq_Nil_conv)

definition log_values :: "'f app_env \<Rightarrow> nat \<Rightarrow> string \<Rightarrow> nat option \<Rightarrow> Level \<Rightarrow> 32 word \<Rightarrow> string \<Rightarrow> log_value \<Rightarrow> log_value list
    \<Rightarrow> 'f Storage \<Rightarrow> ('f, unit) run option" where
  "log_values env n header this level vlevel s v args st =
     log_format env n header this level vlevel (mb_initialize this st) s v args st"

section \<open>Operations\<close>

definition logger_log :: "'f app_env \<Rightarrow> nat \<Rightarrow> string \<Rightarrow> nat option \<Rightarrow> Level \<Rightarrow> string \<Rightarrow> log_value \<Rightarrow> log_value list \<Rightarrow> 'f Storage
    \<Rightarrow> ('f, unit) run option" where
  "logger_log env n header this level = log_values env n header this level 0"

definition logger_log_value :: "'f app_env \<Rightarrow> nat \<Rightarrow> string \<Rightarrow> nat option \<Rightarrow> Level \<Rightarrow> log_value \<Rightarrow> 'f Storage \<Rightarrow> ('f, unit) run option" where
  "logger_log_value env n header this level = log_value_only env n header this level 0"

definition logger_verbose :: "log_build \<Rightarrow> 'f app_env \<Rightarrow> nat \<Rightarrow> string \<Rightarrow> nat option \<Rightarrow> 32 word \<Rightarrow> string \<Rightarrow> log_value \<Rightarrow> log_value list
    \<Rightarrow> 'f Storage \<Rightarrow> ('f, unit) run option" where
  "logger_verbose bld env n header this vlevel s v args st =
     (if level_compiled bld L_Verbose then log_values env n header this L_Verbose vlevel s v args st else Some (Returned () st))"

definition logger_verbose_value :: "log_build \<Rightarrow> 'f app_env \<Rightarrow> nat \<Rightarrow> string \<Rightarrow> nat option \<Rightarrow> 32 word \<Rightarrow> log_value \<Rightarrow> 'f Storage
    \<Rightarrow> ('f, unit) run option" where
  "logger_verbose_value bld env n header this vlevel v st =
     (if level_compiled bld L_Verbose then log_value_only env n header this L_Verbose vlevel v st else Some (Returned () st))"

text \<open>\<open>info\<close>, \<open>debug\<close>, \<open>warn\<close>, \<open>error\<close>, \<open>fatal\<close> and \<open>trace\<close>.\<close>

definition logger_level :: "log_build \<Rightarrow> Level \<Rightarrow> 'f app_env \<Rightarrow> nat \<Rightarrow> string \<Rightarrow> nat option \<Rightarrow> string \<Rightarrow> log_value \<Rightarrow> log_value list
    \<Rightarrow> 'f Storage \<Rightarrow> ('f, unit) run option" where
  "logger_level bld level env n header this s v args st =
     (if level_compiled bld level then logger_log env n header this level s v args st else Some (Returned () st))"

definition logger_level_value :: "log_build \<Rightarrow> Level \<Rightarrow> 'f app_env \<Rightarrow> nat \<Rightarrow> string \<Rightarrow> nat option \<Rightarrow> log_value \<Rightarrow> 'f Storage
    \<Rightarrow> ('f, unit) run option" where
  "logger_level_value bld level env n header this v st =
     (if level_compiled bld level then logger_log_value env n header this level v st else Some (Returned () st))"

section \<open>The text of a format\<close>

text \<open>
  A format is given by its literals and the values between them: a literal is written with its percent signs
  doubled, but not the last one.
\<close>

fun escaped :: "string \<Rightarrow> string" where
  "escaped [] = []"
| "escaped (c # s) = (if c = kFormatSpecifierChar then [c, c] else [c]) @ escaped s"

fun template :: "(string \<times> log_value) list \<Rightarrow> string \<Rightarrow> string" where
  "template [] rest = rest"
| "template ((l, v) # ps) rest = escaped l @ [kFormatSpecifierChar, kFormatSpecifierCharValue] @ template ps rest"

text \<open>What it stands for; with automatic spacing every single character of a literal has a blank behind it.\<close>

fun filled :: "bool \<Rightarrow> string \<Rightarrow> (string \<times> log_value) list \<Rightarrow> string" where
  "filled auto sep [] = []"
| "filled auto sep ((l, v) # ps) = values_text auto sep (map V_char l @ [v]) @ filled auto sep ps"

lemma values_text_Cons: "values_text auto sep (v # vs) = value_text auto sep v @ values_text auto sep vs"
  by (simp add: values_text_def)

lemma values_text_append: "values_text auto sep (us @ vs) = values_text auto sep us @ values_text auto sep vs"
  by (simp add: values_text_def)

text \<open>A literal is written character by character.\<close>

lemma log_format_literal:
  assumes "the_logger (mb_logger b) st \<noteq> None"
  shows "log_format env n header this level vlevel b (escaped l @ s) v args st =
    do { st \<leftarrow> stream_add (mb_logger b) (values_text (st_hasFlag AutoSpacing st) (mb_separator b) (map V_char l)) st;
         log_format env n header this level vlevel b s v args st }"
  using assms
proof (induction l arbitrary: st)
  case Nil
  then show ?case by (simp add: values_text_def stream_add_nothing)
next
  case (Cons c l)
  obtain st' where st': "stream_add (mb_logger b) (value_text (st_hasFlag AutoSpacing st) (mb_separator b) (V_char c)) st = Some st'"
    using stream_add_works [OF Cons.prems] .
  have w: "mb_write b (V_char c) st = Some st'" using st' by (simp only: mb_write_text)
  have one: "log_format env n header this level vlevel b (escaped (c # l) @ s) v args st =
      log_format env n header this level vlevel b (escaped l @ s) v args st'"
    using w by (cases "c = kFormatSpecifierChar") (simp_all del: mb_write.simps)
  from Cons.IH [OF stream_add_logger [OF st']] show ?case
    by (simp only: one list.map values_text_Cons stream_add_split [OF st'] stream_add_flags [OF st'])
qed

lemma log_format_template:
  assumes "the_logger this st \<noteq> None"
  shows "log_values env n header this level vlevel (template ((l, v) # ps) rest) v (map snd ps @ extra) st =
    do { st \<leftarrow> stream_add this (filled (st_hasFlag AutoSpacing st) (mb_separator (mb_initialize this st)) ((l, v) # ps)) st;
         case extra of
           [] \<Rightarrow> log_value_only env n header this level vlevel (V_text rest) st
         | v' # extra' \<Rightarrow> log_values env n header this level vlevel rest v' extra' st }"
  using assms
proof (induction ps arbitrary: l v st)
  case Nil
  let ?b = "mb_initialize this st" and ?auto = "st_hasFlag AutoSpacing st"
  have b: "mb_logger ?b = this" by (simp add: mb_initialize_def)
  obtain st1 where st1: "stream_add this (values_text ?auto (mb_separator ?b) (map V_char l)) st = Some st1"
    using stream_add_works [OF Nil] .
  obtain st2 where st2: "stream_add this (value_text ?auto (mb_separator ?b) v) st1 = Some st2"
    using stream_add_works [OF stream_add_logger [OF st1]] .
  have w: "mb_write ?b v st1 = Some st2" using st2 by (simp only: mb_write_text b stream_add_flags [OF st1])
  show ?case
    using Nil st1 st2 w
    by (simp add: log_values_def log_format_literal b values_text_append values_text_Cons stream_add_split [OF st1]
        kFormatSpecifierChar_def kFormatSpecifierCharValue_def values_text_def [of _ _ "[]"] split: list.split)
next
  case (Cons p ps)
  obtain l' v' where p: "p = (l', v')" by (cases p)
  let ?b = "mb_initialize this st" and ?auto = "st_hasFlag AutoSpacing st"
  have b: "mb_logger ?b = this" by (simp add: mb_initialize_def)
  obtain st1 where st1: "stream_add this (values_text ?auto (mb_separator ?b) (map V_char l)) st = Some st1"
    using stream_add_works [OF Cons.prems] .
  obtain st2 where st2: "stream_add this (value_text ?auto (mb_separator ?b) v) st1 = Some st2"
    using stream_add_works [OF stream_add_logger [OF st1]] .
  have w: "mb_write ?b v st1 = Some st2" using st2 by (simp only: mb_write_text b stream_add_flags [OF st1])
  have flags: "st_hasFlag flag st2 = st_hasFlag flag st" for flag
    by (simp add: stream_add_flags [OF st2] stream_add_flags [OF st1])
  then have same: "mb_initialize this st2 = ?b" by (simp add: mb_initialize_def)
  have "log_values env n header this level vlevel (template ((l, v) # p # ps) rest) v (map snd (p # ps) @ extra) st
      = log_values env n header this level vlevel (template ((l', v') # ps) rest) v' (map snd ps @ extra) st2"
    using Cons.prems st1 w
    by (simp add: log_values_def [of _ _ _ _ _ _ _ v] log_format_literal b p kFormatSpecifierChar_def kFormatSpecifierCharValue_def)
      (simp add: log_values_def)
  also have "\<dots> = do { st \<leftarrow> stream_add this (filled ?auto (mb_separator ?b) ((l', v') # ps)) st2;
         case extra of
           [] \<Rightarrow> log_value_only env n header this level vlevel (V_text rest) st
         | v' # extra' \<Rightarrow> log_values env n header this level vlevel rest v' extra' st }"
    using Cons.IH [OF stream_add_logger [OF st2]] by (simp only: same flags)
  also have "stream_add this (filled ?auto (mb_separator ?b) ((l', v') # ps)) st2
      = stream_add this (filled ?auto (mb_separator ?b) ((l, v) # p # ps)) st"
    by (simp add: p values_text_append values_text_Cons stream_add_split [OF st1] stream_add_split [OF st2]
        values_text_def [of _ _ "[]"] stream_add_split)
  finally show ?case .
qed

lemma log_format_rest:
  assumes "the_logger this st \<noteq> None"
  shows "log_values env n header this level vlevel (escaped l) v args st =
    returning () (stream_add this (values_text (st_hasFlag AutoSpacing st) (mb_separator (mb_initialize this st)) (map V_char l)) st)"
proof -
  have b: "mb_logger (mb_initialize this st) = this" by (simp add: mb_initialize_def)
  obtain st1 where "stream_add this (values_text (st_hasFlag AutoSpacing st) (mb_separator (mb_initialize this st)) (map V_char l)) st = Some st1"
    using stream_add_works [OF assms] .
  then show ?thesis
    using log_format_literal [of "mb_initialize this st" st env n header this level vlevel l "[]" v args] assms
    by (simp add: log_values_def b returning_def)
qed

section \<open>Messages\<close>

abbreviation container_separator :: "'f Storage \<Rightarrow> string" where
  "container_separator st \<equiv> (if st_hasFlag NewLineForContainer st then NEWLINE # ''    '' else '', '')"

lemma stream_add_ready:
  assumes st: "log_ready env st" and p: "reg_get lid (rl_list (st_loggers st)) = Some a" and lg: "rl_map (st_loggers st) lid = Some lg"
  obtains r where "stream_add (Some a) t st = Some (st\<lparr>st_loggers := r\<rparr>)" "log_ready env (st\<lparr>st_loggers := r\<rparr>)"
    "changed_logger lid (lg\<lparr>lg_stream := lg_stream lg @ t\<rparr>) (rl_world (st_loggers st)) (st_loggers st) r"
proof -
  obtain r where r: "stream_add (Some a) t st = Some (st\<lparr>st_loggers := r\<rparr>)" "loggers_ready (app_log env) r"
    "changed_logger lid (lg\<lparr>lg_stream := lg_stream lg @ t\<rparr>) (rl_world (st_loggers st)) (st_loggers st) r"
    using change_stream_ready [OF log_readyD(1) [OF st] p lg, of "\<lambda>s. s @ t"] by (auto simp: stream_add_def)
  with log_ready_changed [OF st lg r(3) _ r(2), of "st_stdout st"] that show thesis by simp
qed

text \<open>
  C29. A message with a format and its values is logged as one line: every \<open>%v\<close> is replaced by the text of its value
  and every \<open>%%\<close> by a percent sign, except behind the last \<open>%v\<close>, where the format is taken as it stands, so that
  \<open>%%\<close> stays doubled there.
\<close>
theorem log_fills_template:
  assumes st: "log_ready env st" "reg_get lid (rl_list (st_loggers st)) = Some a" "rl_map (st_loggers st) lid = Some lg"
    and level: "level \<in> set walked_levels" "level \<noteq> L_Fatal" "writer_proceeds level (Some a) st = Some True"
    and verbose: "level = L_Verbose \<longrightarrow> allowed (st_flags st) (sint vlevel) (Some header) (st_vRegistry st)"
  shows "\<exists>out st'. log_values env n header (Some a) level vlevel (template ((l, v) # ps) rest) v (map snd ps) st = Some (Returned () st')
     \<and> statement_line env (mk_Writer level ''FILE'' 0 ''FUNCTION'' DA_NormalLog (if level = L_Verbose then vlevel else 0)) (Some a)
         (lg_stream lg @ filled (st_hasFlag AutoSpacing st) (container_separator st) ((l, v) # ps)
           @ value_text (st_hasFlag AutoSpacing st) (container_separator st) (V_text rest)) lg st = Some out
     \<and> logged env level out lid lg st st' \<and> log_ready env st'"
proof -
  let ?w = "mk_Writer level ''FILE'' 0 ''FUNCTION'' DA_NormalLog (if level = L_Verbose then vlevel else 0)"
    and ?t = "filled (st_hasFlag AutoSpacing st) (container_separator st) ((l, v) # ps)"
  obtain r where r: "stream_add (Some a) ?t st = Some (st\<lparr>st_loggers := r\<rparr>)" "log_ready env (st\<lparr>st_loggers := r\<rparr>)"
    "changed_logger lid (lg\<lparr>lg_stream := lg_stream lg @ ?t\<rparr>) (rl_world (st_loggers st)) (st_loggers st) r"
    using stream_add_ready [OF st] .
  let ?st = "st\<lparr>st_loggers := r\<rparr>" and ?lg = "lg\<lparr>lg_stream := lg_stream lg @ ?t\<rparr>"
  have cell: "the_logger (Some a) st = Some lg" by (rule registered_logger [OF log_readyD(1) [OF st(1)] st(2,3)])
  have p: "reg_get lid (rl_list (st_loggers ?st)) = Some a" and lg: "rl_map (st_loggers ?st) lid = Some ?lg"
    using r(3) st(2) by (simp_all add: changed_logger_def)
  have "the_logger (Some a) ?st = Some ?lg" by (rule registered_logger [OF log_readyD(1) [OF r(2)] p lg])
  then have on: "writer_proceeds level (Some a) ?st = Some True"
    using level(3) cell by (simp add: writer_proceeds_def st_hasFlag_def lg_enabled_def cong: if_cong)
  have name: "NUL \<notin> set ''FILE''" and target: "one_target lid a (To_logger (Some a))" by (simp_all add: one_target_def)
  have "(log_value_only env n header (Some a) level vlevel (V_text rest) ?st) = statement env n ?w (To_logger (Some a)) [V_text rest] ?st"
    using verbose by (simp add: log_value_only_def)
  then have run: "log_values env n header (Some a) level vlevel (template ((l, v) # ps) rest) v (map snd ps) st
      = statement env n ?w (To_logger (Some a)) [V_text rest] ?st"
    using log_format_template [of "Some a" st env n header level vlevel l v ps rest "[]"] r(1) cell
    by (simp add: mb_initialize_def)
  from target_ready [OF r(2) p lg level(1) name target on] level(2) obtain out st' where
    out: "statement env n ?w (To_logger (Some a)) [V_text rest] ?st = Some (Returned () st')" "log_ready env st'"
    "logged env level out lid ?lg ?st st'" "statement_line env ?w (Some a) (stream_text ?lg [V_text rest] ?st) ?lg ?st = Some out"
    by (auto simp del: nested_statement.simps) metis
  have "logged env level out lid lg st st'" by (rule logged_after_stream [OF r(3) out(3)])
  with run out(1,2,4) show ?thesis
    by (auto simp: statement_line_def builder_ignores_stream stream_text_def st_hasFlag_def values_text_def)
qed

text \<open>
  C30. With more values than \<open>%v\<close> in the format nothing is logged: the text remains in the stream of the logger, which
  is otherwise as before, and comes out in front of the next message.
\<close>
theorem too_many_values:
  assumes st: "log_ready env st" "reg_get lid (rl_list (st_loggers st)) = Some a" "rl_map (st_loggers st) lid = Some lg"
  shows "\<exists>r. log_values env n header (Some a) level vlevel (template ((l, v) # ps) (escaped l')) v (map snd ps @ v' # extra) st
       = Some (Returned () (st\<lparr>st_loggers := r\<rparr>)) \<and> log_ready env (st\<lparr>st_loggers := r\<rparr>)
     \<and> changed_logger lid (lg\<lparr>lg_stream := lg_stream lg @ filled (st_hasFlag AutoSpacing st) (container_separator st) ((l, v) # ps)
          @ values_text (st_hasFlag AutoSpacing st) (container_separator st) (map V_char l')\<rparr>) (rl_world (st_loggers st)) (st_loggers st) r"
proof -
  let ?t = "filled (st_hasFlag AutoSpacing st) (container_separator st) ((l, v) # ps)"
    and ?t' = "values_text (st_hasFlag AutoSpacing st) (container_separator st) (map V_char l')"
  have cell: "the_logger (Some a) st \<noteq> None" using registered_logger [OF log_readyD(1) [OF st(1)] st(2,3)] by simp
  obtain st1 where st1: "stream_add (Some a) ?t st = Some st1" using stream_add_works [OF cell] .
  obtain r where r: "stream_add (Some a) (?t @ ?t') st = Some (st\<lparr>st_loggers := r\<rparr>)" "log_ready env (st\<lparr>st_loggers := r\<rparr>)"
    "changed_logger lid (lg\<lparr>lg_stream := lg_stream lg @ (?t @ ?t')\<rparr>) (rl_world (st_loggers st)) (st_loggers st) r"
    using stream_add_ready [OF st] .
  have "log_values env n header (Some a) level vlevel (escaped l') v' extra st1 = returning () (stream_add (Some a) ?t' st1)"
    using log_format_rest [OF stream_add_logger [OF st1]]
    by (simp add: mb_initialize_def stream_add_flags [OF st1])
  moreover have "stream_add (Some a) ?t' st1 = Some (st\<lparr>st_loggers := r\<rparr>)"
    using r(1) by (simp only: stream_add_split [OF st1])
  ultimately show ?thesis
    using log_format_template [OF cell, of env n header level vlevel l v ps "escaped l'" "v' # extra"] st1 r(2,3)
    by (auto simp: mb_initialize_def returning_def)
qed

section \<open>Samples\<close>

lemma log_fills_template_witness:
  "\<exists>st a lg out st'. log_ready sample_app st
     \<and> log_values sample_app 1 ''easylogging.h'' (Some a) L_Warning 0 ''code %v at 100%%%v%%'' (V_int 7) [V_text ''x''] st
        = Some (Returned () st')
     \<and> statement_line sample_app (mk_Writer L_Warning ''FILE'' 0 ''FUNCTION'' DA_NormalLog 0) (Some a) ''code 7 at 100%x%%'' lg st = Some out
     \<and> logged sample_app L_Warning out kDefaultLoggerId lg st st'"
proof (rule sample_storage)
  fix st a lg
  assume st: "log_ready sample_app st" "reg_get kDefaultLoggerId (rl_list (st_loggers st)) = Some a"
    "rl_map (st_loggers st) kDefaultLoggerId = Some lg" and flags: "st_flags st = flag_int AllowVerboseIfModuleNotSpecified"
    and empty: "lg_stream lg = []"
    and on: "\<And>level. level \<noteq> L_Unknown \<Longrightarrow> writer_proceeds level (Some a) st = Some True"
  have auto: "\<not> st_hasFlag AutoSpacing st" "\<not> st_hasFlag NewLineForContainer st" unfolding st_hasFlag_def flags by code_simp+
  have level: "L_Warning \<in> set walked_levels" "L_Warning \<noteq> L_Fatal" "L_Warning \<noteq> L_Unknown"
    and verbose: "L_Warning = L_Verbose \<longrightarrow> allowed (st_flags st) (sint (0 :: 32 word)) (Some ''easylogging.h'') (st_vRegistry st)"
    by (simp_all add: walked_levels_def)
  have t: "template [(''code '', V_int 7), ('' at 100%'', V_text ''x'')] ''%%'' = ''code %v at 100%%%v%%''"
    "filled False '', '' [(''code '', V_int 7), ('' at 100%'', V_text ''x'')] @ value_text False '', '' (V_text ''%%'') = ''code 7 at 100%x%%''"
    by code_simp+
  from log_fills_template [OF st level(1,2) on [OF level(3)] verbose,
      of 1 "''code ''" "V_int 7" "[('' at 100%'', V_text ''x'')]" "''%%''"] st(1)
  show ?thesis by (fastforce simp: auto empty t simp del: template.simps filled.simps value_text.simps)
qed

lemma too_many_values_witness:
  "\<exists>st a r lg. log_ready sample_app st
     \<and> log_values sample_app 1 ''easylogging.h'' (Some a) L_Info 0 ''%v'' (V_int 1) [V_int 2] st = Some (Returned () (st\<lparr>st_loggers := r\<rparr>))
     \<and> rl_map r kDefaultLoggerId = Some lg \<and> lg_stream lg = ''1''"
proof (rule sample_storage)
  fix st a lg
  assume st: "log_ready sample_app st" "reg_get kDefaultLoggerId (rl_list (st_loggers st)) = Some a"
    "rl_map (st_loggers st) kDefaultLoggerId = Some lg" and flags: "st_flags st = flag_int AllowVerboseIfModuleNotSpecified"
    and empty: "lg_stream lg = []"
  have auto: "\<not> st_hasFlag AutoSpacing st" "\<not> st_hasFlag NewLineForContainer st" unfolding st_hasFlag_def flags by code_simp+
  have t: "template [([], V_int 1)] (escaped []) = ''%v''" "filled False '', '' [([], V_int 1)] = ''1''" by code_simp+
  from too_many_values [OF st, of 1 "''easylogging.h''" L_Info 0 "[]" "V_int 1" "[]" "[]" "V_int 2" "[]"] st(1)
  show ?thesis
    by (fastforce simp: auto empty t changed_logger_def values_text_def simp del: template.simps filled.simps escaped.simps)
qed

end
