(* ===== verification/ElHelpers.thy ===== *)
theory ElHelpers
  imports ElMessages ElFresh
begin

text \<open>
  The helpers for programs (\<open>easylogging.h\<close>, lines 5691 to 6028): the operations on loggers and their
  configurations, the reading of a global configuration file, flags that are set for a scope, and the
  text of a value. Where an operation is a call of the storage only, it is that operation. File contents and
  the storage's environment are parameters.
\<close>

section \<open>Loggers\<close>

definition getLogger :: "'f app_env \<Rightarrow> string \<Rightarrow> bool \<Rightarrow> 'f Storage \<Rightarrow> (nat option \<times> 'f Storage) option" where
  "getLogger env identity registerIfNotAvailable = lookup_logger env identity registerIfNotAvailable"

definition unregisterLogger :: "string \<Rightarrow> 'f Storage \<Rightarrow> (bool \<times> 'f Storage) option" where
  "unregisterLogger identity st =
     do { (b, r) \<leftarrow> rl_remove identity (st_loggers st); Some (b, st\<lparr>st_loggers := r\<rparr>) }"

definition hasLogger :: "string \<Rightarrow> 'f Storage \<Rightarrow> bool" where
  "hasLogger identity st = rl_has identity (st_loggers st)"

text \<open>Changing the logger behind a pointer; nothing is done for a null pointer.\<close>

definition change_logger :: "nat option \<Rightarrow> (Logger \<times> 'f log_world \<Rightarrow> (Logger \<times> 'f log_world) option) \<Rightarrow> 'f Storage
    \<Rightarrow> (nat option \<times> 'f Storage) option" where
  "change_logger logger g st =
     (if logger = None then Some (None, st)
      else do { r \<leftarrow> on_logger logger g (st_loggers st); Some (logger, st\<lparr>st_loggers := r\<rparr>) })"

definition reconfigureLogger :: "'f app_env \<Rightarrow> nat option \<Rightarrow> Configurations \<Rightarrow> 'f Storage \<Rightarrow> (nat option \<times> 'f Storage) option" where
  "reconfigureLogger env logger configurations = change_logger logger (configure (app_log env) (OtherConf configurations))"

definition reconfigureLogger_id :: "'f app_env \<Rightarrow> string \<Rightarrow> Configurations \<Rightarrow> 'f Storage \<Rightarrow> (nat option \<times> 'f Storage) option" where
  "reconfigureLogger_id env identity configurations st =
     do { (logger, st) \<leftarrow> getLogger env identity True st; reconfigureLogger env logger configurations st }"

text \<open>One setting of a logger, and its new configuration.\<close>

definition set_and_reconfigure :: "'f log_env \<Rightarrow> Level \<Rightarrow> ConfigurationType \<Rightarrow> string \<Rightarrow> Logger \<times> 'f log_world
    \<Rightarrow> (Logger \<times> 'f log_world) option" where
  "set_and_reconfigure env level t v s =
     (let (lg, w) = s in reconfigure env (lg\<lparr>lg_configurations := set_conf level t v (lg_configurations lg)\<rparr>, w))"

definition reconfigureLogger_value :: "'f app_env \<Rightarrow> string \<Rightarrow> ConfigurationType \<Rightarrow> string \<Rightarrow> 'f Storage \<Rightarrow> (nat option \<times> 'f Storage) option" where
  "reconfigureLogger_value env identity configurationType v st =
     do { (logger, st) \<leftarrow> getLogger env identity True st;
          change_logger logger (set_and_reconfigure (app_log env) L_Global configurationType v) st }"

definition reconfigureAllLoggers :: "'f app_env \<Rightarrow> Configurations \<Rightarrow> 'f Storage \<Rightarrow> 'f Storage option" where
  "reconfigureAllLoggers env configurations st =
     do { r \<leftarrow> on_all_loggers (configure (app_log env) (OtherConf configurations)) (st_loggers st); Some (st\<lparr>st_loggers := r\<rparr>) }"

definition reconfigureAllLoggers_level :: "'f app_env \<Rightarrow> Level \<Rightarrow> ConfigurationType \<Rightarrow> string \<Rightarrow> 'f Storage \<Rightarrow> 'f Storage option" where
  "reconfigureAllLoggers_level env level configurationType v st =
     do { r \<leftarrow> on_all_loggers (set_and_reconfigure (app_log env) level configurationType v) (st_loggers st); Some (st\<lparr>st_loggers := r\<rparr>) }"

definition reconfigureAllLoggers_value :: "'f app_env \<Rightarrow> ConfigurationType \<Rightarrow> string \<Rightarrow> 'f Storage \<Rightarrow> 'f Storage option" where
  "reconfigureAllLoggers_value env = reconfigureAllLoggers_level env L_Global"

definition loggers_setDefaultConfigurations :: "'f app_env \<Rightarrow> Configurations \<Rightarrow> bool \<Rightarrow> 'f Storage \<Rightarrow> 'f Storage option" where
  "loggers_setDefaultConfigurations env configurations reconfigureExistingLoggers st =
     (let st = st\<lparr>st_loggers := setDefaultConfigurations (OtherConf configurations) (st_loggers st)\<rparr>
      in if reconfigureExistingLoggers then reconfigureAllLoggers env configurations st else Some st)"

definition defaultTypedConfigurations :: "'f app_env \<Rightarrow> 'f Storage \<Rightarrow> (TypedConfigurations \<times> 'f Storage) option" where
  "defaultTypedConfigurations env st =
     do { (tc, w) \<leftarrow> mk_TypedConfigurations (app_log env) (rl_defaultConfigurations (st_loggers st)) (rl_world (st_loggers st));
          Some (tc, st\<lparr>st_loggers := (st_loggers st)\<lparr>rl_world := w\<rparr>\<rparr>) }"

definition populateAllLoggerIds :: "'f Storage \<Rightarrow> string list" where
  "populateAllLoggerIds st = map fst (rl_list (st_loggers st))"

definition flushAll :: "'f Storage \<Rightarrow> 'f Storage option" where
  "flushAll st =
     do { r \<leftarrow> on_all_loggers (\<lambda>(lg, w). map_option (\<lambda>lg. (lg, w)) (flush_all lg)) (st_loggers st); Some (st\<lparr>st_loggers := r\<rparr>) }"

section \<open>Global configuration files\<close>

text \<open>The lines that are read while the stream is good, an empty last one included.\<close>

definition configure_collected :: "'f app_env \<Rightarrow> string \<Rightarrow> nat option \<Rightarrow> 'f Storage \<Rightarrow> 'f Storage option" where
  "configure_collected env ss logger st =
     (if ss \<noteq> [] \<and> logger \<noteq> None
      then map_option snd (change_logger logger (configure (app_log env) (OtherConf (snd (parseFromText ss NullConf empty_Configurations)))) st)
      else Some st)"

fun global_lines :: "'f app_env \<Rightarrow> string list \<Rightarrow> string \<Rightarrow> nat option \<Rightarrow> 'f Storage \<Rightarrow> (string \<times> nat option \<times> 'f Storage) option" where
  "global_lines env [] ss logger st = Some (ss, logger, st)"
| "global_lines env (line # ls) ss logger st =
     (let line = trim line
      in if isComment line then global_lines env ls ss logger st
         else let line = trim (ignoreComments line)
         in if 2 < length line \<and> startsWith line kConfigurationLoggerId then
              do { st \<leftarrow> configure_collected env ss logger st;
                   let line = trim (drop 2 line);
                   (logger, st) \<leftarrow> (if 1 < length line then getLogger env line True st else Some (logger, st));
                   global_lines env ls [] logger st }
            else global_lines env ls (ss @ line @ [NEWLINE]) logger st)"

definition configureFromGlobal :: "'f app_env \<Rightarrow> string option \<Rightarrow> 'f Storage \<Rightarrow> 'f Storage option" where
  "configureFromGlobal env content st =
     do { (ss, logger, st) \<leftarrow> global_lines env (case content of None \<Rightarrow> [] | Some t \<Rightarrow> split_on NEWLINE t) [] None st;
          configure_collected env ss logger st }"

definition configureFromArg :: "'f app_env \<Rightarrow> (string \<Rightarrow> string option) \<Rightarrow> string \<Rightarrow> 'f Storage \<Rightarrow> (bool \<times> 'f Storage) option" where
  "configureFromArg env read_file argKey st =
     (if \<not> hasParamWithValue (st_commandLineArgs st) argKey then Some (False, st)
      else do { path \<leftarrow> getParamValue (st_commandLineArgs st) argKey;
                st \<leftarrow> configureFromGlobal env (read_file path) st;
                Some (True, st) })"

section \<open>Flags, verbose levels and texts\<close>

text \<open>A flag that is added, or removed, for the time of a block; the destructor does the opposite.\<close>

definition scopedAddFlag :: "LoggingFlag \<Rightarrow> ('f Storage \<Rightarrow> ('f, 'a) run option) \<Rightarrow> 'f Storage \<Rightarrow> ('f, 'a) run option" where
  "scopedAddFlag flag block st = run_then (block (st_addFlag flag st)) (\<lambda>x st. Some (Returned x (st_removeFlag flag st)))"

definition scopedRemoveFlag :: "LoggingFlag \<Rightarrow> ('f Storage \<Rightarrow> ('f, 'a) run option) \<Rightarrow> 'f Storage \<Rightarrow> ('f, 'a) run option" where
  "scopedRemoveFlag flag block st = run_then (block (st_removeFlag flag st)) (\<lambda>x st. Some (Returned x (st_addFlag flag st)))"

definition setVerboseLevel :: "32 word \<Rightarrow> 'f Storage \<Rightarrow> 'f Storage" where
  "setVerboseLevel level st = st\<lparr>st_vRegistry := setLevel (sint level) (st_vRegistry st)\<rparr>"

definition setVModules :: "string \<Rightarrow> 'f Storage \<Rightarrow> 'f Storage" where
  "setVModules modules st =
     (if vModulesEnabled (st_flags st) then st\<lparr>st_vRegistry := setModules (st_flags st) modules (st_vRegistry st)\<rparr> else st)"

definition clearVModules :: "'f Storage \<Rightarrow> 'f Storage" where
  "clearVModules st = st\<lparr>st_vRegistry := clearModules (st_vRegistry st)\<rparr>"

definition helpers_validateFileRolling :: "nat option \<Rightarrow> Level \<Rightarrow> 'f Storage \<Rightarrow> 'f Storage option" where
  "helpers_validateFileRolling logger level st =
     (if logger = None then Some st
      else do { lg \<leftarrow> the_logger logger st; tc \<leftarrow> lg_typedConfigurations lg;
                (b, w) \<leftarrow> validateFileRolling level (st_preRollOutCallback st) (tc, rl_world (st_loggers st));
                Some (st\<lparr>st_loggers := (st_loggers st)\<lparr>rl_world := w\<rparr>\<rparr>) })"

text \<open>The text of a value is made in the stream of the default logger.\<close>

definition convertTemplateToStdString :: "'f app_env \<Rightarrow> log_value \<Rightarrow> 'f Storage \<Rightarrow> (string \<times> 'f Storage) option" where
  "convertTemplateToStdString env templ st =
     do { (logger, st) \<leftarrow> lookup_logger env kDefaultLoggerId True st;
          if logger = None then Some ([], st)
          else do { st \<leftarrow> mb_write (mb_initialize logger st) templ st;
                    lg \<leftarrow> the_logger logger st;
                    st \<leftarrow> stream_clear logger st;
                    Some (lg_stream lg, st) } }"

definition lib_version :: string where "lib_version = ''9.84''"
definition releaseDate :: string where "releaseDate = ''29-07-2016 1221hrs''"

section \<open>The sections of a global configuration file\<close>

text \<open>
  A file as it is meant: for each logger a line with its identifier, then its settings. Each section is to
  configure its logger as \<open>reconfigureLogger\<close> does.
\<close>

type_synonym conf_section = "string \<times> setting list"

definition section_head :: "string \<Rightarrow> string" where
  "section_head lid = ''-- '' @ lid"

definition global_text :: "conf_section list \<Rightarrow> string" where
  "global_text secs = concat (map (\<lambda>(lid, es). section_head lid @ NEWLINE # render es) secs)"

definition settings_conf :: "setting list \<Rightarrow> Configurations" where
  "settings_conf es = (fold (\<lambda>(level, t, val). set_conf level t val) es empty_Configurations)\<lparr>cf_isFromFile := False\<rparr>"

fun configure_sections :: "'f app_env \<Rightarrow> conf_section list \<Rightarrow> 'f Storage \<Rightarrow> 'f Storage option" where
  "configure_sections env [] st = Some st"
| "configure_sections env ((lid, es) # secs) st =
     do { (p, st) \<leftarrow> reconfigureLogger_id env lid (settings_conf es) st; configure_sections env secs st }"

definition settings_ok :: "setting list \<Rightarrow> bool" where
  "settings_ok es \<longleftrightarrow> list_all renderable es \<and> es \<noteq> []"

definition section_ok :: "conf_section \<Rightarrow> bool" where
  "section_ok sec \<longleftrightarrow> (case sec of (lid, es) \<Rightarrow> isValidId lid \<and> 1 < length lid \<and> settings_ok es)"

definition section_lines :: "conf_section list \<Rightarrow> string list" where
  "section_lines secs = concat (map (\<lambda>(lid, es). section_head lid # render_lines es) secs)"

lemma ignoreComments_none:
  assumes "CHR ''#'' \<notin> set line"
  shows "ignoreComments line = line"
proof -
  have "take 2 (drop i line) \<noteq> ''##''" for i
  proof
    assume "take 2 (drop i line) = ''##''"
    then have "CHR ''#'' \<in> set (take 2 (drop i line))" by simp
    then show False using assms by (blast dest: in_set_takeD in_set_dropD)
  qed
  then have "str_find line kConfigurationComment 0 = None"
    by (simp add: str_find_None kConfigurationComment_def numeral_2_eq_2)
  then show ?thesis by (simp add: ignoreComments_def Let_def)
qed

lemma valid_chars:
  assumes "isValidId lid"
  shows "NEWLINE \<notin> set lid" "CHR ''#'' \<notin> set lid" "x \<in> set lid \<Longrightarrow> \<not> is_c_space x"
  using assms by (auto simp: isValidId_set kValidLoggerIdSymbols_def is_c_space_def)

lemma global_head:
  assumes "isValidId lid" and "lid \<noteq> []"
  shows "global_lines env (section_head lid # ls) ss logger st =
     do { st \<leftarrow> configure_collected env ss logger st;
          (logger, st) \<leftarrow> (if 1 < length lid then getLogger env lid True st else Some (logger, st));
          global_lines env ls [] logger st }"
proof -
  note chars = valid_chars [OF assms(1)]
  have ends: "\<not> is_c_space (hd lid)" "\<not> is_c_space (last lid)"
    using chars(3) assms(2) by simp_all
  then have trims: "trim (section_head lid) = section_head lid" "trim lid = lid"
    using assms(2) by (auto intro!: trim_id simp: section_head_def is_c_space_def)
  have "trim (CHR '' '' # lid) = trim lid"
    using assms(2) ends by (cases lid rule: rev_cases) (simp_all add: trim_def rtrim_def ltrim_def is_c_space_def)
  moreover have "ignoreComments (section_head lid) = section_head lid"
    by (rule ignoreComments_none) (simp add: section_head_def chars(2))
  moreover have "\<not> isComment (section_head lid)" "startsWith (section_head lid) kConfigurationLoggerId"
    "drop 2 (section_head lid) = CHR '' '' # lid" "2 < length (section_head lid)"
    using assms(2) by (simp_all add: section_head_def isComment_def startsWith_def kConfigurationComment_def
        kConfigurationLoggerId_def)
  ultimately show ?thesis
    by (simp add: trims Let_def)
qed

lemma global_long_head:
  assumes "isValidId lid" and "1 < length lid"
  shows "global_lines env (section_head lid # ls) ss logger st =
     do { st \<leftarrow> configure_collected env ss logger st; (logger, st) \<leftarrow> getLogger env lid True st;
          global_lines env ls [] logger st }"
proof -
  have "lid \<noteq> []" using assms(2) by auto
  then show ?thesis
    unfolding global_head [OF assms(1) \<open>lid \<noteq> []\<close>] using assms(2) by simp
qed

lemma setting_line:
  assumes "trim line = line" "\<not> isComment line" "ignoreComments line = line" "hd line \<noteq> CHR ''-''"
  shows "global_lines env (line # ls) ss logger st = global_lines env ls (ss @ line @ [NEWLINE]) logger st"
  using assms by (cases line) (simp_all add: Let_def startsWith_def kConfigurationLoggerId_def)

lemma empty_line:
  "global_lines env ([] # ls) ss logger st = global_lines env ls (ss @ [NEWLINE]) logger st"
  by (simp add: Let_def trim_def rtrim_def ltrim_def isComment_def startsWith_def kConfigurationComment_def ignoreComments_none)

declare global_lines.simps(2) [simp del]

lemma global_body:
  "list_all renderable es \<Longrightarrow>
   global_lines env (render_lines es @ ls) ss logger st = global_lines env ls (ss @ render es) logger st"
proof (induction es arbitrary: ss)
  case (Cons e es)
  obtain level t val where e: "e = (level, t, val)" by (cases e)
  have ren: "renderable (level, t, val)" "level \<noteq> L_Unknown"
    using Cons.prems by (auto simp: e renderable_def)
  have "global_lines env (level_line level # ls') ss' logger st = global_lines env ls' (ss' @ level_line level @ [NEWLINE]) logger st"
    for ls' ss'
    using level_line_facts [OF ren(2)]
    by (intro setting_line) (simp_all add: level_line_good_def Let_def level_line_def)
  moreover have "global_lines env (conf_line t val # ls') ss' logger st = global_lines env ls' (ss' @ conf_line t val @ [NEWLINE]) logger st"
    for ls' ss'
    by (rule conf_line_plain [OF ren(1)], rule setting_line) (auto simp: Let_def)
  ultimately show ?case
    using Cons by (simp add: render_lines_def render_def e)
qed (simp add: render_lines_def render_def)

text \<open>The empty line behind the last newline is collected, but sets nothing.\<close>

lemma parse_lines_append:
  "parse_lines (ls @ ls') parsed s = (let (parsed, s) = parse_lines ls parsed s in parse_lines ls' parsed s)"
  by (induction ls parsed s rule: parse_lines.induct) (simp_all add: split_beta)

lemma collected_settings:
  assumes "settings_ok es"
  shows "snd (parseFromText (render es) NullConf empty_Configurations) = settings_conf es"
    and "snd (parseFromText (render es @ [NEWLINE]) NullConf empty_Configurations) = settings_conf es"
proof -
  have es: "list_all renderable es" "es \<noteq> []" using assms by (simp_all add: settings_ok_def)
  note split = split_render [OF es(1)]
  have more: "split_on NEWLINE (s @ [NEWLINE]) = split_on NEWLINE s @ [[]]" for s
    by (induction s) (auto split: list.splits simp: split_on_nonempty)
  have empty: "parseLine [] s = (True, s)" for s
    by (cases s) (simp add: parseLine_def Let_def trim_def rtrim_def ltrim_def isComment_def startsWith_def
        kConfigurationComment_def ignoreComments_none)
  obtain st' where parsed: "parse_lines (render_lines es) False (start_state, empty_Configurations)
      = (True, st', fold (\<lambda>(level, t, val). set_conf level t val) es empty_Configurations)"
    using parse_rendered_lines [OF es(1), of False start_state empty_Configurations] es(2) by auto
  show "snd (parseFromText (render es) NullConf empty_Configurations) = settings_conf es"
    and "snd (parseFromText (render es @ [NEWLINE]) NullConf empty_Configurations) = settings_conf es"
    by (simp_all add: parseFromText_def parser_parseFromText_def setFromBase_def text_lines_def more split parsed
        parse_lines_append butlast_append empty settings_conf_def)
qed

lemma render_nonempty: "settings_ok es \<Longrightarrow> render es \<noteq> []"
  by (cases es) (auto simp: settings_ok_def render_def)

lemma configure_rendered:
  assumes "settings_ok es"
  shows "configure_collected env (render es) logger st = map_option snd (reconfigureLogger env logger (settings_conf es) st)"
    and "configure_collected env (render es @ [NEWLINE]) logger st = map_option snd (reconfigureLogger env logger (settings_conf es) st)"
  using collected_settings [OF assms] render_nonempty [OF assms]
  by (simp_all add: configure_collected_def reconfigureLogger_def change_logger_def)

lemma split_global:
  "list_all (\<lambda>(lid, es). isValidId lid \<and> list_all renderable es) secs \<Longrightarrow>
   split_on NEWLINE (global_text secs) = section_lines secs @ [[]]"
proof (induction secs)
  case (Cons sec secs)
  obtain lid es where sec: "sec = (lid, es)" by (cases sec)
  have body: "split_on NEWLINE (render es @ rest) = render_lines es @ split_on NEWLINE rest" if "list_all renderable es" for es rest
    using that
  proof (induction es)
    case (Cons e es)
    obtain level t val where e: "e = (level, t, val)" by (cases e)
    show ?case
      using no_newline [of level t val] Cons by (simp add: split_on_line render_def render_lines_def e)
  qed (simp add: render_def render_lines_def)
  have "NEWLINE \<notin> set (section_head lid)"
    using Cons.prems valid_chars(1) by (simp add: section_head_def sec)
  then have "split_on NEWLINE (section_head lid @ NEWLINE # render es @ global_text secs)
      = section_head lid # render_lines es @ split_on NEWLINE (global_text secs)"
    using Cons.prems by (simp add: split_on_line body sec)
  then show ?case
    using Cons by (simp add: global_text_def section_lines_def sec)
qed (simp add: global_text_def section_lines_def)

lemma nothing_collected [simp]: "configure_collected env [] logger st = Some st"
  by (simp add: configure_collected_def)

text \<open>Reading on with the settings of a section collected: they are applied when the next section begins, or at the end.\<close>

lemma global_sections:
  assumes "settings_ok es" and "list_all section_ok secs"
  shows "do { (ss, logger, st) \<leftarrow> global_lines env (section_lines secs @ [[]]) (render es) logger st; configure_collected env ss logger st }
    = do { (p, st) \<leftarrow> reconfigureLogger env logger (settings_conf es) st; configure_sections env secs st }"
  using assms
proof (induction secs arbitrary: es logger st)
  case Nil
  show ?case
    by (cases "reconfigureLogger env logger (settings_conf es) st")
      (simp_all add: section_lines_def empty_line configure_rendered(2) [OF Nil.prems(1)] split_beta)
next
  case (Cons sec secs)
  obtain lid es' where sec: "sec = (lid, es')" by (cases sec)
  have "section_ok sec" and more: "list_all section_ok secs" using Cons.prems(2) by simp_all
  then have ok: "isValidId lid" "1 < length lid" "settings_ok es'" "list_all renderable es'"
    by (auto simp: sec section_ok_def settings_ok_def)
  have lines: "section_lines (sec # secs) = section_head lid # render_lines es' @ section_lines secs"
    by (simp add: section_lines_def sec)
  have "do { (ss, logger, st) \<leftarrow> global_lines env (section_lines (sec # secs) @ [[]]) (render es) logger st; configure_collected env ss logger st }
    = do { (p, st) \<leftarrow> reconfigureLogger env logger (settings_conf es) st; (logger, st) \<leftarrow> getLogger env lid True st;
           (ss, logger, st) \<leftarrow> global_lines env (section_lines secs @ [[]]) (render es') logger st;
           configure_collected env ss logger st }"
    unfolding lines
    by (cases "reconfigureLogger env logger (settings_conf es) st")
      (simp_all add: global_long_head [OF ok(1,2)] configure_rendered(1) [OF Cons.prems(1)] global_body [OF ok(4)]
        case_prod_beta' bind_assoc)
  then show ?case
    using Cons.IH [OF ok(3) more]
    by (simp add: reconfigureLogger_id_def sec case_prod_beta' bind_assoc)
qed

lemma global_file_sections_lemma:
  assumes "list_all section_ok secs"
  shows "configureFromGlobal env (Some (global_text secs)) st = configure_sections env secs st"
proof (cases secs)
  case Nil
  show ?thesis
    by (simp add: Nil configureFromGlobal_def global_text_def empty_line configure_collected_def)
next
  case (Cons sec more)
  obtain lid es where sec: "sec = (lid, es)" by (cases sec)
  have "section_ok sec" and more: "list_all section_ok more" using assms by (simp_all add: Cons)
  then have ok: "isValidId lid" "1 < length lid" "settings_ok es" "list_all renderable es"
    by (auto simp: sec section_ok_def settings_ok_def)
  have "list_all (\<lambda>(lid, es). isValidId lid \<and> list_all renderable es) secs"
    using assms by (auto simp: list_all_iff section_ok_def settings_ok_def)
  then show ?thesis
    using global_sections [OF ok(3) more, of env]
    by (simp add: configureFromGlobal_def split_global)
      (simp add: Cons sec section_lines_def global_long_head [OF ok(1,2)] global_body [OF ok(4)] reconfigureLogger_id_def
        bind_assoc split_beta)
qed

text \<open>
  C34. A global configuration file configures the loggers it names one after the other: reading the
  text of a list of sections, each a logger's identifier of at least two characters and its settings,
  is the same as reconfiguring each of these loggers in turn with exactly the settings of its section,
  whatever the storage; a logger that is not registered yet is registered, in both.
\<close>
theorem global_file_sections:
  assumes "list_all section_ok secs"
  shows "configureFromGlobal env (Some (global_text secs)) st = configure_sections env secs st"
  by (rule global_file_sections_lemma [OF assms])

lemma global_file_sections_witness:
  "\<forall>st. configureFromGlobal sample_app (Some (global_text [(''default'', [(L_Global, C_Format, ''## %msg'')]), (''probe'', [(L_Info, C_ToFile, ''false'')])])) st
    = configure_sections sample_app [(''default'', [(L_Global, C_Format, ''## %msg'')]), (''probe'', [(L_Info, C_ToFile, ''false'')])] st"
  by (rule allI, rule global_file_sections)
    (simp add: section_ok_def settings_ok_def isValidId_set kValidLoggerIdSymbols_def renderable_def)

text \<open>
  What a file does to the configurations of the loggers: each section sets its settings over those of
  its logger, or over the defaults for a logger that is new.
\<close>

definition conf_map :: "'f Storage \<Rightarrow> string \<Rightarrow> Configurations option" where
  "conf_map st lid = map_option lg_configurations (rl_map (st_loggers st) lid)"

definition section_conf :: "Configurations \<Rightarrow> conf_section \<Rightarrow> (string \<Rightarrow> Configurations option) \<Rightarrow> string \<Rightarrow> Configurations option" where
  "section_conf defaults sec m =
     (case sec of (lid, es) \<Rightarrow>
        m(lid \<mapsto> setFromBase (OtherConf (settings_conf es))
            (case m lid of Some c \<Rightarrow> c | None \<Rightarrow> setFromBase (OtherConf defaults) empty_Configurations)))"

definition settings_fit :: "'f log_env \<Rightarrow> setting list \<Rightarrow> bool" where
  "settings_fit env es \<longleftrightarrow> list_all (\<lambda>(level, t, v). value_ok env t v) es"

lemma settings_values: "settings_fit env es \<Longrightarrow> values_ok env (cf_list (settings_conf es))"
proof -
  have "values_ok env (cf_list (fold (\<lambda>(level, t, val). set_conf level t val) es c))"
    if "settings_fit env es" "values_ok env (cf_list c)" for c
    using that by (induction es arbitrary: c) (auto simp: settings_fit_def set_conf_values)
  then show "settings_fit env es \<Longrightarrow> values_ok env (cf_list (settings_conf es))"
    by (simp add: settings_conf_def empty_Configurations_def)
qed

lemma complete_taken_over:
  assumes "complete_conf env c" and "values_ok env (cf_list b)"
  shows "taken_over (OtherConf b) c = setFromBase (OtherConf b) c" "complete_conf env (taken_over (OtherConf b) c)"
proof -
  have "conf_value L_Global C_Format c \<noteq> None"
    using assms(1) by (simp add: complete_conf_def known_configs_list)
  then show eq: "taken_over (OtherConf b) c = setFromBase (OtherConf b) c"
    by (auto simp: taken_over_def confs_differ_def conf_value_def conf_get_def)
  show "complete_conf env (taken_over (OtherConf b) c)"
    using assms by (simp add: eq complete_base)
qed

lemma section_configured:
  assumes st: "storage_ready (app_log env) st" and lid: "isValidId lid" and fit: "settings_fit (app_log env) es"
  shows "\<exists>p st'. reconfigureLogger_id env lid (settings_conf es) st = Some (p, st') \<and> storage_ready (app_log env) st'
     \<and> conf_map st' = section_conf (rl_defaultConfigurations (st_loggers st)) (lid, es) (conf_map st)
     \<and> rl_defaultConfigurations (st_loggers st') = rl_defaultConfigurations (st_loggers st)"
proof -
  let ?env = "app_log env" and ?r = "st_loggers st" and ?b = "settings_conf es"
  have ready: "loggers_ready ?env ?r" "registry_ready ?env ?r"
    using st by (simp_all add: storage_ready_def loggers_ready_def)
  obtain a r' lg where get: "rl_get ?env lid True ?r = Some (Some a, r')" "loggers_ready ?env r'"
    "reg_get lid (rl_list r') = Some a" "rl_map r' lid = Some lg"
    and others: "\<And>other. other \<noteq> lid \<or> rl_has lid ?r \<Longrightarrow> rl_map r' other = rl_map ?r other"
    and def: "rl_defaultConfigurations r' = rl_defaultConfigurations ?r"
    using rl_get_forced [OF ready(1) lid] by metis
  have new: "\<not> rl_has lid ?r \<Longrightarrow> lg_configurations lg = setFromBase (OtherConf (rl_defaultConfigurations ?r)) empty_Configurations"
    using rl_get_cases [OF ready(2), of lid True] get(1,4) by auto
  have c: "complete_conf ?env (lg_configurations lg)"
    using get(2,4) by (auto simp: loggers_ready_def registry_ready_def logger_ready_def)
  note over = complete_taken_over [OF c settings_values [OF fit]]
  obtain r2 lg2 w2 where r2: "on_logger (Some a) (configure ?env (OtherConf ?b)) r' = Some r2" "loggers_ready ?env r2"
    "changed_logger lid lg2 w2 r' r2" "lg_configurations lg2 = setFromBase (OtherConf ?b) (lg_configurations lg)"
    using on_logger_configure [OF get(2-4) c over(2), of "configure ?env (OtherConf ?b)"] by (auto simp: over(1))
  have map2: "rl_map r2 = (rl_map r')(lid \<mapsto> lg2)" "rl_defaultConfigurations r2 = rl_defaultConfigurations ?r"
    using r2(3) def by (simp_all add: changed_logger_def)
  have run: "reconfigureLogger_id env lid ?b st = Some (Some a, st\<lparr>st_loggers := r2\<rparr>)"
    by (simp add: reconfigureLogger_id_def getLogger_def lookup_logger_def get(1) reconfigureLogger_def change_logger_def r2(1))
  have old: "lg_configurations lg = (case conf_map st lid of Some c \<Rightarrow> c
      | None \<Rightarrow> setFromBase (OtherConf (rl_defaultConfigurations ?r)) empty_Configurations)"
    using new others [of lid] get(4) rl_has_map [OF ready(2), of lid] by (cases "rl_has lid ?r") (auto simp: conf_map_def)
  have "conf_map (st\<lparr>st_loggers := r2\<rparr>) = section_conf (rl_defaultConfigurations ?r) (lid, es) (conf_map st)"
    using others by (auto simp: fun_eq_iff section_conf_def simp flip: old) (simp_all add: conf_map_def map2 r2(4))
  moreover have "rl_map r2 kDefaultLoggerId \<noteq> None"
    using st others [of kDefaultLoggerId] by (auto simp: map2 storage_ready_def)
  ultimately show ?thesis
    using run r2(2) map2(2) by (simp add: storage_ready_def)
qed

lemma reconfigure_same: "reconfigureLogger env p c st = Some x \<Longrightarrow> fst x = p"
  by (auto simp: reconfigureLogger_def change_logger_def split: if_splits bind_splits)

lemma sections_configured:
  "storage_ready (app_log env) st \<Longrightarrow> list_all section_ok secs \<Longrightarrow> list_all (settings_fit (app_log env) \<circ> snd) secs \<Longrightarrow>
   \<exists>st'. configure_sections env secs st = Some st' \<and> storage_ready (app_log env) st'
     \<and> conf_map st' = fold (section_conf (rl_defaultConfigurations (st_loggers st))) secs (conf_map st)"
proof (induction secs arbitrary: st)
  case (Cons sec secs)
  obtain lid es where sec: "sec = (lid, es)" by (cases sec)
  have lid: "isValidId lid" and fit: "settings_fit (app_log env) es"
    using Cons.prems by (simp_all add: sec section_ok_def)
  obtain p st1 where st1: "reconfigureLogger_id env lid (settings_conf es) st = Some (p, st1)" "storage_ready (app_log env) st1"
    "conf_map st1 = section_conf (rl_defaultConfigurations (st_loggers st)) sec (conf_map st)"
    "rl_defaultConfigurations (st_loggers st1) = rl_defaultConfigurations (st_loggers st)"
    using section_configured [OF Cons.prems(1) lid fit] by (auto simp: sec)
  show ?case
    using Cons.IH [OF st1(2)] Cons.prems(2,3) st1 by (auto simp: sec)
qed simp

text \<open>
  On a storage that is ready, a global configuration file whose formats and file names can be used
  is read to its end without an error, leaves the storage ready, and changes the configurations of the
  loggers exactly as its sections say, in their order: a section's settings over those its logger had,
  over the registry's defaults for a new logger, and nothing for the others.
\<close>
theorem global_file_configures:
  assumes "storage_ready (app_log env) st" and "list_all section_ok secs" and "list_all (settings_fit (app_log env) \<circ> snd) secs"
  shows "\<exists>st'. configureFromGlobal env (Some (global_text secs)) st = Some st' \<and> storage_ready (app_log env) st'
     \<and> conf_map st' = fold (section_conf (rl_defaultConfigurations (st_loggers st))) secs (conf_map st)"
  using sections_configured [OF assms] by (simp add: global_file_sections_lemma [OF assms(2)])

lemma global_file_configures_witness:
  "\<exists>st st' c. mk_Storage sample_env sample_world = Some st \<and> storage_ready sample_env st'
     \<and> configureFromGlobal sample_app (Some (global_text [(''probe'', [(L_Info, C_ToFile, ''false'')])])) st = Some st'
     \<and> conf_map st' ''probe'' = Some c \<and> conf_value L_Info C_ToFile c = Some ''false''"
proof -
  obtain st where st: "mk_Storage sample_env sample_world = Some st" "storage_ready sample_env st"
    using new_storage [OF sample_world_ok] by blast
  let ?secs = "[(''probe'', [(L_Info, C_ToFile, ''false'')])]"
  have ok: "list_all section_ok ?secs"
    by (simp add: section_ok_def settings_ok_def isValidId_set kValidLoggerIdSymbols_def renderable_def)
  have app: "app_log sample_app = sample_env" by (simp add: sample_app_def)
  have fit: "list_all (settings_fit (app_log sample_app) \<circ> snd) ?secs"
    by (simp add: settings_fit_def value_ok_def known_configs_list)
  obtain st' where st': "configureFromGlobal sample_app (Some (global_text ?secs)) st = Some st'" "storage_ready sample_env st'"
    "conf_map st' = fold (section_conf (rl_defaultConfigurations (st_loggers st))) ?secs (conf_map st)"
    using global_file_configures [of sample_app st ?secs] st(2) ok fit unfolding app by blast
  have list: "cf_list (settings_conf [(L_Info, C_ToFile, ''false'')]) = [\<lparr>c_level = L_Info, c_type = C_ToFile, c_value = ''false''\<rparr>]"
    by code_simp
  have "conf_value L_Info C_ToFile (setFromBase (OtherConf (settings_conf [(L_Info, C_ToFile, ''false'')])) c) = Some ''false''" for c
    using list by (simp add: setFromBase_def set_from_conf_def set_conf_lookup)
  then have "\<exists>c. conf_map st' ''probe'' = Some c \<and> conf_value L_Info C_ToFile c = Some ''false''"
    by (simp add: st'(3) section_conf_def)
  with st st' show ?thesis by blast
qed

text \<open>
  A logger whose identifier has one character is not looked up by a global configuration file: its
  section is applied to the logger of the section before, on top of that section's settings.
\<close>
theorem short_logger_id:
  assumes "section_ok (lid, es)" and "isValidId [ch]" and "settings_ok es'"
  shows "configureFromGlobal env (Some (global_text [(lid, es), ([ch], es')])) st
    = do { (p, st) \<leftarrow> reconfigureLogger_id env lid (settings_conf es) st;
           map_option snd (reconfigureLogger env p (settings_conf es') st) }"
proof -
  have ok: "isValidId lid" "1 < length lid" "settings_ok es" "list_all renderable es" "list_all renderable es'"
    using assms by (auto simp: section_ok_def settings_ok_def)
  show ?thesis
    using ok assms(2)
    apply (simp add: configureFromGlobal_def split_global)
    apply (simp add: section_lines_def global_long_head [OF ok(1,2)] global_head [OF assms(2)] global_body [OF ok(4)] global_body [OF ok(5)]
        empty_line configure_rendered [OF ok(3)] configure_rendered [OF assms(3)] reconfigureLogger_id_def bind_assoc case_prod_beta'
        bind_map_option comp_def)
    apply (intro Option.bind_cong refl)
    apply (simp add: reconfigure_same)
    done
qed

lemma short_logger_id_witness:
  "\<forall>st. configureFromGlobal sample_app (Some (global_text [(''default'', [(L_Global, C_ToFile, ''true'')]), (''x'', [(L_Info, C_ToFile, ''false'')])])) st
    = do { (p, st) \<leftarrow> reconfigureLogger_id sample_app ''default'' (settings_conf [(L_Global, C_ToFile, ''true'')]) st;
           map_option snd (reconfigureLogger sample_app p (settings_conf [(L_Info, C_ToFile, ''false'')]) st) }"
  by (rule allI, rule short_logger_id)
    (simp_all add: section_ok_def settings_ok_def isValidId_set kValidLoggerIdSymbols_def renderable_def)

end
