(* ===== verification/ElAsync.thy ===== *)
theory ElAsync
  imports ElLog
begin

text \<open>
  Asynchronous dispatching (\<open>easylogging.h\<close>, lines 3903 to 3947 and 4284 to 4410), which a build with
  \<open>ELPP_ASYNC_LOGGING\<close> uses: the queue of lines, the handler that shows a line and puts it into the queue,
  and the worker that takes the lines from the queue and writes them to their files. The operations of
  the logging threads and of the worker are steps that interleave; each operation of the queue holds its lock.
\<close>

section \<open>Work that is put off\<close>

text \<open>
  A client does a part of its work at once and leaves the rest as items; whoever takes the items later
  must end up where doing all the work directly would have ended.
\<close>

fun work_all :: "('i \<Rightarrow> 's \<Rightarrow> 's option) \<Rightarrow> 'i list \<Rightarrow> 's \<Rightarrow> 's option" where
  "work_all work [] s = Some s"
| "work_all work (i # is) s = do { s \<leftarrow> work i s; work_all work is s }"

lemma work_all_append: "work_all work (is @ is') s = do { s \<leftarrow> work_all work is s; work_all work is' s }"
  by (induction "is" arbitrary: s) (auto split: bind_splits)

locale deferred_work =
  fixes ok :: "'s \<Rightarrow> bool" and produce :: "'d \<Rightarrow> 's \<Rightarrow> ('s \<times> 'i list) option" and work :: "'i \<Rightarrow> 's \<Rightarrow> 's option"
    and direct :: "'d \<Rightarrow> 's \<Rightarrow> 's option"
  assumes ok_produce: "ok s \<Longrightarrow> produce d s = Some (s', new) \<Longrightarrow> ok s'"
    and ok_work: "ok s \<Longrightarrow> work i s = Some s' \<Longrightarrow> ok s'"
    and at_once: "ok s \<Longrightarrow> produce d s = Some (s', new) \<Longrightarrow> work_all work new s' = direct d s"
    and commutes: "work i s = Some t \<Longrightarrow> produce d s = Some (s', new) \<Longrightarrow> \<exists>t'. produce d t = Some (t', new) \<and> work i s' = Some t'"
    and stuck: "work i s = None \<Longrightarrow> produce d s = Some (s', new) \<Longrightarrow> work i s' = None"
begin

lemma ok_all: "ok s \<Longrightarrow> work_all work is s = Some s' \<Longrightarrow> ok s'"
  by (induction "is" arbitrary: s) (auto intro: ok_work split: bind_splits)

text \<open>New work behind old work that is still pending.\<close>

lemma catches_up:
  "ok s \<Longrightarrow> produce d s = Some (s', new) \<Longrightarrow>
   work_all work (pending @ new) s' = do { s \<leftarrow> work_all work pending s; direct d s }"
proof (induction pending arbitrary: s s')
  case Nil
  then show ?case by (simp add: at_once)
next
  case (Cons i pending)
  show ?case
  proof (cases "work i s")
    case None
    with stuck [OF None Cons.prems(2)] show ?thesis by simp
  next
    case (Some t)
    obtain t' where "produce d t = Some (t', new)" "work i s' = Some t'"
      using commutes [OF Some Cons.prems(2)] by blast
    with Cons.IH [OF ok_work [OF Cons.prems(1) Some]] Some show ?thesis by simp
  qed
qed

end

section \<open>The queue\<close>

record AsyncLogItem =
  ai_logMessage :: LogMessage
  ai_dispatchAction :: DispatchAction
  ai_logLine :: string

text \<open>The front of an empty queue does not exist.\<close>

definition queue_next :: "AsyncLogItem list \<Rightarrow> (AsyncLogItem \<times> AsyncLogItem list) option" where
  "queue_next q = (case q of [] \<Rightarrow> None | item # q \<Rightarrow> Some (item, q))"

definition queue_push :: "AsyncLogItem \<Rightarrow> AsyncLogItem list \<Rightarrow> AsyncLogItem list" where
  "queue_push item q = q @ [item]"

definition queue_pop :: "AsyncLogItem list \<Rightarrow> AsyncLogItem list option" where
  "queue_pop q = (if q = [] then None else Some (tl q))"

definition queue_front :: "AsyncLogItem list \<Rightarrow> AsyncLogItem option" where
  "queue_front q = (if q = [] then None else Some (hd q))"

definition queue_empty :: "AsyncLogItem list \<Rightarrow> bool" where
  "queue_empty q \<longleftrightarrow> q = []"

section \<open>The handler\<close>

record 'f async =
  as_storage :: "'f Storage"
  as_queue :: "AsyncLogItem list"
  as_continueRunning :: bool

text \<open>A line that is coloured for the terminal is coloured in the queue as well.\<close>

definition async_handle :: "'f app_env \<Rightarrow> dispatch_data \<Rightarrow> 'f async \<Rightarrow> 'f async option" where
  "async_handle env data s =
     (let (msg, action) = data; st = as_storage s
      in do { lg \<leftarrow> the_logger (lm_logger msg) st;
              if \<not> lg_hasLogBuilder lg then None
              else do { logLine \<leftarrow> builder_build (app_log env) (st_customFormatSpecifiers st) lg msg (action = DA_NormalLog);
                        tc \<leftarrow> lg_typedConfigurations lg;
                        let shown = (action = DA_NormalLog \<and> tc_toStandardOutput (lm_level msg) tc);
                        let logLine = (if shown \<and> st_hasFlag ColoredTerminalOutput st
                                       then convertToColoredOutput (app_supportsColor env) logLine (lm_level msg) else logLine);
                        let s = (if shown then s\<lparr>as_storage := st\<lparr>st_stdout := st_stdout st @ logLine\<rparr>\<rparr> else s);
                        Some (if tc_toFile (lm_level msg) tc
                              then s\<lparr>as_queue := queue_push \<lparr>ai_logMessage = msg, ai_dispatchAction = action, ai_logLine = logLine\<rparr> (as_queue s)\<rparr>
                              else s) } })"

section \<open>The worker\<close>

definition worker_handle :: "'f app_env \<Rightarrow> AsyncLogItem \<Rightarrow> 'f Storage \<Rightarrow> 'f Storage option" where
  "worker_handle env item st =
     (let msg = ai_logMessage item
      in do { lg \<leftarrow> the_logger (lm_logger msg) st;
              if ai_dispatchAction item = DA_NormalLog then
                do { tc \<leftarrow> lg_typedConfigurations lg;
                     if tc_toFile (lm_level msg) tc then
                       do { r \<leftarrow> on_logger (lm_logger msg) (write_to_file (st_hasFlag ImmediateFlush st) (lm_level msg) (ai_logLine item)) (st_loggers st);
                            Some (st\<lparr>st_loggers := r\<rparr>) }
                     else Some st }
              else Some st })"

text \<open>Emptying the queue, when nothing is put into it meanwhile.\<close>

definition emptyQueue :: "'f app_env \<Rightarrow> 'f async \<Rightarrow> 'f async option" where
  "emptyQueue env s =
     do { st \<leftarrow> work_all (worker_handle env) (as_queue s) (as_storage s); Some (s\<lparr>as_storage := st, as_queue := []\<rparr>) }"

definition setContinueRunning :: "bool \<Rightarrow> 'f async \<Rightarrow> 'f async" where
  "setContinueRunning v s = s\<lparr>as_continueRunning := v\<rparr>"

definition continueRunning :: "'f async \<Rightarrow> bool" where
  "continueRunning s = as_continueRunning s"

definition mk_AsyncDispatchWorker :: "'f async \<Rightarrow> 'f async" where
  "mk_AsyncDispatchWorker s = setContinueRunning False s"

text \<open>
  The loop of the worker, with nobody else running: it may not return. \<open>start\<close> joins the thread that it
  makes. The wait of \<open>clean\<close> does not return while the queue is empty.
\<close>

partial_function (option) worker_run :: "'f app_env \<Rightarrow> 'f async \<Rightarrow> 'f async option" where
  "worker_run env s = (if continueRunning s then do { s \<leftarrow> emptyQueue env s; worker_run env s } else Some s)"

definition worker_start :: "'f app_env \<Rightarrow> 'f async \<Rightarrow> 'f async option" where
  "worker_start env s = worker_run env (setContinueRunning True s)"

definition worker_clean :: "'f app_env \<Rightarrow> 'f async \<Rightarrow> (bool \<times> 'f async) option" where
  "worker_clean env s =
     (if queue_empty (as_queue s) then None
      else do { s \<leftarrow> emptyQueue env s; Some (queue_empty (as_queue s), s) })"

definition worker_destroy :: "'f app_env \<Rightarrow> 'f async \<Rightarrow> 'f async option" where
  "worker_destroy env s = map_option snd (worker_clean env (setContinueRunning False s))"

lemma worker_run_ends:
  assumes "worker_run env s = Some t"
  shows "\<not> continueRunning s"
proof (rule worker_run.raw_induct [where P = "\<lambda>env s t. \<not> continueRunning s", OF _ assms])
  fix run :: "'a app_env \<Rightarrow> 'a async \<Rightarrow> 'a async option" and env s t
  assume ih: "\<And>env s t. run env s = Some t \<Longrightarrow> \<not> continueRunning s"
    and step: "(if continueRunning s then do { s \<leftarrow> emptyQueue env s; run env s } else Some s) = Some t"
  show "\<not> continueRunning s"
  proof
    assume on: "continueRunning s"
    with step obtain s' where "emptyQueue env s = Some s'" "run env s' = Some t"
      by (auto split: bind_splits)
    moreover from this on have "continueRunning s'"
      by (auto simp: emptyQueue_def continueRunning_def split: bind_splits)
    ultimately show False using ih by blast
  qed
qed

section \<open>Steps of the threads\<close>

text \<open>
  A logging thread dispatches a message; the worker, when its hands are free, takes an item from the queue;
  it writes the line of the item that it holds.
\<close>

type_synonym 'f threads = "'f async \<times> AsyncLogItem option"

inductive async_step :: "'f app_env \<Rightarrow> dispatch_data option \<Rightarrow> 'f threads \<Rightarrow> 'f threads \<Rightarrow> bool" for env where
  async_log: "async_handle env d s = Some s' \<Longrightarrow> async_step env (Some d) (s, h) (s', h)"
| async_take: "queue_next (as_queue s) = Some (item, q) \<Longrightarrow> async_step env None (s, None) (s\<lparr>as_queue := q\<rparr>, Some item)"
| async_write: "worker_handle env item (as_storage s) = Some st
    \<Longrightarrow> async_step env None (s, Some item) (s\<lparr>as_storage := st\<rparr>, None)"

inductive_cases async_stepE: "async_step env d (s, h) s'"

text \<open>A run, with the messages that it dispatches.\<close>

inductive async_run :: "'f app_env \<Rightarrow> dispatch_data list \<Rightarrow> 'f threads \<Rightarrow> 'f threads \<Rightarrow> bool" for env where
  run_nil: "async_run env [] s s"
| run_step: "async_run env ds s s' \<Longrightarrow> async_step env d s' s'' \<Longrightarrow> async_run env (ds @ (case d of None \<Rightarrow> [] | Some d \<Rightarrow> [d])) s s''"

text \<open>What the synchronous build does with the same messages.\<close>

fun sync_log :: "'f app_env \<Rightarrow> dispatch_data list \<Rightarrow> 'f Storage \<Rightarrow> 'f Storage option" where
  "sync_log env [] st = Some st"
| "sync_log env (d # ds) st = do { st \<leftarrow> default_handle env d st; sync_log env ds st }"

lemma sync_log_append: "sync_log env (ds @ ds') st = do { st \<leftarrow> sync_log env ds st; sync_log env ds' st }"
  by (induction ds arbitrary: st) (auto split: bind_splits)

lemma sync_log_one: "sync_log env [d] = default_handle env d"
  by (auto simp: fun_eq_iff split: bind_splits)

section \<open>The handler and the worker do not disturb each other\<close>

definition async_produce :: "'f app_env \<Rightarrow> dispatch_data \<Rightarrow> 'f Storage \<Rightarrow> ('f Storage \<times> AsyncLogItem list) option" where
  "async_produce env d st =
     map_option (\<lambda>s. (as_storage s, as_queue s)) (async_handle env d \<lparr>as_storage = st, as_queue = [], as_continueRunning = True\<rparr>)"

lemma async_handle_queue:
  "async_handle env d s = map_option (\<lambda>(st, new). s\<lparr>as_storage := st, as_queue := as_queue s @ new\<rparr>) (async_produce env d (as_storage s))"
  by (cases s) (auto simp: async_produce_def async_handle_def Let_def queue_push_def split: prod.splits bind_splits)

lemma isFlushNeeded_same: "isFlushNeeded level lg = Some (b, lg') \<Longrightarrow> same_but_counts lg lg'"
  by (auto simp: isFlushNeeded_def same_but_counts_def split: bind_splits)

lemma flush_level_same: "flush_level level fs lg = Some lg' \<Longrightarrow> same_but_counts lg lg'"
  by (auto simp: flush_level_def intro: same_but_counts_refl split: bind_splits if_splits)
    (auto simp: same_but_counts_def)

lemma write_to_file_same: "write_to_file imm level line (lg, w) = Some (lg', w') \<Longrightarrow> same_but_counts lg lg'"
  by (auto simp: write_to_file_def intro: same_but_counts_refl same_but_counts_trans dest!: isFlushNeeded_same flush_level_same
      split: bind_splits option.splits if_splits prod.splits)

lemma builder_same_counts:
  "same_but_counts lg lg' \<Longrightarrow> builder_build env specs lg' msg nl = builder_build env specs lg msg nl"
  by (auto simp: same_but_counts_def builder_ignores_counts)

text \<open>Storages that differ in the counts of the loggers and in the world only.\<close>

definition same_handling :: "'f Storage \<Rightarrow> 'f Storage \<Rightarrow> bool" where
  "same_handling st st' \<longleftrightarrow> (\<exists>r. st' = st\<lparr>st_loggers := r\<rparr>)
     \<and> (\<forall>p lg. the_logger p st = Some lg \<longrightarrow> (\<exists>lg'. the_logger p st' = Some lg' \<and> same_but_counts lg lg'))"

lemma on_logger_same:
  assumes "on_logger p g (st_loggers st) = Some r" and "\<And>lg w lg' w'. g (lg, w) = Some (lg', w') \<Longrightarrow> same_but_counts lg lg'"
  shows "same_handling st (st\<lparr>st_loggers := r\<rparr>)"
  using assms by (auto simp: same_handling_def on_logger_def the_logger_def intro: same_but_counts_refl split: bind_splits)

lemma same_handling_refl [intro]: "same_handling st st"
proof -
  have "st = st\<lparr>st_loggers := st_loggers st\<rparr>" by simp
  then show ?thesis unfolding same_handling_def by (blast intro: same_but_counts_refl)
qed

lemma worker_handle_same: "worker_handle env item st = Some st' \<Longrightarrow> same_handling st st'"
  by (auto simp: worker_handle_def Let_def elim!: on_logger_same write_to_file_same split: bind_splits if_splits)

lemma stdout_handling [simp]:
  "the_logger p (st\<lparr>st_stdout := x\<rparr>) = the_logger p st" "st_hasFlag fl (st\<lparr>st_stdout := x\<rparr>) = st_hasFlag fl st"
  "st_hasFlag fl (st\<lparr>st_loggers := r\<rparr>) = st_hasFlag fl st"
  by (simp_all add: the_logger_def st_hasFlag_def)

lemma worker_stdout:
  "worker_handle env item (st\<lparr>st_stdout := x\<rparr>) = map_option (\<lambda>t. t\<lparr>st_stdout := x\<rparr>) (worker_handle env item st)"
  by (auto simp: worker_handle_def Let_def split: bind_splits)

lemma async_produce_form:
  assumes "async_produce env d st = Some (st', new)"
  shows "\<exists>x. st' = st\<lparr>st_stdout := st_stdout st @ x\<rparr>
     \<and> (\<forall>t. same_handling st t \<longrightarrow> async_produce env d t = Some (t\<lparr>st_stdout := st_stdout t @ x\<rparr>, new))"
proof -
  obtain msg action where d: "d = (msg, action)" by (cases d)
  obtain lg line tc where lg: "the_logger (lm_logger msg) st = Some lg" "lg_hasLogBuilder lg"
    "builder_build (app_log env) (st_customFormatSpecifiers st) lg msg (action = DA_NormalLog) = Some line"
    "lg_typedConfigurations lg = Some tc"
    using assms by (auto simp: async_produce_def async_handle_def d split: bind_splits if_splits)
  let ?shown = "action = DA_NormalLog \<and> tc_toStandardOutput (lm_level msg) tc"
  define out where "out = (if ?shown \<and> st_hasFlag ColoredTerminalOutput st
    then convertToColoredOutput (app_supportsColor env) line (lm_level msg) else line)"
  define x where "x = (if ?shown then out else [])"
  define new' where "new' = (if tc_toFile (lm_level msg) tc
    then [\<lparr>ai_logMessage = msg, ai_dispatchAction = action, ai_logLine = out\<rparr>] else [])"
  have run: "async_produce env d t = Some (t\<lparr>st_stdout := st_stdout t @ x\<rparr>, new')" if t: "same_handling st t" for t
  proof -
    obtain r where r: "t = st\<lparr>st_loggers := r\<rparr>" using t by (auto simp: same_handling_def)
    obtain lg' where lg': "the_logger (lm_logger msg) t = Some lg'" and same: "same_but_counts lg lg'"
      using t lg(1) by (auto simp: same_handling_def)
    have "lg_hasLogBuilder lg'" "lg_typedConfigurations lg' = Some tc"
      using same lg by (auto simp: same_but_counts_def)
    moreover have "st_hasFlag ColoredTerminalOutput t = st_hasFlag ColoredTerminalOutput st"
      "st_customFormatSpecifiers t = st_customFormatSpecifiers st" by (simp_all add: r st_hasFlag_def)
    moreover have "builder_build (app_log env) (st_customFormatSpecifiers st) lg' msg (action = DA_NormalLog) = Some line"
      by (simp add: builder_same_counts [OF same] lg(3))
    ultimately show ?thesis
      by (simp add: async_produce_def async_handle_def d lg' Let_def queue_push_def out_def x_def new'_def)
  qed
  from run [of st] assms have "st' = st\<lparr>st_stdout := st_stdout st @ x\<rparr>" "new = new'" by auto
  with run show ?thesis by blast
qed

definition uncoloured :: "'f app_env \<Rightarrow> 'f Storage \<Rightarrow> bool" where
  "uncoloured env st \<longleftrightarrow> (st_hasFlag ColoredTerminalOutput st \<longrightarrow> \<not> app_supportsColor env)"

lemma produce_at_once:
  assumes "uncoloured env st" and "async_produce env d st = Some (st', new)"
  shows "work_all (worker_handle env) new st' = default_handle env d st"
proof -
  obtain msg action where d: "d = (msg, action)" by (cases d)
  obtain lg line tc where lg: "the_logger (lm_logger msg) st = Some lg" "lg_hasLogBuilder lg"
    "builder_build (app_log env) (st_customFormatSpecifiers st) lg msg (action = DA_NormalLog) = Some line"
    "lg_typedConfigurations lg = Some tc"
    using assms by (auto simp: async_produce_def async_handle_def d split: bind_splits if_splits)
  have plain: "st_hasFlag ColoredTerminalOutput st \<Longrightarrow> convertToColoredOutput (app_supportsColor env) line level = line" for level
    using assms(1) by (simp add: uncoloured_def convertToColoredOutput_def)
  show ?thesis
    using assms(2) lg
    by (cases "on_logger (lm_logger msg) (write_to_file (st_hasFlag ImmediateFlush st) (lm_level msg) line) (st_loggers st)")
      (auto simp: async_produce_def async_handle_def d default_handle_def dispatch_line_def worker_handle_def Let_def queue_push_def
        plain cong: if_cong)
qed

interpretation dispatching: deferred_work "uncoloured env" "async_produce env" "worker_handle env" "default_handle env" for env
proof (unfold_locales, goal_cases)
  case (1 s d s' new)
  then show ?case by (auto simp: uncoloured_def dest!: async_produce_form)
next
  case (2 s i s')
  then show ?case by (auto simp: uncoloured_def same_handling_def st_hasFlag_def dest!: worker_handle_same)
next
  case (3 s d s' new)
  then show ?case by (rule produce_at_once)
next
  case (4 i s t d s' new)
  from async_produce_form [OF 4(2)] worker_handle_same [OF 4(1)] obtain x where
    x: "s' = s\<lparr>st_stdout := st_stdout s @ x\<rparr>" "async_produce env d t = Some (t\<lparr>st_stdout := st_stdout t @ x\<rparr>, new)" by blast
  have "st_stdout t = st_stdout s" using worker_handle_same [OF 4(1)] by (auto simp: same_handling_def)
  with x 4(1) show ?case by (simp add: worker_stdout)
next
  case (5 i s d s' new)
  then show ?case by (auto simp: worker_stdout dest!: async_produce_form)
qed

text \<open>What remains for the worker: the item that it holds, and the queue.\<close>

definition pending :: "'f threads \<Rightarrow> AsyncLogItem list" where
  "pending s = (case snd s of None \<Rightarrow> [] | Some item \<Rightarrow> [item]) @ as_queue (fst s)"

definition finished :: "'f app_env \<Rightarrow> 'f threads \<Rightarrow> 'f Storage option" where
  "finished env s = work_all (worker_handle env) (pending s) (as_storage (fst s))"

lemma step_finished:
  assumes "async_step env d s s'" and "uncoloured env (as_storage (fst s))"
  shows "finished env s' = Option.bind (finished env s) (sync_log env (case d of None \<Rightarrow> [] | Some d \<Rightarrow> [d]))"
    and "uncoloured env (as_storage (fst s'))"
  using assms
proof (induction rule: async_step.induct)
  case (async_log d s s' h)
  from async_log(1) obtain st new where new: "async_produce env d (as_storage s) = Some (st, new)"
    and s': "s' = s\<lparr>as_storage := st, as_queue := as_queue s @ new\<rparr>" by (auto simp: async_handle_queue)
  { case 1
    then show ?case
      using dispatching.catches_up [OF _ new, of "pending (s, h)"]
      by (simp add: finished_def pending_def s' sync_log_one del: sync_log.simps) }
  { case 2
    then show ?case using dispatching.ok_produce [OF _ new] by (simp add: s') }
next
  case (async_take s item q)
  { case 1
    show ?case using async_take by (auto simp: finished_def pending_def queue_next_def split: list.splits bind_splits) }
  { case 2
    then show ?case by simp }
next
  case (async_write item s st)
  { case 1
    show ?case using async_write by (auto simp: finished_def pending_def split: bind_splits) }
  { case 2
    then show ?case using dispatching.ok_work [OF _ async_write] by simp }
qed

lemma run_finished:
  assumes "async_run env ds s s'" and "uncoloured env (as_storage (fst s))"
  shows "finished env s' = Option.bind (finished env s) (sync_log env ds) \<and> uncoloured env (as_storage (fst s'))"
  using assms
proof (induction rule: async_run.induct)
  case (run_nil s)
  then show ?case by (cases "finished env s") simp_all
next
  case (run_step ds s s' d s'')
  then show ?case
    using step_finished [OF run_step(2)] by (cases "finished env s") (simp_all add: sync_log_append)
qed

section \<open>Every interleaving ends as the synchronous build does\<close>

text \<open>
  C35. However the threads interleave: when the queue is empty and the worker holds nothing, the storage, with
  its files, its terminal and its counts, is the one that dispatching the same messages synchronously leaves,
  unless the terminal shows colours.
\<close>
theorem async_refines_sync:
  assumes "async_run env ds (s, None) (s', None)" and "as_queue s = []" "as_queue s' = []"
    and "st_hasFlag ColoredTerminalOutput (as_storage s) \<longrightarrow> \<not> app_supportsColor env"
  shows "sync_log env ds (as_storage s) = Some (as_storage s')"
  using run_finished [OF assms(1)] assms(2-4) by (simp add: finished_def pending_def uncoloured_def)

lemma worker_alone:
  "work_all (worker_handle env) q (as_storage s) = Some st \<Longrightarrow> as_queue s = q \<Longrightarrow>
   async_run env ds s0 (s, None) \<Longrightarrow> async_run env ds s0 (s\<lparr>as_storage := st, as_queue := []\<rparr>, None)"
proof (induction q arbitrary: s)
  case Nil
  then have same: "s\<lparr>as_storage := st, as_queue := []\<rparr> = s" by (cases s) simp
  show ?case unfolding same by (rule Nil(3))
next
  case (Cons item q)
  from Cons.prems(1) obtain st1 where st1: "worker_handle env item (as_storage s) = Some st1"
    "work_all (worker_handle env) q st1 = Some st" by (auto split: bind_splits)
  have "async_run env (ds @ []) s0 (s\<lparr>as_queue := q\<rparr>, Some item)"
    using run_step [OF Cons.prems(3) async_take [of s item q]] Cons.prems(2) by (simp add: queue_next_def)
  moreover have "async_step env None (s\<lparr>as_queue := q\<rparr>, Some item) (s\<lparr>as_queue := q, as_storage := st1\<rparr>, None)"
    by (rule async_write) (simp add: st1(1))
  ultimately have "async_run env ((ds @ []) @ []) s0 (s\<lparr>as_queue := q, as_storage := st1\<rparr>, None)"
    using run_step [of env "ds @ []" s0 "(s\<lparr>as_queue := q\<rparr>, Some item)" None] by force
  with Cons.IH [of "s\<lparr>as_queue := q, as_storage := st1\<rparr>"] st1(2) show ?case by simp
qed



text \<open>
  C38. With coloured output the asynchronous build writes the codes of the colours into the log file, while the
  synchronous one writes the plain line there.
\<close>
theorem async_file_coloured:
  assumes r: "loggers_ready (app_log env) (st_loggers st)" and p: "reg_get lid (rl_list (st_loggers st)) = Some a"
    and lg: "rl_map (st_loggers st) lid = Some lg" and msg: "lm_logger msg = Some a" and level: "lm_level msg \<in> set walked_levels"
    and line: "builder_build (app_log env) (st_customFormatSpecifiers st) lg msg True = Some line"
    and tc: "lg_typedConfigurations lg = Some tc" "tc_toFile (lm_level msg) tc" "tc_toStandardOutput (lm_level msg) tc"
    and on: "st_hasFlag ColoredTerminalOutput st"
  shows "\<exists>s item st1 st2. async_handle env (msg, DA_NormalLog) \<lparr>as_storage = st, as_queue = [], as_continueRunning = b\<rparr> = Some s
     \<and> as_queue s = [item] \<and> worker_handle env item (as_storage s) = Some st1 \<and> default_handle env (msg, DA_NormalLog) st = Some st2
     \<and> rl_world (st_loggers st1) = appended (target_file (lm_level msg) lg (rl_world (st_loggers st)))
         (convertToColoredOutput (app_supportsColor env) line (lm_level msg)) (rl_world (st_loggers st))
     \<and> rl_world (st_loggers st2) = appended (target_file (lm_level msg) lg (rl_world (st_loggers st))) line (rl_world (st_loggers st))"
proof -
  let ?w = "rl_world (st_loggers st)" and ?l = "lm_level msg"
  let ?out = "convertToColoredOutput (app_supportsColor env) line ?l"
  let ?item = "\<lparr>ai_logMessage = msg, ai_dispatchAction = DA_NormalLog, ai_logLine = ?out\<rparr>"
  let ?s = "\<lparr>as_storage = st\<lparr>st_stdout := st_stdout st @ ?out\<rparr>, as_queue = [?item], as_continueRunning = b\<rparr>"
  have ready: "registry_ready (app_log env) (st_loggers st)" and builder: "lg_hasLogBuilder lg"
    using r lg by (auto simp: loggers_ready_def registry_live_def)
  have cell: "the_logger (Some a) st = Some lg"
    using rl_map_Some [OF ready p] lg by (auto simp: the_logger_def)
  obtain st2 where st2: "default_handle env (msg, DA_NormalLog) st = Some st2" "rl_world (st_loggers st2) = appended (target_file ?l lg ?w) line ?w"
    using default_handle_ready [OF r p lg msg level line] by (auto simp: line_written_def changed_logger_def)
  have put: "async_handle env (msg, DA_NormalLog) \<lparr>as_storage = st, as_queue = [], as_continueRunning = b\<rparr> = Some ?s"
    by (simp add: async_handle_def msg cell builder line tc on queue_push_def Let_def)
  obtain r' where r': "on_logger (Some a) (write_to_file (st_hasFlag ImmediateFlush st) ?l ?out) (st_loggers st) = Some r'"
    "rl_world r' = appended (target_file ?l lg ?w) ?out ?w"
    using write_line_ready [OF r p lg level tc(1), of "st_hasFlag ImmediateFlush st" ?out] tc(2) by (auto simp: changed_logger_def)
  have "worker_handle env ?item (as_storage ?s) = Some (st\<lparr>st_stdout := st_stdout st @ ?out, st_loggers := r'\<rparr>)"
    by (simp add: worker_handle_def msg cell tc r'(1) Let_def)
  with put st2 r'(2) show ?thesis
    by (intro exI [of _ ?s] exI [of _ ?item] exI [of _ "st\<lparr>st_stdout := st_stdout st @ ?out, st_loggers := r'\<rparr>"] exI [of _ st2]) simp
qed

section \<open>Samples\<close>

definition sample_async_message :: "nat \<Rightarrow> LogMessage" where
  "sample_async_message a = \<lparr>lm_level = L_Error, lm_file = ''vmEntry.cpp'', lm_line = 32, lm_func = ''init'', lm_verboseLevel = 0,
     lm_logger = Some a, lm_message = ''Agent loaded''\<rparr>"

lemma sample_dispatch:
  obtains st a lg line tc where "mk_Storage (app_log sample_app) sample_world = Some st"
    "loggers_ready (app_log sample_app) (st_loggers st)" "reg_get kDefaultLoggerId (rl_list (st_loggers st)) = Some a"
    "rl_map (st_loggers st) kDefaultLoggerId = Some lg" "\<not> st_hasFlag ColoredTerminalOutput st"
    "builder_build (app_log sample_app) (st_customFormatSpecifiers st) lg (sample_async_message a) True = Some line"
    "lg_typedConfigurations lg = Some tc" "tc_toFile L_Error tc" "tc_toStandardOutput L_Error tc"
proof -
  obtain st a lg where st: "mk_Storage (app_log sample_app) sample_world = Some st" "log_ready sample_app st"
    "st_flags st = flag_int AllowVerboseIfModuleNotSpecified"
    "reg_get kDefaultLoggerId (rl_list (st_loggers st)) = Some a" "rl_map (st_loggers st) kDefaultLoggerId = Some lg"
    using sample_storage by metis
  have plain: "\<not> st_hasFlag ColoredTerminalOutput st" unfolding st_hasFlag_def st(3) by code_simp
  have "L_Error \<in> set walked_levels" "NUL \<notin> set ''vmEntry.cpp''" by code_simp+
  then obtain line where line: "statement_line sample_app (mk_Writer L_Error ''vmEntry.cpp'' 32 ''init'' DA_NormalLog 0) (Some a)
      ''Agent loaded'' lg st = Some line"
    using line_exists [OF st(2,5), of "mk_Writer L_Error ''vmEntry.cpp'' 32 ''init'' DA_NormalLog 0"] by auto
  then have line: "builder_build (app_log sample_app) (st_customFormatSpecifiers st) lg (sample_async_message a) True = Some line"
    by (simp add: statement_line_def mk_LogMessage_def sample_async_message_def mk_Writer_def)
  have "\<exists>l. rl_map (st_loggers st) kDefaultLoggerId = Some (l\<lparr>lg_hasLogBuilder := True\<rparr>) \<and> to_default (rl_world (st_loggers st)) l"
    using new_storage_default [OF sample_world_ok sample_world_facts st(1)] by blast
  then obtain tc where "lg_typedConfigurations lg = Some tc" "tc_toFile L_Error tc" "tc_toStandardOutput L_Error tc"
    using st(5) by (auto simp: to_default_def)
  with st log_readyD(1) [OF st(2)] plain line show thesis by (intro that [of st a lg line tc])
qed

lemma builder_typed: "builder_build env specs lg msg nl = Some line \<Longrightarrow> \<exists>tc. lg_typedConfigurations lg = Some tc"
  by (cases "lg_typedConfigurations lg") (simp_all add: builder_build_def)

lemma produce_total: "default_handle env d st = Some st' \<Longrightarrow> \<exists>x. async_produce env d st = Some x"
  by (cases d) (auto simp: default_handle_def async_produce_def async_handle_def Let_def split: bind_splits if_splits dest: builder_typed)

text \<open>One message that is logged and then written by the worker.\<close>

lemma sample_run:
  obtains st st2 d s where "mk_Storage (app_log sample_app) sample_world = Some st" "sync_log sample_app [d] st = Some st2"
    "async_run sample_app [d] (\<lparr>as_storage = st, as_queue = [], as_continueRunning = True\<rparr>, None) (s, None)"
    "\<not> st_hasFlag ColoredTerminalOutput st"
proof -
  obtain st a lg line tc where st: "mk_Storage (app_log sample_app) sample_world = Some st"
    "loggers_ready (app_log sample_app) (st_loggers st)" "reg_get kDefaultLoggerId (rl_list (st_loggers st)) = Some a"
    "rl_map (st_loggers st) kDefaultLoggerId = Some lg" "\<not> st_hasFlag ColoredTerminalOutput st"
    "builder_build (app_log sample_app) (st_customFormatSpecifiers st) lg (sample_async_message a) True = Some line"
    using sample_dispatch by metis
  have msg: "lm_logger (sample_async_message a) = Some a" "lm_level (sample_async_message a) \<in> set walked_levels"
    by (simp_all add: sample_async_message_def walked_levels_def)
  let ?d = "(sample_async_message a, DA_NormalLog)" and ?s = "\<lparr>as_storage = st, as_queue = [], as_continueRunning = True\<rparr>"
  obtain st2 where st2: "default_handle sample_app ?d st = Some st2"
    using default_handle_ready [OF st(2-4) msg st(6)] by blast
  obtain st1 new where "async_produce sample_app ?d st = Some (st1, new)"
    using produce_total [OF st2] by (metis surj_pair)
  then have "async_handle sample_app ?d ?s = Some (?s\<lparr>as_storage := st1, as_queue := new\<rparr>)"
    by (simp add: async_handle_queue)
  from run_step [OF run_nil async_log [OF this], of None]
  have "async_run sample_app [?d] (?s, None) (?s\<lparr>as_storage := st1, as_queue := new\<rparr>, None)" by simp
  with st(1,5) st2 that show thesis by (simp add: sync_log_one del: sync_log.simps)
qed


lemma async_refines_sync_witness:
  "\<exists>st d s. mk_Storage (app_log sample_app) sample_world = Some st
     \<and> async_run sample_app [d] (\<lparr>as_storage = st, as_queue = [], as_continueRunning = True\<rparr>, None) (s, None)
     \<and> as_queue s = [] \<and> sync_log sample_app [d] st = Some (as_storage s)"
proof -
  obtain st st2 d s where st: "mk_Storage (app_log sample_app) sample_world = Some st" "sync_log sample_app [d] st = Some st2"
    "async_run sample_app [d] (\<lparr>as_storage = st, as_queue = [], as_continueRunning = True\<rparr>, None) (s, None)"
    "\<not> st_hasFlag ColoredTerminalOutput st"
    by (rule sample_run)
  have "finished sample_app (s, None) = Some st2"
    using run_finished [OF st(3)] st(2,4) by (simp add: finished_def pending_def uncoloured_def del: sync_log.simps)
  then have "work_all (worker_handle sample_app) (as_queue s) (as_storage s) = Some st2"
    by (simp add: finished_def pending_def)
  from worker_alone [OF this refl st(3)]
  have run: "async_run sample_app [d] (\<lparr>as_storage = st, as_queue = [], as_continueRunning = True\<rparr>, None)
      (s\<lparr>as_storage := st2, as_queue := []\<rparr>, None)" .
  from async_refines_sync [OF run] st(4)
  have "sync_log sample_app [d] st = Some (as_storage (s\<lparr>as_storage := st2, as_queue := []\<rparr>))" by (simp del: sync_log.simps)
  with st(1) run show ?thesis
    by (intro exI [of _ st] exI [of _ d] exI [of _ "s\<lparr>as_storage := st2, as_queue := []\<rparr>"]) (simp del: sync_log.simps)
qed

lemma async_file_coloured_witness:
  "\<exists>st msg s item st1 st2 line file w. async_handle (sample_app\<lparr>app_supportsColor := True\<rparr>) (msg, DA_NormalLog)
         \<lparr>as_storage = st, as_queue = [], as_continueRunning = True\<rparr> = Some s
     \<and> as_queue s = [item] \<and> worker_handle (sample_app\<lparr>app_supportsColor := True\<rparr>) item (as_storage s) = Some st1
     \<and> default_handle (sample_app\<lparr>app_supportsColor := True\<rparr>) (msg, DA_NormalLog) st = Some st2
     \<and> rl_world (st_loggers st1) = appended file (ESC # ''[31m'' @ line @ ESC # ''[0m'') w
     \<and> rl_world (st_loggers st2) = appended file line w"
proof -
  obtain st0 a lg line tc where st: "mk_Storage (app_log sample_app) sample_world = Some st0"
    "loggers_ready (app_log sample_app) (st_loggers st0)" "reg_get kDefaultLoggerId (rl_list (st_loggers st0)) = Some a"
    "rl_map (st_loggers st0) kDefaultLoggerId = Some lg" "\<not> st_hasFlag ColoredTerminalOutput st0"
    "builder_build (app_log sample_app) (st_customFormatSpecifiers st0) lg (sample_async_message a) True = Some line"
    "lg_typedConfigurations lg = Some tc" "tc_toFile L_Error tc" "tc_toStandardOutput L_Error tc"
    by (rule sample_dispatch)
  let ?env = "sample_app\<lparr>app_supportsColor := True\<rparr>" and ?st = "st0\<lparr>st_flags := flag_int ColoredTerminalOutput\<rparr>"
  have on: "st_hasFlag ColoredTerminalOutput ?st" by (simp add: st_hasFlag_def del: flag_int.simps) code_simp
  have msg: "lm_logger (sample_async_message a) = Some a" "lm_level (sample_async_message a) = L_Error"
    "lm_level (sample_async_message a) \<in> set walked_levels"
    by (simp_all add: sample_async_message_def walked_levels_def)
  have red: "convertToColoredOutput True line L_Error = ESC # ''[31m'' @ line @ ESC # ''[0m''"
    by (simp add: convertToColoredOutput_def)
  have "\<exists>s item st1 st2. async_handle ?env (sample_async_message a, DA_NormalLog) \<lparr>as_storage = ?st, as_queue = [], as_continueRunning = True\<rparr> = Some s
     \<and> as_queue s = [item] \<and> worker_handle ?env item (as_storage s) = Some st1 \<and> default_handle ?env (sample_async_message a, DA_NormalLog) ?st = Some st2
     \<and> rl_world (st_loggers st1) = appended (target_file (lm_level (sample_async_message a)) lg (rl_world (st_loggers ?st)))
         (convertToColoredOutput (app_supportsColor ?env) line (lm_level (sample_async_message a))) (rl_world (st_loggers ?st))
     \<and> rl_world (st_loggers st2) = appended (target_file (lm_level (sample_async_message a)) lg (rl_world (st_loggers ?st))) line
         (rl_world (st_loggers ?st))"
    by (rule async_file_coloured [of ?env ?st kDefaultLoggerId a lg "sample_async_message a" line tc True])
      (use st on msg in simp_all)
  then show ?thesis
    unfolding msg(2) by (simp add: red) blast
qed

end
