(* ===== verification/ElContainers.thy ===== *)
theory ElContainers
  imports ElStatement
begin

text \<open>
  The containers that the message builder can write in builds with \<open>ELPP_STL_LOGGING\<close> and \<open>ELPP_QT_LOGGING\<close>
  (\<open>easylogging.h\<close>, lines 4533 to 4603 and 4665 to 4854), and the macro for the containers of a program
  (lines 4874 to 4891). The containers are given by the sequences that they yield: a queue or a stack by
  its elements in the order in which they are popped, a map by its keys and its look-up.
\<close>

section \<open>Queues\<close>

text \<open>
  A queue is copied element by element, front first, into a container that can be iterated; the count is
  raised before it is compared.
\<close>

fun copy_queue :: "nat \<Rightarrow> 'a list \<Rightarrow> 'a list \<Rightarrow> 'a list" where
  "copy_queue cnt [] c = c"
| "copy_queue cnt (x # queue) c =
     (if cnt + 1 < kMaxLogPerContainer then copy_queue (cnt + 1) queue (c @ [x]) else c)"

definition IterableQueue :: "'a list \<Rightarrow> 'a list" where
  "IterableQueue queue = copy_queue 0 queue []"

definition IterableStack :: "'a list \<Rightarrow> 'a list" where
  "IterableStack queue = copy_queue 0 queue []"

text \<open>Where an element goes in the array of a heap is the business of the library.\<close>

fun copy_heap :: "('a list \<Rightarrow> 'a \<Rightarrow> 'a list) \<Rightarrow> nat \<Rightarrow> 'a list \<Rightarrow> 'a list \<Rightarrow> 'a list" where
  "copy_heap push cnt [] c = c"
| "copy_heap push cnt (x # queue) c =
     (if cnt + 1 < kMaxLogPerContainer then copy_heap push (cnt + 1) queue (push c x) else c)"

definition IterablePriorityQueue :: "('a list \<Rightarrow> 'a \<Rightarrow> 'a list) \<Rightarrow> 'a list \<Rightarrow> 'a list" where
  "IterablePriorityQueue push queue = copy_heap push 0 queue []"

section \<open>Writing containers\<close>

text \<open>The macros for one to five template parameters differ in these only.\<close>

definition iterator_container_log :: "MessageBuilder \<Rightarrow> log_value list \<Rightarrow> 'f Storage \<Rightarrow> 'f Storage option" where
  "iterator_container_log b template_inst = mb_write b (V_seq template_inst)"

definition write_queue :: "MessageBuilder \<Rightarrow> log_value list \<Rightarrow> 'f Storage \<Rightarrow> 'f Storage option" where
  "write_queue b queue = mb_write b (V_seq (IterableQueue queue))"

definition write_stack :: "MessageBuilder \<Rightarrow> log_value list \<Rightarrow> 'f Storage \<Rightarrow> 'f Storage option" where
  "write_stack b queue = mb_write b (V_seq (IterableStack queue))"

definition write_priority_queue :: "(log_value list \<Rightarrow> log_value \<Rightarrow> log_value list) \<Rightarrow> MessageBuilder \<Rightarrow> log_value list
    \<Rightarrow> 'f Storage \<Rightarrow> 'f Storage option" where
  "write_priority_queue push b queue = mb_write b (V_seq (IterablePriorityQueue push queue))"

definition write_pair :: "MessageBuilder \<Rightarrow> log_value \<times> log_value \<Rightarrow> 'f Storage \<Rightarrow> 'f Storage option" where
  "write_pair b pair st =
     do { st \<leftarrow> stream_add (mb_logger b) ''('' st;
          st \<leftarrow> mb_write b (fst pair) st;
          st \<leftarrow> stream_add (mb_logger b) '', '' st;
          st \<leftarrow> mb_write b (snd pair) st;
          stream_add (mb_logger b) '')'' st }"

definition write_bitset :: "MessageBuilder \<Rightarrow> bool list \<Rightarrow> 'f Storage \<Rightarrow> 'f Storage option" where
  "write_bitset b bits st =
     do { st \<leftarrow> stream_add (mb_logger b) ''['' st;
          st \<leftarrow> mb_write b (V_string (map (\<lambda>v. if v then CHR ''1'' else CHR ''0'') bits)) st;
          stream_add (mb_logger b) '']'' st }"

text \<open>The texts of Qt are written without the blank of \<open>AutoSpacing\<close>.\<close>

definition write_QString :: "MessageBuilder \<Rightarrow> string \<Rightarrow> 'f Storage \<Rightarrow> 'f Storage option" where
  "write_QString b msg = stream_add (mb_logger b) msg"

definition write_qint64 :: "MessageBuilder \<Rightarrow> int \<Rightarrow> 'f Storage \<Rightarrow> 'f Storage option" where
  "write_qint64 b msg = stream_add (mb_logger b) (int_text msg)"

text \<open>A map: its keys in order, each with the value that is looked up.\<close>

fun write_entries :: "MessageBuilder \<Rightarrow> (log_value \<Rightarrow> log_value) \<Rightarrow> nat \<Rightarrow> nat \<Rightarrow> log_value list \<Rightarrow> 'f Storage
    \<Rightarrow> (log_value list \<times> 'f Storage) option" where
  "write_entries b lookup i n [] st = Some ([], st)"
| "write_entries b lookup i n (k # ks) st =
     (if i < kMaxLogPerContainer then
        do { st \<leftarrow> stream_add (mb_logger b) ''('' st;
             st \<leftarrow> mb_write b k st;
             st \<leftarrow> stream_add (mb_logger b) '', '' st;
             st \<leftarrow> mb_write b (lookup k) st;
             st \<leftarrow> stream_add (mb_logger b) '')'' st;
             st \<leftarrow> stream_add (mb_logger b) (if i < n - 1 then mb_separator b else []) st;
             write_entries b lookup (i + 1) n ks st }
      else Some (k # ks, st))"

definition write_QMap :: "MessageBuilder \<Rightarrow> log_value list \<Rightarrow> (log_value \<Rightarrow> log_value) \<Rightarrow> 'f Storage \<Rightarrow> 'f Storage option" where
  "write_QMap b keys lookup st =
     do { st \<leftarrow> stream_add (mb_logger b) ''['' st;
          (rest, st) \<leftarrow> write_entries b lookup 0 (length keys) keys st;
          st \<leftarrow> (if rest \<noteq> [] then stream_add (mb_logger b) ''...'' st else Some st);
          stream_add (mb_logger b) '']'' st }"

definition write_QHash :: "MessageBuilder \<Rightarrow> log_value list \<Rightarrow> (log_value \<Rightarrow> log_value) \<Rightarrow> 'f Storage \<Rightarrow> 'f Storage option" where
  "write_QHash b keys lookup st =
     do { st \<leftarrow> stream_add (mb_logger b) ''['' st;
          (rest, st) \<leftarrow> write_entries b lookup 0 (length keys) keys st;
          st \<leftarrow> (if rest \<noteq> [] then stream_add (mb_logger b) ''...'' st else Some st);
          stream_add (mb_logger b) '']'' st }"

text \<open>
  The macro for the containers of a program writes into any stream, here a text; an element is
  given by its own text.
\<close>

fun friendly_loop :: "string \<Rightarrow> nat \<Rightarrow> nat \<Rightarrow> string list \<Rightarrow> string \<Rightarrow> string list \<times> string" where
  "friendly_loop sep i n [] ss = ([], ss)"
| "friendly_loop sep i n (elem # es) ss =
     (if i < kMaxLogPerContainer then friendly_loop sep (i + 1) n es ((ss @ elem) @ (if i < n - 1 then sep else []))
      else (elem # es, ss))"

definition container_friendly :: "enum_t \<Rightarrow> string list \<Rightarrow> string \<Rightarrow> string" where
  "container_friendly flags es ss =
     (let sep = (if hasFlag (flag_int NewLineForContainer) flags then NEWLINE # ''    '' else '', '');
          (rest, ss) = friendly_loop sep 0 (length es) es (ss @ ''['');
          ss = (if rest \<noteq> [] then ss @ ''...'' else ss)
      in ss @ '']'')"

section \<open>Their texts\<close>

lemma stream_then:
  assumes "\<And>st'. stream_add p a st = Some st' \<Longrightarrow> f st' = stream_add p t st'"
  shows "Option.bind (stream_add p a st) f = stream_add p (a @ t) st"
proof (cases "stream_add p a st")
  case None
  then show ?thesis by (simp add: stream_add_None stream_add_stuck)
next
  case (Some st')
  then show ?thesis by (simp add: assms stream_add_split)
qed

lemma write_pair_text:
  "write_pair b pair st = stream_add (mb_logger b) (''('' @ value_text (st_hasFlag AutoSpacing st) (mb_separator b) (fst pair) @ '', ''
     @ value_text (st_hasFlag AutoSpacing st) (mb_separator b) (snd pair) @ '')'') st"
  unfolding write_pair_def mb_write_text(1) by (intro stream_then) (simp_all add: stream_then)

lemma write_bitset_text:
  "write_bitset b bits st = stream_add (mb_logger b) (''['' @ value_text (st_hasFlag AutoSpacing st) (mb_separator b)
     (V_string (map (\<lambda>v. if v then CHR ''1'' else CHR ''0'') bits)) @ '']'') st"
  unfolding write_bitset_def mb_write_text(1) by (intro stream_then) (simp_all add: stream_then)

text \<open>The copy of a queue has at most 99 elements.\<close>

lemma copy_queue_take: "copy_queue cnt q c = c @ take (kMaxLogPerContainer - 1 - cnt) q"
  by (induction cnt q c rule: copy_queue.induct) (auto simp: take_Cons' kMaxLogPerContainer_def)

text \<open>
  C39. A queue is written as its first 99 elements between brackets, whatever its length: a longer one is cut
  without the dots that every other container gets.
\<close>
theorem queue_cut:
  "write_queue b queue st = stream_add (mb_logger b)
     (''['' @ join (mb_separator b) (map (value_text (st_hasFlag AutoSpacing st) (mb_separator b)) (take 99 queue)) @ '']''
       @ (if st_hasFlag AutoSpacing st then '' '' else [])) st"
proof -
  have copy: "IterableQueue queue = take 99 queue"
    by (simp only: IterableQueue_def copy_queue_take append_Nil) (simp add: kMaxLogPerContainer_def)
  have short: "length (map f (take 99 queue)) \<le> kMaxLogPerContainer" for f :: "log_value \<Rightarrow> string"
    by (simp add: kMaxLogPerContainer_def)
  show ?thesis
    unfolding write_queue_def copy mb_write_text(1) value_text.simps Let_def if_P [OF short] append_assoc ..
qed

lemma stack_cut: "write_stack b queue = write_queue b queue"
  by (simp add: fun_eq_iff write_stack_def write_queue_def IterableStack_def IterableQueue_def)

text \<open>A container of any kind as a text: cut after 100 elements, with dots.\<close>

definition container_text :: "string \<Rightarrow> string list \<Rightarrow> string" where
  "container_text sep ts = ''['' @ (if length ts \<le> kMaxLogPerContainer then join sep ts
     else concat (map (\<lambda>t. t @ sep) (take kMaxLogPerContainer ts)) @ ''...'') @ '']''"

lemma element_texts_container:
  "container_text sep ts = ''['' @ element_texts sep 0 (length ts) (take kMaxLogPerContainer ts)
     @ (if drop kMaxLogPerContainer ts \<noteq> [] then ''...'' else []) @ '']''"
  by (auto simp: container_text_def element_texts_join element_texts_cut)

lemma friendly_loop_text:
  "friendly_loop sep i n es ss = (drop (kMaxLogPerContainer - i) es, ss @ element_texts sep i n (take (kMaxLogPerContainer - i) es))"
proof (induction sep i n es ss rule: friendly_loop.induct)
  case (2 sep i n elem es ss)
  show ?case
  proof (cases "i < kMaxLogPerContainer")
    case True
    then obtain m where m: "kMaxLogPerContainer - i = Suc m" "kMaxLogPerContainer - Suc i = m"
      by (metis Suc_diff_Suc)
    show ?thesis using 2 [OF True] True by (simp add: m)
  qed simp
qed simp

text \<open>
  The text of a map of Qt: its entries as pairs, cut after 100 of them.
\<close>

definition entry_pair :: "bool \<Rightarrow> string \<Rightarrow> (log_value \<Rightarrow> log_value) \<Rightarrow> log_value \<Rightarrow> string" where
  "entry_pair auto sep lookup k = ''('' @ value_text auto sep k @ '', '' @ value_text auto sep (lookup k) @ '')''"

lemma write_entries_text:
  assumes "the_logger (mb_logger b) st \<noteq> None"
  shows "write_entries b lookup i n ks st = map_option (\<lambda>st. (drop (kMaxLogPerContainer - i) ks, st))
    (stream_add (mb_logger b) (element_texts (mb_separator b) i n
       (take (kMaxLogPerContainer - i) (map (entry_pair (st_hasFlag AutoSpacing st) (mb_separator b) lookup) ks))) st)"
  using assms
proof (induction ks arbitrary: i st)
  case Nil
  then show ?case by (simp add: stream_add_nothing)
next
  case (Cons k ks)
  let ?p = "mb_logger b" and ?e = "entry_pair (st_hasFlag AutoSpacing st) (mb_separator b) lookup"
  let ?sep = "if i < n - 1 then mb_separator b else []"
  show ?case
  proof (cases "i < kMaxLogPerContainer")
    case True
    then obtain m where m: "kMaxLogPerContainer - i = Suc m" "kMaxLogPerContainer - Suc i = m"
      by (metis Suc_diff_Suc)
    obtain st1 where st1: "stream_add ?p (?e k @ ?sep) st = Some st1"
      using stream_add_works [OF Cons.prems] .
    have "write_entries b lookup i n (k # ks) st
        = Option.bind (write_pair b (k, lookup k) st) (\<lambda>st. Option.bind (stream_add ?p ?sep st) (write_entries b lookup (i + 1) n ks))"
      using True by (simp add: write_pair_def bind_assoc)
    also have "\<dots> = Option.bind (stream_add ?p (?e k @ ?sep) st) (write_entries b lookup (i + 1) n ks)"
      by (simp add: write_pair_text entry_pair_def flip: bind_assoc)
    also have "\<dots> = map_option (\<lambda>st. (drop (kMaxLogPerContainer - (i + 1)) ks, st))
        (stream_add ?p (element_texts (mb_separator b) (i + 1) n (take (kMaxLogPerContainer - (i + 1)) (map ?e ks))) st1)"
      using Cons.IH [OF stream_add_logger [OF st1], of "i + 1"] st1 by simp
    finally show ?thesis
      using stream_add_split [OF st1] by (simp add: m)
  next
    case False
    then show ?thesis by (simp add: stream_add_nothing [OF Cons.prems])
  qed
qed

lemma write_QMap_text:
  "write_QMap b keys lookup st = stream_add (mb_logger b)
     (container_text (mb_separator b) (map (entry_pair (st_hasFlag AutoSpacing st) (mb_separator b) lookup) keys)) st"
proof -
  let ?p = "mb_logger b" and ?ts = "map (entry_pair (st_hasFlag AutoSpacing st) (mb_separator b) lookup) keys"
  let ?E = "element_texts (mb_separator b) 0 (length keys) (take kMaxLogPerContainer ?ts)"
  let ?dots = "if drop kMaxLogPerContainer keys \<noteq> [] then ''...'' else []"
  have tail: "Option.bind (if drop kMaxLogPerContainer keys \<noteq> [] then stream_add ?p ''...'' st2 else Some st2) (stream_add ?p '']'')
      = stream_add ?p (?dots @ '']'') st2" for st2
    by simp
  show ?thesis
    unfolding write_QMap_def element_texts_container
  proof (rule stream_then)
    fix st1
    assume st1: "stream_add ?p ''['' st = Some st1"
    note logger = stream_add_logger [OF st1]
    obtain st2 where st2: "stream_add ?p ?E st1 = Some st2" using stream_add_works [OF logger] .
    show "(write_entries b lookup 0 (length keys) keys st1 \<bind> (\<lambda>(rest, st).
        (if rest \<noteq> [] then stream_add ?p ''...'' st else Some st) \<bind> stream_add ?p '']''))
      = stream_add ?p (element_texts (mb_separator b) 0 (length ?ts) (take kMaxLogPerContainer ?ts)
          @ (if drop kMaxLogPerContainer ?ts \<noteq> [] then ''...'' else []) @ '']'') st1"
      using tail [of st2] st1 st2 stream_add_split [OF st2]
      by (simp add: write_entries_text [OF logger] drop_map)
  qed
qed

lemma write_QHash_text: "write_QHash = write_QMap"
  by (simp add: fun_eq_iff write_QHash_def write_QMap_def)

text \<open>
  The operator that the macro for containers makes appends the elements between brackets, separated by
  a comma, or with \<open>NewLineForContainer\<close> by a new line, and cut with dots after 100 elements: the same form that the
  message builder gives its own containers.
\<close>
theorem container_friendly_text:
  "container_friendly flags es ss
     = ss @ container_text (if hasFlag (flag_int NewLineForContainer) flags then NEWLINE # ''    '' else '', '') es"
  unfolding container_friendly_def Let_def friendly_loop_text element_texts_container by simp

end
