(* ===== verification/ElPerf.thy ===== *)
theory ElPerf
  imports ElLog ElMacros
begin

text \<open>
  Performance tracking (\<open>easylogging.h\<close>, lines 1653 to 1668, 5281 to 5482 and 6049): the text of a duration, the
  tracker of a block, the default callback that logs its checkpoints and its end, and the scope macro.

  The readings of the clock are arguments. Double precision numbers are fractions that are rounded after
  every operation; callbacks of the program are a parameter.
\<close>

section \<open>Durations\<close>

text \<open>
  Fractions of natural numbers; the rounding of one to an integer, ties to the even one, and to 53 binary digits.
\<close>

type_synonym fraction = "nat \<times> nat"

definition round_even :: "fraction \<Rightarrow> nat" where
  "round_even x = (let (n, d) = x; q = n div d; r = n mod d in if 2 * r < d \<or> (2 * r = d \<and> even q) then q else q + 1)"

fun bits :: "nat \<Rightarrow> nat" where
  "bits n = (if n = 0 then 0 else Suc (bits (n div 2)))"

declare bits.simps [simp del]

text \<open>The exponent of the leading binary digit of a fraction that is at least one.\<close>

definition binary_exponent :: "fraction \<Rightarrow> nat" where
  "binary_exponent x = bits (fst x div snd x) - 1"

definition to_double :: "fraction \<Rightarrow> fraction" where
  "to_double x =
     (let (n, d) = x; k = binary_exponent x
      in if n = 0 then x
         else if 52 \<le> k then (round_even (n, d * 2 ^ (k - 52)) * 2 ^ (k - 52), 1)
         else (round_even (n * 2 ^ (52 - k), d), 2 ^ (52 - k)))"

text \<open>
  The text of a number that is zero or at least one, as the standard output stream writes it: six digits, without
  zeros at the end of the fraction, and with an exponent from a million on.
\<close>

definition strip_zeros :: "string \<Rightarrow> string" where
  "strip_zeros s = rev (dropWhile (\<lambda>c. c = CHR ''0'') (rev s))"

definition with_fraction :: "string \<Rightarrow> string \<Rightarrow> string" where
  "with_fraction i f = (if strip_zeros f = [] then i else i @ CHR ''.'' # strip_zeros f)"

definition general_text :: "fraction \<Rightarrow> string" where
  "general_text x =
     (let (n, d) = x
      in if n = 0 then ''0''
         else let e = length (decimal (n div d)) - 1;
                  m = round_even (if 5 \<le> e then (n, d * 10 ^ (e - 5)) else (n * 10 ^ (5 - e), d));
                  (m, e) = (if m = 1000000 then (100000, e + 1) else (m, e));
                  ds = decimal m
              in if 6 \<le> e then with_fraction (take 1 ds) (drop 1 ds) @ ''e+'' @ (if e < 10 then ''0'' else []) @ decimal e
                 else with_fraction (take (e + 1) ds) (drop (e + 1) ds))"

text \<open>The bounds of the units are positive integers.\<close>

definition time_bound :: "nat \<Rightarrow> nat" where
  "time_bound i = nat (fst (kTimeFormats ! i))"

function format_time_loop :: "nat \<Rightarrow> fraction \<Rightarrow> string \<Rightarrow> fraction \<times> string" where
  "format_time_loop i result unit =
     (if kTimeFormatsCount - 1 \<le> i \<or> fst result \<le> time_bound i * snd result then (result, unit)
      else format_time_loop (i + 1) (to_double (fst result, snd result * time_bound i)) (snd (kTimeFormats ! (i + 1))))"
  by pat_completeness auto

termination
  by (relation "measure (\<lambda>(i, result, unit). kTimeFormatsCount - 1 - i)") auto

declare format_time_loop.simps [simp del]

definition formatTime :: "64 word \<Rightarrow> TimestampUnit \<Rightarrow> string" where
  "formatTime time timestampUnit =
     (let start = unit_int timestampUnit;
          (result, unit) = format_time_loop start (to_double (unat time, 1)) (snd (kTimeFormats ! start))
      in general_text result @ '' '' @ unit)"

section \<open>Trackers\<close>

definition kPerformanceTrackerDefaultLevel :: Level where
  "kPerformanceTrackerDefaultLevel = L_Info"

datatype tracking_type = TD_Checkpoint | TD_Complete

fun tracking_type_int :: "tracking_type \<Rightarrow> nat" where
  "tracking_type_int TD_Checkpoint = 1"
| "tracking_type_int TD_Complete = 2"

text \<open>The times of a tracker have no value before they are taken.\<close>

record PerformanceTracker =
  pt_blockName :: string
  pt_timestampUnit :: TimestampUnit
  pt_loggerId :: string
  pt_scopedLog :: bool
  pt_level :: Level
  pt_hasChecked :: bool
  pt_lastCheckpointId :: string
  pt_enabled :: bool
  pt_startTime :: "timeval option"
  pt_endTime :: "timeval option"
  pt_lastCheckpointTime :: "timeval option"

record PerformanceTrackingData =
  pd_tracker :: PerformanceTracker
  pd_formattedTimeTaken :: string
  pd_dataType :: tracking_type
  pd_firstCheckpoint :: bool
  pd_checkpointId :: string
  pd_file :: string
  pd_line :: "64 word"
  pd_func :: string

definition mk_TrackingData :: "tracking_type \<Rightarrow> PerformanceTracker \<Rightarrow> PerformanceTrackingData" where
  "mk_TrackingData dataType tracker =
     \<lparr>pd_tracker = tracker, pd_formattedTimeTaken = [], pd_dataType = dataType, pd_firstCheckpoint = False,
       pd_checkpointId = [], pd_file = [], pd_line = 0, pd_func = []\<rparr>"

record 'f perf_env =
  pe_app :: "'f app_env"
  pe_nesting :: nat
  pe_userTracking :: "nat \<Rightarrow> PerformanceTrackingData \<Rightarrow> 'f Storage \<Rightarrow> ('f, unit) run option"

definition mk_PerformanceTracker :: "'f perf_env \<Rightarrow> string \<Rightarrow> TimestampUnit \<Rightarrow> string \<Rightarrow> bool \<Rightarrow> Level \<Rightarrow> timeval \<Rightarrow> 'f Storage
    \<Rightarrow> (PerformanceTracker \<times> 'f Storage) option" where
  "mk_PerformanceTracker pe blockName timestampUnit loggerId scopedLog level now st =
     do { (p, st) \<leftarrow> lookup_logger (pe_app pe) loggerId False st;
          enabled \<leftarrow> (if p = None then Some False
                       else do { lg \<leftarrow> the_logger p st; tc \<leftarrow> lg_typedConfigurations lg; Some (tc_performanceTracking level tc) });
          Some (\<lparr>pt_blockName = blockName, pt_timestampUnit = timestampUnit, pt_loggerId = loggerId, pt_scopedLog = scopedLog,
                  pt_level = level, pt_hasChecked = False, pt_lastCheckpointId = [], pt_enabled = enabled,
                  pt_startTime = (if enabled then Some now else None), pt_endTime = None, pt_lastCheckpointTime = None\<rparr>, st) }"

definition getFormattedTimeTaken :: "PerformanceTracker \<Rightarrow> timeval option \<Rightarrow> 'f Storage \<Rightarrow> string option" where
  "getFormattedTimeTaken t startTime st =
     do { e \<leftarrow> pt_endTime t; s \<leftarrow> startTime;
          let difference = getTimeDifference e s (pt_timestampUnit t);
          Some (if st_hasFlag FixedTimeFormat st
                then int_text (uint difference) @ '' '' @ snd (kTimeFormats ! unit_int (pt_timestampUnit t))
                else formatTime difference (pt_timestampUnit t)) }"

text \<open>The text of the default callback, and its statement.\<close>

definition tracking_text :: "PerformanceTrackingData \<Rightarrow> 'f Storage \<Rightarrow> string option" where
  "tracking_text d st =
     (let t = pd_tracker d
      in if pd_dataType d = TD_Complete then
           Some (''Executed ['' @ c_str (pt_blockName t) @ ''] in ['' @ pd_formattedTimeTaken d @ '']'')
         else
           do { total \<leftarrow> getFormattedTimeTaken t (pt_startTime t) st;
                Some (''Performance checkpoint''
                  @ (if pd_checkpointId d \<noteq> [] then '' ['' @ c_str (pd_checkpointId d) @ '']'' else [])
                  @ '' for block ['' @ c_str (pt_blockName t) @ ''] : ['' @ total
                  @ (if \<not> st_hasFlag DisablePerformanceTrackingCheckpointComparison st \<and> pt_hasChecked t then
                       '' (['' @ pd_formattedTimeTaken d @ ''] from ''
                       @ (if pt_lastCheckpointId t = [] then ''last checkpoint''
                          else ''checkpoint '' @ [CHR 0x27] @ c_str (pt_lastCheckpointId t) @ [CHR 0x27])
                       @ '')]''
                     else '']'')) })"

definition default_tracking_handle :: "'f perf_env \<Rightarrow> PerformanceTrackingData \<Rightarrow> 'f Storage \<Rightarrow> ('f, unit) run option" where
  "default_tracking_handle pe d st =
     do { t \<leftarrow> tracking_text d st;
          statement (pe_app pe) (pe_nesting pe) (mk_Writer (pt_level (pd_tracker d)) (pd_file d) (pd_line d) (pd_func d) DA_NormalLog 0)
            (To_ids [c_str (pt_loggerId (pd_tracker d))]) [V_string t] st }"

definition tracking_handle :: "'f perf_env \<Rightarrow> tracking_class \<Rightarrow> PerformanceTrackingData \<Rightarrow> 'f Storage \<Rightarrow> ('f, unit) run option" where
  "tracking_handle pe cls d st = (case cls of
     DefaultPerformanceTracking \<Rightarrow> default_tracking_handle pe d st
   | UserTracking n \<Rightarrow> pe_userTracking pe n d st)"

fun run_tracking :: "'f perf_env \<Rightarrow> tracking_class callbacks \<Rightarrow> PerformanceTrackingData \<Rightarrow> 'f Storage \<Rightarrow> ('f, unit) run option" where
  "run_tracking pe [] d st = Some (Returned () st)"
| "run_tracking pe ((lid, cls, cb) # cbs) d st =
     run_then (if cb_enabled cb then tracking_handle pe cls d st else Some (Returned () st)) (\<lambda>_ st. run_tracking pe cbs d st)"

definition tracker_destroy :: "'f perf_env \<Rightarrow> timeval \<Rightarrow> PerformanceTracker \<Rightarrow> 'f Storage \<Rightarrow> ('f, unit) run option" where
  "tracker_destroy pe now t st =
     (if pt_enabled t \<and> pt_scopedLog t then
        do { let t = t\<lparr>pt_endTime := Some now\<rparr>;
             formattedTime \<leftarrow> getFormattedTimeTaken t (pt_startTime t) st;
             run_tracking pe (st_performanceTrackingCallbacks st)
               ((mk_TrackingData TD_Complete t)\<lparr>pd_formattedTimeTaken := formattedTime\<rparr>) st }
      else Some (Returned () st))"

definition checkpoint :: "'f perf_env \<Rightarrow> string \<Rightarrow> log_site \<Rightarrow> timeval \<Rightarrow> timeval \<Rightarrow> PerformanceTracker \<Rightarrow> 'f Storage
    \<Rightarrow> ('f, PerformanceTracker) run option" where
  "checkpoint pe cid site now now' t st =
     (if pt_enabled t then
        do { let t = t\<lparr>pt_endTime := Some now\<rparr>;
             formattedTime \<leftarrow> (if pt_hasChecked t then getFormattedTimeTaken t (pt_lastCheckpointTime t) st else Some []);
             run_then (run_tracking pe (st_performanceTrackingCallbacks st)
               ((mk_TrackingData TD_Checkpoint t)\<lparr>pd_checkpointId := cid, pd_file := site_file site, pd_line := site_line site,
                  pd_func := site_func site, pd_formattedTimeTaken := formattedTime\<rparr>) st)
               (\<lambda>_ st. Some (Returned (t\<lparr>pt_lastCheckpointTime := Some now', pt_hasChecked := True, pt_lastCheckpointId := cid\<rparr>) st)) }
      else Some (Returned t st))"

text \<open>A block with a tracker: \<open>TIMED_SCOPE\<close>, the rest of the block, and the destruction of the tracker.\<close>

definition timed_scope :: "'f perf_env \<Rightarrow> TimestampUnit \<Rightarrow> string \<Rightarrow> timeval \<Rightarrow> timeval
    \<Rightarrow> (PerformanceTracker \<Rightarrow> 'f Storage \<Rightarrow> ('f, PerformanceTracker) run option) \<Rightarrow> 'f Storage \<Rightarrow> ('f, unit) run option" where
  "timed_scope pe minUnit blockname now now' block st =
     do { (t, st) \<leftarrow> mk_PerformanceTracker pe blockname minUnit kPerformanceLoggerId True kPerformanceTrackerDefaultLevel now st;
          run_then (block t st) (tracker_destroy pe now') }"

section \<open>Samples of durations\<close>

text \<open>At a thousand milliseconds the unit is still milliseconds; fractions of seconds have up to six digits.\<close>

lemmas duration_code = formatTime_def format_time_loop.simps [of "numeral i" for i] format_time_loop.simps [of 0]
  format_time_loop.simps [of "Suc i" for i]
  decimal.simps [of 0] decimal.simps [of "Suc 0"] decimal.simps [of "numeral n" for n] bits.simps [of 0] bits.simps [of "numeral n" for n]
  bits.simps [of "Suc 0"] to_double_def binary_exponent_def round_even_def general_text_def with_fraction_def strip_zeros_def
  time_bound_def kTimeFormats_def kTimeFormatsCount_def char_of_def bit_0 Let_def

lemma formatTime_samples:
  "formatTime 0 Millisecond = ''0 ms''" "formatTime 1000 Millisecond = ''1000 ms''" "formatTime 1001 Millisecond = ''1.001 seconds''"
  "formatTime 90000 Millisecond = ''1.5 minutes''" "formatTime 100000000 Millisecond = ''1.15741 days''"
  "formatTime 18446744073709551615 Microsecond = ''2.13504e+08 days''"
  by (simp_all add: duration_code) (simp add: decimal.simps char_of_def bit_0)

text \<open>
  Only microseconds have a difference in their own unit; for seconds and longer units the difference is in milliseconds too,
  and with the fixed format five seconds are written as 5000 seconds.
\<close>

lemma difference_in_milliseconds:
  "unit \<noteq> Microsecond \<Longrightarrow> getTimeDifference e s unit = getTimeDifference e s Millisecond"
  by (simp add: getTimeDifference_def)

section \<open>What trackers log\<close>

lemma run_tracking_default:
  assumes "default_callbacks st"
  shows "run_tracking pe (st_performanceTrackingCallbacks st) d st = default_tracking_handle pe d st"
  using assms
  by (cases "default_tracking_handle pe d st"; cases "the (default_tracking_handle pe d st)")
    (auto simp: default_callbacks_def tracking_handle_def mk_Callback_def)

text \<open>A tracker that is not enabled is silent.\<close>

lemma disabled_tracker:
  "\<not> pt_enabled t \<Longrightarrow> tracker_destroy pe now t st = Some (Returned () st)"
  "\<not> pt_enabled t \<Longrightarrow> checkpoint pe cid site now now' t st = Some (Returned t st)"
  by (simp_all add: tracker_destroy_def checkpoint_def)

lemma tracking_logs:
  assumes st: "log_ready (pe_app pe) st" "reg_get lid (rl_list (st_loggers st)) = Some a" "rl_map (st_loggers st) lid = Some lg"
    and t: "tracking_text d st = Some t" and lid: "lid = c_str (pt_loggerId (pd_tracker d))"
    and level: "pt_level (pd_tracker d) \<in> set walked_levels" "pt_level (pd_tracker d) \<noteq> L_Fatal"
      "writer_proceeds (pt_level (pd_tracker d)) (Some a) st = Some True" and f: "NUL \<notin> set (pd_file d)"
  shows "\<exists>out st'. run_tracking pe (st_performanceTrackingCallbacks st) d st = Some (Returned () st')
     \<and> statement_line (pe_app pe) (mk_Writer (pt_level (pd_tracker d)) (pd_file d) (pd_line d) (pd_func d) DA_NormalLog 0) (Some a)
         (stream_text lg [V_string t] st) lg st = Some out
     \<and> logged (pe_app pe) (pt_level (pd_tracker d)) out lid lg st st' \<and> log_ready (pe_app pe) st'"
  using statement_ready [OF st level(1) f level(3), of "pd_line d" "pd_func d" 0 "[V_string t]" "pe_nesting pe"] level(2) t
  by (auto simp: run_tracking_default [OF log_readyD(2) [OF st(1)]] default_tracking_handle_def lid simp del: nested_statement.simps)


text \<open>A checkpoint of a running tracker logs one line and remembers itself for the next one.\<close>

lemma checkpoint_logs:
  assumes st: "log_ready (pe_app pe) st" "reg_get (pt_loggerId t) (rl_list (st_loggers st)) = Some a" "rl_map (st_loggers st) (pt_loggerId t) = Some lg"
    and t: "pt_enabled t" "pt_startTime t = Some s" "pt_hasChecked t \<longrightarrow> pt_lastCheckpointTime t \<noteq> None" "c_str (pt_loggerId t) = pt_loggerId t"
    and level: "pt_level t \<in> set walked_levels" "pt_level t \<noteq> L_Fatal" "writer_proceeds (pt_level t) (Some a) st = Some True"
      "NUL \<notin> set (site_file site)"
  shows "\<exists>out st'. checkpoint pe cid site now now' t st
       = Some (Returned (t\<lparr>pt_endTime := Some now, pt_lastCheckpointTime := Some now', pt_hasChecked := True, pt_lastCheckpointId := cid\<rparr>) st')
     \<and> logged (pe_app pe) (pt_level t) out (pt_loggerId t) lg st st' \<and> log_ready (pe_app pe) st'"
proof -
  obtain x where x: "(if pt_hasChecked t then getFormattedTimeTaken (t\<lparr>pt_endTime := Some now\<rparr>) (pt_lastCheckpointTime t) st else Some []) = Some x"
    using t(3) by (cases "pt_hasChecked t") (auto simp: getFormattedTimeTaken_def Let_def)
  define d where "d = (mk_TrackingData TD_Checkpoint (t\<lparr>pt_endTime := Some now\<rparr>))\<lparr>pd_checkpointId := cid, pd_file := site_file site,
      pd_line := site_line site, pd_func := site_func site, pd_formattedTimeTaken := x\<rparr>"
  have fields: "pt_level (pd_tracker d) = pt_level t" "pt_loggerId (pd_tracker d) = pt_loggerId t" "pd_file d = site_file site"
    by (simp_all add: d_def mk_TrackingData_def)
  obtain y where "tracking_text d st = Some y"
    using t(2) by (simp add: tracking_text_def d_def mk_TrackingData_def getFormattedTimeTaken_def Let_def)
  from tracking_logs [OF st this, unfolded fields, OF t(4) [symmetric] level] obtain out st' where
    "run_tracking pe (st_performanceTrackingCallbacks st) d st = Some (Returned () st')"
    "logged (pe_app pe) (pt_level t) out (pt_loggerId t) lg st st'" "log_ready (pe_app pe) st'"
    by blast
  with t(1) x show ?thesis
    by (intro exI [of _ out] exI [of _ st']; cases "pt_hasChecked t") (simp_all add: checkpoint_def d_def Let_def)
qed

section \<open>Samples\<close>

text \<open>The sample storage with a performance logger that is enabled and tracks.\<close>

lemma sample_tracked:
  obtains st b lg tc where "log_ready sample_app st" "reg_get kPerformanceLoggerId (rl_list (st_loggers st)) = Some b"
    "rl_map (st_loggers st) kPerformanceLoggerId = Some lg" "lg_typedConfigurations lg = Some tc" "tc_performanceTracking L_Info tc"
    "writer_proceeds L_Info (Some b) st = Some True" "\<not> st_hasFlag FixedTimeFormat st"
proof (rule sample_storage)
  fix st b lg2
  assume st: "log_ready sample_app st" and flags: "st_flags st = flag_int AllowVerboseIfModuleNotSpecified"
    and q: "reg_get kPerformanceLoggerId (rl_list (st_loggers st)) = Some b" "rl_map (st_loggers st) kPerformanceLoggerId = Some lg2"
  let ?env = "app_log sample_app"
  note loggers = log_readyD(1) [OF st]
  have lg2: "logger_ready ?env lg2" "logger_live lg2 (rl_world (st_loggers st))" "lg_hasLogBuilder lg2" "world_ok (rl_world (st_loggers st))"
    using loggers q(2) by (auto simp: loggers_ready_def registry_ready_def registry_live_def)
  obtain tc where tc: "lg_typedConfigurations lg2 = Some tc" "typed_ready tc" using ready_typed [OF lg2(1)] .
  define tc' where "tc' = tc\<lparr>m_enabledMap := [(L_Global, True)], m_performanceTrackingMap := [(L_Global, True)]\<rparr>"
  define lg where "lg = lg2\<lparr>lg_typedConfigurations := Some tc'\<rparr>"
  have same: "tc_logFormat level tc' = tc_logFormat level tc" "tc_millisecondsWidth level tc' = tc_millisecondsWidth level tc"
    "m_fileStreamMap tc' = m_fileStreamMap tc" "m_filenameMap tc' = m_filenameMap tc" "m_millisecondsWidthMap tc' = m_millisecondsWidthMap tc" for level
    by (simp_all add: tc'_def tc_logFormat_def tc_millisecondsWidth_def)
  have lg: "logger_ready ?env lg" "lg_id lg = lg_id lg2" "lg_hasLogBuilder lg" "logger_live lg (rl_world (st_loggers st))"
    using lg2 tc by (auto simp: logger_ready_def lg_def counted_def typed_ready_def files_global_def same logger_live_def)
  have dated: "dated ?env lg" using log_readyD(5) [OF st q(2)] tc(1) by (simp add: dated_def lg_def same)
  obtain r where r: "changed_logger kPerformanceLoggerId lg (rl_world (st_loggers st)) (st_loggers st) r" "loggers_ready ?env r"
    using on_logger_ready [OF loggers q, of "\<lambda>(l, w). Some (lg, w)" lg "rl_world (st_loggers st)"] lg lg2(4) by (auto simp: keeps_live_def)
  define st' where "st' = st\<lparr>st_loggers := r\<rparr>"
  have q': "reg_get kPerformanceLoggerId (rl_list (st_loggers st')) = Some b" "rl_map (st_loggers st') kPerformanceLoggerId = Some lg"
    using r(1) q(1) by (simp_all add: st'_def changed_logger_def)
  have "rl_map r = (rl_map (st_loggers st))(kPerformanceLoggerId \<mapsto> lg)" using r(1) by (simp add: changed_logger_def)
  then have ready: "log_ready sample_app st'"
    using st r(2) dated by (auto simp: log_ready_def storage_ready_def default_callbacks_def st'_def st_hasFlag_def)
  have hier: "\<not> st_hasFlag HierarchicalLogging st'" "\<not> st_hasFlag FixedTimeFormat st'"
    unfolding st_hasFlag_def st'_def by (simp_all add: flags) code_simp+
  have "lg_enabled L_Info lg = Some True"
    by (simp add: lg_enabled_def lg_def tc'_def tc_enabled_def unsafeGetConfigByVal_def)
  then have "writer_proceeds L_Info (Some b) st' = Some True"
    using registered_logger [OF log_readyD(1) [OF ready] q'] hier by (simp add: writer_proceeds_def)
  moreover have "lg_typedConfigurations lg = Some tc'" "tc_performanceTracking L_Info tc'"
    by (simp_all add: lg_def tc'_def tc_performanceTracking_def unsafeGetConfigByVal_def)
  ultimately show thesis using that ready q' hier(2) by blast
qed


end
