(* ===== verification/ElChecks.thy ===== *)
theory ElChecks
  imports ElMacros
begin

text \<open>
  The check macros (\<open>easylogging.h\<close>, lines 6541 to 6649): a condition that does not hold is a fatal
  statement with the text of the condition. An argument of a macro comes with its text; a condition may
  change the state.
\<close>

section \<open>Checks\<close>

type_synonym 'a expression = "'a \<times> string"

definition negated :: "'f condition \<Rightarrow> 'f condition" where
  "negated cond st = map_option (apfst Not) (cond st)"

definition holds_if :: "bool \<Rightarrow> 'f condition" where
  "holds_if b st = Some (b, st)"

definition CCHECK :: "'f macro_env \<Rightarrow> log_site \<Rightarrow> 'f condition expression \<Rightarrow> string list \<Rightarrow> 'f log_statement" where
  "CCHECK me site c lids vs = CLOG_IF me site (negated (fst c)) L_Fatal lids
     (V_text ''Check failed: ['' # V_text (snd c) # V_text ''] '' # vs)"

definition CPCHECK :: "'f macro_env \<Rightarrow> log_site \<Rightarrow> int \<Rightarrow> 'f condition expression \<Rightarrow> string list \<Rightarrow> 'f log_statement" where
  "CPCHECK me site err c lids vs = CPLOG_IF me site err (negated (fst c)) L_Fatal lids
     (V_text ''Check failed: ['' # V_text (snd c) # V_text ''] '' # vs)"

definition CHECK :: "'f macro_env \<Rightarrow> log_site \<Rightarrow> 'f condition expression \<Rightarrow> 'f log_statement" where
  "CHECK me site c = CCHECK me site c [curr_file_logger (me_build me)]"

definition PCHECK :: "'f macro_env \<Rightarrow> log_site \<Rightarrow> int \<Rightarrow> 'f condition expression \<Rightarrow> 'f log_statement" where
  "PCHECK me site err c = CPCHECK me site err c [curr_file_logger (me_build me)]"

text \<open>Comparisons.\<close>

definition CCHECK_EQ :: "'f macro_env \<Rightarrow> log_site \<Rightarrow> 'a expression \<Rightarrow> 'a expression \<Rightarrow> string list \<Rightarrow> 'f log_statement" where
  "CCHECK_EQ me site a b = CCHECK me site (holds_if (fst a = fst b), snd a @ '' == '' @ snd b)"

definition CCHECK_NE :: "'f macro_env \<Rightarrow> log_site \<Rightarrow> 'a expression \<Rightarrow> 'a expression \<Rightarrow> string list \<Rightarrow> 'f log_statement" where
  "CCHECK_NE me site a b = CCHECK me site (holds_if (fst a \<noteq> fst b), snd a @ '' != '' @ snd b)"

definition CCHECK_LT :: "'f macro_env \<Rightarrow> log_site \<Rightarrow> ('a::linorder) expression \<Rightarrow> 'a expression \<Rightarrow> string list \<Rightarrow> 'f log_statement" where
  "CCHECK_LT me site a b = CCHECK me site (holds_if (fst a < fst b), snd a @ '' < '' @ snd b)"

definition CCHECK_GT :: "'f macro_env \<Rightarrow> log_site \<Rightarrow> ('a::linorder) expression \<Rightarrow> 'a expression \<Rightarrow> string list \<Rightarrow> 'f log_statement" where
  "CCHECK_GT me site a b = CCHECK me site (holds_if (fst a > fst b), snd a @ '' > '' @ snd b)"

definition CCHECK_LE :: "'f macro_env \<Rightarrow> log_site \<Rightarrow> ('a::linorder) expression \<Rightarrow> 'a expression \<Rightarrow> string list \<Rightarrow> 'f log_statement" where
  "CCHECK_LE me site a b = CCHECK me site (holds_if (fst a \<le> fst b), snd a @ '' <= '' @ snd b)"

definition CCHECK_GE :: "'f macro_env \<Rightarrow> log_site \<Rightarrow> ('a::linorder) expression \<Rightarrow> 'a expression \<Rightarrow> string list \<Rightarrow> 'f log_statement" where
  "CCHECK_GE me site a b = CCHECK me site (holds_if (fst a \<ge> fst b), snd a @ '' >= '' @ snd b)"

definition CHECK_EQ :: "'f macro_env \<Rightarrow> log_site \<Rightarrow> 'a expression \<Rightarrow> 'a expression \<Rightarrow> 'f log_statement" where
  "CHECK_EQ me site a b = CCHECK_EQ me site a b [curr_file_logger (me_build me)]"

definition CHECK_NE :: "'f macro_env \<Rightarrow> log_site \<Rightarrow> 'a expression \<Rightarrow> 'a expression \<Rightarrow> 'f log_statement" where
  "CHECK_NE me site a b = CCHECK_NE me site a b [curr_file_logger (me_build me)]"

definition CHECK_LT :: "'f macro_env \<Rightarrow> log_site \<Rightarrow> ('a::linorder) expression \<Rightarrow> 'a expression \<Rightarrow> 'f log_statement" where
  "CHECK_LT me site a b = CCHECK_LT me site a b [curr_file_logger (me_build me)]"

definition CHECK_GT :: "'f macro_env \<Rightarrow> log_site \<Rightarrow> ('a::linorder) expression \<Rightarrow> 'a expression \<Rightarrow> 'f log_statement" where
  "CHECK_GT me site a b = CCHECK_GT me site a b [curr_file_logger (me_build me)]"

definition CHECK_LE :: "'f macro_env \<Rightarrow> log_site \<Rightarrow> ('a::linorder) expression \<Rightarrow> 'a expression \<Rightarrow> 'f log_statement" where
  "CHECK_LE me site a b = CCHECK_LE me site a b [curr_file_logger (me_build me)]"

definition CHECK_GE :: "'f macro_env \<Rightarrow> log_site \<Rightarrow> ('a::linorder) expression \<Rightarrow> 'a expression \<Rightarrow> 'f log_statement" where
  "CHECK_GE me site a b = CCHECK_GE me site a b [curr_file_logger (me_build me)]"

definition CCHECK_BOUNDS :: "'f macro_env \<Rightarrow> log_site \<Rightarrow> ('a::linorder) expression \<Rightarrow> 'a expression \<Rightarrow> 'a expression \<Rightarrow> string list \<Rightarrow> 'f log_statement" where
  "CCHECK_BOUNDS me site v least most = CCHECK me site
     (holds_if (fst v \<ge> fst least \<and> fst v \<le> fst most), snd v @ '' >= '' @ snd least @ '' && '' @ snd v @ '' <= '' @ snd most)"

definition CHECK_BOUNDS :: "'f macro_env \<Rightarrow> log_site \<Rightarrow> ('a::linorder) expression \<Rightarrow> 'a expression \<Rightarrow> 'a expression \<Rightarrow> 'f log_statement" where
  "CHECK_BOUNDS me site v least most = CCHECK_BOUNDS me site v least most [curr_file_logger (me_build me)]"

text \<open>Pointers and C strings; a null pointer is \<open>None\<close>.\<close>

definition CCHECK_NOTNULL :: "'f macro_env \<Rightarrow> log_site \<Rightarrow> 'a option expression \<Rightarrow> string list \<Rightarrow> 'f log_statement" where
  "CCHECK_NOTNULL me site p = CCHECK me site (holds_if (fst p \<noteq> None), CHR ''('' # snd p @ '') != nullptr'')"

definition CHECK_NOTNULL :: "'f macro_env \<Rightarrow> log_site \<Rightarrow> 'a option expression \<Rightarrow> 'f log_statement" where
  "CHECK_NOTNULL me site p = CCHECK_NOTNULL me site (fst p, CHR ''('' # snd p @ '')'') [curr_file_logger (me_build me)]"

definition CCHECK_STREQ :: "'f macro_env \<Rightarrow> log_site \<Rightarrow> string option expression \<Rightarrow> string option expression \<Rightarrow> string list \<Rightarrow> 'f log_statement" where
  "CCHECK_STREQ me site a b lids vs = CLOG_IF me site (holds_if (\<not> cStringEq (fst a) (fst b))) L_Fatal lids
     (V_text ''Check failed: ['' # V_text (snd a) # V_text '' == '' # V_text (snd b) # V_text ''] '' # vs)"

definition CCHECK_STRNE :: "'f macro_env \<Rightarrow> log_site \<Rightarrow> string option expression \<Rightarrow> string option expression \<Rightarrow> string list \<Rightarrow> 'f log_statement" where
  "CCHECK_STRNE me site a b lids vs = CLOG_IF me site (holds_if (cStringEq (fst a) (fst b))) L_Fatal lids
     (V_text ''Check failed: ['' # V_text (snd a) # V_text '' != '' # V_text (snd b) # V_text ''] '' # vs)"

definition CCHECK_STRCASEEQ :: "'f macro_env \<Rightarrow> log_site \<Rightarrow> string option expression \<Rightarrow> string option expression \<Rightarrow> string list \<Rightarrow> 'f log_statement" where
  "CCHECK_STRCASEEQ me site a b lids vs = CLOG_IF me site (holds_if (\<not> cStringCaseEq (fst a) (fst b))) L_Fatal lids
     (V_text ''Check failed: ['' # V_text (snd a) # V_text '' == '' # V_text (snd b) # V_text ''] '' # vs)"

definition CCHECK_STRCASENE :: "'f macro_env \<Rightarrow> log_site \<Rightarrow> string option expression \<Rightarrow> string option expression \<Rightarrow> string list \<Rightarrow> 'f log_statement" where
  "CCHECK_STRCASENE me site a b lids vs = CLOG_IF me site (holds_if (cStringCaseEq (fst a) (fst b))) L_Fatal lids
     (V_text ''Check failed: ['' # V_text (snd a) # V_text '' != '' # V_text (snd b) # V_text ''] '' # vs)"

definition CHECK_STREQ :: "'f macro_env \<Rightarrow> log_site \<Rightarrow> string option expression \<Rightarrow> string option expression \<Rightarrow> 'f log_statement" where
  "CHECK_STREQ me site a b = CCHECK_STREQ me site a b [curr_file_logger (me_build me)]"

definition CHECK_STRNE :: "'f macro_env \<Rightarrow> log_site \<Rightarrow> string option expression \<Rightarrow> string option expression \<Rightarrow> 'f log_statement" where
  "CHECK_STRNE me site a b = CCHECK_STRNE me site a b [curr_file_logger (me_build me)]"

definition CHECK_STRCASEEQ :: "'f macro_env \<Rightarrow> log_site \<Rightarrow> string option expression \<Rightarrow> string option expression \<Rightarrow> 'f log_statement" where
  "CHECK_STRCASEEQ me site a b = CCHECK_STRCASEEQ me site a b [curr_file_logger (me_build me)]"

definition CHECK_STRCASENE :: "'f macro_env \<Rightarrow> log_site \<Rightarrow> string option expression \<Rightarrow> string option expression \<Rightarrow> 'f log_statement" where
  "CHECK_STRCASENE me site a b = CCHECK_STRCASENE me site a b [curr_file_logger (me_build me)]"

section \<open>Checks of debug builds\<close>

definition DCCHECK :: "'f macro_env \<Rightarrow> log_site \<Rightarrow> 'f condition expression \<Rightarrow> string list \<Rightarrow> 'f log_statement" where
  "DCCHECK me site c lids = debug_only me (CCHECK me site c lids)"

definition DCCHECK_EQ :: "'f macro_env \<Rightarrow> log_site \<Rightarrow> 'a expression \<Rightarrow> 'a expression \<Rightarrow> string list \<Rightarrow> 'f log_statement" where
  "DCCHECK_EQ me site a b lids = debug_only me (CCHECK_EQ me site a b lids)"

definition DCCHECK_NE :: "'f macro_env \<Rightarrow> log_site \<Rightarrow> 'a expression \<Rightarrow> 'a expression \<Rightarrow> string list \<Rightarrow> 'f log_statement" where
  "DCCHECK_NE me site a b lids = debug_only me (CCHECK_NE me site a b lids)"

definition DCCHECK_LT :: "'f macro_env \<Rightarrow> log_site \<Rightarrow> ('a::linorder) expression \<Rightarrow> 'a expression \<Rightarrow> string list \<Rightarrow> 'f log_statement" where
  "DCCHECK_LT me site a b lids = debug_only me (CCHECK_LT me site a b lids)"

definition DCCHECK_GT :: "'f macro_env \<Rightarrow> log_site \<Rightarrow> ('a::linorder) expression \<Rightarrow> 'a expression \<Rightarrow> string list \<Rightarrow> 'f log_statement" where
  "DCCHECK_GT me site a b lids = debug_only me (CCHECK_GT me site a b lids)"

definition DCCHECK_LE :: "'f macro_env \<Rightarrow> log_site \<Rightarrow> ('a::linorder) expression \<Rightarrow> 'a expression \<Rightarrow> string list \<Rightarrow> 'f log_statement" where
  "DCCHECK_LE me site a b lids = debug_only me (CCHECK_LE me site a b lids)"

definition DCCHECK_GE :: "'f macro_env \<Rightarrow> log_site \<Rightarrow> ('a::linorder) expression \<Rightarrow> 'a expression \<Rightarrow> string list \<Rightarrow> 'f log_statement" where
  "DCCHECK_GE me site a b lids = debug_only me (CCHECK_GE me site a b lids)"

definition DCCHECK_BOUNDS :: "'f macro_env \<Rightarrow> log_site \<Rightarrow> ('a::linorder) expression \<Rightarrow> 'a expression \<Rightarrow> 'a expression \<Rightarrow> string list \<Rightarrow> 'f log_statement" where
  "DCCHECK_BOUNDS me site v least most lids = debug_only me (CCHECK_BOUNDS me site v least most lids)"

definition DCCHECK_NOTNULL :: "'f macro_env \<Rightarrow> log_site \<Rightarrow> 'a option expression \<Rightarrow> string list \<Rightarrow> 'f log_statement" where
  "DCCHECK_NOTNULL me site p lids = debug_only me (CCHECK_NOTNULL me site (fst p, CHR ''('' # snd p @ '')'') lids)"

definition DCCHECK_STREQ :: "'f macro_env \<Rightarrow> log_site \<Rightarrow> string option expression \<Rightarrow> string option expression \<Rightarrow> string list \<Rightarrow> 'f log_statement" where
  "DCCHECK_STREQ me site a b lids = debug_only me (CCHECK_STREQ me site a b lids)"

definition DCCHECK_STRNE :: "'f macro_env \<Rightarrow> log_site \<Rightarrow> string option expression \<Rightarrow> string option expression \<Rightarrow> string list \<Rightarrow> 'f log_statement" where
  "DCCHECK_STRNE me site a b lids = debug_only me (CCHECK_STRNE me site a b lids)"

definition DCCHECK_STRCASEEQ :: "'f macro_env \<Rightarrow> log_site \<Rightarrow> string option expression \<Rightarrow> string option expression \<Rightarrow> string list \<Rightarrow> 'f log_statement" where
  "DCCHECK_STRCASEEQ me site a b lids = debug_only me (CCHECK_STRCASEEQ me site a b lids)"

definition DCCHECK_STRCASENE :: "'f macro_env \<Rightarrow> log_site \<Rightarrow> string option expression \<Rightarrow> string option expression \<Rightarrow> string list \<Rightarrow> 'f log_statement" where
  "DCCHECK_STRCASENE me site a b lids = debug_only me (CCHECK_STRCASENE me site a b lids)"

definition DCPCHECK :: "'f macro_env \<Rightarrow> log_site \<Rightarrow> int \<Rightarrow> 'f condition expression \<Rightarrow> string list \<Rightarrow> 'f log_statement" where
  "DCPCHECK me site err c lids = debug_only me (CPCHECK me site err c lids)"

definition DCHECK :: "'f macro_env \<Rightarrow> log_site \<Rightarrow> 'f condition expression \<Rightarrow> 'f log_statement" where
  "DCHECK me site c = DCCHECK me site c [curr_file_logger (me_build me)]"

definition DCHECK_EQ :: "'f macro_env \<Rightarrow> log_site \<Rightarrow> 'a expression \<Rightarrow> 'a expression \<Rightarrow> 'f log_statement" where
  "DCHECK_EQ me site a b = DCCHECK_EQ me site a b [curr_file_logger (me_build me)]"

definition DCHECK_NE :: "'f macro_env \<Rightarrow> log_site \<Rightarrow> 'a expression \<Rightarrow> 'a expression \<Rightarrow> 'f log_statement" where
  "DCHECK_NE me site a b = DCCHECK_NE me site a b [curr_file_logger (me_build me)]"

definition DCHECK_LT :: "'f macro_env \<Rightarrow> log_site \<Rightarrow> ('a::linorder) expression \<Rightarrow> 'a expression \<Rightarrow> 'f log_statement" where
  "DCHECK_LT me site a b = DCCHECK_LT me site a b [curr_file_logger (me_build me)]"

definition DCHECK_GT :: "'f macro_env \<Rightarrow> log_site \<Rightarrow> ('a::linorder) expression \<Rightarrow> 'a expression \<Rightarrow> 'f log_statement" where
  "DCHECK_GT me site a b = DCCHECK_GT me site a b [curr_file_logger (me_build me)]"

definition DCHECK_LE :: "'f macro_env \<Rightarrow> log_site \<Rightarrow> ('a::linorder) expression \<Rightarrow> 'a expression \<Rightarrow> 'f log_statement" where
  "DCHECK_LE me site a b = DCCHECK_LE me site a b [curr_file_logger (me_build me)]"

definition DCHECK_GE :: "'f macro_env \<Rightarrow> log_site \<Rightarrow> ('a::linorder) expression \<Rightarrow> 'a expression \<Rightarrow> 'f log_statement" where
  "DCHECK_GE me site a b = DCCHECK_GE me site a b [curr_file_logger (me_build me)]"

definition DCHECK_BOUNDS :: "'f macro_env \<Rightarrow> log_site \<Rightarrow> ('a::linorder) expression \<Rightarrow> 'a expression \<Rightarrow> 'a expression \<Rightarrow> 'f log_statement" where
  "DCHECK_BOUNDS me site v least most = DCCHECK_BOUNDS me site v least most [curr_file_logger (me_build me)]"

definition DCHECK_NOTNULL :: "'f macro_env \<Rightarrow> log_site \<Rightarrow> 'a option expression \<Rightarrow> 'f log_statement" where
  "DCHECK_NOTNULL me site p = DCCHECK_NOTNULL me site (fst p, CHR ''('' # snd p @ '')'') [curr_file_logger (me_build me)]"

definition DCHECK_STREQ :: "'f macro_env \<Rightarrow> log_site \<Rightarrow> string option expression \<Rightarrow> string option expression \<Rightarrow> 'f log_statement" where
  "DCHECK_STREQ me site a b = DCCHECK_STREQ me site a b [curr_file_logger (me_build me)]"

definition DCHECK_STRNE :: "'f macro_env \<Rightarrow> log_site \<Rightarrow> string option expression \<Rightarrow> string option expression \<Rightarrow> 'f log_statement" where
  "DCHECK_STRNE me site a b = DCCHECK_STRNE me site a b [curr_file_logger (me_build me)]"

definition DCHECK_STRCASEEQ :: "'f macro_env \<Rightarrow> log_site \<Rightarrow> string option expression \<Rightarrow> string option expression \<Rightarrow> 'f log_statement" where
  "DCHECK_STRCASEEQ me site a b = DCCHECK_STRCASEEQ me site a b [curr_file_logger (me_build me)]"

definition DCHECK_STRCASENE :: "'f macro_env \<Rightarrow> log_site \<Rightarrow> string option expression \<Rightarrow> string option expression \<Rightarrow> 'f log_statement" where
  "DCHECK_STRCASENE me site a b = DCCHECK_STRCASENE me site a b [curr_file_logger (me_build me)]"

definition DPCHECK :: "'f macro_env \<Rightarrow> log_site \<Rightarrow> int \<Rightarrow> 'f condition expression \<Rightarrow> 'f log_statement" where
  "DPCHECK me site err c = DCPCHECK me site err c [curr_file_logger (me_build me)]"

end
