(* ===== verification/ElOccasional.thy ===== *)
theory ElOccasional
  imports ElLog ElChecks
begin

text \<open>
  The macros at work: what is logged when an occasional statement is reached again and again, and what a
  check does when it holds and when it fails.
\<close>

section \<open>The same statement again\<close>

text \<open>A state in which a statement to the logger would log the same line as before.\<close>

definition steady :: "string \<Rightarrow> Logger \<Rightarrow> 'f Storage \<Rightarrow> 'f Storage \<Rightarrow> bool" where
  "steady lid lg st st' \<longleftrightarrow> st_flags st' = st_flags st \<and> st_customFormatSpecifiers st' = st_customFormatSpecifiers st
     \<and> st_loggingLevel st' = st_loggingLevel st \<and> rl_list (st_loggers st') = rl_list (st_loggers st)
     \<and> (\<exists>lg'. same_but_counts lg lg' \<and> rl_map (st_loggers st') lid = Some lg')"

lemma steady_refl: "rl_map (st_loggers st) lid = Some lg \<Longrightarrow> steady lid lg st st"
  using same_but_counts_refl by (auto simp: steady_def)

lemma steady_line:
  assumes "steady lid lg st st'" and "rl_map (st_loggers st') lid = Some lg'"
  shows "stream_text lg' vs st' = stream_text lg vs st" "statement_line env w p t lg' st' = statement_line env w p t lg st"
    "shown_line env level lg' st' = shown_line env level lg st" "lg_enabled level lg' = lg_enabled level lg" "lg_stream lg' = lg_stream lg"
proof -
  obtain m where lg': "lg' = lg\<lparr>lg_unflushedCount := m\<rparr>" using assms by (auto simp: steady_def same_but_counts_def)
  have flags: "st_hasFlag flag st' = st_hasFlag flag st" for flag using assms(1) by (simp add: steady_def st_hasFlag_def)
  have specs: "st_customFormatSpecifiers st' = st_customFormatSpecifiers st" using assms(1) by (simp add: steady_def)
  show "stream_text lg' vs st' = stream_text lg vs st" by (simp add: stream_text_def flags lg')
  show "statement_line env w p t lg' st' = statement_line env w p t lg st"
    by (simp add: statement_line_def specs lg' builder_ignores_counts mk_LogMessage_def)
  show "shown_line env level lg' st' = shown_line env level lg st"
    by (simp add: shown_line_def fun_eq_iff flags lg' cong: option.case_cong)
  show "lg_enabled level lg' = lg_enabled level lg" "lg_stream lg' = lg_stream lg" by (simp_all add: lg_enabled_def lg')
qed

lemma steady_proceeds:
  assumes "steady lid lg st st'" "rl_map (st_loggers st') lid = Some lg'" "the_logger p st = Some lg" "the_logger p st' = Some lg'"
  shows "writer_proceeds level p st' = writer_proceeds level p st"
  using assms steady_line(4) [OF assms(1,2)]
  by (simp add: writer_proceeds_def steady_def st_hasFlag_def)

text \<open>One statement leads to a steady state, if the stream was empty before.\<close>

lemma logged_steady:
  assumes l: "logged env level line lid lg1 st1 st2" and s: "steady lid lg st st1" and lg1: "rl_map (st_loggers st1) lid = Some lg1"
    and empty: "lg_stream lg = []"
  shows "steady lid lg st st2" "st_stdout st2 = st_stdout st1 @ shown_line env level lg st line"
    "st_hitCounters st2 = st_hitCounters st1"
proof -
  obtain r' lg' where st2: "st2 = st1\<lparr>st_loggers := r', st_stdout := st_stdout st1 @ shown_line env level lg1 st1 line\<rparr>"
    and same: "same_but_counts (lg1\<lparr>lg_stream := []\<rparr>) lg'"
    and c: "changed_logger lid lg' (appended (target_file level lg1 (rl_world (st_loggers st1))) line (rl_world (st_loggers st1)))
      (st_loggers st1) r'"
    using l unfolding logged_def by blast
  obtain m where m: "lg1 = lg\<lparr>lg_unflushedCount := m\<rparr>" using s lg1 by (auto simp: steady_def same_but_counts_def)
  then have "lg1\<lparr>lg_stream := []\<rparr> = lg1" using empty by simp
  then have "same_but_counts lg lg'" using same m by (auto simp: same_but_counts_def)
  then show "steady lid lg st st2" using s c by (auto simp: steady_def st2 changed_logger_def)
  show "st_stdout st2 = st_stdout st1 @ shown_line env level lg st line" "st_hitCounters st2 = st_hitCounters st1"
    using steady_line(3) [OF s lg1] by (simp_all add: st2)
qed

section \<open>Occasional statements\<close>

definition occasional :: "hit_kind \<Rightarrow> 'f macro_env \<Rightarrow> log_site \<Rightarrow> 64 word \<Rightarrow> Level \<Rightarrow> 'f log_statement" where
  "occasional kind = (case kind of EveryN \<Rightarrow> LOG_EVERY_N | AfterN \<Rightarrow> LOG_AFTER_N | NTimes \<Rightarrow> LOG_N_TIMES)"

fun repeated :: "nat \<Rightarrow> ('f Storage \<Rightarrow> ('f, unit) run option) \<Rightarrow> 'f Storage \<Rightarrow> ('f, unit) run option" where
  "repeated 0 m st = Some (Returned () st)"
| "repeated (Suc k) m st = run_then (m st) (\<lambda>_ st. repeated k m st)"

text \<open>How often a statement that is reached \<open>k\<close> times logs.\<close>

fun times_logged :: "hit_kind \<Rightarrow> nat \<Rightarrow> nat \<Rightarrow> nat" where
  "times_logged EveryN n k = k div n"
| "times_logged AfterN n k = k - n"
| "times_logged NTimes n k = min k n"

lemma times_logged_Suc: "times_logged kind n (Suc k) = times_logged kind n k + (if promised kind n (Suc k) then 1 else 0)"
  by (cases kind) (auto simp: div_Suc dvd_eq_mod_eq_0)

lemma occasional_eq:
  assumes "level_compiled (me_build me) level"
  shows "occasional kind me site n level vs st =
     do { (b, r) \<leftarrow> validate kind (site_file site, site_line site) n (st_hitCounters st);
          let st = st\<lparr>st_hitCounters := r\<rparr>;
          if b then statement (me_app me) (me_nesting me) (mk_Writer level (site_file site) (site_line site) (site_func site) DA_NormalLog 0)
                      (To_ids [curr_file_logger (me_build me)]) vs st
          else Some (Returned () st) }"
  using assms
  by (cases kind)
    (auto simp: occasional_def LOG_EVERY_N_def LOG_AFTER_N_def LOG_N_TIMES_def CLOG_EVERY_N_def CLOG_AFTER_N_def CLOG_N_TIMES_def
      C_level_every_n_def C_level_after_n_def C_level_n_times_def write_log_every_n_def write_log_after_n_def write_log_n_times_def
      validateEveryNCounter_def validateAfterNCounter_def validateNTimesCounter_def count_with_def validate_def
      write_log_def run_writer_def Let_def bind_eq_Some_conv split: prod.splits bind_splits)

lemma log_ready_hits: "log_ready env (st\<lparr>st_hitCounters := r\<rparr>) = log_ready env st"
  by (simp add: log_ready_def storage_ready_def default_callbacks_def st_hasFlag_def)

lemma steady_hits: "steady lid lg st (st'\<lparr>st_hitCounters := r\<rparr>) = steady lid lg st st'"
  by (simp add: steady_def)

text \<open>What stays the same while the statement is reached again and again.\<close>

definition keeps_logging :: "'f macro_env \<Rightarrow> log_site \<Rightarrow> hit_kind \<Rightarrow> 64 word \<Rightarrow> string \<Rightarrow> Logger \<Rightarrow> 'f Storage \<Rightarrow> nat \<Rightarrow> 'f Storage \<Rightarrow> bool" where
  "keeps_logging me site kind n lid lg st s st' \<longleftrightarrow> log_ready (me_app me) st' \<and> steady lid lg st st'
     \<and> rp_ok (st_hitCounters st') \<and> counts kind n (hit_count (st_hitCounters st') (site_file site, site_line site)) s"

lemma occasional_step:
  assumes k: "keeps_logging me site kind n lid lg st s st1" and s: "Suc s < 2 ^ 64"
    and st: "loggers_ready (app_log (me_app me)) (st_loggers st)" "reg_get lid (rl_list (st_loggers st)) = Some a" "rl_map (st_loggers st) lid = Some lg"
    and lid: "lid = curr_file_logger (me_build me)" and empty: "lg_stream lg = []"
    and level: "level_compiled (me_build me) level" "level \<in> set walked_levels" "level \<noteq> L_Fatal" "NUL \<notin> set (site_file site)"
    and on: "writer_proceeds level (Some a) st = Some True"
    and out: "statement_line (me_app me) (mk_Writer level (site_file site) (site_line site) (site_func site) DA_NormalLog 0) (Some a)
      (stream_text lg vs st) lg st = Some out"
  shows "\<exists>st2. occasional kind me site n level vs st1 = Some (Returned () st2) \<and> keeps_logging me site kind n lid lg st (Suc s) st2
     \<and> st_stdout st2 = st_stdout st1 @ (if promised kind (unat n) (Suc s) then shown_line (me_app me) level lg st out else [])"
proof -
  let ?loc = "(site_file site, site_line site)" and ?env = "me_app me" and ?c = "hit_count (st_hitCounters st1)"
  have k': "log_ready ?env st1" "steady lid lg st st1" "rp_ok (st_hitCounters st1)" "counts kind n (?c ?loc) s"
    using k by (simp_all add: keeps_logging_def)
  obtain r where r: "validate kind ?loc n (st_hitCounters st1) = Some (answer kind n (?c ?loc), r)" "rp_ok r"
    "hit_count r = ?c(?loc := next_count kind n (?c ?loc))"
    using validate_value [OF k'(3)] .
  note step = hit_step [OF k'(4) s]
  define st1' where "st1' = st1\<lparr>st_hitCounters := r\<rparr>"
  have ready: "log_ready ?env st1'" and steady: "steady lid lg st st1'" and same: "st_stdout st1' = st_stdout st1" "st_hitCounters st1' = r"
    using k'(1,2) by (simp_all add: st1'_def log_ready_hits steady_hits)
  have counted: "rp_ok r" "counts kind n (hit_count r ?loc) (Suc s)" using r step(2) by simp_all
  show ?thesis
  proof (cases "promised kind (unat n) (Suc s)")
    case False
    then have "occasional kind me site n level vs st1 = Some (Returned () st1')"
      using r(1) step(1) by (simp add: occasional_eq [OF level(1)] st1'_def)
    with False ready steady same counted show ?thesis by (intro exI [of _ st1']) (simp add: keeps_logging_def)
  next
    case True
    obtain lg1 where lg1: "rl_map (st_loggers st1') lid = Some lg1" using steady by (auto simp: steady_def)
    have p: "reg_get lid (rl_list (st_loggers st1')) = Some a" using steady st(2) by (simp add: steady_def)
    have "writer_proceeds level (Some a) st1' = Some True"
      using steady_proceeds [OF steady lg1 registered_logger [OF st] registered_logger [OF log_readyD(1) [OF ready] p lg1]] on by simp
    from statement_ready [OF ready p lg1 level(2,4) this] obtain out' st2 where
      2: "statement ?env (me_nesting me) (mk_Writer level (site_file site) (site_line site) (site_func site) DA_NormalLog 0) (To_ids [lid]) vs st1'
        = Some (Returned () st2)" "log_ready ?env st2" "logged ?env level out' lid lg1 st1' st2"
      "statement_line ?env (mk_Writer level (site_file site) (site_line site) (site_func site) DA_NormalLog 0) (Some a)
        (stream_text lg1 vs st1') lg1 st1' = Some out'"
      using level(3) by auto metis
    have "out' = out" using 2(4) out unfolding steady_line [OF steady lg1] by simp
    note after = logged_steady [OF 2(3) [unfolded this] steady lg1 empty]
    have "occasional kind me site n level vs st1 = Some (Returned () st2)"
      using r(1) step(1) True 2(1) by (simp add: occasional_eq [OF level(1)] st1'_def lid)
    with True 2(2) after same counted show ?thesis by (intro exI [of _ st2]) (simp add: keeps_logging_def)
  qed
qed

lemma repeated_logging:
  assumes k: "keeps_logging me site kind n lid lg st s st1" and s: "s + k < 2 ^ 64"
    and st: "loggers_ready (app_log (me_app me)) (st_loggers st)" "reg_get lid (rl_list (st_loggers st)) = Some a" "rl_map (st_loggers st) lid = Some lg"
    and lid: "lid = curr_file_logger (me_build me)" and empty: "lg_stream lg = []"
    and level: "level_compiled (me_build me) level" "level \<in> set walked_levels" "level \<noteq> L_Fatal" "NUL \<notin> set (site_file site)"
    and on: "writer_proceeds level (Some a) st = Some True"
    and out: "statement_line (me_app me) (mk_Writer level (site_file site) (site_line site) (site_func site) DA_NormalLog 0) (Some a)
      (stream_text lg vs st) lg st = Some out"
  shows "\<exists>st2 m. repeated k (occasional kind me site n level vs) st1 = Some (Returned () st2)
     \<and> keeps_logging me site kind n lid lg st (s + k) st2 \<and> m + times_logged kind (unat n) s = times_logged kind (unat n) (s + k)
     \<and> st_stdout st2 = st_stdout st1 @ concat (replicate m (shown_line (me_app me) level lg st out))"
  using k s
proof (induction k arbitrary: s st1)
  case 0
  then show ?case by auto
next
  case (Suc k)
  from occasional_step [OF Suc.prems(1) _ st lid empty level on out] Suc.prems(2) obtain st2 where
    2: "occasional kind me site n level vs st1 = Some (Returned () st2)" "keeps_logging me site kind n lid lg st (Suc s) st2"
    "st_stdout st2 = st_stdout st1 @ (if promised kind (unat n) (Suc s) then shown_line (me_app me) level lg st out else [])"
    by auto
  from Suc.IH [OF 2(2)] Suc.prems(2) obtain st3 m where
    3: "repeated k (occasional kind me site n level vs) st2 = Some (Returned () st3)"
    "keeps_logging me site kind n lid lg st (Suc s + k) st3" "m + times_logged kind (unat n) (Suc s) = times_logged kind (unat n) (Suc s + k)"
    "st_stdout st3 = st_stdout st2 @ concat (replicate m (shown_line (me_app me) level lg st out))"
    by auto
  then show ?case
    using 2(1,3) times_logged_Suc [of kind "unat n" s]
    by (intro exI [of _ st3] exI [of _ "(if promised kind (unat n) (Suc s) then Suc m else m)"]) auto
qed

text \<open>
  C27. \<open>LOG_EVERY_N\<close>, \<open>LOG_AFTER_N\<close> and \<open>LOG_N_TIMES\<close>, reached \<open>k\<close> times at a place that was not reached before, log
  their line \<open>k div n\<close> times (for \<open>n\<close> up to 100000), \<open>k - n\<close> times, and as often as the smaller of \<open>k\<close> and \<open>n\<close>.
\<close>
theorem occasional_lines:
  assumes st: "log_ready (me_app me) st" "reg_get lid (rl_list (st_loggers st)) = Some a" "rl_map (st_loggers st) lid = Some lg"
    and lid: "lid = curr_file_logger (me_build me)" and empty: "lg_stream lg = []"
    and level: "level_compiled (me_build me) level" "level \<in> set walked_levels" "level \<noteq> L_Fatal" "NUL \<notin> set (site_file site)"
    and on: "writer_proceeds level (Some a) st = Some True"
    and hits: "rp_ok (st_hitCounters st)" "hit_count (st_hitCounters st) (site_file site, site_line site) = 0"
    and n: "kind = EveryN \<longrightarrow> 1 \<le> unat n \<and> unat n \<le> 100000" and k: "k < 2 ^ 64"
  shows "\<exists>out st'. repeated k (occasional kind me site n level vs) st = Some (Returned () st') \<and> log_ready (me_app me) st'
     \<and> statement_line (me_app me) (mk_Writer level (site_file site) (site_line site) (site_func site) DA_NormalLog 0) (Some a)
         (stream_text lg vs st) lg st = Some out
     \<and> st_stdout st' = st_stdout st @ concat (replicate (times_logged kind (unat n) k) (shown_line (me_app me) level lg st out))"
proof -
  have w: "wr_level (mk_Writer level (site_file site) (site_line site) (site_func site) DA_NormalLog 0) \<in> set walked_levels"
    "NUL \<notin> set (wr_file (mk_Writer level (site_file site) (site_line site) (site_func site) DA_NormalLog 0))"
    using level(2,4) by simp_all
  obtain out where out: "statement_line (me_app me) (mk_Writer level (site_file site) (site_line site) (site_func site) DA_NormalLog 0) (Some a)
      (stream_text lg vs st) lg st = Some out"
    using line_exists [OF st(1,3) w] .
  have "keeps_logging me site kind n lid lg st 0 st"
    using st hits n steady_refl [OF st(3)] by (cases kind) (auto simp: keeps_logging_def)
  from repeated_logging [OF this _ log_readyD(1) [OF st(1)] st(2,3) lid empty level on out, of k] k
  obtain st2 m where "repeated k (occasional kind me site n level vs) st = Some (Returned () st2)"
    "keeps_logging me site kind n lid lg st k st2" "m + times_logged kind (unat n) 0 = times_logged kind (unat n) k"
    "st_stdout st2 = st_stdout st @ concat (replicate m (shown_line (me_app me) level lg st out))"
    by auto
  moreover have "times_logged kind (unat n) 0 = 0" by (cases kind) simp_all
  ultimately show ?thesis using out by (auto simp: keeps_logging_def)
qed

section \<open>Checks\<close>

text \<open>
  C28. A check that holds changes nothing but what its condition changes; one that fails logs, on the level
  FATAL, the text of its condition and the values after it, and aborts.
\<close>
theorem CHECK_exact:
  assumes cond: "cond st0 = Some (b, st)" and build: "level_compiled (me_build me) L_Fatal" "me_nesting me = Suc n"
    and st: "log_ready (me_app me) st" "reg_get lid (rl_list (st_loggers st)) = Some a" "rl_map (st_loggers st) lid = Some lg"
    and lid: "lid = curr_file_logger (me_build me)" and f: "NUL \<notin> set (site_file site)"
    and on: "writer_proceeds L_Fatal (Some a) st = Some True" "\<not> st_hasFlag DisableApplicationAbortOnFatalLog st"
  shows "if b then CHECK me site (cond, t) vs st0 = Some (Returned () st)
     else \<exists>out st1 st2. CHECK me site (cond, t) vs st0 = Some (Aborted st2)
       \<and> statement_line (me_app me) (mk_Writer L_Fatal (site_file site) (site_line site) (site_func site) DA_NormalLog 0) (Some a)
           (stream_text lg (V_text ''Check failed: ['' # V_text t # V_text ''] '' # vs) st) lg st = Some out
       \<and> logged (me_app me) L_Fatal out lid lg st st1"
proof (cases b)
  case True
  then show ?thesis
    using cond by (simp add: CHECK_def CCHECK_def CLOG_IF_def C_level_if_def build write_log_if_def negated_def)
next
  case False
  then have "CHECK me site (cond, t) vs st0 = statement (me_app me) (Suc n)
      (mk_Writer L_Fatal (site_file site) (site_line site) (site_func site) DA_NormalLog 0) (To_ids [lid])
      (V_text ''Check failed: ['' # V_text t # V_text ''] '' # vs) st"
    using cond
    by (simp add: CHECK_def CCHECK_def CLOG_IF_def C_level_if_def build write_log_if_def negated_def write_log_def run_writer_def lid)
  with fatal_statement [OF st f on, of n "site_line site" "site_func site" 0 "V_text ''Check failed: ['' # V_text t # V_text ''] '' # vs"] False
  show ?thesis by (smt (verit, best))
qed

section \<open>Samples\<close>

lemma mk_Storage_hits: "mk_Storage env w = Some st \<Longrightarrow> st_hitCounters st = ([], empty_heap)"
  by (auto simp: mk_Storage_def st_addFlag_def installLogDispatchCallback_def installPerformanceTrackingCallback_def Let_def
      split: bind_splits prod.splits)

definition sample_macros :: "unit macro_env" where
  "sample_macros = \<lparr>me_app = sample_app, me_build = \<lparr>lb_disableLogs = False, lb_disabled = [], lb_debug = False, lb_ndebug = False,
     lb_defaultLogger = None\<rparr>, me_strerror = (\<lambda>_. []), me_nesting = 1\<rparr>"

definition sample_site :: log_site where
  "sample_site = \<lparr>site_file = ''profiler.cpp'', site_line = 42, site_func = ''main''\<rparr>"

lemma sample_macro_facts: "me_app sample_macros = sample_app" "curr_file_logger (me_build sample_macros) = kDefaultLoggerId"
  "level_compiled (me_build sample_macros) level" "me_nesting sample_macros = Suc 0" "NUL \<notin> set (site_file sample_site)"
  by (simp_all add: sample_macros_def curr_file_logger_def level_compiled_def sample_site_def)

lemma occasional_lines_witness:
  "\<exists>st out st'. log_ready sample_app st
     \<and> repeated 25 (occasional EveryN sample_macros sample_site 10 L_Info [V_text ''tick'']) st = Some (Returned () st')
     \<and> st_stdout st' = st_stdout st @ out @ out"
proof (rule sample_storage)
  fix st a lg
  assume new: "mk_Storage (app_log sample_app) sample_world = Some st" and ready: "log_ready sample_app st"
    and st: "reg_get kDefaultLoggerId (rl_list (st_loggers st)) = Some a" "rl_map (st_loggers st) kDefaultLoggerId = Some lg"
    and empty: "lg_stream lg = []"
    and on: "\<And>level. level \<noteq> L_Unknown \<Longrightarrow> writer_proceeds level (Some a) st = Some True"
  have hits: "rp_ok (st_hitCounters st)" "hit_count (st_hitCounters st) (site_file sample_site, site_line sample_site) = 0"
    unfolding mk_Storage_hits [OF new]
    by (simp_all add: rp_ok_def owns_def heap_ok_def empty_heap_def hit_count_def rp_contents_def contents_of_def)
  have level: "L_Info \<in> set walked_levels" "L_Info \<noteq> L_Fatal" "L_Info \<noteq> L_Unknown" by code_simp+
  have "EveryN = EveryN \<longrightarrow> 1 \<le> unat (10 :: 64 word) \<and> unat (10 :: 64 word) \<le> 100000" "(25 :: nat) < 2 ^ 64" by simp_all
  from occasional_lines [of sample_macros, unfolded sample_macro_facts(1,2),
      OF ready st refl empty sample_macro_facts(3) level(1,2) sample_macro_facts(5) on [OF level(3)] hits this, of "[V_text ''tick'']"]
  obtain st' x where "repeated 25 (occasional EveryN sample_macros sample_site 10 L_Info [V_text ''tick'']) st = Some (Returned () st')"
    "st_stdout st' = st_stdout st @ concat (replicate (times_logged EveryN (unat (10 :: 64 word)) 25) x)"
    by blast
  moreover have "times_logged EveryN (unat (10 :: 64 word)) 25 = Suc (Suc 0)" by simp
  ultimately have "st_stdout st' = st_stdout st @ x @ x" by (simp only: replicate.simps concat.simps append_Nil2)
  with ready \<open>repeated 25 _ st = _\<close> show ?thesis by blast
qed

lemma CHECK_exact_witness:
  "\<exists>st st'. log_ready sample_app st \<and> CHECK sample_macros sample_site (holds_if True, ''size > 0'') [] st = Some (Returned () st)
     \<and> CHECK sample_macros sample_site (holds_if False, ''size > 0'') [V_int 0] st = Some (Aborted st')"
proof (rule sample_storage)
  fix st a lg
  assume st: "log_ready sample_app st" "reg_get kDefaultLoggerId (rl_list (st_loggers st)) = Some a"
    "rl_map (st_loggers st) kDefaultLoggerId = Some lg" and flags: "st_flags st = flag_int AllowVerboseIfModuleNotSpecified"
    and on: "\<And>level. level \<noteq> L_Unknown \<Longrightarrow> writer_proceeds level (Some a) st = Some True"
  have abort: "\<not> st_hasFlag DisableApplicationAbortOnFatalLog st" unfolding st_hasFlag_def flags by code_simp
  have proceeds: "writer_proceeds L_Fatal (Some a) st = Some True" by (rule on) simp
  note check = CHECK_exact [of "holds_if _" st _ st sample_macros, unfolded sample_macro_facts(1,2),
      OF _ sample_macro_facts(3,4) st refl sample_macro_facts(5) proceeds abort]
  have c: "holds_if True st = Some (True, st)" "holds_if False st = Some (False, st)" by (simp_all add: holds_if_def)
  from check [OF c(1), where t = "''size > 0''" and vs = "[]"] check [OF c(2), where t = "''size > 0''" and vs = "[V_int 0]"] st(1)
  show ?thesis by auto
qed

end
