(* ===== verification/ElCrash.thy ===== *)
theory ElCrash
  imports ElOccasional
begin

text \<open>
  Crash handling (\<open>easylogging.h\<close>, lines 931 to 941, 5483 to 5669, 5713 to 5739 and 6650 to 6663): the stack trace and its
  entries, the reason of a crash, the statement that logs it, and the installation of handlers. Stack
  traces are compiled in by an option; the symbols of the stack and the demangling are parameters. The signal
  table of the process is a function.
\<close>

section \<open>Stack traces\<close>

record StackTraceEntry =
  se_index :: nat
  se_location :: string
  se_demangled :: string
  se_hex :: string
  se_addr :: string

definition mk_StackTraceEntry :: "nat \<Rightarrow> string \<Rightarrow> string \<Rightarrow> string \<Rightarrow> string \<Rightarrow> StackTraceEntry" where
  "mk_StackTraceEntry index loc demang hex addr =
     \<lparr>se_index = index, se_location = loc, se_demangled = demang, se_hex = hex, se_addr = addr\<rparr>"

definition mk_PlainEntry :: "nat \<Rightarrow> string \<Rightarrow> StackTraceEntry" where
  "mk_PlainEntry index loc = \<lparr>se_index = index, se_location = loc, se_demangled = [], se_hex = [], se_addr = []\<rparr>"

definition entry_text :: "StackTraceEntry \<Rightarrow> string" where
  "entry_text si = ''['' @ decimal (se_index si) @ ''] '' @ se_location si @ (if se_demangled si = [] then [] else '':'') @ se_demangled si
     @ (if se_hex si = [] then [] else ''+'') @ se_hex si @ se_addr si"

definition trace_text :: "StackTraceEntry list \<Rightarrow> string" where
  "trace_text st = concat (map (\<lambda>si. ''    '' @ entry_text si @ [NEWLINE]) st)"

definition kMaxStack :: nat where "kMaxStack = 64"
definition kStackStart :: nat where "kStackStart = 2"

text \<open>The last parenthesis, plus sign and closing parenthesis of a symbol.\<close>

fun symbol_marks :: "nat \<Rightarrow> string \<Rightarrow> nat option \<times> nat option \<times> nat option \<Rightarrow> nat option \<times> nat option \<times> nat option" where
  "symbol_marks i [] marks = marks"
| "symbol_marks i (c # s) (mangName, hex, addr) =
     symbol_marks (i + 1) s
       (if c = CHR ''('' then (Some i, hex, addr)
        else if c = CHR ''+'' then (mangName, Some i, addr)
        else if c = CHR '')'' then (mangName, hex, Some i)
        else (mangName, hex, addr))"

text \<open>Zero bytes are written over the marks, and the parts are the C strings that begin behind them.\<close>

definition symbol_entry :: "(string \<Rightarrow> string option) \<Rightarrow> nat \<Rightarrow> string \<Rightarrow> StackTraceEntry" where
  "symbol_entry demangle index s = (case symbol_marks 0 s (None, None, None) of
     (Some mangName, Some hex, Some addr) \<Rightarrow>
       if mangName < hex then
         (let s = s[mangName := NUL, hex := NUL, addr := NUL];
              mangled = c_str (drop (mangName + 1) s);
              demangled = (case demangle mangled of Some d \<Rightarrow> d | None \<Rightarrow> mangled)
          in mk_StackTraceEntry index (c_str s) demangled (c_str (drop (hex + 1) s)) (c_str (drop (addr + 1) s)))
       else mk_PlainEntry index s
   | _ \<Rightarrow> mk_PlainEntry index s)"

definition generateNew :: "(string \<Rightarrow> string option) \<Rightarrow> string list \<Rightarrow> StackTraceEntry list" where
  "generateNew demangle stack =
     (let strings = take kMaxStack stack; size = length strings
      in if kStackStart < size then map (\<lambda>i. symbol_entry demangle (i - 1) (strings ! i)) [kStackStart..<size] else [])"

section \<open>The reason of a crash\<close>

definition crashReason :: "int \<Rightarrow> 'f Storage \<Rightarrow> string" where
  "crashReason sig st =
     (let step = (\<lambda>(numb, name, brief, detail) (ss, foundReason).
            if numb = sig then
              (ss @ ''Application has crashed due to ['' @ name @ ''] signal''
                 @ (if st_hasFlag LogDetailedCrashReason st
                    then NEWLINE # ''    '' @ brief @ NEWLINE # ''    '' @ detail else []), True)
            else (ss, foundReason));
          (ss, foundReason) = fold step kCrashSignals ([], False)
      in if \<not> foundReason then ss @ ''Application has crashed due to unknown signal ['' @ int_text sig @ '']'' else ss)"

text \<open>The trace is \<open>None\<close> in a build without stack traces.\<close>

definition crash_text :: "StackTraceEntry list option \<Rightarrow> int \<Rightarrow> bool \<Rightarrow> 'f Storage \<Rightarrow> string" where
  "crash_text trace sig stackTraceIfAvailable st =
     ''CRASH HANDLED; '' @ crashReason sig st
       @ (case trace of
            Some t \<Rightarrow> if stackTraceIfAvailable
                      then NEWLINE # ''    ======= Backtrace: ========='' @ NEWLINE # trace_text t else []
          | None \<Rightarrow> [])"

definition logCrashReason :: "'f macro_env \<Rightarrow> log_site \<Rightarrow> StackTraceEntry list option \<Rightarrow> int \<Rightarrow> bool \<Rightarrow> Level \<Rightarrow> string \<Rightarrow> 'f Storage
    \<Rightarrow> ('f, unit) run option" where
  "logCrashReason me site trace sig stackTraceIfAvailable level logger st =
     write_log me site Plain_writer level DA_NormalLog [logger] [V_string (crash_text trace sig stackTraceIfAvailable st)] st"

text \<open>The status and the reason of an abort are for debuggers only.\<close>

definition app_abort :: "int \<Rightarrow> string \<Rightarrow> 'f Storage \<Rightarrow> ('f, unit) run option" where
  "app_abort status reason st = Some (Aborted st)"

definition crashAbort :: "int \<Rightarrow> 'f Storage \<Rightarrow> ('f, unit) run option" where
  "crashAbort sig = app_abort sig []"

definition defaultCrashHandler :: "'f macro_env \<Rightarrow> log_site \<Rightarrow> StackTraceEntry list option \<Rightarrow> int \<Rightarrow> 'f Storage \<Rightarrow> ('f, unit) run option" where
  "defaultCrashHandler me site trace sig st =
     run_then (logCrashReason me site trace sig True L_Fatal kDefaultLoggerId st) (\<lambda>_ st. crashAbort sig st)"

definition helpers_crashAbort :: "int \<Rightarrow> string option \<Rightarrow> 64 word \<Rightarrow> 'f Storage \<Rightarrow> ('f, unit) run option" where
  "helpers_crashAbort sig sourceFile line st =
     app_abort sig
       (c_str (crashReason sig st) @ '' - [Called el::Helpers::crashAbort('' @ int_text sig @ '')]''
          @ (case sourceFile of
               Some f \<Rightarrow> if 0 < length f
                         then '' - Source: '' @ f @ (if 0 < line then CHR '':'' # int_text (uint line) else '' (line number not specified)'')
                         else []
             | None \<Rightarrow> []))
       st"

section \<open>Handlers\<close>

text \<open>\<open>signal\<close> installs a handler and answers with the one before; \<open>m_handler\<close> has no value at first.\<close>

definition sig_install :: "int \<Rightarrow> 'h \<Rightarrow> (int \<Rightarrow> 'h) \<Rightarrow> 'h \<times> (int \<Rightarrow> 'h)" where
  "sig_install sig h table = (table sig, table(sig := h))"

definition setHandler :: "bool \<Rightarrow> 'h \<Rightarrow> 'h option \<times> (int \<Rightarrow> 'h) \<Rightarrow> 'h option \<times> (int \<Rightarrow> 'h)" where
  "setHandler handle_sigabrt cHandler s =
     (let (m_handler, table) = s;
          i = (if handle_sigabrt then 0 else 1)
      in fold (\<lambda>(numb, name, brief, detail) (m_handler, table). let (old, table) = sig_install numb cHandler table in (Some old, table))
           (drop i kCrashSignals) (Some cHandler, table))"

definition mk_CrashHandler :: "bool \<Rightarrow> 'h \<Rightarrow> bool \<Rightarrow> (int \<Rightarrow> 'h) \<Rightarrow> 'h option \<times> (int \<Rightarrow> 'h)" where
  "mk_CrashHandler handle_sigabrt defaultHandler useDefault table =
     (if useDefault then setHandler handle_sigabrt defaultHandler (None, table) else (None, table))"

text \<open>The agent's own header turns the default handler off.\<close>

definition ELPP_DISABLE_DEFAULT_CRASH_HANDLING :: bool where
  "ELPP_DISABLE_DEFAULT_CRASH_HANDLING = True"

definition ELPP_USE_DEF_CRASH_HANDLER :: bool where
  "ELPP_USE_DEF_CRASH_HANDLER = (if ELPP_DISABLE_DEFAULT_CRASH_HANDLING then False else True)"

section \<open>Properties\<close>

lemma symbol_marks_append:
  "symbol_marks i (s @ t) marks = symbol_marks (i + length s) t (symbol_marks i s marks)"
  by (induction i s marks rule: symbol_marks.induct) simp_all

lemma symbol_marks_none: "CHR ''('' \<notin> set s \<Longrightarrow> CHR ''+'' \<notin> set s \<Longrightarrow> CHR '')'' \<notin> set s \<Longrightarrow> symbol_marks i s marks = marks"
  by (induction i s marks rule: symbol_marks.induct) auto

lemma symbol_marks_any: "\<exists>m h a. symbol_marks i s marks = (m, h, a)"
  by (cases "symbol_marks i s marks") auto

lemma c_str_cut: "NUL \<notin> set s \<Longrightarrow> c_str (s @ NUL # t) = s"
  unfolding c_str_def by (subst takeWhile_append2) auto

lemma c_str_all: "NUL \<notin> set s \<Longrightarrow> c_str s = s"
  unfolding c_str_def by (subst takeWhile_eq_all_conv) auto

lemma drop_length_append: "n = length xs \<Longrightarrow> drop n (xs @ ys) = ys"
  by simp

text \<open>
  C32. A symbol of the form \<open>object(name+offset)address\<close>, whatever characters the path of the object has, is
  taken apart into exactly its four parts; a name that can be demangled is shown demangled.
\<close>
theorem symbol_entry_parts:
  assumes "\<forall>c\<in>set (mang @ hex @ addr). c \<notin> {CHR ''('', CHR ''+'', CHR '')''}" and "NUL \<notin> set (loc @ mang @ hex @ addr)"
  shows "symbol_entry demangle index (loc @ ''('' @ mang @ ''+'' @ hex @ '')'' @ addr)
    = \<lparr>se_index = index, se_location = loc, se_demangled = (case demangle mang of Some d \<Rightarrow> d | None \<Rightarrow> mang), se_hex = hex, se_addr = addr\<rparr>"
proof -
  let ?s = "loc @ CHR ''('' # mang @ CHR ''+'' # hex @ CHR '')'' # addr"
  let ?m = "length loc" and ?h = "length loc + 1 + length mang"
  let ?a = "length loc + 1 + length mang + 1 + length hex"
  obtain m h a where 0: "symbol_marks 0 loc (None, None, None) = (m, h, a)" using symbol_marks_any by blast
  have skip: "symbol_marks i mang x = x" "symbol_marks i hex x = x" "symbol_marks i addr x = x" for i x
    using assms(1) by (intro symbol_marks_none; force)+
  have marks: "symbol_marks 0 ?s (None, None, None) = (Some ?m, Some ?h, Some ?a)"
    by (simp add: symbol_marks_append 0 skip)
  have "?s[?m := NUL] = (loc @ NUL # mang) @ CHR ''+'' # hex @ CHR '')'' # addr" by simp
  moreover have "((loc @ NUL # mang) @ CHR ''+'' # hex @ CHR '')'' # addr)[?h := NUL] = (loc @ NUL # mang @ NUL # hex) @ CHR '')'' # addr"
    using list_update_length [of "loc @ NUL # mang"] by simp
  moreover have "((loc @ NUL # mang @ NUL # hex) @ CHR '')'' # addr)[?a := NUL] = loc @ NUL # mang @ NUL # hex @ NUL # addr"
    using list_update_length [of "loc @ NUL # mang @ NUL # hex"] by (simp add: add.assoc)
  ultimately have cut: "?s[?m := NUL, ?h := NUL, ?a := NUL] = loc @ NUL # mang @ NUL # hex @ NUL # addr" by simp
  have parts: "NUL \<notin> set loc" "NUL \<notin> set mang" "NUL \<notin> set hex" "NUL \<notin> set addr" using assms(2) by simp_all
  have "drop (?h + 1) (loc @ NUL # mang @ NUL # hex @ NUL # addr) = hex @ NUL # addr"
    "drop (?a + 1) (loc @ NUL # mang @ NUL # hex @ NUL # addr) = addr"
    "drop (?m + 1) (loc @ NUL # mang @ NUL # hex @ NUL # addr) = mang @ NUL # hex @ NUL # addr"
    using drop_length_append [of "?h + 1" "loc @ NUL # mang @ [NUL]" "hex @ NUL # addr"]
      drop_length_append [of "?a + 1" "loc @ NUL # mang @ NUL # hex @ [NUL]" addr] by simp_all
  note parts_at = this c_str_cut c_str_all
  have "?m < ?h" by simp
  with marks show ?thesis
    unfolding symbol_entry_def append.simps
    by (simp only: prod.case option.case if_True cut Let_def parts_at parts not_False_eq_True mk_StackTraceEntry_def)
qed

lemma symbol_entry_parts_witness:
  "symbol_entry (\<lambda>_. None) 1 ''/opt/c++/libfranky.so(_ZN1AE+0x1f)[0x7f]''
     = \<lparr>se_index = 1, se_location = ''/opt/c++/libfranky.so'', se_demangled = ''_ZN1AE'', se_hex = ''0x1f'', se_addr = ''[0x7f]''\<rparr>"
  using symbol_entry_parts [of "''_ZN1AE''" "''0x1f''" "''[0x7f]''" "''/opt/c++/libfranky.so''" "\<lambda>_. None" 1] by simp

text \<open>Every crash signal has one reason, other signals are unknown.\<close>

lemma crashReason_cases:
  "crashReason sig st =
     (case map_of kCrashSignals sig of
        None \<Rightarrow> ''Application has crashed due to unknown signal ['' @ int_text sig @ '']''
      | Some (name, brief, detail) \<Rightarrow> ''Application has crashed due to ['' @ name @ ''] signal''
          @ (if st_hasFlag LogDetailedCrashReason st then NEWLINE # ''    '' @ brief @ NEWLINE # ''    '' @ detail else []))"
  by (simp add: crashReason_def kCrashSignals_def)



text \<open>
  CX. A handler is installed for every crash signal of the table, for \<open>SIGABRT\<close> only in a build that asks for it, and
  for no other signal. What the crash handler object keeps is not this handler but the one that was
  installed for \<open>SIGINT\<close> before.
\<close>
theorem setHandler_installs:
  "setHandler handle_sigabrt h (m, table)
     = (Some (table 2), \<lambda>sig. if (if sig = 6 then handle_sigabrt else sig \<in> set (map fst kCrashSignals)) then h else table sig)"
  by (auto simp: setHandler_def sig_install_def kCrashSignals_def fun_eq_iff)

text \<open>The library that the agent is built with installs no handler of its own.\<close>

lemma agent_keeps_handlers: "mk_CrashHandler handle_sigabrt h ELPP_USE_DEF_CRASH_HANDLER table = (None, table)"
  by (simp add: mk_CrashHandler_def ELPP_USE_DEF_CRASH_HANDLER_def ELPP_DISABLE_DEFAULT_CRASH_HANDLING_def)

end
