(* ===== verification/ElInit.thy ===== *)
theory ElInit
  imports ElPerf ElCrash
begin

text \<open>
  Starting the library (\<open>easylogging.h\<close>, lines 1594 to 1604 and 6655 to 6695), as \<open>vmEntry.cpp\<close> does; the macros around
  trackers and hit counters (lines 6049 to 6068); and what a build with \<open>ELPP_SYSLOG\<close> has in addition:
  the system logger, the priorities of its lines and the macros that log to it (lines 3977 to 3982, 4256 to
  4280 and 6437 to 6463).
\<close>

section \<open>Commands of the shell\<close>

text \<open>
  \<open>getBashOutput\<close>: what a command prints is a parameter, \<open>None\<close> when it cannot be run. The first line is read into a
  buffer of 4096 bytes. The last character of an empty text is read before the buffer.
\<close>

definition fgets :: "nat \<Rightarrow> string \<Rightarrow> string option" where
  "fgets n s =
     (let t = take (n - 1) s; l = takeWhile (\<lambda>ch. ch \<noteq> NEWLINE) t
      in if t = [] then None else Some (if length l < length t then l @ [NEWLINE] else l))"

definition getBashOutput :: "(string \<Rightarrow> string option) \<Rightarrow> string option \<Rightarrow> string option" where
  "getBashOutput popen command =
     (case command of
        None \<Rightarrow> Some []
      | Some c \<Rightarrow> (case popen c of
          None \<Rightarrow> Some []
        | Some output \<Rightarrow> (case fgets 4096 output of
            None \<Rightarrow> Some []
          | Some hBuff \<Rightarrow>
              (let hBuff = c_str hBuff
               in if hBuff = [] then None
                  else Some (if last hBuff = NEWLINE then butlast hBuff else hBuff)))))"

section \<open>Trackers and counters\<close>

text \<open>The body of \<open>TIMED_BLOCK\<close> is that of a loop which counts to one; the tracker lives as long as the loop.\<close>

fun timed_loop :: "nat \<Rightarrow> nat \<Rightarrow> (PerformanceTracker \<Rightarrow> 'f Storage \<Rightarrow> ('f, PerformanceTracker) run option)
    \<Rightarrow> PerformanceTracker \<Rightarrow> 'f Storage \<Rightarrow> ('f, PerformanceTracker) run option" where
  "timed_loop 0 i body t st = Some (Returned t st)"
| "timed_loop (Suc fuel) i body t st =
     (if i < 1 then run_then (body t st) (timed_loop fuel (i + 1) body) else Some (Returned t st))"

definition TIMED_BLOCK :: "'f perf_env \<Rightarrow> TimestampUnit \<Rightarrow> string \<Rightarrow> timeval \<Rightarrow> timeval
    \<Rightarrow> (PerformanceTracker \<Rightarrow> 'f Storage \<Rightarrow> ('f, PerformanceTracker) run option) \<Rightarrow> 'f Storage \<Rightarrow> ('f, unit) run option" where
  "TIMED_BLOCK pe minUnit blockName now now' body = timed_scope pe minUnit blockName now now' (timed_loop 2 0 body)"

definition TIMED_FUNC :: "'f perf_env \<Rightarrow> TimestampUnit \<Rightarrow> log_site \<Rightarrow> timeval \<Rightarrow> timeval
    \<Rightarrow> (PerformanceTracker \<Rightarrow> 'f Storage \<Rightarrow> ('f, PerformanceTracker) run option) \<Rightarrow> 'f Storage \<Rightarrow> ('f, unit) run option" where
  "TIMED_FUNC pe minUnit site = timed_scope pe minUnit (site_func site)"

definition PERFORMANCE_CHECKPOINT :: "'f perf_env \<Rightarrow> log_site \<Rightarrow> timeval \<Rightarrow> timeval \<Rightarrow> PerformanceTracker \<Rightarrow> 'f Storage
    \<Rightarrow> ('f, PerformanceTracker) run option" where
  "PERFORMANCE_CHECKPOINT pe = checkpoint pe []"

definition PERFORMANCE_CHECKPOINT_WITH_ID :: "'f perf_env \<Rightarrow> string \<Rightarrow> log_site \<Rightarrow> timeval \<Rightarrow> timeval \<Rightarrow> PerformanceTracker
    \<Rightarrow> 'f Storage \<Rightarrow> ('f, PerformanceTracker) run option" where
  "PERFORMANCE_CHECKPOINT_WITH_ID pe cid = checkpoint pe cid"

definition ELPP_COUNTER :: "log_site \<Rightarrow> 'f Storage \<Rightarrow> nat option option" where
  "ELPP_COUNTER site st = getCounter (site_file site) (site_line site) (st_hitCounters st)"

text \<open>The \<open>-1\<close> takes on the type of the counts.\<close>

definition ELPP_COUNTER_POS :: "log_site \<Rightarrow> 'f Storage \<Rightarrow> 64 word option" where
  "ELPP_COUNTER_POS site st =
     do { p \<leftarrow> ELPP_COUNTER site st;
          if p = None then Some (- 1) else map_option hc_hitCounts (the_counter p (snd (st_hitCounters st))) }"

section \<open>Initialization\<close>

text \<open>The globals that hold the user, the host and what the terminal can do.\<close>

definition ELPP_INITI_BASIC_DECLR :: "(string \<Rightarrow> string option) \<Rightarrow> 'f app_env \<Rightarrow> 'f app_env" where
  "ELPP_INITI_BASIC_DECLR getenv env =
     env\<lparr>app_log := (app_log env)\<lparr>env_user := currentUser getenv, env_host := currentHost getenv\<rparr>,
         app_supportsColor := termSupportsColor getenv\<rparr>"

text \<open>The storage that is given, or made, and the crash handler with the signal handlers of the process.\<close>

definition ELPP_INIT_EASYLOGGINGPP :: "(string \<Rightarrow> string option) \<Rightarrow> 'f app_env \<Rightarrow> ('f app_env \<Rightarrow> 'f Storage option) \<Rightarrow> bool \<Rightarrow> 'h \<Rightarrow> (int \<Rightarrow> 'h)
    \<Rightarrow> ('f app_env \<times> 'f Storage \<times> 'h option \<times> (int \<Rightarrow> 'h)) option" where
  "ELPP_INIT_EASYLOGGINGPP getenv env val handle_sigabrt h table =
     (let env = ELPP_INITI_BASIC_DECLR getenv env
      in do { elStorage \<leftarrow> val env;
              Some (env, elStorage, mk_CrashHandler handle_sigabrt h ELPP_USE_DEF_CRASH_HANDLER table) })"

definition INITIALIZE_EASYLOGGINGPP :: "(string \<Rightarrow> string option) \<Rightarrow> 'f app_env \<Rightarrow> 'f log_world \<Rightarrow> bool \<Rightarrow> 'h \<Rightarrow> (int \<Rightarrow> 'h)
    \<Rightarrow> ('f app_env \<times> 'f Storage \<times> 'h option \<times> (int \<Rightarrow> 'h)) option" where
  "INITIALIZE_EASYLOGGINGPP getenv env w = ELPP_INIT_EASYLOGGINGPP getenv env (\<lambda>env. mk_Storage (app_log env) w)"

text \<open>Without a storage of its own, or with that of another module.\<close>

definition INITIALIZE_NULL_EASYLOGGINGPP :: "(string \<Rightarrow> string option) \<Rightarrow> 'f app_env \<Rightarrow> bool \<Rightarrow> 'h \<Rightarrow> (int \<Rightarrow> 'h)
    \<Rightarrow> 'f app_env \<times> 'f Storage option \<times> 'h option \<times> (int \<Rightarrow> 'h)" where
  "INITIALIZE_NULL_EASYLOGGINGPP getenv env handle_sigabrt h table =
     (ELPP_INITI_BASIC_DECLR getenv env, None, mk_CrashHandler handle_sigabrt h ELPP_USE_DEF_CRASH_HANDLER table)"

definition SHARE_EASYLOGGINGPP :: "'f Storage \<Rightarrow> bool \<Rightarrow> 'h \<Rightarrow> (int \<Rightarrow> 'h) \<Rightarrow> 'f Storage \<times> 'h option \<times> (int \<Rightarrow> 'h)" where
  "SHARE_EASYLOGGINGPP initializedStorage handle_sigabrt h table =
     (initializedStorage, mk_CrashHandler handle_sigabrt h ELPP_USE_DEF_CRASH_HANDLER table)"

definition START_EASYLOGGINGPP :: "'f app_env \<Rightarrow> string list option \<Rightarrow> 'f Storage \<Rightarrow> 'f Storage option" where
  "START_EASYLOGGINGPP env = setApplicationArguments (app_log env)"

section \<open>The system logger\<close>

definition kSysLogLoggerId :: string where "kSysLogLoggerId = ''syslog''"

text \<open>The constructor of the storage registers it behind the performance logger.\<close>

definition register_syslog :: "'f log_env \<Rightarrow> 'f loggers \<Rightarrow> 'f loggers option" where
  "register_syslog env r =
     do { (sysLogLogger, r) \<leftarrow> rl_get env kSysLogLoggerId True r;
          on_logger sysLogLogger (set_globally_and_reconfigure env C_Format ''%level: %msg'') r }"

datatype syslog_priority = LOG_EMERG | LOG_ERR | LOG_WARNING | LOG_INFO | LOG_DEBUG | LOG_NOTICE

definition sysLogPriority :: "Level \<Rightarrow> syslog_priority" where
  "sysLogPriority level =
     (if level = L_Fatal then LOG_EMERG
      else if level = L_Error then LOG_ERR
      else if level = L_Warning then LOG_WARNING
      else if level = L_Info then LOG_INFO
      else if level = L_Debug then LOG_DEBUG
      else LOG_NOTICE)"

text \<open>The dispatch of a line in such a build; the second component is what the system log has got.\<close>

definition syslog_dispatch :: "'f app_env \<Rightarrow> dispatch_data \<Rightarrow> string \<Rightarrow> 'f Storage \<times> (syslog_priority \<times> string) list
    \<Rightarrow> ('f Storage \<times> (syslog_priority \<times> string) list) option" where
  "syslog_dispatch env data logLine s =
     (let (st, log) = s
      in if snd data = DA_NormalLog then map_option (\<lambda>st. (st, log)) (dispatch_line env data logLine st)
         else if snd data = DA_SysLog then Some (st, log @ [(sysLogPriority (lm_level (fst data)), c_str logLine)])
         else Some (st, log))"

text \<open>The macros, which give their statements the action of the system log.\<close>

definition CSYSLOG_on :: "'f macro_env \<Rightarrow> log_site \<Rightarrow> Level \<Rightarrow> string list \<Rightarrow> 'f log_statement" where
  "CSYSLOG_on me site level lids =
     C_level me site level Plain_writer DA_SysLog lids"

definition CSYSLOG_IF :: "'f macro_env \<Rightarrow> log_site \<Rightarrow> 'f condition \<Rightarrow> Level \<Rightarrow> string list \<Rightarrow> 'f log_statement" where
  "CSYSLOG_IF me site cond level lids =
     C_level_if me site level Plain_writer cond DA_SysLog lids"

definition CSYSLOG_EVERY_N :: "'f macro_env \<Rightarrow> log_site \<Rightarrow> 64 word \<Rightarrow> Level \<Rightarrow> string list \<Rightarrow> 'f log_statement" where
  "CSYSLOG_EVERY_N me site n level lids =
     C_level_every_n me site level Plain_writer n DA_SysLog lids"

definition CSYSLOG_AFTER_N :: "'f macro_env \<Rightarrow> log_site \<Rightarrow> 64 word \<Rightarrow> Level \<Rightarrow> string list \<Rightarrow> 'f log_statement" where
  "CSYSLOG_AFTER_N me site n level lids =
     C_level_after_n me site level Plain_writer n DA_SysLog lids"

definition CSYSLOG_N_TIMES :: "'f macro_env \<Rightarrow> log_site \<Rightarrow> 64 word \<Rightarrow> Level \<Rightarrow> string list \<Rightarrow> 'f log_statement" where
  "CSYSLOG_N_TIMES me site n level lids =
     C_level_n_times me site level Plain_writer n DA_SysLog lids"

definition SYSLOG :: "'f macro_env \<Rightarrow> log_site \<Rightarrow> Level \<Rightarrow> 'f log_statement" where
  "SYSLOG me site level = CSYSLOG_on me site level [kSysLogLoggerId]"

definition SYSLOG_IF :: "'f macro_env \<Rightarrow> log_site \<Rightarrow> 'f condition \<Rightarrow> Level \<Rightarrow> 'f log_statement" where
  "SYSLOG_IF me site cond level = CSYSLOG_IF me site cond level [kSysLogLoggerId]"

definition SYSLOG_EVERY_N :: "'f macro_env \<Rightarrow> log_site \<Rightarrow> 64 word \<Rightarrow> Level \<Rightarrow> 'f log_statement" where
  "SYSLOG_EVERY_N me site n level = CSYSLOG_EVERY_N me site n level [kSysLogLoggerId]"

definition SYSLOG_AFTER_N :: "'f macro_env \<Rightarrow> log_site \<Rightarrow> 64 word \<Rightarrow> Level \<Rightarrow> 'f log_statement" where
  "SYSLOG_AFTER_N me site n level = CSYSLOG_AFTER_N me site n level [kSysLogLoggerId]"

definition SYSLOG_N_TIMES :: "'f macro_env \<Rightarrow> log_site \<Rightarrow> 64 word \<Rightarrow> Level \<Rightarrow> 'f log_statement" where
  "SYSLOG_N_TIMES me site n level = CSYSLOG_N_TIMES me site n level [kSysLogLoggerId]"

text \<open>Those for debug builds; the one for \<open>N_TIMES\<close> is written with the macro for \<open>EVERY_N\<close>.\<close>

definition DCSYSLOG :: "'f macro_env \<Rightarrow> log_site \<Rightarrow> Level \<Rightarrow> string list \<Rightarrow> 'f log_statement" where
  "DCSYSLOG me site level lids =
     debug_only me (C_level me site level Plain_writer DA_SysLog lids)"

definition DCSYSLOG_IF :: "'f macro_env \<Rightarrow> log_site \<Rightarrow> 'f condition \<Rightarrow> Level \<Rightarrow> string list \<Rightarrow> 'f log_statement" where
  "DCSYSLOG_IF me site cond level lids =
     C_level_if me site level Plain_writer (\<lambda>st. if debug_build (me_build me) then cond st else Some (False, st)) DA_SysLog lids"

definition DCSYSLOG_EVERY_N :: "'f macro_env \<Rightarrow> log_site \<Rightarrow> 64 word \<Rightarrow> Level \<Rightarrow> string list \<Rightarrow> 'f log_statement" where
  "DCSYSLOG_EVERY_N me site n level lids =
     debug_only me (C_level_every_n me site level Plain_writer n DA_SysLog lids)"

definition DCSYSLOG_AFTER_N :: "'f macro_env \<Rightarrow> log_site \<Rightarrow> 64 word \<Rightarrow> Level \<Rightarrow> string list \<Rightarrow> 'f log_statement" where
  "DCSYSLOG_AFTER_N me site n level lids =
     debug_only me (C_level_after_n me site level Plain_writer n DA_SysLog lids)"

definition DCSYSLOG_N_TIMES :: "'f macro_env \<Rightarrow> log_site \<Rightarrow> 64 word \<Rightarrow> Level \<Rightarrow> string list \<Rightarrow> 'f log_statement" where
  "DCSYSLOG_N_TIMES me site n level lids =
     debug_only me (C_level_every_n me site level Plain_writer n DA_SysLog lids)"

definition DSYSLOG :: "'f macro_env \<Rightarrow> log_site \<Rightarrow> Level \<Rightarrow> 'f log_statement" where
  "DSYSLOG me site level = DCSYSLOG me site level [kSysLogLoggerId]"

definition DSYSLOG_IF :: "'f macro_env \<Rightarrow> log_site \<Rightarrow> 'f condition \<Rightarrow> Level \<Rightarrow> 'f log_statement" where
  "DSYSLOG_IF me site cond level = DCSYSLOG_IF me site cond level [kSysLogLoggerId]"

definition DSYSLOG_EVERY_N :: "'f macro_env \<Rightarrow> log_site \<Rightarrow> 64 word \<Rightarrow> Level \<Rightarrow> 'f log_statement" where
  "DSYSLOG_EVERY_N me site n level = DCSYSLOG_EVERY_N me site n level [kSysLogLoggerId]"

definition DSYSLOG_AFTER_N :: "'f macro_env \<Rightarrow> log_site \<Rightarrow> 64 word \<Rightarrow> Level \<Rightarrow> 'f log_statement" where
  "DSYSLOG_AFTER_N me site n level = DCSYSLOG_AFTER_N me site n level [kSysLogLoggerId]"

definition DSYSLOG_N_TIMES :: "'f macro_env \<Rightarrow> log_site \<Rightarrow> 64 word \<Rightarrow> Level \<Rightarrow> 'f log_statement" where
  "DSYSLOG_N_TIMES me site n level = DCSYSLOG_N_TIMES me site n level [kSysLogLoggerId]"

section \<open>The logging of the agent\<close>

lemma timed_block_once: "timed_loop 2 0 body t st = body t st"
  by (cases "body t st"; cases "the (body t st)") (simp_all add: numeral_2_eq_2 run_then_def)

lemma TIMED_BLOCK_scope: "TIMED_BLOCK = timed_scope"
  by (simp add: fun_eq_iff TIMED_BLOCK_def timed_block_once [abs_def])

text \<open>A place that was not reached yet has the largest count.\<close>

lemma counter_pos_new:
  assumes "ELPP_COUNTER site st = Some None"
  shows "ELPP_COUNTER_POS site st = Some 18446744073709551615"
  using assms by (simp add: ELPP_COUNTER_POS_def)

text \<open>
  C40. The agent starts its logging before the JVM calls it: the storage is made and ready for every log
  statement, with the colours and names that the environment gives, and no signal handler of the
  process is replaced, since the agent's header turns the default crash handler off.
\<close>
theorem agent_starts_logging:
  assumes "world_ok w" and "default_date_fits (app_log env)"
  shows "\<exists>env' st. INITIALIZE_EASYLOGGINGPP getenv env w handle_sigabrt h table = Some (env', st, None, table) \<and> log_ready env' st
     \<and> app_supportsColor env' = termSupportsColor getenv \<and> env_user (app_log env') = currentUser getenv
     \<and> env_host (app_log env') = currentHost getenv"
proof -
  let ?env = "ELPP_INITI_BASIC_DECLR getenv env"
  have "default_date_fits (app_log ?env)"
    using assms(2) by (simp add: ELPP_INITI_BASIC_DECLR_def default_date_fits_def)
  then obtain st where "mk_Storage (app_log ?env) w = Some st" "log_ready ?env st"
    using new_log_ready [OF assms(1)] by blast
  then show ?thesis
    by (simp add: INITIALIZE_EASYLOGGINGPP_def ELPP_INIT_EASYLOGGINGPP_def Let_def agent_keeps_handlers)
      (simp add: ELPP_INITI_BASIC_DECLR_def)
qed

lemma agent_starts_logging_witness:
  "\<exists>env' st. INITIALIZE_EASYLOGGINGPP [''TERM'' \<mapsto> ''xterm'', ''USER'' \<mapsto> ''root''] sample_app sample_world True (1 :: nat) (\<lambda>_. 0)
       = Some (env', st, None, \<lambda>_. 0)
     \<and> log_ready env' st \<and> app_supportsColor env' \<and> env_user (app_log env') = ''root''"
  using agent_starts_logging [OF sample_world_ok sample_fits, of "[''TERM'' \<mapsto> ''xterm'', ''USER'' \<mapsto> ''root'']" True "1 :: nat" "\<lambda>_. 0"]
  by (auto simp: termSupportsColor_def currentUser_def getEnvironmentVariable_def)

end
