(* ===== verification/Spec2Isabelle.thy ===== *)
theory Spec2Isabelle
  imports Agent ElVerbose ElHelpers ElAsync ElContainers ElInit
begin

text \<open>
  Franky: a sampling profiler for the JVM. This development models its agent, the C++ library under
  \<open>src/franky-agent\<close> that a JVM loads: the profiler itself (\<open>src/profiler.h\<close>, \<open>src/profiler.cpp\<close>,
  \<open>src/vmEntry.h\<close>, \<open>src/vmEntry.cpp\<close>) and the logging library that it is compiled with
  (\<open>include/easylogging.h\<close>). Paths are relative to \<open>src/franky-agent\<close>.
\<close>

section \<open>The program\<close>

text \<open>
  The JVM calls \<open>Agent_OnLoad\<close> or \<open>Agent_OnAttach\<close>. The agent asks the JVM for its capabilities, connects to the
  controller on the port that its options give and serves requests: start, stop, detach. While the
  profiler is started, an interval timer of the process raises \<open>SIGPROF\<close>; the handler asks the JVM for the stack
  of the interrupted thread and counts the trace and its top method in two tables of fixed size. The
  answer to a stop holds the methods and the traces of the tables, sorted by their counts, with the names
  of all methods that they mention. Messages go through the logging library.

  The parts meet in a few places: the handler and the request loop share the tables, the flag \<open>_running\<close> and the timer; the
  callbacks of the JVM keep the table of compiled methods, which the handler reads; the report reads the tables after the
  timer is off; and each log statement goes through the one \<open>Storage\<close>.
\<close>

section \<open>The profiler\<close>

text \<open>
  \<^item> \<open>Prelude\<close>: machine types, checked access to C arrays, shared facts on lists and words.
  \<^item> \<open>Samples\<close>: \<open>MethodSample\<close>, \<open>CallTraceSample\<close>, the frames of \<open>AsyncGetCallTrace\<close>, \<open>assign\<close>, the comparators, \<open>hashMethod\<close>
    and \<open>hashCallTrace\<close>, on words of their width. \<open>hashMethod\<close> is injective.
  \<^item> \<open>Probe\<close>, \<open>Tables\<close>, \<open>Traces\<close>: \<open>storeMethod\<close> and \<open>storeCallTrace\<close>, two instances of a search in a cyclic array. Their record
    \<open>profiler\<close> is the class \<open>Profiler\<close>, field by field. A store adds one to the count of its key and to no other, always
    ends, and overwrites the entry at its bucket when the table is full.
  \<^item> \<open>Sampler\<close>: \<open>Profiler::recordSample\<close> with each branch of the handler. A sample has an outcome; the tables and counters
    are the tallies of the outcomes (a refinement of the list of outcomes).
  \<^item> \<open>Control\<close>: \<open>Profiler::start\<close>, \<open>stop\<close>, \<open>setTimer\<close>, and from a cleared table on: the profile is exact, no sample is lost.
  \<^item> \<open>VM\<close>: \<open>VM::init\<close>, the callbacks of the JVM, and the table \<open>compiles_info\<close> on an explicit heap, which
    refines a map from methods to compiled units as long as no method is compiled twice; a recompilation can leave a
    method that was inlined before with a dangling pointer.
  \<^item> \<open>Result\<close>: \<open>saveMethods\<close>, \<open>saveCallTraces\<close>, \<open>saveMethodIds\<close>. The report is the profile: each counted method and trace is in
    it once with its count, and each method that it mentions is named.
  \<^item> \<open>Protocol\<close>: \<open>sendResponse\<close>, \<open>readRequest\<close>, \<open>handleRequestLoop\<close>, \<open>Profiler::init\<close>. A session whose requests arrive
    intact is served to its end.
  \<^item> \<open>Agent\<close>: the entry points, and the handler interleaved with the request loop as a step relation. Whatever
    the order of requests and samples, the timer runs only while the profiler does, and with its handler.
\<close>

section \<open>The logging library\<close>

text \<open>
  All in \<open>include/easylogging.h\<close>, in the order of the file, which is the order of the theories.

  \<^item> \<open>ElLevels\<close>, \<open>ElStr\<close>, \<open>ElFile\<close>, \<open>ElTime\<close>: enumerations and constants; the classes \<open>Str\<close>, \<open>File\<close>, \<open>OS\<close>, \<open>CommandLineArgs\<close>
    and \<open>DateTime\<close>. Wildcards match the language of their pattern; a date is its format filled in, as far as the
    buffer goes.
  \<^item> \<open>ElRegistry\<close>: the registries, owners of heap objects; used rightly they are maps and searched lists.
  \<^item> \<open>ElConf\<close>, \<open>ElFormat\<close>, \<open>ElTyped\<close>: \<open>Configurations\<close> with their parser, \<open>LogFormat\<close>, and \<open>TypedConfigurations\<close> with their log
    files. Parsing what was rendered gives the configurations back; what a logger reads is what was configured.
  \<^item> \<open>ElHit\<close>, \<open>ElVerbose\<close>, \<open>ElLogger\<close>: hit counters, \<open>VRegistry\<close>, \<open>Logger\<close> and \<open>RegisteredLoggers\<close>.
  \<^item> \<open>ElBuilder\<close>, \<open>ElStorage\<close>, \<open>ElSetup\<close>: \<open>LogMessage\<close>, \<open>DefaultLogBuilder\<close>, \<open>Storage\<close>, the default dispatch handler, and the
    constructor of the storage. The line that is built is the format of the logger with each specifier filled in.
  \<^item> \<open>ElWriter\<close>, \<open>ElStatement\<close>, \<open>ElSound\<close>, \<open>ElLog\<close>: \<open>MessageBuilder\<close> and \<open>Writer\<close>. A log statement never gets stuck in
    a ready storage, leaves it ready, and appends exactly its line; a fatal one aborts.
  \<^item> \<open>ElComplete\<close>, \<open>ElStreams\<close>, \<open>ElLine\<close>, \<open>ElDates\<close>, \<open>ElFresh\<close>: a new storage is ready: its configurations are complete,
    its streams are open, its dates fit into their buffer; and where its default logger writes what.
  \<^item> \<open>ElMacros\<close>, \<open>ElChecks\<close>, \<open>ElMessages\<close>, \<open>ElOccasional\<close>: the macros that programs log with, the checks, messages with a
    format; how often an occasional statement logs.
  \<^item> \<open>ElPerf\<close>, \<open>ElCrash\<close>, \<open>ElHelpers\<close>, \<open>ElInit\<close>: \<open>PerformanceTracker\<close>, crash handling, the classes \<open>Loggers\<close> and \<open>Helpers\<close>,
    and the macros that initialize the library, as the agent does.
  \<^item> \<open>ElAsync\<close>, \<open>ElContainers\<close>: parts of other builds, the asynchronous dispatch and the containers of other
    libraries. Whatever the interleaving, the asynchronous build writes what the synchronous one does, colours apart.
\<close>

section \<open>Interfaces\<close>

text \<open>
  \<^item> \<open>open_table\<close> (\<open>Probe\<close>): a bucket function into the array; interpreted for methods in \<open>Tables\<close> and for traces in \<open>Traces\<close>.
  \<^item> \<open>counted\<close> (\<open>Result\<close>): an entry with a count, and a comparator that subtracts counts; for both kinds of entries.
  \<^item> \<open>named_enum\<close> (\<open>ElLevels\<close>): an enumeration with its texts; for levels and configuration types.
  \<^item> \<open>key_registry\<close>, \<open>pred_registry\<close> (\<open>ElRegistry\<close>): a container as a map and as a searched list; interpreted on
    pointers, the second by the list of configurations in \<open>ElConf\<close> as well.
  \<^item> \<open>deferred_work\<close> (\<open>ElAsync\<close>): work of which a part is put off; interpreted for the dispatch of messages.
\<close>

section \<open>Conventions\<close>

text \<open>
  \<^item> State is passed explicitly, in records that follow the classes. Pointers whose life matters are addresses of a
    heap. Integers are words where they can wrap.
  \<^item> \<open>None\<close> is undefined behaviour of C++: an access outside an array, through a null or a dangling
    pointer, an endless wait. That an operation is defined is therefore a safety property, and is proved as one; the
    theorems on errors show inputs for which it is not.
  \<^item> The JVM, the sockets, protobuf, the clock, the environment and the file system are parameters: functions or records of
    functions that the definitions take. What is assumed of them is in the premises of the theorems, and each such
    theorem is followed by an instance with concrete functions.
  \<^item> Bounds: both tables have 32768 slots, a trace has at most 64 frames; the exactness of a profile is
    claimed for as many samples as a table has slots, since from then on entries can be lost. A log statement may log
    further ones, for a missing logger or before an abort; the number of nested ones is an argument, and one is
    enough (\<open>ElSound\<close>). The loop of \<open>TIMED_BLOCK\<close> has two rounds of fuel, the second of which ends it (\<open>ElInit\<close>). The
    other loops end by their measures, except two that are partial functions: the walk over the bits of an
    enumeration (\<open>ElLevels\<close>), which is shown to end, and the worker's loop (\<open>ElAsync\<close>), which is shown not to.
  \<^item> The build is that of the agent: Linux, gcc, C++11, bytes as characters, no locks, the default crash handler off. Messages that the
    library logs about itself are compiled out. Stack traces, logging to \<open>syslog\<close>, asynchronous logging and containers belong
    to other builds; they are modelled beside it and marked as such.
\<close>

section \<open>Not modelled\<close>

text \<open>
  \<^item> The plugin for IntelliJ (Kotlin) and the code that is generated from \<open>protocol.proto\<close>: other languages and generated
    code. The messages of the protocol are records of \<open>Result\<close> and \<open>Protocol\<close>.
  \<^item> The detection of compilers and platforms, the variants for Windows, Android and wide characters, and the wrappers around mutexes and
    threads (lines 1 to 440 and 970 to 1125): they select or forward and have no behaviour of their own in this build.
  \<^item> Iterators, getters, destructors without an effect that can be observed, forwarding declarations, and the lists that name the
    containers of boost and wxWidgets: each is one call of an operation that is modelled.
  \<^item> Buffering inside streams: a write to an open stream is in the file at once. Pauses of threads.
  \<^item> Copying a \<open>Logger\<close>: its copy constructor deletes a pointer that was never set, so that it has no defined result.
\<close>

end
